(* ===== verification/Nachos_Prelude.thy ===== *)
theory Nachos_Prelude
  imports Main "HOL-Library.Word" "HOL-Library.Signed_Division"
begin

unbundle bit_operations_syntax

text \<open>
  What every theory of the development shares: the types of the machine integers of the
  host (the simulator is built as 32-bit code, README, line 51), the values that stand for a
  run that stops (a failed \<^verbatim>\<open>ASSERT\<close>, an access outside an array, an arithmetic trap), the
  sequencing of operations that may stop, the locale of invariants kept along a run, and the
  arithmetic facts on words and lists the components share.
\<close>

section \<open>Integers of the host\<close>

text \<open>
  \<^verbatim>\<open>int\<close> and \<^verbatim>\<open>unsigned int\<close> are both \<open>c_int\<close>: the operations that tell them apart (comparison,
  division, right shift, widening) are written with \<open>sint\<close> or \<open>uint\<close> where the code uses the one
  or the other. Signed overflow wraps, as the compiled simulator does on its two's complement
  hosts.
\<close>

type_synonym byte = "8 word"
type_synonym c_short = "16 word"
type_synonym c_int = "32 word"

section \<open>Runs that stop\<close>

text \<open>
  \<open>AssertionFailed\<close>: an \<^verbatim>\<open>ASSERT\<close> of the code is false, which aborts the simulator.
  \<open>OutOfBounds\<close>: an array access outside the array. \<open>DivideTrap\<close>: the quotient of a host
  division does not fit. \<open>NoReturn\<close>: control passed to code that does not come back.
  \<open>NullPointer\<close>: a null pointer is followed.
\<close>

datatype failure = AssertionFailed | OutOfBounds | DivideTrap | NoReturn | NullPointer

type_synonym 'a res = "failure + 'a"

fun and_then :: "'a res \<Rightarrow> ('a \<Rightarrow> 'b res) \<Rightarrow> 'b res" where
  "and_then (Inl e) f = Inl e"
| "and_then (Inr x) f = f x"

definition assert_that :: "bool \<Rightarrow> unit res" where
  "assert_that b = (if b then Inr () else Inl AssertionFailed)"

named_theorems run_simps \<open>sequencing of operations that may stop\<close>

lemma and_then_Inr_iff [run_simps]:
  "and_then r f = Inr y \<longleftrightarrow> (\<exists>x. r = Inr x \<and> f x = Inr y)"
  by (cases r) auto

lemma and_then_Inl_iff [run_simps]:
  "and_then r f = Inl e \<longleftrightarrow> r = Inl e \<or> (\<exists>x. r = Inr x \<and> f x = Inl e)"
  by (cases r) auto

lemma assert_that_simps [simp]:
  "assert_that True = Inr ()"
  "assert_that False = Inl AssertionFailed"
  by (simp_all add: assert_that_def)

lemma assert_that_Inr [run_simps]: "assert_that b = Inr u \<longleftrightarrow> b"
  by (simp add: assert_that_def)

lemma assert_that_Inl [run_simps]: "assert_that b = Inl e \<longleftrightarrow> \<not> b \<and> e = AssertionFailed"
  by (auto simp: assert_that_def)

lemma and_then_cong [fundef_cong]:
  "r = r' \<Longrightarrow> (\<And>x. r' = Inr x \<Longrightarrow> f x = g x) \<Longrightarrow> and_then r f = and_then r' g"
  by (cases r') auto

lemma and_then_assoc: "and_then (and_then r f) g = and_then r (\<lambda>x. and_then (f x) g)"
  by (cases r) auto

section \<open>Invariants along a run\<close>

text \<open>
  The contract every state machine of the development is stated against: a step that may stop,
  and an invariant that a step which does not stop keeps.
\<close>

fun iterate :: "('s \<Rightarrow> 's res) \<Rightarrow> nat \<Rightarrow> 's \<Rightarrow> 's res" where
  "iterate step 0 s = Inr s"
| "iterate step (Suc n) s = and_then (step s) (iterate step n)"

locale kept_invariant =
  fixes step :: "'s \<Rightarrow> 's res"
    and inv :: "'s \<Rightarrow> bool"
  assumes step_keeps: "inv s \<Longrightarrow> step s = Inr t \<Longrightarrow> inv t"
begin

lemma iterate_keeps: "inv s \<Longrightarrow> iterate step n s = Inr t \<Longrightarrow> inv t"
proof (induction n arbitrary: s)
  case 0
  then show ?case by simp
next
  case (Suc n)
  then show ?case by (auto simp: run_simps dest: step_keeps)
qed

end

section \<open>Words\<close>

named_theorems word_bounds \<open>bounds of masked words\<close>

lemma unat_mask_less [word_bounds]:
  fixes x m :: "'a::len word"
  assumes "unat m < k"
  shows "unat (x AND m) < k"
proof -
  have "x AND m \<le> m"
    by (simp add: word_and_le1)
  then have "unat (x AND m) \<le> unat m"
    by (simp add: word_le_nat_alt)
  with assms show ?thesis by simp
qed

lemma masks:
  "(0x1f :: c_int) = mask 5"
  "(0x3f :: c_int) = mask 6"
  "(0xff :: c_int) = mask 8"
  "(0xffff :: c_int) = mask 16"
  "(0x3ffffff :: c_int) = mask 26"
  by (simp_all add: mask_eq_exp_minus_1)

lemma and_exp_iff_bit: "w AND 2 ^ n \<noteq> 0 \<longleftrightarrow> bit (w :: 'a::len word) n"
  by (simp add: and_exp_eq_0_iff_not_bit)

lemma sign_bit_iff: "x AND 0x80000000 \<noteq> 0 \<longleftrightarrow> sint (x :: c_int) < 0"
  using and_exp_iff_bit [of x 31] bit_last_iff [of x] by simp

lemma uint_eq_0_iff: "uint w = 0 \<longleftrightarrow> w = 0"
  by (simp add: unsigned_eq_0_iff)

lemma bit_31_iff: "bit x 31 \<longleftrightarrow> 2^31 \<le> uint (x::c_int)"
proof (cases "2^31 \<le> uint x")
  case True
  have "uint x div 2 ^ 31 = 1"
    by (rule int_div_pos_eq [where r = "uint x - 2 ^ 31"]) (use True uint_lt2p [of x] in auto)
  with True bit_uint_iff [of x 31] bit_iff_odd [of "uint x" 31] show ?thesis by simp
next
  case False
  then have "uint x div 2 ^ 31 = 0" by simp
  with False bit_uint_iff [of x 31] bit_iff_odd [of "uint x" 31] show ?thesis by simp
qed
lemma sint_uint_c_int: "sint (x::c_int) = (if 2^31 \<le> uint x then uint x - 2^32 else uint x)"
  using bit_31_iff[of x] uint_lt2p [of x] bit_uint_iff [of x 31]
  by (auto simp: sint_uint signed_take_bit_eq_take_bit_minus take_bit_int_eq_self_iff) 

text \<open>A pair of words read as one double word.\<close>

definition dword :: "c_int \<Rightarrow> c_int \<Rightarrow> int" where
  "dword hi lo = uint hi * 2 ^ 32 + uint lo"

lemma dword_bounds: "0 \<le> dword hi lo" "dword hi lo < 2 ^ 64"
proof -
  have "uint hi < 2 ^ 32" "uint lo < 2 ^ 32" "0 \<le> uint hi" "0 \<le> uint lo"
    using uint_lt2p [of hi] uint_lt2p [of lo] by simp_all
  then show "0 \<le> dword hi lo" "dword hi lo < 2 ^ 64"
    by (simp_all add: dword_def)
qed

lemma dword_mod: "dword hi lo mod 2 ^ 64 = dword hi lo"
  using dword_bounds [of hi lo] by (intro mod_pos_pos_trivial)

end
