(* ===== verification/Mips_Isa.thy ===== *)
theory Mips_Isa
  imports Nachos_Prelude
begin

unbundle bit_operations_syntax

text \<open>
  The instruction set of the simulated processor (\<^verbatim>\<open>machine/mipssim.h\<close>, the class \<^verbatim>\<open>Instruction\<close>
  of \<^verbatim>\<open>machine/machine.h\<close> and \<^verbatim>\<open>Instruction::Decode\<close> of \<^verbatim>\<open>machine/mipssim.cc\<close>): the operation
  codes, the two decoding tables and the decoder. The lemmas show that the decoder is total (it
  never leaves a code the simulator has no case for), that its fields are within bounds, that
  immediates are sign extended, and that it undoes the encoding of the MIPS formats.
\<close>

section \<open>Operation codes\<close>

datatype (plugins only: code size) opcode =
    OP_ADD | OP_ADDI | OP_ADDIU | OP_ADDU | OP_AND | OP_ANDI | OP_BEQ | OP_BGEZ | OP_BGEZAL
  | OP_BGTZ | OP_BLEZ | OP_BLTZ | OP_BLTZAL | OP_BNE
  | OP_DIV | OP_DIVU | OP_J | OP_JAL | OP_JALR | OP_JR | OP_LB | OP_LBU | OP_LH | OP_LHU
  | OP_LUI | OP_LW | OP_LWL | OP_LWR
  | OP_MFHI | OP_MFLO
  | OP_MTHI | OP_MTLO | OP_MULT | OP_MULTU | OP_NOR | OP_OR | OP_ORI | OP_RFE | OP_SB | OP_SH
  | OP_SLL | OP_SLLV | OP_SLT | OP_SLTI | OP_SLTIU | OP_SLTU | OP_SRA | OP_SRAV | OP_SRL
  | OP_SRLV | OP_SUB | OP_SUBU | OP_SW | OP_SWL | OP_SWR | OP_XOR | OP_XORI | OP_SYSCALL
  | OP_UNIMP | OP_RES
  | SPECIAL | BCOND

primrec opcode_value :: "opcode \<Rightarrow> nat" where
  "opcode_value OP_ADD = 1" | "opcode_value OP_ADDI = 2" | "opcode_value OP_ADDIU = 3"
| "opcode_value OP_ADDU = 4" | "opcode_value OP_AND = 5" | "opcode_value OP_ANDI = 6"
| "opcode_value OP_BEQ = 7" | "opcode_value OP_BGEZ = 8" | "opcode_value OP_BGEZAL = 9"
| "opcode_value OP_BGTZ = 10" | "opcode_value OP_BLEZ = 11" | "opcode_value OP_BLTZ = 12"
| "opcode_value OP_BLTZAL = 13" | "opcode_value OP_BNE = 14" | "opcode_value OP_DIV = 16"
| "opcode_value OP_DIVU = 17" | "opcode_value OP_J = 18" | "opcode_value OP_JAL = 19"
| "opcode_value OP_JALR = 20" | "opcode_value OP_JR = 21" | "opcode_value OP_LB = 22"
| "opcode_value OP_LBU = 23" | "opcode_value OP_LH = 24" | "opcode_value OP_LHU = 25"
| "opcode_value OP_LUI = 26" | "opcode_value OP_LW = 27" | "opcode_value OP_LWL = 28"
| "opcode_value OP_LWR = 29" | "opcode_value OP_MFHI = 31" | "opcode_value OP_MFLO = 32"
| "opcode_value OP_MTHI = 34" | "opcode_value OP_MTLO = 35" | "opcode_value OP_MULT = 36"
| "opcode_value OP_MULTU = 37" | "opcode_value OP_NOR = 38" | "opcode_value OP_OR = 39"
| "opcode_value OP_ORI = 40" | "opcode_value OP_RFE = 41" | "opcode_value OP_SB = 42"
| "opcode_value OP_SH = 43" | "opcode_value OP_SLL = 44" | "opcode_value OP_SLLV = 45"
| "opcode_value OP_SLT = 46" | "opcode_value OP_SLTI = 47" | "opcode_value OP_SLTIU = 48"
| "opcode_value OP_SLTU = 49" | "opcode_value OP_SRA = 50" | "opcode_value OP_SRAV = 51"
| "opcode_value OP_SRL = 52" | "opcode_value OP_SRLV = 53" | "opcode_value OP_SUB = 54"
| "opcode_value OP_SUBU = 55" | "opcode_value OP_SW = 56" | "opcode_value OP_SWL = 57"
| "opcode_value OP_SWR = 58" | "opcode_value OP_XOR = 59" | "opcode_value OP_XORI = 60"
| "opcode_value OP_SYSCALL = 61" | "opcode_value OP_UNIMP = 62" | "opcode_value OP_RES = 63"
| "opcode_value SPECIAL = 100" | "opcode_value BCOND = 101"

definition MaxOpcode :: nat where
  "MaxOpcode = 63"

definition IndexToAddr :: "c_int \<Rightarrow> c_int" where
  "IndexToAddr x = push_bit 2 x"

definition SIGN_BIT :: c_int where
  "SIGN_BIT = 0x80000000"

datatype instr_format = IFMT | JFMT | RFMT

text \<open>The two tables, in the source's rows.\<close>

definition opTable :: "(opcode \<times> instr_format) list" where
  "opTable =
    [(SPECIAL, RFMT), (BCOND, IFMT), (OP_J, JFMT), (OP_JAL, JFMT),
     (OP_BEQ, IFMT), (OP_BNE, IFMT), (OP_BLEZ, IFMT), (OP_BGTZ, IFMT),
     (OP_ADDI, IFMT), (OP_ADDIU, IFMT), (OP_SLTI, IFMT), (OP_SLTIU, IFMT),
     (OP_ANDI, IFMT), (OP_ORI, IFMT), (OP_XORI, IFMT), (OP_LUI, IFMT),
     (OP_UNIMP, IFMT), (OP_UNIMP, IFMT), (OP_UNIMP, IFMT), (OP_UNIMP, IFMT),
     (OP_RES, IFMT), (OP_RES, IFMT), (OP_RES, IFMT), (OP_RES, IFMT),
     (OP_RES, IFMT), (OP_RES, IFMT), (OP_RES, IFMT), (OP_RES, IFMT),
     (OP_RES, IFMT), (OP_RES, IFMT), (OP_RES, IFMT), (OP_RES, IFMT),
     (OP_LB, IFMT), (OP_LH, IFMT), (OP_LWL, IFMT), (OP_LW, IFMT),
     (OP_LBU, IFMT), (OP_LHU, IFMT), (OP_LWR, IFMT), (OP_RES, IFMT),
     (OP_SB, IFMT), (OP_SH, IFMT), (OP_SWL, IFMT), (OP_SW, IFMT),
     (OP_RES, IFMT), (OP_RES, IFMT), (OP_SWR, IFMT), (OP_RES, IFMT),
     (OP_UNIMP, IFMT), (OP_UNIMP, IFMT), (OP_UNIMP, IFMT), (OP_UNIMP, IFMT),
     (OP_RES, IFMT), (OP_RES, IFMT), (OP_RES, IFMT), (OP_RES, IFMT),
     (OP_UNIMP, IFMT), (OP_UNIMP, IFMT), (OP_UNIMP, IFMT), (OP_UNIMP, IFMT),
     (OP_RES, IFMT), (OP_RES, IFMT), (OP_RES, IFMT), (OP_RES, IFMT)]"

definition specialTable :: "opcode list" where
  "specialTable =
    [OP_SLL, OP_RES, OP_SRL, OP_SRA, OP_SLLV, OP_RES, OP_SRLV, OP_SRAV,
     OP_JR, OP_JALR, OP_RES, OP_RES, OP_SYSCALL, OP_UNIMP, OP_RES, OP_RES,
     OP_MFHI, OP_MTHI, OP_MFLO, OP_MTLO, OP_RES, OP_RES, OP_RES, OP_RES,
     OP_MULT, OP_MULTU, OP_DIV, OP_DIVU, OP_RES, OP_RES, OP_RES, OP_RES,
     OP_ADD, OP_ADDU, OP_SUB, OP_SUBU, OP_AND, OP_OR, OP_XOR, OP_NOR,
     OP_RES, OP_RES, OP_SLT, OP_SLTU, OP_RES, OP_RES, OP_RES, OP_RES,
     OP_RES, OP_RES, OP_RES, OP_RES, OP_RES, OP_RES, OP_RES, OP_RES,
     OP_RES, OP_RES, OP_RES, OP_RES, OP_RES, OP_RES, OP_RES, OP_RES]"

section \<open>The decoder\<close>

text \<open>The class \<^verbatim>\<open>Instruction\<close>; \<open>instr_value\<close> is its field \<^verbatim>\<open>value\<close>.\<close>

record instruction =
  instr_value :: c_int
  opCode :: opcode
  rs :: byte
  rt :: byte
  rd :: byte
  extra :: c_int

definition Decode :: "instruction \<Rightarrow> instruction" where
  "Decode i =
    (let v = instr_value i;
         entry = opTable ! unat (drop_bit 26 v AND 0x3f);
         ex = (case snd entry of
                 IFMT \<Rightarrow>
                   (let e = v AND 0xffff
                    in if e AND 0x8000 \<noteq> 0 then e OR 0xffff0000 else e)
               | RFMT \<Rightarrow> drop_bit 6 v AND 0x1f
               | JFMT \<Rightarrow> v AND 0x3ffffff);
         oc = (if fst entry = SPECIAL then specialTable ! unat (v AND 0x3f)
               else if fst entry = BCOND then
                 (let k = v AND 0x1f0000
                  in if k = 0 then OP_BLTZ
                     else if k = 0x10000 then OP_BGEZ
                     else if k = 0x100000 then OP_BLTZAL
                     else if k = 0x110000 then OP_BGEZAL
                     else OP_UNIMP)
               else fst entry)
     in i\<lparr>rs := ucast (drop_bit 21 v AND 0x1f),
          rt := ucast (drop_bit 16 v AND 0x1f),
          rd := ucast (drop_bit 11 v AND 0x1f),
          opCode := oc,
          extra := ex\<rparr>)"

section \<open>Totality and bounds\<close>

text \<open>The codes the switch of \<^verbatim>\<open>Machine::OneInstruction\<close> has a case for.\<close>

definition simulated :: "opcode \<Rightarrow> bool" where
  "simulated oc \<longleftrightarrow> oc \<notin> {SPECIAL, BCOND, OP_RFE}"

lemma length_opTable [simp]: "length opTable = 64"
  by (simp add: opTable_def)

lemma length_specialTable [simp]: "length specialTable = 64"
  by (simp add: specialTable_def)

lemma opTable_codes: "\<forall>p \<in> set opTable. fst p \<noteq> OP_RFE"
  by (simp add: opTable_def)

lemma specialTable_codes: "\<forall>c \<in> set specialTable. simulated c"
  by (simp add: specialTable_def simulated_def)

lemma index6_less [word_bounds]: "unat ((x :: c_int) AND 0x3f) < 64"
  by (rule unat_mask_less) simp

lemma index5_less [word_bounds]: "unat ((x :: c_int) AND 0x1f) < 32"
  by (rule unat_mask_less) simp

lemma unat_register_field [word_bounds]: "unat (ucast ((x :: c_int) AND 0x1f) :: byte) < 32"
proof -
  have "unat (ucast (x AND 0x1f) :: byte) \<le> unat (x AND 0x1f)"
    by (simp add: unsigned_ucast_eq unsigned_take_bit_eq)
  with index5_less [of x] show ?thesis by simp
qed

definition decoded_fields :: "instruction \<Rightarrow> bool" where
  "decoded_fields i \<longleftrightarrow>
     simulated (opCode i) \<and> unat (rs i) < 32 \<and> unat (rt i) < 32 \<and> unat (rd i) < 32"

lemma Decode_simulated: "simulated (opCode (Decode i))"
proof -
  let ?v = "instr_value i"
  let ?p = "opTable ! unat (drop_bit 26 ?v AND 0x3f)"
  have p: "fst ?p \<noteq> OP_RFE"
    using opTable_codes index6_less [of "drop_bit 26 ?v"] by (simp add: nth_mem)
  have s: "simulated (specialTable ! unat (?v AND 0x3f))"
    using specialTable_codes index6_less [of ?v] by (simp add: nth_mem)
  from p s show ?thesis
    by (simp add: Decode_def Let_def simulated_def)
qed

lemma Decode_fields: "decoded_fields (Decode i)"
  using Decode_simulated [of i]
  by (simp add: decoded_fields_def Decode_def Let_def unat_register_field)

section \<open>Immediates are sign extended\<close>

text \<open>What the decoder computes for an \<^verbatim>\<open>IFMT\<close> instruction is the sign extension of its low half.\<close>

lemma immediate_sign: "(v AND 0xffff) AND 0x8000 \<noteq> (0 :: c_int) \<longleftrightarrow> bit v 15"
  using and_exp_iff_bit [of "v AND 0xffff" 15] by (simp add: masks bit_simps)

lemma high_half: "(0xffff0000 :: c_int) = NOT (mask 16)"
  by (simp add: mask_eq_exp_minus_1)

lemma only_15: "15 \<le> n \<Longrightarrow> n < 16 \<Longrightarrow> n = (15 :: nat)"
  by simp

lemma immediate_sign_extended:
  "(let e = v AND 0xffff in if e AND 0x8000 \<noteq> 0 then e OR 0xffff0000 else e) =
   (scast (ucast v :: c_short) :: c_int)"
  unfolding Let_def immediate_sign unfolding masks high_half
  by (rule bit_word_eqI)
    (auto simp: bit_simps min_def dest: bit_imp_le_length only_15 split: if_splits)

section \<open>Decoding undoes the encoding of the MIPS formats\<close>

text \<open>The three instruction formats of the processor, as the assembler lays them out.\<close>

definition r_format :: "5 word \<Rightarrow> 5 word \<Rightarrow> 5 word \<Rightarrow> 5 word \<Rightarrow> 6 word \<Rightarrow> c_int" where
  "r_format s t d shamt funct =
     push_bit 21 (ucast s) OR push_bit 16 (ucast t) OR push_bit 11 (ucast d) OR
     push_bit 6 (ucast shamt) OR ucast funct"

definition i_format :: "6 word \<Rightarrow> 5 word \<Rightarrow> 5 word \<Rightarrow> c_short \<Rightarrow> c_int" where
  "i_format oc s t imm =
     push_bit 26 (ucast oc) OR push_bit 21 (ucast s) OR push_bit 16 (ucast t) OR ucast imm"

definition j_format :: "6 word \<Rightarrow> 26 word \<Rightarrow> c_int" where
  "j_format oc target = push_bit 26 (ucast oc) OR ucast target"

lemma r_format_parts:
  "drop_bit 26 (r_format s t d sh f) AND 0x3f = 0"
  "ucast (drop_bit 21 (r_format s t d sh f) AND 0x1f) = (ucast s :: byte)"
  "ucast (drop_bit 16 (r_format s t d sh f) AND 0x1f) = (ucast t :: byte)"
  "ucast (drop_bit 11 (r_format s t d sh f) AND 0x1f) = (ucast d :: byte)"
  "drop_bit 6 (r_format s t d sh f) AND 0x1f = ucast sh"
  "r_format s t d sh f AND 0x3f = ucast f"
  unfolding masks r_format_def
  by (rule bit_word_eqI; auto simp: bit_simps dest: bit_imp_le_length)+

lemma i_format_parts:
  "drop_bit 26 (i_format oc s t imm) AND 0x3f = ucast oc"
  "ucast (drop_bit 21 (i_format oc s t imm) AND 0x1f) = (ucast s :: byte)"
  "ucast (drop_bit 16 (i_format oc s t imm) AND 0x1f) = (ucast t :: byte)"
  "ucast (i_format oc s t imm) = imm"
  "i_format oc s t imm AND 0x1f0000 = push_bit 16 (ucast t)"
proof -
  have field: "(0x1f0000 :: c_int) = push_bit 16 (mask 5)"
    by (simp add: mask_eq_exp_minus_1)
  show "i_format oc s t imm AND 0x1f0000 = push_bit 16 (ucast t)"
    unfolding field i_format_def
    by (rule bit_word_eqI) (auto simp: bit_simps dest: bit_imp_le_length)
qed (unfold masks i_format_def,
     (rule bit_word_eqI; auto simp: bit_simps dest: bit_imp_le_length)+)

lemma j_format_parts:
  "drop_bit 26 (j_format oc target) AND 0x3f = ucast oc"
  "j_format oc target AND 0x3ffffff = ucast target"
  unfolding masks j_format_def
  by (rule bit_word_eqI; auto simp: bit_simps dest: bit_imp_le_length)+

lemma unat_ucast6 [simp]: "unat (ucast (x :: 6 word) :: c_int) = unat x"
  by (simp add: unsigned_ucast_eq unsigned_take_bit_eq take_bit_nat_eq_self_iff
      order_less_trans [OF unsigned_less])

lemma opTable_0: "opTable ! 0 = (SPECIAL, RFMT)"
  by (simp add: opTable_def)

lemma Decode_r_format:
  "Decode (i\<lparr>instr_value := r_format s t d sh f\<rparr>) =
   i\<lparr>instr_value := r_format s t d sh f, opCode := specialTable ! unat f,
     rs := ucast s, rt := ucast t, rd := ucast d, extra := ucast sh\<rparr>"
  by (simp add: Decode_def Let_def r_format_parts opTable_0)

lemma Decode_i_format:
  assumes "opTable ! unat oc = (c, IFMT)" and "c \<noteq> SPECIAL" and "c \<noteq> BCOND"
  shows "opCode (Decode (i\<lparr>instr_value := i_format oc s t imm\<rparr>)) = c"
    and "rs (Decode (i\<lparr>instr_value := i_format oc s t imm\<rparr>)) = ucast s"
    and "rt (Decode (i\<lparr>instr_value := i_format oc s t imm\<rparr>)) = ucast t"
    and "extra (Decode (i\<lparr>instr_value := i_format oc s t imm\<rparr>)) = scast imm"
  using assms immediate_sign_extended [of "i_format oc s t imm"]
  by (simp_all add: Decode_def i_format_parts Let_def)

lemma Decode_j_format:
  assumes "opTable ! unat oc = (c, JFMT)" and "c \<noteq> SPECIAL" and "c \<noteq> BCOND"
  shows "opCode (Decode (i\<lparr>instr_value := j_format oc target\<rparr>)) = c"
    and "extra (Decode (i\<lparr>instr_value := j_format oc target\<rparr>)) = ucast target"
  using assms by (simp_all add: Decode_def Let_def j_format_parts)

end
