(* ===== verification/Mips_Mult.thy ===== *)
theory Mips_Mult
  imports Nachos_Prelude
begin

unbundle bit_operations_syntax

text \<open>
  The multiplier of the simulated processor: the static function \<^verbatim>\<open>Mult\<close> of
  \<^verbatim>\<open>machine/mipssim.cc\<close>, a shift-and-add loop over 32-bit halves with its carries and early exit.
  The lemmas show that the pair it stores is the 64-bit product, signed or unsigned, for every
  pair of operands.
\<close>

section \<open>The routine\<close>

text \<open>
  \<open>Mult_loop n\<close> is the loop of \<^verbatim>\<open>Mult\<close> with \<open>n\<close> iterations left; the result is the pair
  \<^verbatim>\<open>(hi, lo)\<close>. The multiplier \<^verbatim>\<open>a\<close> is an \<^verbatim>\<open>int\<close>, so its shift is arithmetic; the halves are
  unsigned.
\<close>

fun Mult_loop :: "nat \<Rightarrow> c_int \<Rightarrow> c_int \<Rightarrow> c_int \<Rightarrow> c_int \<Rightarrow> c_int \<Rightarrow> c_int \<times> c_int" where
  "Mult_loop 0 a bHi bLo hi lo = (hi, lo)"
| "Mult_loop (Suc n) a bHi bLo hi lo =
    (let odd_a = (a AND 1 \<noteq> 0);
         lo1 = (if odd_a then lo + bLo else lo);
         hi1 = (if odd_a then (if lo1 < bLo then hi + 1 else hi) + bHi else hi)
     in if odd_a \<and> a AND 0xfffffffe = 0 then (hi1, lo1)
        else
          (let bHi1 = push_bit 1 bHi;
               bHi2 = (if bLo AND 0x80000000 \<noteq> 0 then bHi1 OR 1 else bHi1)
           in Mult_loop n (signed_drop_bit 1 a) bHi2 (push_bit 1 bLo) hi1 lo1))"

text \<open>The two's complement of the pair, as the last \<^verbatim>\<open>if\<close> of \<^verbatim>\<open>Mult\<close> computes it.\<close>

definition Mult_negate :: "c_int \<times> c_int \<Rightarrow> c_int \<times> c_int" where
  "Mult_negate p =
    (let hi = NOT (fst p); lo = NOT (snd p) + 1
     in (if lo = 0 then hi + 1 else hi, lo))"

definition Mult :: "c_int \<Rightarrow> c_int \<Rightarrow> bool \<Rightarrow> c_int \<times> c_int" where
  "Mult a b signedArith =
    (if a = 0 \<or> b = 0 then (0, 0)
     else
       (let neg_a = (signedArith \<and> sint a < 0);
            neg_b = (signedArith \<and> sint b < 0);
            negative = (neg_a \<noteq> neg_b);
            a1 = (if neg_a then - a else a);
            b1 = (if neg_b then - b else b);
            p = Mult_loop 32 a1 0 b1 0 0
        in if negative then Mult_negate p else p))"

section \<open>Arithmetic of double words\<close>

lemma dword_of_mod:
  assumes "uint h = H mod 2 ^ 32"
  shows "dword h l = (H * 2 ^ 32 + uint l) mod 2 ^ 64"
proof -
  obtain q where "H = uint h + 2 ^ 32 * q"
    using assms by (metis mod_mult_div_eq)
  then have "H * 2 ^ 32 + uint l = dword h l + q * 2 ^ 64"
    by (simp add: dword_def)
  then show ?thesis
    using dword_mod [of h l] by simp
qed

lemma dword_add:
  assumes "lo1 = lo + bLo" and "hi1 = (if lo1 < bLo then hi + 1 else hi) + bHi"
  shows "dword hi1 lo1 = (dword hi lo + dword bHi bLo) mod 2 ^ 64"
proof -
  have carry: "lo1 < bLo \<longleftrightarrow> 2 ^ 32 \<le> uint lo + uint bLo"
    and low: "uint lo1 = uint lo + uint bLo - (if lo1 < bLo then 2 ^ 32 else 0)"
    using uint_lt2p [of lo] uint_lt2p [of bLo] assms(1)
    by (auto simp: word_less_def uint_plus_if')
  have high: "uint hi1 = (uint hi + uint bHi + (if lo1 < bLo then 1 else 0)) mod 2 ^ 32"
    using assms(2) by (auto simp: uint_word_ariths mod_simps algebra_simps)
  show ?thesis
    unfolding dword_of_mod [OF high] low
    by (auto simp: dword_def algebra_simps)
qed

lemma dword_double:
  assumes "bHi2 = (if bLo AND 0x80000000 \<noteq> 0 then push_bit 1 bHi OR 1 else push_bit 1 bHi)"
  shows "dword bHi2 (push_bit 1 bLo) = (2 * dword bHi bLo) mod 2 ^ 64"
proof -
  have top: "bLo AND 0x80000000 \<noteq> 0 \<longleftrightarrow> 2 ^ 31 \<le> uint bLo"
    using and_exp_iff_bit [of bLo 31] bit_31_iff [of bLo] by simp
  have bit_or: "push_bit 1 bHi OR 1 = 2 * bHi + 1"
    by (simp add: or_one_eq push_bit_eq_mult)
  have low: "uint (push_bit 1 bLo) = 2 * uint bLo - (if 2 ^ 31 \<le> uint bLo then 2 ^ 32 else 0)"
    using uint_lt2p [of bLo] by (auto simp: push_bit_eq_mult uint_word_ariths int_mod_pos_eq)
  have high: "uint bHi2 = (2 * uint bHi + (if 2 ^ 31 \<le> uint bLo then 1 else 0)) mod 2 ^ 32"
    using assms top bit_or by (auto simp: push_bit_eq_mult uint_word_ariths mod_simps mult.commute)
  show ?thesis
    unfolding dword_of_mod [OF high] low
    by (auto simp: dword_def algebra_simps)
qed

lemma double_add_mod:
  fixes V B M :: int
  shows "((V + r * B) mod M + q * (2 * B mod M)) mod M = (V + (2 * q + r) * B) mod M"
proof -
  have "((V + r * B) mod M + q * (2 * B mod M)) mod M = (V + r * B + q * (2 * B)) mod M"
    by (metis mod_add_left_eq mod_add_right_eq mod_mult_right_eq)
  also have "V + r * B + q * (2 * B) = V + (2 * q + r) * B"
    by (simp add: algebra_simps)
  finally show ?thesis .
qed

section \<open>The loop computes the product\<close>

lemma take_bit_shifted:
  assumes "n < 32"
  shows "take_bit n (uint (signed_drop_bit 1 a)) = take_bit (Suc n) (uint (a :: c_int)) div 2"
proof -
  have "take_bit n (uint (signed_drop_bit 1 a)) = drop_bit 1 (take_bit (Suc n) (uint a))"
    using assms by (intro bit_eqI) (auto simp: bit_simps)
  then show ?thesis by (simp add: drop_bit_Suc)
qed

lemma take_bit_parity:
  "take_bit (Suc n) (uint (a :: c_int)) mod 2 = (if a AND 1 \<noteq> 0 then 1 else 0)"
proof -
  have "odd (take_bit (Suc n) (uint a)) \<longleftrightarrow> odd a"
    using bit_uint_iff [of a 0] by (simp add: even_take_bit_eq bit_0)
  then show ?thesis
    by (cases "odd a") (simp_all add: and_one_eq mod2_eq_if)
qed

lemma last_bit_only: "a AND 1 \<noteq> 0 \<Longrightarrow> a AND 0xfffffffe = 0 \<Longrightarrow> a = (1 :: c_int)"
proof -
  assume "a AND 1 \<noteq> 0" and *: "a AND 0xfffffffe = 0"
  have m: "(0xfffffffe :: c_int) = NOT 1" by simp
  have "a = (a AND 1) OR (a AND NOT 1)"
    by (rule bit_word_eqI) (auto simp: bit_simps)
  with * \<open>a AND 1 \<noteq> 0\<close> show "a = 1"
    by (simp add: m and_one_eq split: if_splits)
qed

lemma Mult_loop_correct:
  assumes "n \<le> 32"
  shows "dword (fst (Mult_loop n a bHi bLo hi lo)) (snd (Mult_loop n a bHi bLo hi lo)) =
         (dword hi lo + take_bit n (uint a) * dword bHi bLo) mod 2 ^ 64"
  using assms
proof (induction n arbitrary: a bHi bLo hi lo)
  case 0
  show ?case
    by (simp only: Mult_loop.simps fst_conv snd_conv take_bit_0 mult_zero_left add_0_right dword_mod)
next
  case (Suc n)
  define r :: int where "r = (if a AND 1 \<noteq> 0 then 1 else 0)"
  define q where "q = take_bit n (uint (signed_drop_bit 1 a))"
  define lo1 where "lo1 = (if a AND 1 \<noteq> 0 then lo + bLo else lo)"
  define hi1 where "hi1 = (if a AND 1 \<noteq> 0 then (if lo1 < bLo then hi + 1 else hi) + bHi else hi)"
  define bHi2 where "bHi2 = (if bLo AND 0x80000000 \<noteq> 0 then push_bit 1 bHi OR 1 else push_bit 1 bHi)"
  have A: "take_bit (Suc n) (uint a) = 2 * q + r"
    using take_bit_shifted [of n a] take_bit_parity [of n a] Suc(2)
      div_mult_mod_eq [of "take_bit (Suc n) (uint a)" 2]
    by (simp add: q_def r_def)
  have V: "dword hi1 lo1 = (dword hi lo + r * dword bHi bLo) mod 2 ^ 64"
  proof (cases "a AND 1 \<noteq> 0")
    case True
    then show ?thesis
      using dword_add [of lo1 lo bLo hi1 hi bHi] by (simp add: hi1_def lo1_def r_def)
  next
    case False
    then have "hi1 = hi" "lo1 = lo" "r = 0"
      by (simp_all only: hi1_def lo1_def r_def if_False)
    then show ?thesis by (simp only: dword_mod mult_zero_left add_0_right)
  qed
  show ?case
  proof (cases "a AND 1 \<noteq> 0 \<and> a AND 0xfffffffe = 0")
    case True
    then have "a = 1" using last_bit_only by blast
    with True V show ?thesis
      by (simp add: hi1_def lo1_def r_def Let_def take_bit_Suc)
  next
    case False
    then have "Mult_loop (Suc n) a bHi bLo hi lo =
        Mult_loop n (signed_drop_bit 1 a) bHi2 (push_bit 1 bLo) hi1 lo1"
      by (simp only: Mult_loop.simps Let_def hi1_def lo1_def bHi2_def if_False)
    then have "dword (fst (Mult_loop (Suc n) a bHi bLo hi lo)) (snd (Mult_loop (Suc n) a bHi bLo hi lo)) =
        (dword hi1 lo1 + q * dword bHi2 (push_bit 1 bLo)) mod 2 ^ 64"
      using Suc by (simp only: q_def Suc_leD)
    also have "\<dots> = (dword hi lo + (2 * q + r) * dword bHi bLo) mod 2 ^ 64"
      unfolding V dword_double [OF bHi2_def] by (rule double_add_mod)
    finally show ?thesis by (simp only: A)
  qed
qed

section \<open>Signs\<close>

lemma dword_negate:
  "dword (fst (Mult_negate p)) (snd (Mult_negate p)) = (- dword (fst p) (snd p)) mod 2 ^ 64"
proof -
  let ?h = "fst p" and ?l = "snd p"
  have NOT_eq: "NOT x = - x - 1" for x :: c_int
    by (simp add: not_eq_complement)
  have low: "uint (- ?l) = (if ?l = 0 then 0 else 2 ^ 32 - uint ?l)"
  proof (cases "?l = 0")
    case False
    then have "0 < uint ?l" using uint_eq_0_iff [of ?l] uint_ge_0 [of ?l] by linarith
    with False show ?thesis
      using uint_lt2p [of ?l] by (simp add: uint_word_ariths zmod_zminus1_eq_if)
  qed simp
  have high: "uint (if - ?l = 0 then NOT ?h + 1 else NOT ?h) =
      (if ?l = 0 then - uint ?h else - uint ?h - 1) mod 2 ^ 32"
    by (simp add: NOT_eq uint_word_ariths mod_simps)
  have code: "Mult_negate p = (if - ?l = 0 then NOT ?h + 1 else NOT ?h, - ?l)"
    by (simp add: Mult_negate_def Let_def NOT_eq)
  show ?thesis
    unfolding code fst_conv snd_conv dword_of_mod [OF high] low
    by (simp add: dword_def algebra_simps)
qed

lemma uint_of_nonneg: "0 \<le> sint (x :: c_int) \<Longrightarrow> uint x = sint x"
  using sint_uint_c_int [of x] uint_lt2p [of x] by (simp split: if_splits)

lemma uint_of_negated: "sint (x :: c_int) < 0 \<Longrightarrow> uint (- x) = - sint x"
proof -
  assume neg: "sint x < 0"
  then have "uint x = sint x + 2 ^ 32"
    using sint_uint_c_int [of x] by (simp split: if_splits)
  moreover have "uint (- x) = (- uint x) mod 2 ^ 32"
    by (simp add: uint_word_ariths)
  ultimately show ?thesis
    using neg sint_ge [of x] by (simp add: mod_simps)
qed

lemma Mult_loop_product:
  "dword (fst (Mult_loop 32 a 0 b 0 0)) (snd (Mult_loop 32 a 0 b 0 0)) = uint a * uint b"
proof -
  have "uint a * uint b < 2 ^ 32 * 2 ^ 32"
    using uint_lt2p [of a] uint_lt2p [of b] by (intro mult_strict_mono) auto
  moreover have "take_bit 32 (uint a) = uint a"
    using uint_lt2p [of a] by (simp add: take_bit_int_eq_self_iff)
  ultimately show ?thesis
    using Mult_loop_correct [of 32 a 0 b 0 0] by (simp add: dword_def)
qed

section \<open>The product\<close>

lemma Mult_unsigned: "dword (fst (Mult a b False)) (snd (Mult a b False)) = uint a * uint b"
  using Mult_loop_product [of a b]
  by (auto simp: Mult_def Let_def dword_def)

lemma Mult_signed:
  "dword (fst (Mult a b True)) (snd (Mult a b True)) = (sint a * sint b) mod 2 ^ 64"
proof (cases "a = 0 \<or> b = 0")
  case True
  then show ?thesis by (auto simp: Mult_def dword_def)
next
  case False
  define a1 where "a1 = (if sint a < 0 then - a else a)"
  define b1 where "b1 = (if sint b < 0 then - b else b)"
  have abs: "uint a1 = \<bar>sint a\<bar>" "uint b1 = \<bar>sint b\<bar>"
    by (auto simp: a1_def b1_def uint_of_nonneg uint_of_negated)
  let ?p = "Mult_loop 32 a1 0 b1 0 0"
  have product: "dword (fst ?p) (snd ?p) = \<bar>sint a\<bar> * \<bar>sint b\<bar>"
    by (simp only: Mult_loop_product abs)
  have code: "Mult a b True = (if (sint a < 0) \<noteq> (sint b < 0) then Mult_negate ?p else ?p)"
    using False by (simp add: Mult_def a1_def b1_def Let_def)
  show ?thesis
  proof (cases "(sint a < 0) \<noteq> (sint b < 0)")
    case True
    then have "\<bar>sint a\<bar> * \<bar>sint b\<bar> = - (sint a * sint b)"
      by auto
    with True show ?thesis by (simp add: code dword_negate product)
  next
    case False
    then have "\<bar>sint a\<bar> * \<bar>sint b\<bar> = sint a * sint b"
      by auto
    with False dword_mod [of "fst ?p" "snd ?p"] show ?thesis by (simp add: code product)
  qed
qed

end
