(* ===== verification/Machine_State.thy ===== *)
theory Machine_State
  imports Nachos_Prelude "HOL-Library.Multiset"
begin

text \<open>
  The state of the simulated workstation: the class \<^verbatim>\<open>Machine\<close> of \<^verbatim>\<open>machine/machine.h\<close>, the
  translation entries of \<^verbatim>\<open>machine/translate.h\<close>, the class \<^verbatim>\<open>Interrupt\<close> of \<^verbatim>\<open>machine/interrupt.h\<close>
  and the counters of \<^verbatim>\<open>machine/stats.h\<close>. The program keeps one object of each in the globals
  \<^verbatim>\<open>machine\<close>, \<^verbatim>\<open>interrupt\<close> and \<^verbatim>\<open>stats\<close>, which are the fields of one record here; its scheme variable
  stands for the rest of the program's state (the kernel's threads and the devices), which the
  operations below never touch themselves. The code that is not in the repository (the kernel's
  handlers, its list class) is a parameter.
\<close>

section \<open>Sizes\<close>

definition PageSize :: nat where
  "PageSize = 128"

definition NumPhysPages :: nat where
  "NumPhysPages = 256"

definition MemorySize :: nat where
  "MemorySize = NumPhysPages * PageSize"

definition TLBSize :: nat where
  "TLBSize = 4"

datatype ExceptionType =
    NoException | SyscallException | PageFaultException | ReadOnlyException
  | BusErrorException | AddressErrorException | OverflowException | IllegalInstrException

text \<open>The registers beyond the 32 general purpose ones, by their index in \<^verbatim>\<open>registers\<close>.\<close>

abbreviation (input) RetAddrReg :: nat where "RetAddrReg \<equiv> 31"
abbreviation (input) HiReg :: nat where "HiReg \<equiv> 32"
abbreviation (input) LoReg :: nat where "LoReg \<equiv> 33"
abbreviation (input) PCReg :: nat where "PCReg \<equiv> 34"
abbreviation (input) NextPCReg :: nat where "NextPCReg \<equiv> 35"
abbreviation (input) PrevPCReg :: nat where "PrevPCReg \<equiv> 36"
abbreviation (input) LoadReg :: nat where "LoadReg \<equiv> 37"
abbreviation (input) LoadValueReg :: nat where "LoadValueReg \<equiv> 38"
abbreviation (input) BadVAddrReg :: nat where "BadVAddrReg \<equiv> 39"

definition NumTotalRegs :: nat where
  "NumTotalRegs = 40"

section \<open>The processor and its memory\<close>

text \<open>\<open>used\<close> is the field \<^verbatim>\<open>use\<close>.\<close>

record translation_entry =
  virtualPage :: c_int
  physicalPage :: c_int
  valid :: bool
  readOnly :: bool
  used :: bool
  dirty :: bool

text \<open>
  \<open>registers\<close> and \<open>mainMemory\<close> are the arrays of \<open>NumTotalRegs\<close> and \<open>MemorySize\<close> cells: the
  operations check an index that depends on data and stop with \<open>OutOfBounds\<close> when it is outside.
  \<open>tlb\<close> and \<open>pageTable\<close> are the tables the two pointers lead to, \<open>None\<close> for \<^verbatim>\<open>NULL\<close>.
\<close>

record machine =
  mainMemory :: "nat \<Rightarrow> byte"
  registers :: "nat \<Rightarrow> c_int"
  tlb :: "translation_entry list option"
  pageTable :: "translation_entry list option"
  pageTableSize :: c_int
  singleStep :: bool
  runUntilTime :: c_int

section \<open>Statistics\<close>

text \<open>The tick counters are \<^verbatim>\<open>long long\<close>; a run that would overflow them is not modelled.\<close>

record statistics =
  totalTicks :: int
  idleTicks :: int
  systemTicks :: int
  userTicks :: int
  numDiskReads :: nat
  numDiskWrites :: nat
  numConsoleCharsRead :: nat
  numConsoleCharsWritten :: nat
  numPageFaults :: nat
  numPacketsSent :: nat
  numPacketsRecvd :: nat

definition UserTick :: int where "UserTick = 1"
definition SystemTick :: int where "SystemTick = 10"
definition RotationTime :: int where "RotationTime = 500"
definition SeekTime :: int where "SeekTime = 500"
definition ConsoleTime :: int where "ConsoleTime = 100"
definition NetworkTime :: int where "NetworkTime = 100"
definition TimerTicks :: int where "TimerTicks = 100"

definition Statistics :: statistics where
  "Statistics =
    \<lparr>totalTicks = 0, idleTicks = 0, systemTicks = 0, userTicks = 0, numDiskReads = 0,
     numDiskWrites = 0, numConsoleCharsRead = 0, numConsoleCharsWritten = 0, numPageFaults = 0,
     numPacketsSent = 0, numPacketsRecvd = 0\<rparr>"

section \<open>Interrupts\<close>

datatype IntStatus = IntOff | IntOn

datatype MachineStatus = IdleMode | SystemMode | UserMode

datatype IntType =
  TimerInt | DiskInt | ConsoleWriteInt | ConsoleReadInt | NetworkSendInt | NetworkRecvInt

text \<open>
  The functions the device simulators and the network layer hand to \<^verbatim>\<open>Interrupt::Schedule\<close>; the
  argument they are scheduled with is the address of the object, cast to \<^verbatim>\<open>int\<close>.
\<close>

datatype int_handler =
  TimerHandler | DiskDone | ConsoleReadPoll | ConsoleWriteDone | NetworkReadPoll | NetworkSendDone | WakeUpHandler

record pending_interrupt =
  handler :: int_handler
  arg :: c_int
  "when" :: int
  type :: IntType

text \<open>
  The whole state. \<open>'q\<close> is the representation of the list of pending interrupts, which belongs to
  the kernel's list class.
\<close>

record 'q simulator = machine +
  stats :: statistics
  level :: IntStatus
  pending :: 'q
  inHandler :: bool
  yieldOnReturn :: bool
  status :: MachineStatus

section \<open>What the repository does not hold\<close>

text \<open>
  The host: the byte order \<^verbatim>\<open>HOST_IS_BIG_ENDIAN\<close> is compiled in for, and whether the compiler's
  \<^verbatim>\<open>char\<close> is signed.
\<close>

record host =
  HOST_IS_BIG_ENDIAN :: bool
  char_signed :: bool

text \<open>
  The kernel, over states of type \<open>'s\<close>: the trap handler \<^verbatim>\<open>ExceptionHandler\<close>, the call of a
  pending interrupt's handler and \<^verbatim>\<open>Thread::Yield\<close> of the current thread. Each may change the
  whole state and may stop.
\<close>

record 's kernel =
  ExceptionHandler :: "ExceptionType \<Rightarrow> 's \<Rightarrow> 's res"
  call_handler :: "int_handler \<Rightarrow> c_int \<Rightarrow> 's \<Rightarrow> 's res"
  Yield :: "'s \<Rightarrow> 's res"

text \<open>The operations of the kernel's class \<^verbatim>\<open>List\<close> the interrupt simulation calls.\<close>

record 'q list_ops =
  SortedInsert :: "pending_interrupt \<Rightarrow> int \<Rightarrow> 'q \<Rightarrow> 'q"
  SortedRemove :: "'q \<Rightarrow> (pending_interrupt \<times> int) option \<times> 'q"
  IsEmpty :: "'q \<Rightarrow> bool"

section \<open>Construction and the register interface\<close>

text \<open>\<^verbatim>\<open>Machine::Machine\<close>, for both settings of \<^verbatim>\<open>USE_TLB\<close>; \<^verbatim>\<open>new\<close> leaves the other fields of the
  TLB entries (\<open>e\<close>), the page table size (\<open>n\<close>) and \<open>runUntilTime\<close> (\<open>t\<close>) uninitialised.\<close>

definition Machine :: "bool \<Rightarrow> bool \<Rightarrow> (nat \<Rightarrow> translation_entry) \<Rightarrow> c_int \<Rightarrow> c_int \<Rightarrow> machine" where
  "Machine use_tlb debug e n t =
    \<lparr>mainMemory = (\<lambda>_. 0), registers = (\<lambda>_. 0),
     tlb = (if use_tlb then Some (List.map (\<lambda>i. (e i)\<lparr>valid := False\<rparr>) [0..<TLBSize]) else None),
     pageTable = None, pageTableSize = n, singleStep = debug, runUntilTime = t\<rparr>"

definition ReadRegister :: "int \<Rightarrow> 'm machine_scheme \<Rightarrow> c_int res" where
  "ReadRegister num s =
    and_then (assert_that (0 \<le> num \<and> num < int NumTotalRegs)) (\<lambda>_.
    Inr (registers s (nat num)))"

definition WriteRegister :: "int \<Rightarrow> c_int \<Rightarrow> 'm machine_scheme \<Rightarrow> 'm machine_scheme res" where
  "WriteRegister num v s =
    and_then (assert_that (0 \<le> num \<and> num < int NumTotalRegs)) (\<lambda>_.
    Inr (s\<lparr>registers := (registers s)(nat num := v)\<rparr>))"

definition Interrupt :: "'q \<Rightarrow> statistics \<Rightarrow> machine \<Rightarrow> 'q simulator" where
  "Interrupt empty_list st m =
    machine.extend m
      \<lparr>stats = st, level = IntOff, pending = empty_list, inHandler = False,
       yieldOnReturn = False, status = SystemMode\<rparr>"

lemmas size_defs = PageSize_def NumPhysPages_def MemorySize_def TLBSize_def NumTotalRegs_def

end
