(* ===== verification/Mips_Memory.thy ===== *)
theory Mips_Memory
  imports Machine_State
begin

unbundle bit_operations_syntax

text \<open>
  Traps and virtual memory: \<^verbatim>\<open>Machine::RaiseException\<close> (\<^verbatim>\<open>machine/machine.cc\<close>), \<^verbatim>\<open>DelayedLoad\<close>
  (\<^verbatim>\<open>machine/mipssim.cc\<close>) and the whole of \<^verbatim>\<open>machine/translate.cc\<close>: the conversions between the
  host's byte order and the simulated machine's, \<^verbatim>\<open>Translate\<close>, \<^verbatim>\<open>ReadMem\<close> and \<^verbatim>\<open>WriteMem\<close>.
\<close>

section \<open>Traps\<close>

definition DelayedLoad :: "c_int \<Rightarrow> c_int \<Rightarrow> 'm machine_scheme \<Rightarrow> 'm machine_scheme res" where
  "DelayedLoad nextReg nextValue s =
    (let r = sint (registers s LoadReg)
     in if 0 \<le> r \<and> r < int NumTotalRegs
        then Inr (s\<lparr>registers := (registers s)
               (nat r := registers s LoadValueReg,
                LoadReg := nextReg,
                LoadValueReg := nextValue,
                0 := 0)\<rparr>)
        else Inl OutOfBounds)"

definition setStatus :: "MachineStatus \<Rightarrow> ('q, 'k) simulator_scheme \<Rightarrow> ('q, 'k) simulator_scheme" where
  "setStatus st s = s\<lparr>status := st\<rparr>"

definition RaiseException ::
  "('q, 'k) simulator_scheme kernel \<Rightarrow> ExceptionType \<Rightarrow> c_int \<Rightarrow>
   ('q, 'k) simulator_scheme \<Rightarrow> ('q, 'k) simulator_scheme res" where
  "RaiseException k which badVAddr s =
    and_then (DelayedLoad 0 0 (s\<lparr>registers := (registers s)(BadVAddrReg := badVAddr)\<rparr>)) (\<lambda>s.
    and_then (ExceptionHandler k which (setStatus SystemMode s)) (\<lambda>s.
    Inr (setStatus UserMode s)))"

section \<open>Byte order\<close>

definition WordToHost :: "host \<Rightarrow> c_int \<Rightarrow> c_int" where
  "WordToHost h word =
    (if HOST_IS_BIG_ENDIAN h then
       (drop_bit 24 word AND 0x000000ff) OR (drop_bit 8 word AND 0x0000ff00) OR
       (push_bit 8 word AND 0x00ff0000) OR (push_bit 24 word AND 0xff000000)
     else word)"

definition ShortToHost :: "host \<Rightarrow> c_short \<Rightarrow> c_short" where
  "ShortToHost h shortword =
    (if HOST_IS_BIG_ENDIAN h then
       (push_bit 8 shortword AND 0xff00) OR (drop_bit 8 shortword AND 0x00ff)
     else shortword)"

definition WordToMachine :: "host \<Rightarrow> c_int \<Rightarrow> c_int" where
  "WordToMachine h word = WordToHost h word"

definition ShortToMachine :: "host \<Rightarrow> c_short \<Rightarrow> c_short" where
  "ShortToMachine h shortword = ShortToHost h shortword"

text \<open>
  The host's own accesses to \<^verbatim>\<open>mainMemory\<close>: the value of a \<^verbatim>\<open>char\<close> as an \<^verbatim>\<open>int\<close>, and the
  dereference of a pointer to \<^verbatim>\<open>unsigned short\<close> or \<^verbatim>\<open>unsigned int\<close> into the array.
\<close>

definition char_value :: "host \<Rightarrow> byte \<Rightarrow> c_int" where
  "char_value h b = (if char_signed h then scast b else ucast b)"

definition le16 :: "byte \<Rightarrow> byte \<Rightarrow> c_short" where
  "le16 b0 b1 = ucast b0 OR push_bit 8 (ucast b1)"

definition le32 :: "byte \<Rightarrow> byte \<Rightarrow> byte \<Rightarrow> byte \<Rightarrow> c_int" where
  "le32 b0 b1 b2 b3 =
    ucast b0 OR push_bit 8 (ucast b1) OR push_bit 16 (ucast b2) OR push_bit 24 (ucast b3)"

definition load_short :: "host \<Rightarrow> (nat \<Rightarrow> byte) \<Rightarrow> nat \<Rightarrow> c_short" where
  "load_short h mem p =
    (if HOST_IS_BIG_ENDIAN h then le16 (mem (p + 1)) (mem p) else le16 (mem p) (mem (p + 1)))"

definition load_word :: "host \<Rightarrow> (nat \<Rightarrow> byte) \<Rightarrow> nat \<Rightarrow> c_int" where
  "load_word h mem p =
    (if HOST_IS_BIG_ENDIAN h
     then le32 (mem (p + 3)) (mem (p + 2)) (mem (p + 1)) (mem p)
     else le32 (mem p) (mem (p + 1)) (mem (p + 2)) (mem (p + 3)))"

definition store_short :: "host \<Rightarrow> (nat \<Rightarrow> byte) \<Rightarrow> nat \<Rightarrow> c_short \<Rightarrow> nat \<Rightarrow> byte" where
  "store_short h mem p w =
    (if HOST_IS_BIG_ENDIAN h
     then mem(p + 1 := ucast w, p := ucast (drop_bit 8 w))
     else mem(p := ucast w, p + 1 := ucast (drop_bit 8 w)))"

definition store_word :: "host \<Rightarrow> (nat \<Rightarrow> byte) \<Rightarrow> nat \<Rightarrow> c_int \<Rightarrow> nat \<Rightarrow> byte" where
  "store_word h mem p w =
    (if HOST_IS_BIG_ENDIAN h
     then mem(p + 3 := ucast w, p + 2 := ucast (drop_bit 8 w),
              p + 1 := ucast (drop_bit 16 w), p := ucast (drop_bit 24 w))
     else mem(p := ucast w, p + 1 := ucast (drop_bit 8 w),
              p + 2 := ucast (drop_bit 16 w), p + 3 := ucast (drop_bit 24 w)))"

section \<open>Translation\<close>

datatype translation = Trap ExceptionType | Phys c_int

text \<open>The scan of the TLB, with \<open>n\<close> entries left to look at.\<close>

fun tlb_search :: "translation_entry list \<Rightarrow> c_int \<Rightarrow> nat \<Rightarrow> nat option res" where
  "tlb_search t vpn 0 = Inr None"
| "tlb_search t vpn (Suc n) =
    (let i = TLBSize - Suc n
     in if length t \<le> i then Inl OutOfBounds
        else if valid (t ! i) \<and> virtualPage (t ! i) = vpn then Inr (Some i)
        else tlb_search t vpn n)"

text \<open>What \<^verbatim>\<open>Translate\<close> does once it has found the entry.\<close>

definition use_entry ::
  "c_int \<Rightarrow> c_int \<Rightarrow> bool \<Rightarrow> translation_entry \<Rightarrow> (translation \<times> translation_entry) res" where
  "use_entry offset sz writing e =
    (if readOnly e \<and> writing then Inr (Trap ReadOnlyException, e)
     else if int NumPhysPages \<le> uint (physicalPage e) then Inr (Trap BusErrorException, e)
     else
       (let e1 = e\<lparr>used := True\<rparr>;
            e2 = (if writing then e1\<lparr>dirty := True\<rparr> else e1);
            physAddr = physicalPage e * of_nat PageSize + offset
        in and_then (assert_that (0 \<le> sint physAddr \<and>
                     sint (physAddr + sz) \<le> int MemorySize)) (\<lambda>_.
           Inr (Phys physAddr, e2))))"

definition Translate ::
  "c_int \<Rightarrow> c_int \<Rightarrow> bool \<Rightarrow> 'm machine_scheme \<Rightarrow> (translation \<times> 'm machine_scheme) res" where
  "Translate virtAddr sz writing s =
    (if sz = 4 \<and> virtAddr AND 0x3 \<noteq> 0 \<or> sz = 2 \<and> virtAddr AND 0x1 \<noteq> 0
     then Inr (Trap AddressErrorException, s)
     else
       and_then (assert_that (tlb s = None \<or> pageTable s = None)) (\<lambda>_.
       and_then (assert_that (tlb s \<noteq> None \<or> pageTable s \<noteq> None)) (\<lambda>_.
       let vpn = virtAddr div of_nat PageSize;
           offset = virtAddr mod of_nat PageSize
       in case tlb s of
            None \<Rightarrow>
              (let t = the (pageTable s); v = unat vpn
               in if pageTableSize s \<le> vpn then Inr (Trap AddressErrorException, s)
                  else if length t \<le> v then Inl OutOfBounds
                  else if \<not> valid (t ! v) then Inr (Trap PageFaultException, s)
                  else
                    and_then (use_entry offset sz writing (t ! v)) (\<lambda>(r, e).
                    Inr (r, s\<lparr>pageTable := Some (t[v := e])\<rparr>)))
          | Some t \<Rightarrow>
              and_then (tlb_search t vpn TLBSize) (\<lambda>found.
              case found of
                None \<Rightarrow> Inr (Trap PageFaultException, s)
              | Some i \<Rightarrow>
                  and_then (use_entry offset sz writing (t ! i)) (\<lambda>(r, e).
                  Inr (r, s\<lparr>tlb := Some (t[i := e])\<rparr>))))))"

section \<open>Memory accesses\<close>

text \<open>\<open>None\<close> and \<open>False\<close> stand for the result \<^verbatim>\<open>FALSE\<close>, after the trap.\<close>

definition ReadMem ::
  "host \<Rightarrow> ('q, 'k) simulator_scheme kernel \<Rightarrow> c_int \<Rightarrow> c_int \<Rightarrow>
   ('q, 'k) simulator_scheme \<Rightarrow> (c_int option \<times> ('q, 'k) simulator_scheme) res" where
  "ReadMem h k addr sz s =
    and_then (Translate addr sz False s) (\<lambda>(r, s).
    case r of
      Trap ex \<Rightarrow> and_then (RaiseException k ex addr s) (\<lambda>s. Inr (None, s))
    | Phys physicalAddress \<Rightarrow>
        (let p = unat physicalAddress
         in if sz = 1 then Inr (Some (char_value h (mainMemory s p)), s)
            else if sz = 2 then
              Inr (Some (ucast (ShortToHost h (load_short h (mainMemory s) p))), s)
            else if sz = 4 then
              Inr (Some (WordToHost h (load_word h (mainMemory s) p)), s)
            else Inl AssertionFailed))"

definition WriteMem ::
  "host \<Rightarrow> ('q, 'k) simulator_scheme kernel \<Rightarrow> c_int \<Rightarrow> c_int \<Rightarrow> c_int \<Rightarrow>
   ('q, 'k) simulator_scheme \<Rightarrow> (bool \<times> ('q, 'k) simulator_scheme) res" where
  "WriteMem h k addr sz value s =
    and_then (Translate addr sz True s) (\<lambda>(r, s).
    case r of
      Trap ex \<Rightarrow> and_then (RaiseException k ex addr s) (\<lambda>s. Inr (False, s))
    | Phys physicalAddress \<Rightarrow>
        (let p = unat physicalAddress
         in if sz = 1 then
              Inr (True, s\<lparr>mainMemory := (mainMemory s)(p := ucast (value AND 0xff))\<rparr>)
            else if sz = 2 then
              Inr (True, s\<lparr>mainMemory :=
                store_short h (mainMemory s) p (ShortToMachine h (ucast (value AND 0xffff)))\<rparr>)
            else if sz = 4 then
              Inr (True, s\<lparr>mainMemory :=
                store_word h (mainMemory s) p (WordToMachine h value)\<rparr>)
            else Inl AssertionFailed))"

section \<open>The byte order of the host does not show\<close>

lemma bytes_of_mask [simp]: "ucast ((v :: c_int) AND 0xff) = (ucast v :: byte)"
  unfolding masks by (rule bit_word_eqI) (auto simp: bit_simps)

lemma short_of_mask [simp]: "ucast ((v :: c_int) AND 0xffff) = (ucast v :: c_short)"
  unfolding masks by (rule bit_word_eqI) (auto simp: bit_simps)

lemma word_masks:
  "(0xff00 :: c_int) = push_bit 8 (mask 8)"
  "(0xff0000 :: c_int) = push_bit 16 (mask 8)"
  "(0xff000000 :: c_int) = push_bit 24 (mask 8)"
  "(0xff :: c_short) = mask 8"
  "(0xff00 :: c_short) = push_bit 8 (mask 8)"
  by (simp_all add: mask_eq_exp_minus_1)


lemma byte_range: "n < 32 \<Longrightarrow> n < 8 \<or> 8 \<le> n \<and> n < 16 \<or> 16 \<le> n \<and> n < 24 \<or> 24 \<le> (n :: nat)"
  by linarith

lemma WordToHost_little: "\<not> HOST_IS_BIG_ENDIAN h \<Longrightarrow> WordToHost h w = w"
  and ShortToHost_little: "\<not> HOST_IS_BIG_ENDIAN h \<Longrightarrow> ShortToHost h v = v"
  by (simp_all add: WordToHost_def ShortToHost_def)

lemma WordToHost_le32:
  assumes "HOST_IS_BIG_ENDIAN h"
  shows "WordToHost h (le32 b3 b2 b1 b0) = le32 b0 b1 b2 b3"
proof (rule bit_word_eqI)
  fix n assume "n < LENGTH(32)"
  then consider "n < 8" | "8 \<le> n" "n < 16" | "16 \<le> n" "n < 24" | "24 \<le> n" "n < 32"
    using byte_range [of n] by auto
  then show "bit (WordToHost h (le32 b3 b2 b1 b0)) n = bit (le32 b0 b1 b2 b3) n"
    using assms unfolding WordToHost_def le32_def masks word_masks
    by cases (auto simp: bit_simps dest: bit_imp_le_length)
qed

lemma ShortToHost_le16:
  assumes "HOST_IS_BIG_ENDIAN h"
  shows "ShortToHost h (le16 b1 b0) = le16 b0 b1"
  using assms unfolding ShortToHost_def le16_def masks word_masks
  by (intro bit_word_eqI) (auto simp: bit_simps dest: bit_imp_le_length)

lemma load_word_little: "WordToHost h (load_word h mem p) =
  le32 (mem p) (mem (p + 1)) (mem (p + 2)) (mem (p + 3))"
  by (cases "HOST_IS_BIG_ENDIAN h") (simp_all add: load_word_def WordToHost_le32 WordToHost_little)

lemma load_short_little: "ShortToHost h (load_short h mem p) = le16 (mem p) (mem (p + 1))"
  by (cases "HOST_IS_BIG_ENDIAN h") (simp_all add: load_short_def ShortToHost_le16 ShortToHost_little)

lemma le32_bytes: "le32 (ucast w) (ucast (drop_bit 8 w)) (ucast (drop_bit 16 w)) (ucast (drop_bit 24 w)) = w"
proof (rule bit_word_eqI)
  fix n assume "n < LENGTH(32)"
  then consider "n < 8" | "8 \<le> n" "n < 16" | "16 \<le> n" "n < 24" | "24 \<le> n" "n < 32"
    using byte_range [of n] by auto
  then show "bit (le32 (ucast w) (ucast (drop_bit 8 w)) (ucast (drop_bit 16 w)) (ucast (drop_bit 24 w))) n =
      bit w n"
    unfolding le32_def by cases (auto simp: bit_simps dest: bit_imp_le_length)
qed

lemma le16_bytes: "le16 (ucast w) (ucast (drop_bit 8 w)) = w"
  unfolding le16_def by (rule bit_word_eqI) (auto simp: bit_simps dest: bit_imp_le_length)

lemma le32_parts:
  "ucast (le32 b0 b1 b2 b3) = b0"
  "ucast (drop_bit 8 (le32 b0 b1 b2 b3)) = b1"
  "ucast (drop_bit 16 (le32 b0 b1 b2 b3)) = b2"
  "ucast (drop_bit 24 (le32 b0 b1 b2 b3)) = b3"
  unfolding le32_def by (rule bit_word_eqI; auto simp: bit_simps dest: bit_imp_le_length)+

lemma le16_parts:
  "ucast (le16 b0 b1) = b0"
  "ucast (drop_bit 8 (le16 b0 b1)) = b1"
  unfolding le16_def by (rule bit_word_eqI; auto simp: bit_simps dest: bit_imp_le_length)+

lemma store_word_le32: "store_word h mem p (WordToMachine h (le32 b0 b1 b2 b3)) =
  mem(p := b0, p + 1 := b1, p + 2 := b2, p + 3 := b3)"
  by (cases "HOST_IS_BIG_ENDIAN h")
    (simp_all add: store_word_def WordToMachine_def WordToHost_le32 WordToHost_little le32_parts
      fun_upd_twist)

lemma store_word_little: "store_word h mem p (WordToMachine h w) =
  mem(p := ucast w, p + 1 := ucast (drop_bit 8 w), p + 2 := ucast (drop_bit 16 w),
      p + 3 := ucast (drop_bit 24 w))"
  using store_word_le32 [of h mem p "ucast w" "ucast (drop_bit 8 w)" "ucast (drop_bit 16 w)"
      "ucast (drop_bit 24 w)"]
  by (simp only: le32_bytes)

lemma store_short_le16: "store_short h mem p (ShortToMachine h (le16 b0 b1)) =
  mem(p := b0, p + 1 := b1)"
  by (cases "HOST_IS_BIG_ENDIAN h")
    (simp_all add: store_short_def ShortToMachine_def ShortToHost_le16 ShortToHost_little le16_parts
      fun_upd_twist)

lemma store_short_little: "store_short h mem p (ShortToMachine h w) =
  mem(p := ucast w, p + 1 := ucast (drop_bit 8 w))"
  using store_short_le16 [of h mem p "ucast w" "ucast (drop_bit 8 w)"]
  by (simp only: le16_bytes)

lemma WordToHost_involution: "WordToHost h (WordToMachine h w) = w"
proof (cases "HOST_IS_BIG_ENDIAN h")
  case True
  have "WordToHost h (WordToHost h (le32 b0 b1 b2 b3)) = le32 b0 b1 b2 b3" for b0 b1 b2 b3
    using True by (simp add: WordToHost_le32)
  from this [of "ucast w" "ucast (drop_bit 8 w)" "ucast (drop_bit 16 w)" "ucast (drop_bit 24 w)"]
  show ?thesis by (simp only: le32_bytes WordToMachine_def)
qed (simp add: WordToMachine_def WordToHost_little)

end
