(* ===== verification/Mips_Exec.thy ===== *)
theory Mips_Exec
  imports Mips_Isa Mips_Mult Mips_Memory
begin

unbundle bit_operations_syntax

text \<open>
  The processor: \<^verbatim>\<open>Machine::OneInstruction\<close> of \<^verbatim>\<open>machine/mipssim.cc\<close>, one definition per case of
  its switch. A case either falls out of the switch with the next program counter and a load to
  delay, or returns from the routine after a trap.
\<close>

section \<open>The outcome of a case\<close>

text \<open>\<open>Next s pcAfter nextLoadReg nextLoadValue\<close> is a \<^verbatim>\<open>break\<close>, \<open>Return s\<close> a \<^verbatim>\<open>return\<close>.\<close>

datatype 's exec = Next 's c_int c_int c_int | Return 's

definition set_reg :: "nat \<Rightarrow> c_int \<Rightarrow> 'm machine_scheme \<Rightarrow> 'm machine_scheme" where
  "set_reg n v s = s\<lparr>registers := (registers s)(n := v)\<rparr>"

definition trap ::
  "('q, 'k) simulator_scheme kernel \<Rightarrow> ExceptionType \<Rightarrow> c_int \<Rightarrow> ('q, 'k) simulator_scheme \<Rightarrow>
   ('q, 'k) simulator_scheme exec res" where
  "trap k ex badVAddr s = and_then (RaiseException k ex badVAddr s) (\<lambda>s. Inr (Return s))"

text \<open>The operands: the registers \<^verbatim>\<open>rs\<close>, \<^verbatim>\<open>rt\<close> and \<^verbatim>\<open>rd\<close> of an instruction.\<close>

abbreviation RS :: "instruction \<Rightarrow> 'm machine_scheme \<Rightarrow> c_int" where
  "RS i s \<equiv> registers s (unat (rs i))"

abbreviation RT :: "instruction \<Rightarrow> 'm machine_scheme \<Rightarrow> c_int" where
  "RT i s \<equiv> registers s (unat (rt i))"

definition to_rd :: "instruction \<Rightarrow> c_int \<Rightarrow> c_int \<Rightarrow> 'm machine_scheme \<Rightarrow> 'm machine_scheme exec res" where
  "to_rd i v pc s = Inr (Next (set_reg (unat (rd i)) v s) pc 0 0)"

definition to_rt :: "instruction \<Rightarrow> c_int \<Rightarrow> c_int \<Rightarrow> 'm machine_scheme \<Rightarrow> 'm machine_scheme exec res" where
  "to_rt i v pc s = Inr (Next (set_reg (unat (rt i)) v s) pc 0 0)"

section \<open>Arithmetic and logic\<close>

definition exec_ADD where
  "exec_ADD k i pc s =
    (let sum = RS i s + RT i s
     in if \<not> (RS i s XOR RT i s) AND SIGN_BIT \<noteq> 0 \<and> (RS i s XOR sum) AND SIGN_BIT \<noteq> 0
        then trap k OverflowException 0 s
        else to_rd i sum pc s)"

definition exec_ADDI where
  "exec_ADDI k i pc s =
    (let sum = RS i s + extra i
     in if \<not> (RS i s XOR extra i) AND SIGN_BIT \<noteq> 0 \<and> (extra i XOR sum) AND SIGN_BIT \<noteq> 0
        then trap k OverflowException 0 s
        else to_rt i sum pc s)"

definition exec_SUB where
  "exec_SUB k i pc s =
    (let diff = RS i s - RT i s
     in if (RS i s XOR RT i s) AND SIGN_BIT \<noteq> 0 \<and> (RS i s XOR diff) AND SIGN_BIT \<noteq> 0
        then trap k OverflowException 0 s
        else to_rd i diff pc s)"

definition exec_ADDIU where "exec_ADDIU i pc s = to_rt i (RS i s + extra i) pc s"
definition exec_ADDU where "exec_ADDU i pc s = to_rd i (RS i s + RT i s) pc s"
definition exec_SUBU where "exec_SUBU i pc s = to_rd i (RS i s - RT i s) pc s"
definition exec_AND where "exec_AND i pc s = to_rd i (RS i s AND RT i s) pc s"
definition exec_ANDI where "exec_ANDI i pc s = to_rt i (RS i s AND (extra i AND 0xffff)) pc s"
definition exec_OR where "exec_OR i pc s = to_rd i (RS i s OR RT i s) pc s"
definition exec_ORI where "exec_ORI i pc s = to_rt i (RS i s OR (extra i AND 0xffff)) pc s"
definition exec_XOR where "exec_XOR i pc s = to_rd i (RS i s XOR RT i s) pc s"
definition exec_XORI where "exec_XORI i pc s = to_rt i (RS i s XOR (extra i AND 0xffff)) pc s"
definition exec_NOR where "exec_NOR i pc s = to_rd i (NOT (RS i s OR RT i s)) pc s"
definition exec_LUI where "exec_LUI i pc s = to_rt i (push_bit 16 (extra i)) pc s"

definition exec_SLT where
  "exec_SLT i pc s = to_rd i (if sint (RS i s) < sint (RT i s) then 1 else 0) pc s"
definition exec_SLTI where
  "exec_SLTI i pc s = to_rt i (if sint (RS i s) < sint (extra i) then 1 else 0) pc s"
definition exec_SLTIU where
  "exec_SLTIU i pc s = to_rt i (if uint (RS i s) < uint (extra i) then 1 else 0) pc s"
definition exec_SLTU where
  "exec_SLTU i pc s = to_rd i (if uint (RS i s) < uint (RT i s) then 1 else 0) pc s"

definition exec_SLL where "exec_SLL i pc s = to_rd i (push_bit (unat (extra i)) (RT i s)) pc s"
definition exec_SLLV where
  "exec_SLLV i pc s = to_rd i (push_bit (unat (RS i s AND 0x1f)) (RT i s)) pc s"
definition exec_SRA where
  "exec_SRA i pc s = to_rd i (signed_drop_bit (unat (extra i)) (RT i s)) pc s"
definition exec_SRAV where
  "exec_SRAV i pc s = to_rd i (signed_drop_bit (unat (RS i s AND 0x1f)) (RT i s)) pc s"
definition exec_SRL where "exec_SRL i pc s = to_rd i (drop_bit (unat (extra i)) (RT i s)) pc s"
definition exec_SRLV where
  "exec_SRLV i pc s = to_rd i (drop_bit (unat (RS i s AND 0x1f)) (RT i s)) pc s"

section \<open>Multiplication and division\<close>

definition set_hi_lo :: "c_int \<Rightarrow> c_int \<Rightarrow> 'm machine_scheme \<Rightarrow> 'm machine_scheme" where
  "set_hi_lo hi lo s = set_reg HiReg hi (set_reg LoReg lo s)"

text \<open>The host traps on the one signed quotient that does not fit.\<close>

definition exec_DIV where
  "exec_DIV i pc s =
    (if RT i s = 0 then Inr (Next (set_hi_lo 0 0 s) pc 0 0)
     else if sint (RS i s) = - (2 ^ 31) \<and> sint (RT i s) = - 1 then Inl DivideTrap
     else Inr (Next (set_hi_lo (word_of_int (sint (RS i s) smod sint (RT i s)))
                               (word_of_int (sint (RS i s) sdiv sint (RT i s))) s) pc 0 0))"

definition exec_DIVU where
  "exec_DIVU i pc s =
    (if RT i s = 0 then Inr (Next (set_hi_lo 0 0 s) pc 0 0)
     else Inr (Next (set_hi_lo (RS i s mod RT i s) (RS i s div RT i s) s) pc 0 0))"

definition exec_MULT where
  "exec_MULT i pc s =
    (let p = Mult (RS i s) (RT i s) True in Inr (Next (set_hi_lo (fst p) (snd p) s) pc 0 0))"

definition exec_MULTU where
  "exec_MULTU i pc s =
    (let p = Mult (RS i s) (RT i s) False in Inr (Next (set_hi_lo (fst p) (snd p) s) pc 0 0))"

definition exec_MFHI where "exec_MFHI i pc s = to_rd i (registers s HiReg) pc s"
definition exec_MFLO where "exec_MFLO i pc s = to_rd i (registers s LoReg) pc s"
definition exec_MTHI where "exec_MTHI i pc s = Inr (Next (set_reg HiReg (RS i s) s) pc 0 0)"
definition exec_MTLO where "exec_MTLO i pc s = Inr (Next (set_reg LoReg (RS i s) s) pc 0 0)"

section \<open>Branches and jumps\<close>

definition branch_if ::
  "bool \<Rightarrow> instruction \<Rightarrow> c_int \<Rightarrow> 'm machine_scheme \<Rightarrow> 'm machine_scheme exec res" where
  "branch_if c i pc s =
    Inr (Next s (if c then registers s NextPCReg + IndexToAddr (extra i) else pc) 0 0)"

definition link :: "nat \<Rightarrow> 'm machine_scheme \<Rightarrow> 'm machine_scheme" where
  "link n s = set_reg n (registers s NextPCReg + 4) s"

definition exec_BEQ where "exec_BEQ i pc s = branch_if (RS i s = RT i s) i pc s"
definition exec_BNE where "exec_BNE i pc s = branch_if (RS i s \<noteq> RT i s) i pc s"
definition exec_BGTZ where "exec_BGTZ i pc s = branch_if (0 < sint (RS i s)) i pc s"
definition exec_BLEZ where "exec_BLEZ i pc s = branch_if (sint (RS i s) \<le> 0) i pc s"
definition exec_BGEZ where "exec_BGEZ i pc s = branch_if (\<not> RS i s AND SIGN_BIT \<noteq> 0) i pc s"
definition exec_BGEZAL where "exec_BGEZAL i pc s = exec_BGEZ i pc (link RetAddrReg s)"
definition exec_BLTZ where "exec_BLTZ i pc s = branch_if (RS i s AND SIGN_BIT \<noteq> 0) i pc s"
definition exec_BLTZAL where "exec_BLTZAL i pc s = exec_BLTZ i pc (link RetAddrReg s)"

definition exec_J where
  "exec_J i pc s = Inr (Next s ((pc AND 0xf0000000) OR IndexToAddr (extra i)) 0 0)"
definition exec_JAL where "exec_JAL i pc s = exec_J i pc (link RetAddrReg s)"
definition exec_JR where "exec_JR i (pc :: c_int) s = Inr (Next s (RS i s) 0 0)"
definition exec_JALR where "exec_JALR i pc s = exec_JR i pc (link (unat (rd i)) s)"

section \<open>Loads\<close>

text \<open>A read of memory by an instruction: \<open>f\<close> gets the value, or the routine returns.\<close>

definition reading where
  "reading h k addr sz s f =
    and_then (ReadMem h k addr sz s) (\<lambda>(v, s).
    case v of None \<Rightarrow> Inr (Return s) | Some value \<Rightarrow> f value s)"

definition exec_LB where
  "exec_LB h k i pc s =
    reading h k (RS i s + extra i) 1 s (\<lambda>value s.
    let v = (if value AND 0x80 \<noteq> 0 \<and> opCode i = OP_LB then value OR 0xffffff00 else value AND 0xff)
    in Inr (Next s pc (ucast (rt i)) v))"

definition exec_LH where
  "exec_LH h k i pc s =
    (let tmp = RS i s + extra i
     in if tmp AND 0x1 \<noteq> 0 then trap k AddressErrorException tmp s
        else reading h k tmp 2 s (\<lambda>value s.
          let v = (if value AND 0x8000 \<noteq> 0 \<and> opCode i = OP_LH then value OR 0xffff0000
                   else value AND 0xffff)
          in Inr (Next s pc (ucast (rt i)) v)))"

definition exec_LW where
  "exec_LW h k i pc s =
    (let tmp = RS i s + extra i
     in if tmp AND 0x3 \<noteq> 0 then trap k AddressErrorException tmp s
        else reading h k tmp 4 s (\<lambda>value s. Inr (Next s pc (ucast (rt i)) value)))"

text \<open>The register a partial load merges with, which a delayed load may be about to change.\<close>

definition merge_base :: "instruction \<Rightarrow> 'm machine_scheme \<Rightarrow> c_int" where
  "merge_base i s =
    (if registers s LoadReg = ucast (rt i) then registers s LoadValueReg else RT i s)"

definition exec_LWL where
  "exec_LWL h k i pc s =
    (let tmp = RS i s + extra i
     in and_then (assert_that (tmp AND 0x3 = 0)) (\<lambda>_.
        reading h k tmp 4 s (\<lambda>value s.
        let old = merge_base i s; c = tmp AND 0x3;
            v = (if c = 0 then value
                 else if c = 1 then (old AND 0xff) OR push_bit 8 value
                 else if c = 2 then (old AND 0xffff) OR push_bit 16 value
                 else (old AND 0xffffff) OR push_bit 24 value)
        in Inr (Next s pc (ucast (rt i)) v))))"

definition exec_LWR where
  "exec_LWR h k i pc s =
    (let tmp = RS i s + extra i
     in and_then (assert_that (tmp AND 0x3 = 0)) (\<lambda>_.
        reading h k tmp 4 s (\<lambda>value s.
        let old = merge_base i s; c = tmp AND 0x3;
            v = (if c = 0 then (old AND 0xffffff00) OR (signed_drop_bit 24 value AND 0xff)
                 else if c = 1 then (old AND 0xffff0000) OR (signed_drop_bit 16 value AND 0xffff)
                 else if c = 2 then (old AND 0xff000000) OR (signed_drop_bit 8 value AND 0xffffff)
                 else value)
        in Inr (Next s pc (ucast (rt i)) v))))"

section \<open>Stores\<close>

definition writing_mem where
  "writing_mem h k addr sz v pc s =
    and_then (WriteMem h k addr sz v s) (\<lambda>(b, s).
    if b then Inr (Next s pc 0 0) else Inr (Return s))"

definition exec_SB where "exec_SB h k i pc s = writing_mem h k (RS i s + extra i) 1 (RT i s) pc s"
definition exec_SH where "exec_SH h k i pc s = writing_mem h k (RS i s + extra i) 2 (RT i s) pc s"
definition exec_SW where "exec_SW h k i pc s = writing_mem h k (RS i s + extra i) 4 (RT i s) pc s"

definition exec_SWL where
  "exec_SWL h k i pc s =
    (let tmp = RS i s + extra i
     in and_then (assert_that (tmp AND 0x3 = 0)) (\<lambda>_.
        reading h k (tmp AND NOT 0x3) 4 s (\<lambda>value s.
        let c = tmp AND 0x3;
            v = (if c = 0 then RT i s
                 else if c = 1 then (value AND 0xff000000) OR (signed_drop_bit 8 (RT i s) AND 0xffffff)
                 else if c = 2 then (value AND 0xffff0000) OR (signed_drop_bit 16 (RT i s) AND 0xffff)
                 else (value AND 0xffffff00) OR (signed_drop_bit 24 (RT i s) AND 0xff))
        in writing_mem h k (tmp AND NOT 0x3) 4 v pc s)))"

definition exec_SWR where
  "exec_SWR h k i pc s =
    (let tmp = RS i s + extra i
     in and_then (assert_that (tmp AND 0x3 = 0)) (\<lambda>_.
        reading h k (tmp AND NOT 0x3) 4 s (\<lambda>value s.
        let c = tmp AND 0x3;
            v = (if c = 0 then (value AND 0xffffff) OR push_bit 24 (RT i s)
                 else if c = 1 then (value AND 0xffff) OR push_bit 16 (RT i s)
                 else if c = 2 then (value AND 0xff) OR push_bit 8 (RT i s)
                 else RT i s)
        in writing_mem h k (tmp AND NOT 0x3) 4 v pc s)))"

section \<open>One instruction\<close>

primrec exec_op :: "opcode \<Rightarrow> host \<Rightarrow> ('q, 'k) simulator_scheme kernel \<Rightarrow> instruction \<Rightarrow> c_int \<Rightarrow>
  ('q, 'k) simulator_scheme \<Rightarrow> ('q, 'k) simulator_scheme exec res" where
  "exec_op OP_ADD h k i pc s = exec_ADD k i pc s"
| "exec_op OP_ADDI h k i pc s = exec_ADDI k i pc s"
| "exec_op OP_ADDIU h k i pc s = exec_ADDIU i pc s"
| "exec_op OP_ADDU h k i pc s = exec_ADDU i pc s"
| "exec_op OP_AND h k i pc s = exec_AND i pc s"
| "exec_op OP_ANDI h k i pc s = exec_ANDI i pc s"
| "exec_op OP_BEQ h k i pc s = exec_BEQ i pc s"
| "exec_op OP_BGEZ h k i pc s = exec_BGEZ i pc s"
| "exec_op OP_BGEZAL h k i pc s = exec_BGEZAL i pc s"
| "exec_op OP_BGTZ h k i pc s = exec_BGTZ i pc s"
| "exec_op OP_BLEZ h k i pc s = exec_BLEZ i pc s"
| "exec_op OP_BLTZ h k i pc s = exec_BLTZ i pc s"
| "exec_op OP_BLTZAL h k i pc s = exec_BLTZAL i pc s"
| "exec_op OP_BNE h k i pc s = exec_BNE i pc s"
| "exec_op OP_DIV h k i pc s = exec_DIV i pc s"
| "exec_op OP_DIVU h k i pc s = exec_DIVU i pc s"
| "exec_op OP_J h k i pc s = exec_J i pc s"
| "exec_op OP_JAL h k i pc s = exec_JAL i pc s"
| "exec_op OP_JALR h k i pc s = exec_JALR i pc s"
| "exec_op OP_JR h k i pc s = exec_JR i pc s"
| "exec_op OP_LB h k i pc s = exec_LB h k i pc s"
| "exec_op OP_LBU h k i pc s = exec_LB h k i pc s"
| "exec_op OP_LH h k i pc s = exec_LH h k i pc s"
| "exec_op OP_LHU h k i pc s = exec_LH h k i pc s"
| "exec_op OP_LUI h k i pc s = exec_LUI i pc s"
| "exec_op OP_LW h k i pc s = exec_LW h k i pc s"
| "exec_op OP_LWL h k i pc s = exec_LWL h k i pc s"
| "exec_op OP_LWR h k i pc s = exec_LWR h k i pc s"
| "exec_op OP_MFHI h k i pc s = exec_MFHI i pc s"
| "exec_op OP_MFLO h k i pc s = exec_MFLO i pc s"
| "exec_op OP_MTHI h k i pc s = exec_MTHI i pc s"
| "exec_op OP_MTLO h k i pc s = exec_MTLO i pc s"
| "exec_op OP_MULT h k i pc s = exec_MULT i pc s"
| "exec_op OP_MULTU h k i pc s = exec_MULTU i pc s"
| "exec_op OP_NOR h k i pc s = exec_NOR i pc s"
| "exec_op OP_OR h k i pc s = exec_OR i pc s"
| "exec_op OP_ORI h k i pc s = exec_ORI i pc s"
| "exec_op OP_RFE h k i pc s = Inl AssertionFailed"
| "exec_op OP_SB h k i pc s = exec_SB h k i pc s"
| "exec_op OP_SH h k i pc s = exec_SH h k i pc s"
| "exec_op OP_SLL h k i pc s = exec_SLL i pc s"
| "exec_op OP_SLLV h k i pc s = exec_SLLV i pc s"
| "exec_op OP_SLT h k i pc s = exec_SLT i pc s"
| "exec_op OP_SLTI h k i pc s = exec_SLTI i pc s"
| "exec_op OP_SLTIU h k i pc s = exec_SLTIU i pc s"
| "exec_op OP_SLTU h k i pc s = exec_SLTU i pc s"
| "exec_op OP_SRA h k i pc s = exec_SRA i pc s"
| "exec_op OP_SRAV h k i pc s = exec_SRAV i pc s"
| "exec_op OP_SRL h k i pc s = exec_SRL i pc s"
| "exec_op OP_SRLV h k i pc s = exec_SRLV i pc s"
| "exec_op OP_SUB h k i pc s = exec_SUB k i pc s"
| "exec_op OP_SUBU h k i pc s = exec_SUBU i pc s"
| "exec_op OP_SW h k i pc s = exec_SW h k i pc s"
| "exec_op OP_SWL h k i pc s = exec_SWL h k i pc s"
| "exec_op OP_SWR h k i pc s = exec_SWR h k i pc s"
| "exec_op OP_XOR h k i pc s = exec_XOR i pc s"
| "exec_op OP_XORI h k i pc s = exec_XORI i pc s"
| "exec_op OP_SYSCALL h k i pc s = trap k SyscallException 0 s"
| "exec_op OP_UNIMP h k i pc s = trap k IllegalInstrException 0 s"
| "exec_op OP_RES h k i pc s = trap k IllegalInstrException 0 s"
| "exec_op SPECIAL h k i pc s = Inl AssertionFailed"
| "exec_op BCOND h k i pc s = Inl AssertionFailed"

text \<open>The end of the routine, after the switch.\<close>

definition retire ::
  "'m machine_scheme exec \<Rightarrow> 'm machine_scheme res" where
  "retire r = (case r of
     Return s \<Rightarrow> Inr s
   | Next s pcAfter nextLoadReg nextLoadValue \<Rightarrow>
       and_then (DelayedLoad nextLoadReg nextLoadValue s) (\<lambda>s.
       Inr (s\<lparr>registers := (registers s)
              (PrevPCReg := registers s PCReg,
               PCReg := registers s NextPCReg,
               NextPCReg := pcAfter)\<rparr>)))"

text \<open>The instruction buffer is the caller's: it is returned beside the state.\<close>

definition OneInstruction ::
  "host \<Rightarrow> ('q, 'k) simulator_scheme kernel \<Rightarrow> instruction \<Rightarrow> ('q, 'k) simulator_scheme \<Rightarrow>
   (instruction \<times> ('q, 'k) simulator_scheme) res" where
  "OneInstruction h k i s =
    and_then (ReadMem h k (registers s PCReg) 4 s) (\<lambda>(raw, s).
    case raw of
      None \<Rightarrow> Inr (i, s)
    | Some v \<Rightarrow>
        (let i = Decode (i\<lparr>instr_value := v\<rparr>);
             pcAfter = registers s NextPCReg + 4
         in and_then (exec_op (opCode i) h k i pcAfter s) (\<lambda>r.
            and_then (retire r) (\<lambda>s. Inr (i, s)))))"

end
