(* ===== verification/Mips_Translation.thy ===== *)
theory Mips_Translation
  imports Mips_Memory
begin

unbundle bit_operations_syntax

text \<open>
  What \<^verbatim>\<open>Translate\<close>, \<^verbatim>\<open>ReadMem\<close> and \<^verbatim>\<open>WriteMem\<close> promise. A page table and a TLB are two
  implementations of one interface, a finite map from virtual pages to entries; \<open>Translate\<close> is
  refined from a specification that only sees that map, so the claims on memory hold for both.
\<close>

section \<open>The interface of a translation table\<close>

text \<open>
  \<open>lookup t v\<close> is the entry that maps the page \<open>v\<close>, \<open>slot t v\<close> its place in the array. The hardware
  only changes the use and dirty bits of an entry, which keeps the page it maps.
\<close>

definition same_page :: "translation_entry \<Rightarrow> translation_entry \<Rightarrow> bool" where
  "same_page e e' \<longleftrightarrow> virtualPage e' = virtualPage e \<and> valid e' = valid e"

locale translation_table =
  fixes ok :: "translation_entry list \<Rightarrow> bool"
    and lookup :: "translation_entry list \<Rightarrow> c_int \<Rightarrow> translation_entry option"
    and slot :: "translation_entry list \<Rightarrow> c_int \<Rightarrow> nat"
  assumes slot_holds: "ok t \<Longrightarrow> lookup t v = Some e \<Longrightarrow> slot t v < length t \<and> t ! slot t v = e"
    and lookup_update: "ok t \<Longrightarrow> lookup t v = Some e \<Longrightarrow> same_page e e' \<Longrightarrow>
          lookup (t[slot t v := e']) = (lookup t)(v \<mapsto> e')"
    and ok_update: "ok t \<Longrightarrow> ok (t[i := e'])"
begin

lemma lookup_same:
  assumes "ok t" and "lookup t v = Some e"
  shows "lookup (t[slot t v := e]) = lookup t"
  using assms lookup_update [of t v e e] by (auto simp: same_page_def fun_upd_idem)

lemma other_page_kept:
  assumes "ok t" and "lookup t v = Some e" and "same_page e e'" and "w \<noteq> v"
  shows "lookup (t[slot t v := e']) w = lookup t w"
  using assms lookup_update by simp

end

subsection \<open>The linear page table\<close>

definition page_lookup :: "c_int \<Rightarrow> translation_entry list \<Rightarrow> c_int \<Rightarrow> translation_entry option" where
  "page_lookup n t v = (if v < n \<and> valid (t ! unat v) then Some (t ! unat v) else None)"

definition page_table_ok :: "c_int \<Rightarrow> translation_entry list \<Rightarrow> bool" where
  "page_table_ok n t \<longleftrightarrow> unat n \<le> length t"

lemma page_index: "page_table_ok n t \<Longrightarrow> v < n \<Longrightarrow> unat v < length t"
  by (simp add: page_table_ok_def word_less_nat_alt)

interpretation linear: translation_table "page_table_ok n" "page_lookup n" "\<lambda>t v. unat v" for n
proof
  fix t v e
  assume "page_table_ok n t" and "page_lookup n t v = Some e"
  then show "unat v < length t \<and> t ! unat v = e"
    by (auto simp: page_lookup_def page_index split: if_splits)
next
  fix t v e e'
  assume "page_table_ok n t" and "page_lookup n t v = Some e" and "same_page e e'"
  then show "page_lookup n (t[unat v := e']) = (page_lookup n t)(v \<mapsto> e')"
    by (auto simp: page_lookup_def page_index same_page_def fun_eq_iff nth_list_update
        word_unat_eq_iff [symmetric] split: if_splits)
qed (simp add: page_table_ok_def)

subsection \<open>The TLB\<close>

definition tlb_ok :: "translation_entry list \<Rightarrow> bool" where
  "tlb_ok t \<longleftrightarrow> TLBSize \<le> length t"

definition maps_page :: "c_int \<Rightarrow> translation_entry \<Rightarrow> bool" where
  "maps_page v e \<longleftrightarrow> valid e \<and> virtualPage e = v"

definition tlb_lookup :: "translation_entry list \<Rightarrow> c_int \<Rightarrow> translation_entry option" where
  "tlb_lookup t v = List.find (maps_page v) (take TLBSize t)"

definition tlb_slot :: "translation_entry list \<Rightarrow> c_int \<Rightarrow> nat" where
  "tlb_slot t v = length (takeWhile (\<lambda>e. \<not> maps_page v e) (take TLBSize t))"

lemma find_Some_takeWhile:
  "List.find P xs = Some x \<longleftrightarrow>
   length (takeWhile (\<lambda>y. \<not> P y) xs) < length xs \<and>
   xs ! length (takeWhile (\<lambda>y. \<not> P y) xs) = x"
  by (induction xs) auto

lemma tlb_search_suffix:
  assumes "tlb_ok t" and "n \<le> TLBSize"
  shows "tlb_search t v n = Inr (
    let xs = drop (TLBSize - n) (take TLBSize t);
        j = length (takeWhile (\<lambda>e. \<not> maps_page v e) xs)
    in if j < length xs then Some (TLBSize - n + j) else None)"
  using assms(2)
proof (induction n)
  case 0
  then show ?case by simp
next
  case (Suc n)
  let ?i = "TLBSize - Suc n"
  have i: "?i < length (take TLBSize t)" "?i < length t"
    using assms(1) Suc.prems by (auto simp: tlb_ok_def)
  have split: "drop ?i (take TLBSize t) = t ! ?i # drop (TLBSize - n) (take TLBSize t)"
    using Cons_nth_drop_Suc [OF i(1)] Suc.prems by (simp add: Suc_diff_Suc)
  have step: "Suc ?i = TLBSize - n" using Suc.prems by simp
  show ?case
    using i(2) Suc.prems step
    by (auto simp: split maps_page_def Let_def Suc.IH Suc_diff_Suc)
qed

lemma tlb_search_eq:
  assumes "tlb_ok t"
  shows "tlb_search t v TLBSize =
    Inr (case tlb_lookup t v of None \<Rightarrow> None | Some e \<Rightarrow> Some (tlb_slot t v))"
proof (cases "tlb_lookup t v")
  case None
  then have "\<not> tlb_slot t v < length (take TLBSize t)"
    using find_Some_takeWhile [of "maps_page v" "take TLBSize t" "take TLBSize t ! tlb_slot t v"]
    by (auto simp: tlb_lookup_def tlb_slot_def)
  with None show ?thesis
    using tlb_search_suffix [OF assms order_refl] by (simp add: tlb_slot_def Let_def)
next
  case (Some e)
  then have "tlb_slot t v < length (take TLBSize t)"
    using find_Some_takeWhile [of "maps_page v" "take TLBSize t" e]
    by (auto simp: tlb_lookup_def tlb_slot_def)
  with Some show ?thesis
    using tlb_search_suffix [OF assms order_refl] by (simp add: tlb_slot_def Let_def)
qed

lemma find_update:
  assumes "List.find (maps_page v) xs = Some e" and "same_page e e'"
  shows "List.find (maps_page w) (xs[length (takeWhile (\<lambda>y. \<not> maps_page v y) xs) := e']) =
         (if w = v then Some e' else List.find (maps_page w) xs)"
  using assms by (induction xs) (auto simp: maps_page_def same_page_def split: if_splits)

interpretation buffer: translation_table tlb_ok tlb_lookup tlb_slot
proof
  fix t v e
  assume "tlb_ok t" and "tlb_lookup t v = Some e"
  then show "tlb_slot t v < length t \<and> t ! tlb_slot t v = e"
    by (auto simp: tlb_lookup_def tlb_slot_def find_Some_takeWhile)
next
  fix t v e e'
  assume "tlb_ok t" and found: "tlb_lookup t v = Some e" and "same_page e e'"
  then show "tlb_lookup (t[tlb_slot t v := e']) = (tlb_lookup t)(v \<mapsto> e')"
    using find_update [of v "take TLBSize t" e e']
    by (auto simp: tlb_lookup_def tlb_slot_def fun_eq_iff take_update_swap)
qed (simp add: tlb_ok_def)


section \<open>The specification of address translation\<close>

text \<open>The current map from virtual pages to entries, whichever table holds it.\<close>

definition mapping :: "'m machine_scheme \<Rightarrow> c_int \<Rightarrow> translation_entry option" where
  "mapping s = (case tlb s of
     None \<Rightarrow> page_lookup (pageTableSize s) (the (pageTable s))
   | Some t \<Rightarrow> tlb_lookup t)"

definition translation_ok :: "'m machine_scheme \<Rightarrow> bool" where
  "translation_ok s \<longleftrightarrow> (case (tlb s, pageTable s) of
     (Some t, None) \<Rightarrow> tlb_ok t
   | (None, Some t) \<Rightarrow> page_table_ok (pageTableSize s) t
   | _ \<Rightarrow> False)"

definition misaligned :: "c_int \<Rightarrow> c_int \<Rightarrow> bool" where
  "misaligned va sz \<longleftrightarrow> sz = 4 \<and> va AND 3 \<noteq> 0 \<or> sz = 2 \<and> va AND 1 \<noteq> 0"

definition page_of :: "c_int \<Rightarrow> c_int" where
  "page_of va = va div 128"

definition beyond :: "c_int \<Rightarrow> 'm machine_scheme \<Rightarrow> bool" where
  "beyond va s \<longleftrightarrow> tlb s = None \<and> pageTableSize s \<le> page_of va"

definition frame_address :: "translation_entry \<Rightarrow> c_int \<Rightarrow> c_int" where
  "frame_address e va = physicalPage e * 128 + va mod 128"

definition mmu :: "c_int \<Rightarrow> c_int \<Rightarrow> bool \<Rightarrow> 'm machine_scheme \<Rightarrow> translation" where
  "mmu va sz w s =
    (if misaligned va sz \<or> beyond va s then Trap AddressErrorException
     else case mapping s (page_of va) of
       None \<Rightarrow> Trap PageFaultException
     | Some e \<Rightarrow>
         if readOnly e \<and> w then Trap ReadOnlyException
         else if 256 \<le> physicalPage e then Trap BusErrorException
         else Phys (frame_address e va))"

definition touched :: "bool \<Rightarrow> translation_entry \<Rightarrow> translation_entry" where
  "touched w e = e\<lparr>used := True, dirty := (w \<or> dirty e)\<rparr>"

definition map_after :: "c_int \<Rightarrow> c_int \<Rightarrow> bool \<Rightarrow> 'm machine_scheme \<Rightarrow> c_int \<Rightarrow> translation_entry option"
  where
  "map_after va sz w s = (case mmu va sz w s of
     Trap ex \<Rightarrow> mapping s
   | Phys p \<Rightarrow> (mapping s)(page_of va \<mapsto> touched w (the (mapping s (page_of va)))))"

section \<open>Physical addresses\<close>

lemma low_bits_mod:
  "va AND 3 = 0 \<longleftrightarrow> unat (va :: c_int) mod 4 = 0"
  "va AND 1 = 0 \<longleftrightarrow> unat va mod 2 = 0"
proof -
  have "va AND mask n = 0 \<longleftrightarrow> unat va mod 2 ^ n = 0" for n
  proof -
    have "unat (va AND mask n) = take_bit n (unat va)"
      by (simp add: unsigned_take_bit_eq flip: take_bit_eq_mask)
    then show ?thesis by (metis unat_eq_zero take_bit_eq_mod)
  qed
  from this [of 2] this [of 1] show "va AND 3 = 0 \<longleftrightarrow> unat va mod 4 = 0"
    "va AND 1 = 0 \<longleftrightarrow> unat va mod 2 = 0"
    by (simp_all add: mask_eq_exp_minus_1)
qed

lemma unat_frame_address:
  assumes "physicalPage e < 256"
  shows "unat (frame_address e va) = unat (physicalPage e) * 128 + unat va mod 128"
proof -
  have pp: "unat (physicalPage e) < 256" using assms by (simp add: word_less_nat_alt)
  have off: "unat va mod 128 < 128" by simp
  with pp have "unat (physicalPage e) * 128 + unat va mod 128 < 2 ^ 32" by simp
  with pp show ?thesis
    by (simp add: frame_address_def unat_word_ariths unat_mod)
qed

lemma aligned_offset:
  assumes "\<not> misaligned va sz" and "sz \<in> {1, 2, 4}"
  shows "unat va mod 128 + unat sz \<le> 128"
proof -
  have off: "unat va mod 128 < 128" by simp
  consider "sz = 1" | "sz = 2" | "sz = 4" using assms(2) by auto
  then show ?thesis
  proof cases
    case 1
    with off show ?thesis by simp
  next
    case 2
    then have "unat va mod 2 = 0" using assms(1) low_bits_mod [of va] by (auto simp: misaligned_def)
    then have "unat va mod 128 mod 2 = 0" by (simp add: mod_mod_cancel)
    with 2 off show ?thesis by simp presburger
  next
    case 3
    then have "unat va mod 4 = 0" using assms(1) low_bits_mod [of va] by (auto simp: misaligned_def)
    then have "unat va mod 128 mod 4 = 0" by (simp add: mod_mod_cancel)
    with 3 off show ?thesis by simp presburger
  qed
qed

lemma sint_small:
  assumes "unat (w :: c_int) < 2147483648"
  shows "sint w = int (unat w)"
proof -
  have "int (unat w) < int 2147483648" using assms by (simp only: of_nat_less_iff)
  then have "uint w < 2147483648" by simp
  then show ?thesis using sint_uint_c_int [of w] by simp
qed

lemma frame_address_bounds:
  assumes "physicalPage e < 256" and "\<not> misaligned va sz" and "sz \<in> {1, 2, 4}"
  shows "unat (frame_address e va) + unat sz \<le> 32768"
    and "0 \<le> sint (frame_address e va)"
    and "sint (frame_address e va + sz) \<le> 32768"
proof -
  have pp: "unat (physicalPage e) < 256" using assms(1) by (simp add: word_less_nat_alt)
  show le: "unat (frame_address e va) + unat sz \<le> 32768"
    using pp aligned_offset [OF assms(2,3)] by (simp add: unat_frame_address [OF assms(1)])
  then show "0 \<le> sint (frame_address e va)"
    by (subst sint_small) auto
  have sum: "unat (frame_address e va + sz) = unat (frame_address e va) + unat sz"
    using le by (simp add: unat_word_ariths)
  with le have "sint (frame_address e va + sz) = int (unat (frame_address e va + sz))"
    by (intro sint_small) linarith
  with le sum show "sint (frame_address e va + sz) \<le> 32768"
    by linarith
qed

section \<open>Translate implements the specification\<close>

lemma use_entry_eq:
  assumes "\<not> misaligned va sz" and "sz \<in> {1, 2, 4}"
  shows "use_entry (va mod 128) sz w e =
    Inr (if readOnly e \<and> w then (Trap ReadOnlyException, e)
         else if 256 \<le> physicalPage e then (Trap BusErrorException, e)
         else (Phys (frame_address e va), touched w e))"
proof -
  have big: "256 \<le> uint (physicalPage e) \<longleftrightarrow> 256 \<le> physicalPage e"
    by (simp add: word_le_def)
  have "physicalPage e < 256 \<Longrightarrow> 0 \<le> sint (frame_address e va) \<and>
      sint (frame_address e va + sz) \<le> int MemorySize"
    using frame_address_bounds [OF _ assms] by (simp add: size_defs)
  then show ?thesis
    by (auto simp: use_entry_def Let_def big touched_def not_le frame_address_def size_defs
        simp del: uint_ge_0)
qed

lemma touched_same_page: "same_page e (touched w e)"
  by (simp add: same_page_def touched_def)

text \<open>
  What a call of \<^verbatim>\<open>Translate\<close> does: it returns, with the specified result, and changes nothing but
  the use and dirty bits of the entry it went through.
\<close>

definition translated ::
  "c_int \<Rightarrow> c_int \<Rightarrow> bool \<Rightarrow> 'm machine_scheme \<Rightarrow> 'm machine_scheme \<Rightarrow> bool" where
  "translated va sz w s s' \<longleftrightarrow>
     Translate va sz w s = Inr (mmu va sz w s, s') \<and> translation_ok s' \<and>
     mapping s' = map_after va sz w s \<and> s' = s\<lparr>tlb := tlb s', pageTable := pageTable s'\<rparr> \<and>
     (tlb s' = None) = (tlb s = None)"

lemma translated_unchanged:
  assumes "translation_ok s" and "Translate va sz w s = Inr (Trap ex, s)"
    and "mmu va sz w s = Trap ex"
  shows "translated va sz w s s"
  using assms by (simp add: translated_def map_after_def)

lemma translated_through:
  assumes "\<not> misaligned va sz" and "sz \<in> {1, 2, 4}" and "\<not> beyond va s"
    and e: "mapping s (page_of va) = Some e"
    and run: "Translate va sz w s = and_then (use_entry (va mod 128) sz w e) (\<lambda>(r, e'). Inr (r, put e'))"
    and put: "\<And>e'. same_page e e' \<Longrightarrow> translation_ok (put e') \<and>
      mapping (put e') = (mapping s)(page_of va \<mapsto> e') \<and>
      put e' = s\<lparr>tlb := tlb (put e'), pageTable := pageTable (put e')\<rparr> \<and>
      (tlb (put e') = None) = (tlb s = None)"
  shows "\<exists>s'. translated va sz w s s'"
proof -
  define e' where "e' = (if readOnly e \<and> w \<or> 256 \<le> physicalPage e then e else touched w e)"
  have same: "same_page e e'"
    by (simp add: e'_def touched_same_page) (simp add: same_page_def)
  note p = put [OF same]
  have result: "Translate va sz w s = Inr (mmu va sz w s, put e')"
    using assms(1-4) by (auto simp: run use_entry_eq mmu_def e'_def)
  have "map_after va sz w s = (mapping s)(page_of va \<mapsto> e')"
    using assms(1-4) by (auto simp: map_after_def mmu_def e'_def fun_upd_idem)
  with p [THEN conjunct2, THEN conjunct1] have "mapping (put e') = map_after va sz w s"
    by (simp only:)
  then have "translated va sz w s (put e')"
    unfolding translated_def
    by (intro conjI result p [THEN conjunct1] p [THEN conjunct2, THEN conjunct2, THEN conjunct1]
        p [THEN conjunct2, THEN conjunct2, THEN conjunct2])
  then show ?thesis ..
qed

lemma Translate_implements:
  assumes ok: "translation_ok s" and sz: "sz \<in> {1, 2, 4}"
  shows "\<exists>s'. translated va sz w s s'"
proof (cases "misaligned va sz")
  case True
  then have "translated va sz w s s"
    using ok by (intro translated_unchanged) (auto simp: Translate_def misaligned_def mmu_def)
  then show ?thesis ..
next
  case False
  have v: "va div word_of_nat PageSize = page_of va" "va mod word_of_nat PageSize = va mod 128"
    by (simp_all add: page_of_def size_defs)
  have aligned: "\<not> (sz = 4 \<and> va AND 3 \<noteq> 0 \<or> sz = 2 \<and> va AND 1 \<noteq> 0)"
    using False by (simp add: misaligned_def)
  consider (page) t where "tlb s = None" "pageTable s = Some t" "page_table_ok (pageTableSize s) t"
    | (buffer) t where "tlb s = Some t" "pageTable s = None" "tlb_ok t"
    using ok by (auto simp: translation_ok_def split: option.splits)
  then show ?thesis
  proof cases
    case (page t)
    have map_s: "mapping s = page_lookup (pageTableSize s) t"
      using page by (simp add: mapping_def)
    show ?thesis
    proof (cases "mapping s (page_of va)")
      case None
      then have "Translate va sz w s = Inr (mmu va sz w s, s)" "\<exists>ex. mmu va sz w s = Trap ex"
        using page False page_index [OF page(3), of "page_of va"] unfolding map_s
        by (auto simp: Translate_def aligned mmu_def beyond_def Let_def v page_lookup_def
            map_s not_le split: if_splits)
      then show ?thesis using translated_unchanged [OF ok] by metis
    next
      case (Some e)
      then have inside: "page_of va < pageTableSize s" "valid (t ! unat (page_of va))"
        and e: "t ! unat (page_of va) = e"
        by (auto simp: map_s page_lookup_def split: if_splits)
      then have i: "unat (page_of va) < length t" using page_index [OF page(3)] by simp
      show ?thesis
      proof (rule translated_through [where put = "\<lambda>e'. s\<lparr>pageTable := Some (t[unat (page_of va) := e'])\<rparr>"])
        show "Translate va sz w s = and_then (use_entry (va mod 128) sz w e)
            (\<lambda>(r, e'). Inr (r, s\<lparr>pageTable := Some (t[unat (page_of va) := e'])\<rparr>))"
          using page inside e i by (simp add: Translate_def aligned v Let_def flip: not_less)
        show "\<not> beyond va s" using inside by (simp add: beyond_def not_le)
      qed (use False sz Some page linear.lookup_update [OF page(3)] linear.ok_update [OF page(3)] in
          \<open>auto simp: translation_ok_def mapping_def map_s\<close>)
    qed
  next
    case (buffer t)
    have map_s: "mapping s = tlb_lookup t"
      using buffer by (simp add: mapping_def)
    show ?thesis
    proof (cases "mapping s (page_of va)")
      case None
      then have "Translate va sz w s = Inr (Trap PageFaultException, s)"
        "mmu va sz w s = Trap PageFaultException"
        using buffer False
        by (auto simp: Translate_def aligned mmu_def beyond_def Let_def v map_s tlb_search_eq)
      then show ?thesis using translated_unchanged [OF ok] by metis
    next
      case (Some e)
      have slot: "t ! tlb_slot t (page_of va) = e"
        using buffer.slot_holds [OF buffer(3)] Some by (simp add: map_s)
      show ?thesis
      proof (rule translated_through [where put = "\<lambda>e'. s\<lparr>tlb := Some (t[tlb_slot t (page_of va) := e'])\<rparr>"])
        show "Translate va sz w s = and_then (use_entry (va mod 128) sz w e)
            (\<lambda>(r, e'). Inr (r, s\<lparr>tlb := Some (t[tlb_slot t (page_of va) := e'])\<rparr>))"
          using buffer Some slot by (simp add: Translate_def aligned v Let_def tlb_search_eq map_s)
        show "\<not> beyond va s" using buffer by (simp add: beyond_def)
      qed (use False sz Some buffer buffer.lookup_update [OF buffer(3)] buffer.ok_update [OF buffer(3)] in
          \<open>auto simp: translation_ok_def mapping_def map_s\<close>)
    qed
  qed
qed


section \<open>Stability\<close>

lemma mmu_cong:
  "mapping s = mapping s' \<Longrightarrow> (\<And>a. beyond a s = beyond a s') \<Longrightarrow> mmu va sz w s = mmu va sz w s'"
  by (simp add: mmu_def)

lemma memory_update_transparent [simp]:
  "mapping (s\<lparr>mainMemory := m\<rparr>) = mapping s"
  "translation_ok (s\<lparr>mainMemory := m\<rparr>) = translation_ok s"
  "beyond va (s\<lparr>mainMemory := m\<rparr>) = beyond va s"
  "mmu va sz w (s\<lparr>mainMemory := m\<rparr>) = mmu va sz w s"
proof -
  show m: "mapping (s\<lparr>mainMemory := m\<rparr>) = mapping s"
    by (cases "tlb s") (simp_all add: mapping_def)
  show "translation_ok (s\<lparr>mainMemory := m\<rparr>) = translation_ok s"
    by (cases "tlb s"; cases "pageTable s") (simp_all add: translation_ok_def)
  show b: "beyond va (s\<lparr>mainMemory := m\<rparr>) = beyond va s" for va
    by (simp add: beyond_def)
  show "mmu va sz w (s\<lparr>mainMemory := m\<rparr>) = mmu va sz w s"
    by (rule mmu_cong) (simp_all add: m b)
qed

lemma translated_frame:
  assumes "translated va sz w s s'"
  shows "mainMemory s' = mainMemory s" and "registers s' = registers s"
    and "beyond a s' = beyond a s"
proof -
  have eq: "s' = s\<lparr>tlb := tlb s', pageTable := pageTable s'\<rparr>"
    and none: "(tlb s' = None) = (tlb s = None)"
    using assms unfolding translated_def by (blast+)
  show "mainMemory s' = mainMemory s" "registers s' = registers s"
    by (subst eq, simp)+
  have "pageTableSize s' = pageTableSize s"
    by (subst eq, simp)
  with none show "beyond a s' = beyond a s" by (simp add: beyond_def)
qed

text \<open>A translation never changes what later translations give: the bits it sets do not count.\<close>

lemma mmu_stable:
  assumes "translated va sz w s s'"
  shows "mmu va' sz' w' s' = mmu va' sz' w' s"
proof -
  have "mapping s' = map_after va sz w s"
    using assms by (simp add: translated_def)
  then show ?thesis
    unfolding mmu_def translated_frame(3) [OF assms]
    by (auto simp: map_after_def mmu_def touched_def frame_address_def split: option.splits if_splits)
qed

section \<open>What the memory operations do\<close>

definition read_value :: "host \<Rightarrow> (nat \<Rightarrow> byte) \<Rightarrow> nat \<Rightarrow> c_int \<Rightarrow> c_int" where
  "read_value h mem p sz =
    (if sz = 1 then char_value h (mem p)
     else if sz = 2 then ucast (le16 (mem p) (mem (p + 1)))
     else le32 (mem p) (mem (p + 1)) (mem (p + 2)) (mem (p + 3)))"

definition written :: "(nat \<Rightarrow> byte) \<Rightarrow> nat \<Rightarrow> c_int \<Rightarrow> c_int \<Rightarrow> nat \<Rightarrow> byte" where
  "written mem p sz v =
    (if sz = 1 then mem(p := ucast v)
     else if sz = 2 then mem(p := ucast v, p + 1 := ucast (drop_bit 8 v))
     else mem(p := ucast v, p + 1 := ucast (drop_bit 8 v), p + 2 := ucast (drop_bit 16 v),
              p + 3 := ucast (drop_bit 24 v)))"

lemma ReadMem_phys:
  assumes "translated va sz False s s'" and "mmu va sz False s = Phys p" and "sz \<in> {1, 2, 4}"
  shows "ReadMem h k va sz s = Inr (Some (read_value h (mainMemory s) (unat p) sz), s')"
proof -
  have "Translate va sz False s = Inr (Phys p, s')"
    using assms(1,2) by (simp add: translated_def)
  then show ?thesis
    using assms(3) translated_frame(1) [OF assms(1)]
    by (auto simp: Let_def ReadMem_def read_value_def load_word_little load_short_little)
qed

lemma ReadMem_trap:
  assumes "translated va sz False s s'" and "mmu va sz False s = Trap ex"
  shows "ReadMem h k va sz s = and_then (RaiseException k ex va s') (\<lambda>s. Inr (None, s))"
  using assms by (simp add: ReadMem_def translated_def)

lemma second_byte: "ucast (drop_bit 8 (ucast (v :: c_int) :: c_short)) = (ucast (drop_bit 8 v) :: byte)"
  by (rule bit_word_eqI) (auto simp: bit_simps)

lemma low_byte: "ucast (ucast (v :: c_int) :: c_short) = (ucast v :: byte)"
  by (rule bit_word_eqI) (auto simp: bit_simps)

lemma WriteMem_phys:
  assumes "translated va sz True s s'" and "mmu va sz True s = Phys p" and "sz \<in> {1, 2, 4}"
  shows "WriteMem h k va sz v s =
    Inr (True, s'\<lparr>mainMemory := written (mainMemory s) (unat p) sz v\<rparr>)"
proof -
  have "Translate va sz True s = Inr (Phys p, s')"
    using assms(1,2) by (simp add: translated_def)
  then show ?thesis
    using assms(3) translated_frame(1) [OF assms(1)]
    by (auto simp: Let_def WriteMem_def written_def store_word_little store_short_little second_byte low_byte)
qed

lemma WriteMem_trap:
  assumes "translated va sz True s s'" and "mmu va sz True s = Trap ex"
  shows "WriteMem h k va sz v s = and_then (RaiseException k ex va s') (\<lambda>s. Inr (False, s))"
  using assms by (simp add: WriteMem_def translated_def)

text \<open>A write that reports success went through a valid mapping.\<close>

lemma WriteMem_done:
  assumes "translation_ok s" and "sz \<in> {1, 2, 4}" and "mmu va sz True s = Phys p"
  obtains s' where "translated va sz True s s'"
    and "WriteMem h k va sz v s = Inr (True, s'\<lparr>mainMemory := written (mainMemory s) (unat p) sz v\<rparr>)"
  using Translate_implements [OF assms(1,2)] WriteMem_phys [OF _ assms(3,2)] by blast

lemma mmu_read_of_write: "mmu va sz True s = Phys p \<Longrightarrow> mmu va sz False s = Phys p"
  by (auto simp: mmu_def split: if_splits option.splits)

section \<open>Claims on memory\<close>

lemma read_written:
  assumes "sz \<in> {1, 2, 4}"
  shows "read_value h (written mem p sz v) p sz =
    (if sz = 1 then char_value h (ucast v) else if sz = 2 then ucast (ucast v :: c_short) else v)"
proof -
  have "le16 (ucast v) (ucast (drop_bit 8 v)) = ucast v"
    using le16_bytes [of "ucast v"] by (simp add: second_byte low_byte)
  then show ?thesis
    using assms le32_bytes [of v] by (auto simp: read_value_def written_def)
qed

lemma written_elsewhere: "a < p \<or> p + unat sz \<le> a \<Longrightarrow> sz \<in> {1, 2, 4} \<Longrightarrow> written mem p sz v a = mem a"
  by (auto simp: written_def)

end
