(* ===== verification/Mips_Invariants.thy ===== *)
theory Mips_Invariants
  imports Mips_Exec Mips_Translation
begin

unbundle bit_operations_syntax

text \<open>
  Invariants of the processor. A locale states what an invariant has to satisfy to be kept by
  \<^verbatim>\<open>Machine::OneInstruction\<close>: the switch is gone through once, inside it. It is interpreted for
  the well-formedness of the register file and of the translation tables, and for the contents of
  a protected page frame.
\<close>

lemmas exec_defs =
  exec_ADD_def exec_ADDI_def exec_SUB_def exec_ADDIU_def exec_ADDU_def exec_SUBU_def exec_AND_def
  exec_ANDI_def exec_OR_def exec_ORI_def exec_XOR_def exec_XORI_def exec_NOR_def exec_LUI_def
  exec_SLT_def exec_SLTI_def exec_SLTIU_def exec_SLTU_def exec_SLL_def exec_SLLV_def exec_SRA_def
  exec_SRAV_def exec_SRL_def exec_SRLV_def exec_DIV_def exec_DIVU_def exec_MULT_def exec_MULTU_def
  exec_MFHI_def exec_MFLO_def exec_MTHI_def exec_MTLO_def exec_BEQ_def exec_BNE_def exec_BGTZ_def
  exec_BLEZ_def exec_BGEZ_def exec_BGEZAL_def exec_BLTZ_def exec_BLTZAL_def exec_J_def exec_JAL_def
  exec_JR_def exec_JALR_def exec_LB_def exec_LH_def exec_LW_def exec_LWL_def exec_LWR_def
  exec_SB_def exec_SH_def exec_SW_def exec_SWL_def exec_SWR_def

section \<open>Outcomes\<close>

definition outcome :: "('s \<Rightarrow> bool) \<Rightarrow> ('s \<Rightarrow> bool) \<Rightarrow> 's exec res \<Rightarrow> bool" where
  "outcome mid fin r \<longleftrightarrow> (case r of
     Inl e \<Rightarrow> True
   | Inr (Next s pc lr lv) \<Rightarrow> mid s \<and> unat lr < 32
   | Inr (Return s) \<Rightarrow> fin s)"

lemma outcome_simps [simp]:
  "outcome mid fin (Inl e)"
  "outcome mid fin (Inr (Next s pc lr lv)) \<longleftrightarrow> mid s \<and> unat lr < 32"
  "outcome mid fin (Inr (Return s)) \<longleftrightarrow> fin s"
  by (simp_all add: outcome_def)

lemma outcome_and_then:
  "(\<And>x. r = Inr x \<Longrightarrow> outcome mid fin (f x)) \<Longrightarrow> outcome mid fin (and_then r f)"
  by (cases r) auto

lemma unat_reg_word [simp]: "unat (ucast (b :: byte) :: c_int) = unat b"
  by (simp add: unsigned_ucast_eq unsigned_take_bit_eq take_bit_nat_eq_self_iff
      order_less_trans [OF unsigned_less])

locale execution_invariant =
  fixes h :: host
    and k :: "('q, 'k) simulator_scheme kernel"
    and mid fin :: "('q, 'k) simulator_scheme \<Rightarrow> bool"
  assumes set_reg_keeps: "mid s \<Longrightarrow> n < 34 \<Longrightarrow> mid (set_reg n v s)"
    and read_keeps: "mid s \<Longrightarrow> sz \<in> {1, 2, 4} \<Longrightarrow> ReadMem h k a sz s = Inr (r, s') \<Longrightarrow>
          (case r of None \<Rightarrow> fin s' | Some v \<Rightarrow> mid s')"
    and write_keeps: "mid s \<Longrightarrow> sz \<in> {1, 2, 4} \<Longrightarrow> WriteMem h k a sz v s = Inr (b, s') \<Longrightarrow>
          (if b then mid s' else fin s')"
    and trap_keeps: "mid s \<Longrightarrow> RaiseException k ex a s = Inr s' \<Longrightarrow> fin s'"
    and retire_keeps: "mid s \<Longrightarrow> unat lr < 32 \<Longrightarrow> retire (Next s pc lr lv) = Inr s' \<Longrightarrow> fin s'"
    and inv_mid: "fin s \<Longrightarrow> mid s"
begin

lemma outcome_trap: "mid s \<Longrightarrow> outcome mid fin (trap k ex a s)"
  unfolding trap_def by (rule outcome_and_then) (simp add: trap_keeps)

lemma outcome_reading:
  assumes "mid s" and "sz \<in> {1, 2, 4}" and "\<And>v s. mid s \<Longrightarrow> outcome mid fin (f v s)"
  shows "outcome mid fin (reading h k a sz s f)"
  unfolding reading_def
proof (rule outcome_and_then)
  fix x assume x: "ReadMem h k a sz s = Inr x"
  obtain r s' where "x = (r, s')" by (cases x)
  with read_keeps [OF assms(1,2), of a r s'] x assms(3)
  show "outcome mid fin (case x of (v, s) \<Rightarrow> case v of None \<Rightarrow> Inr (Return s) | Some v \<Rightarrow> f v s)"
    by (simp split: option.splits)
qed

lemma outcome_writing:
  assumes "mid s" and "sz \<in> {1, 2, 4}"
  shows "outcome mid fin (writing_mem h k a sz v pc s)"
  unfolding writing_mem_def
proof (rule outcome_and_then)
  fix x assume x: "WriteMem h k a sz v s = Inr x"
  obtain b s' where "x = (b, s')" by (cases x)
  with write_keeps [OF assms, of a v b s'] x
  show "outcome mid fin (case x of (b, s) \<Rightarrow> if b then Inr (Next s pc 0 0) else Inr (Return s))"
    by (simp split: if_splits)
qed

lemma outcome_steps:
  assumes "mid s" and "decoded_fields i"
  shows "outcome mid fin (to_rd i v pc s)"
    and "outcome mid fin (to_rt i v pc s)"
    and "outcome mid fin (branch_if c i pc s)"
    and "mid (link RetAddrReg s)"
    and "mid (link (unat (rd i)) s)"
    and "mid (set_hi_lo hi lo s)"
  using assms
  by (simp_all add: to_rd_def to_rt_def branch_if_def link_def set_hi_lo_def set_reg_keeps
      decoded_fields_def)

lemma outcome_exec:
  assumes "mid s" and "decoded_fields i"
  shows "outcome mid fin (exec_op oc h k i pc s)"
proof -
  have rt: "unat (ucast (rt i) :: c_int) < 32"
    using assms(2) by (simp add: decoded_fields_def)
  note steps = outcome_steps outcome_trap set_reg_keeps
  show ?thesis
    using assms rt
    by (cases oc)
      (simp_all add: exec_defs Let_def steps outcome_reading outcome_writing outcome_and_then)
qed

theorem OneInstruction_keeps:
  assumes "fin s" and "OneInstruction h k i s = Inr (i', s')"
  shows "fin s'"
proof -
  obtain raw s1 where fetch: "ReadMem h k (registers s PCReg) 4 s = Inr (raw, s1)"
    using assms(2) by (auto simp: OneInstruction_def run_simps)
  show ?thesis
  proof (cases raw)
    case None
    with assms fetch read_keeps [OF inv_mid, OF assms(1) _ fetch] show ?thesis
      by (simp add: OneInstruction_def)
  next
    case (Some v)
    let ?i = "Decode (i\<lparr>instr_value := v\<rparr>)"
    have mid: "mid s1" using read_keeps [OF inv_mid, OF assms(1) _ fetch] Some by simp
    obtain r where run: "exec_op (opCode ?i) h k ?i (registers s1 NextPCReg + 4) s1 = Inr r"
      and ret: "retire r = Inr s'"
      using assms(2) fetch Some by (auto simp: OneInstruction_def run_simps Let_def)
    have "outcome mid fin (Inr r)"
      using outcome_exec [OF mid Decode_fields] run by metis
    then show ?thesis
      using ret retire_keeps by (cases r) (auto simp: retire_def)
  qed
qed

end

end
