(* ===== verification/Mips_Safety.thy ===== *)
theory Mips_Safety
  imports Mips_Invariants
begin

unbundle bit_operations_syntax

text \<open>
  The invariants of the processor and its safety: the register file stays well formed, a page frame
  no writable page leads to keeps its contents, and a step of a well-formed machine stops only
  where the code says so.
\<close>

section \<open>The register file and the tables\<close>

lemma registers_transparent [simp]:
  "mapping (s\<lparr>registers := r\<rparr>) = mapping s"
  "translation_ok (s\<lparr>registers := r\<rparr>) = translation_ok s"
  "mmu va sz w (s\<lparr>registers := r\<rparr>) = mmu va sz w s"
proof -
  show m: "mapping (s\<lparr>registers := r\<rparr>) = mapping s"
    by (cases "tlb s") (simp_all add: mapping_def)
  show "translation_ok (s\<lparr>registers := r\<rparr>) = translation_ok s"
    by (cases "tlb s"; cases "pageTable s") (simp_all add: translation_ok_def)
  show "mmu va sz w (s\<lparr>registers := r\<rparr>) = mmu va sz w s"
    by (rule mmu_cong) (simp_all add: m beyond_def)
qed

lemma status_transparent [simp]:
  "mapping (setStatus st s) = mapping s"
  "translation_ok (setStatus st s) = translation_ok s"
  "registers (setStatus st s) = registers s"
  "mainMemory (setStatus st s) = mainMemory s"
proof -
  show "mapping (setStatus st s) = mapping s"
    by (cases "tlb s") (simp_all add: mapping_def setStatus_def)
  show "translation_ok (setStatus st s) = translation_ok s"
    by (cases "tlb s"; cases "pageTable s") (simp_all add: translation_ok_def setStatus_def)
qed (simp_all add: setStatus_def)

definition load_ok :: "'m machine_scheme \<Rightarrow> bool" where
  "load_ok s \<longleftrightarrow> unat (registers s LoadReg) < 32"

definition cpu_ok :: "'m machine_scheme \<Rightarrow> bool" where
  "cpu_ok s \<longleftrightarrow> registers s 0 = 0 \<and> load_ok s \<and> translation_ok s"

text \<open>The kernel's trap handler leaves the machine well formed, if it comes back.\<close>

definition handler_keeps ::
  "('q, 'k) simulator_scheme kernel \<Rightarrow> (('q, 'k) simulator_scheme \<Rightarrow> bool) \<Rightarrow> bool" where
  "handler_keeps k P \<longleftrightarrow> (\<forall>ex s s'. P s \<longrightarrow> ExceptionHandler k ex s = Inr s' \<longrightarrow> P s')"

lemma DelayedLoad_eq:
  assumes "load_ok s"
  shows "DelayedLoad nr nv s = Inr (s\<lparr>registers := (registers s)
    (unat (registers s LoadReg) := registers s LoadValueReg, LoadReg := nr, LoadValueReg := nv, 0 := 0)\<rparr>)"
proof -
  have "sint (registers s LoadReg) = int (unat (registers s LoadReg))"
    using assms by (intro sint_small) (simp add: load_ok_def)
  then show ?thesis
    using assms by (simp add: DelayedLoad_def Let_def load_ok_def size_defs del: of_nat_unat)
qed

lemma RaiseException_steps:
  assumes "load_ok s" and "translation_ok s"
  obtains s1 where "cpu_ok s1" and "mapping s1 = mapping s" and "mainMemory s1 = mainMemory s"
    and "RaiseException k ex a s = and_then (ExceptionHandler k ex s1) (\<lambda>s. Inr (setStatus UserMode s))"
proof -
  let ?s = "s\<lparr>registers := (registers s)(BadVAddrReg := a)\<rparr>"
  have "load_ok ?s" using assms by (simp add: load_ok_def)
  note eq = DelayedLoad_eq [OF this, of 0 0]
  show thesis
    by (rule that [of "setStatus SystemMode (projr (DelayedLoad 0 0 ?s))"])
      (use assms in \<open>simp_all add: RaiseException_def eq cpu_ok_def load_ok_def\<close>)
qed

lemma cpu_ok_status: "cpu_ok (setStatus st s) = cpu_ok s"
  by (simp add: cpu_ok_def load_ok_def)

lemma RaiseException_keeps:
  assumes "load_ok s" and "translation_ok s" and "handler_keeps k cpu_ok"
    and "RaiseException k ex a s = Inr s'"
  shows "cpu_ok s'"
proof -
  obtain s1 where s1: "cpu_ok s1"
    and "RaiseException k ex a s = and_then (ExceptionHandler k ex s1) (\<lambda>s. Inr (setStatus UserMode s))"
    using RaiseException_steps [OF assms(1,2)] by blast
  with assms(4) obtain s2 where "ExceptionHandler k ex s1 = Inr s2" "s' = setStatus UserMode s2"
    by (auto simp: run_simps)
  with s1 assms(3) show ?thesis by (auto simp: handler_keeps_def cpu_ok_status)
qed

lemma translated_load_ok: "translated va sz w s s' \<Longrightarrow> load_ok s' = load_ok s"
  by (simp add: load_ok_def translated_frame)

lemma ReadMem_cases:
  assumes "translation_ok s" and "sz \<in> {1, 2, 4}"
  obtains s1 where "translated va sz False s s1"
    and "\<exists>v. ReadMem h k va sz s = Inr (Some v, s1)"
  | s1 ex where "translated va sz False s s1"
    and "ReadMem h k va sz s = and_then (RaiseException k ex va s1) (\<lambda>s. Inr (None, s))"
proof -
  obtain s1 where t: "translated va sz False s s1"
    using Translate_implements [OF assms] by blast
  show thesis
  proof (cases "mmu va sz False s")
    case (Trap ex)
    then show thesis using that(2) [OF t] ReadMem_trap [OF t] by blast
  next
    case (Phys p)
    then show thesis using that(1) [OF t] ReadMem_phys [OF t _ assms(2)] by blast
  qed
qed

lemma WriteMem_cases:
  assumes "translation_ok s" and "sz \<in> {1, 2, 4}"
  obtains s1 p where "translated va sz True s s1" and "mmu va sz True s = Phys p"
    and "WriteMem h k va sz v s = Inr (True, s1\<lparr>mainMemory := written (mainMemory s) (unat p) sz v\<rparr>)"
  | s1 ex where "translated va sz True s s1"
    and "WriteMem h k va sz v s = and_then (RaiseException k ex va s1) (\<lambda>s. Inr (False, s))"
proof -
  obtain s1 where t: "translated va sz True s s1"
    using Translate_implements [OF assms] by blast
  show thesis
  proof (cases "mmu va sz True s")
    case (Trap ex)
    then show thesis using that(2) [OF t] WriteMem_trap [OF t] by blast
  next
    case (Phys p)
    then show thesis using that(1) [OF t] WriteMem_phys [OF t _ assms(2)] by blast
  qed
qed

lemma translated_ok: "translated va sz w s s' \<Longrightarrow> translation_ok s'"
  by (simp add: translated_def)

lemma trap_after_translation:
  "translated va sz w s s1 \<Longrightarrow> load_ok s \<Longrightarrow> handler_keeps k cpu_ok \<Longrightarrow>
   RaiseException k ex a s1 = Inr s' \<Longrightarrow> cpu_ok s'"
  by (metis RaiseException_keeps translated_ok translated_load_ok)

lemma load_ok_memory [simp]: "load_ok (s\<lparr>mainMemory := m\<rparr>) = load_ok s"
  by (simp add: load_ok_def)

definition cpu_mid :: "('q, 'k) simulator_scheme kernel \<Rightarrow> ('q, 'k) simulator_scheme \<Rightarrow> bool" where
  "cpu_mid k s \<longleftrightarrow> handler_keeps k cpu_ok \<and> load_ok s \<and> translation_ok s"

definition cpu_inv :: "('q, 'k) simulator_scheme kernel \<Rightarrow> ('q, 'k) simulator_scheme \<Rightarrow> bool" where
  "cpu_inv k s \<longleftrightarrow> handler_keeps k cpu_ok \<and> cpu_ok s"

lemma retire_ok:
  assumes "load_ok s" and "translation_ok s" and "unat lr < 32"
  shows "\<exists>s'. retire (Next s pc lr lv) = Inr s' \<and> cpu_ok s'"
  using assms by (simp add: retire_def DelayedLoad_eq cpu_ok_def load_ok_def)

interpretation cpu: execution_invariant h k "cpu_mid k" "cpu_inv k" for h k
proof
  fix s n v
  assume "cpu_mid k s" and "n < (34 :: nat)"
  then show "cpu_mid k (set_reg n v s)" by (simp add: cpu_mid_def set_reg_def load_ok_def)
next
  fix s sz a r s'
  assume s: "cpu_mid k s" and sz: "sz \<in> {1, 2, 4 :: c_int}" and run: "ReadMem h k a sz s = Inr (r, s')"
  have "translation_ok s" using s by (simp add: cpu_mid_def)
  then show "case r of None \<Rightarrow> cpu_inv k s' | Some v \<Rightarrow> cpu_mid k s'"
    using s run
    by (cases rule: ReadMem_cases [OF _ sz, of _ a h k])
      (auto simp: cpu_mid_def cpu_inv_def translated_load_ok run_simps translated_ok
        dest: trap_after_translation)
next
  fix s sz a v b s'
  assume s: "cpu_mid k s" and sz: "sz \<in> {1, 2, 4 :: c_int}" and run: "WriteMem h k a sz v s = Inr (b, s')"
  have "translation_ok s" using s by (simp add: cpu_mid_def)
  then show "if b then cpu_mid k s' else cpu_inv k s'"
    using s run
    by (cases rule: WriteMem_cases [OF _ sz, of _ a h k v])
      (auto simp: cpu_mid_def cpu_inv_def translated_load_ok run_simps translated_ok
        dest: trap_after_translation)
next
  fix s ex a s'
  assume "cpu_mid k s" and "RaiseException k ex a s = Inr s'"
  then show "cpu_inv k s'" by (auto simp: cpu_mid_def cpu_inv_def dest: RaiseException_keeps)
next
  fix s lr lv pc s'
  assume "cpu_mid k s" and "unat lr < 32" and "retire (Next s pc lr lv) = Inr s'"
  then show "cpu_inv k s'"
    using retire_ok [of s lr pc lv] by (auto simp: cpu_mid_def cpu_inv_def)
next
  fix s
  assume "cpu_inv k s"
  then show "cpu_mid k s" by (simp add: cpu_inv_def cpu_mid_def cpu_ok_def)
qed


section \<open>Where a step may stop\<close>

definition handler_returns :: "('q, 'k) simulator_scheme kernel \<Rightarrow> bool" where
  "handler_returns k \<longleftrightarrow> (\<forall>ex s. cpu_ok s \<longrightarrow> (\<exists>s'. ExceptionHandler k ex s = Inr s' \<and> cpu_ok s'))"

text \<open>The two ways the code has of stopping on an instruction.\<close>

definition stops_in :: "instruction \<Rightarrow> 'm machine_scheme \<Rightarrow> failure \<Rightarrow> bool" where
  "stops_in i s e \<longleftrightarrow>
     e = AssertionFailed \<and> opCode i \<in> {OP_LWL, OP_LWR, OP_SWL, OP_SWR} \<and> (RS i s + extra i) AND 3 \<noteq> 0 \<or>
     e = DivideTrap \<and> opCode i = OP_DIV \<and> sint (RS i s) = - (2 ^ 31) \<and> sint (RT i s) = - 1"

lemma handler_returns_keeps: "handler_returns k \<Longrightarrow> handler_keeps k cpu_ok"
  unfolding handler_returns_def handler_keeps_def by (metis sum.inject(2))

lemma RaiseException_returns:
  assumes "handler_returns k" and "load_ok s" and "translation_ok s"
  shows "\<exists>s'. RaiseException k ex a s = Inr s'"
proof -
  obtain s1 where s1: "cpu_ok s1"
    and run: "RaiseException k ex a s = and_then (ExceptionHandler k ex s1) (\<lambda>s. Inr (setStatus UserMode s))"
    using RaiseException_steps [OF assms(2,3)] by blast
  obtain s2 where "ExceptionHandler k ex s1 = Inr s2"
    using assms(1) s1 by (auto simp: handler_returns_def)
  with run show ?thesis by simp
qed

lemma ReadMem_returns:
  assumes "handler_returns k" and "cpu_mid k s" and sz: "sz \<in> {1, 2, 4}"
  shows "\<exists>r s'. ReadMem h k a sz s = Inr (r, s')"
proof -
  have ok: "translation_ok s" and load: "load_ok s" using assms(2) by (simp_all add: cpu_mid_def)
  show ?thesis
  proof (rule ReadMem_cases [OF ok sz, of a h k])
    fix s1 ex
    assume t: "translated a sz False s s1"
      and run: "ReadMem h k a sz s = and_then (RaiseException k ex a s1) (\<lambda>s. Inr (None, s))"
    obtain s' where "RaiseException k ex a s1 = Inr s'"
      using RaiseException_returns [OF assms(1), of s1 ex a] load t
      by (auto simp: translated_load_ok translated_ok)
    with run show ?thesis by simp
  qed blast+
qed

lemma WriteMem_returns:
  assumes "handler_returns k" and "cpu_mid k s" and sz: "sz \<in> {1, 2, 4}"
  shows "\<exists>r s'. WriteMem h k a sz v s = Inr (r, s')"
proof -
  have ok: "translation_ok s" and load: "load_ok s" using assms(2) by (simp_all add: cpu_mid_def)
  show ?thesis
  proof (rule WriteMem_cases [OF ok sz, of a h k v])
    fix s1 ex
    assume t: "translated a sz True s s1"
      and run: "WriteMem h k a sz v s = and_then (RaiseException k ex a s1) (\<lambda>s. Inr (False, s))"
    obtain s' where "RaiseException k ex a s1 = Inr s'"
      using RaiseException_returns [OF assms(1), of s1 ex a] load t
      by (auto simp: translated_load_ok translated_ok)
    with run show ?thesis by auto
  qed blast+
qed

definition safe :: "(failure \<Rightarrow> bool) \<Rightarrow> 'a res \<Rightarrow> bool" where
  "safe E r \<longleftrightarrow> (\<forall>e. r = Inl e \<longrightarrow> E e)"

lemma safe_simps [simp]:
  "safe E (Inr x)" "safe E (Inl e) \<longleftrightarrow> E e"
  "safe E (to_rd i v pc s)" "safe E (to_rt i v pc s)" "safe E (branch_if c i pc s)"
  by (simp_all add: safe_def to_rd_def to_rt_def branch_if_def)

lemma safe_assert:
  "(b \<Longrightarrow> safe E (f ())) \<Longrightarrow> (\<not> b \<Longrightarrow> E AssertionFailed) \<Longrightarrow> safe E (and_then (assert_that b) f)"
  by (cases b) simp_all

lemma safe_trap:
  "handler_returns k \<Longrightarrow> cpu_mid k s \<Longrightarrow> safe E (trap k ex a s)"
  using RaiseException_returns [of k s ex a] by (auto simp: safe_def trap_def cpu_mid_def run_simps)

lemma safe_reading:
  assumes "handler_returns k" and "cpu_mid k s" and "sz \<in> {1, 2, 4}"
    and "\<And>v s. cpu_mid k s \<Longrightarrow> safe E (f v s)"
  shows "safe E (reading h k a sz s f)"
proof -
  obtain r s' where run: "ReadMem h k a sz s = Inr (r, s')"
    using ReadMem_returns [OF assms(1-3)] by blast
  show ?thesis
    using cpu.read_keeps [OF assms(2,3) run] assms(4) run
    by (cases r) (simp_all add: reading_def)
qed

lemma safe_writing:
  assumes "handler_returns k" and "cpu_mid k s" and "sz \<in> {1, 2, 4}"
  shows "safe E (writing_mem h k a sz v pc s)"
proof -
  obtain b s' where "WriteMem h k a sz v s = Inr (b, s')"
    using WriteMem_returns [OF assms] by blast
  then show ?thesis by (cases b) (simp_all add: writing_mem_def)
qed

lemma safe_exec:
  assumes "handler_returns k" and "cpu_mid k s" and "decoded_fields i"
  shows "safe (stops_in i s) (exec_op (opCode i) h k i pc s)"
proof -
  have "simulated (opCode i)" using assms(3) by (simp add: decoded_fields_def)
  with assms(1,2) show ?thesis
    by (cases "opCode i")
      (simp_all add: exec_defs Let_def simulated_def safe_trap safe_reading safe_writing safe_assert
        stops_in_def)
qed

lemma retire_safe:
  assumes "outcome (cpu_mid k) (cpu_inv k) (Inr r)"
  shows "\<exists>s'. retire r = Inr s'"
proof (cases r)
  case (Next s pc lr lv)
  with assms show ?thesis
    using retire_ok [of s lr pc lv] by (auto simp: cpu_mid_def)
qed (simp add: retire_def)

lemma OneInstruction_stops:
  assumes "handler_returns k" and "cpu_ok s" and "OneInstruction h k i s = Inl e"
  shows "\<exists>raw s1. ReadMem h k (registers s PCReg) 4 s = Inr (Some raw, s1) \<and>
           stops_in (Decode (i\<lparr>instr_value := raw\<rparr>)) s1 e"
proof -
  have inv: "cpu_inv k s"
    using assms(1,2) by (simp add: cpu_inv_def handler_returns_keeps)
  note mid = cpu.inv_mid [OF inv]
  obtain r s1 where fetch: "ReadMem h k (registers s PCReg) 4 s = Inr (r, s1)"
    using ReadMem_returns [OF assms(1) mid, of 4 h "registers s PCReg"] by auto
  with assms(3) obtain raw where raw: "r = Some raw"
    by (cases r) (auto simp: OneInstruction_def)
  with cpu.read_keeps [OF mid _ fetch] have mid1: "cpu_mid k s1" by simp
  let ?i = "Decode (i\<lparr>instr_value := raw\<rparr>)" and ?pc = "registers s1 NextPCReg + 4"
  have step: "and_then (exec_op (opCode ?i) h k ?i ?pc s1) (\<lambda>r. and_then (retire r) (\<lambda>s. Inr (?i, s))) = Inl e"
    using assms(3) fetch raw by (simp add: OneInstruction_def Let_def)
  have "exec_op (opCode ?i) h k ?i ?pc s1 = Inl e"
  proof (cases "exec_op (opCode ?i) h k ?i ?pc s1")
    case (Inr x)
    with cpu.outcome_exec [OF mid1 Decode_fields, of "opCode ?i" h _ ?pc] retire_safe
    have "\<exists>s'. retire x = Inr s'" by metis
    with step Inr show ?thesis by auto
  qed (use step in simp)
  with safe_exec [OF assms(1) mid1 Decode_fields, of _ h ?pc]
  have "stops_in ?i s1 e" by (auto simp: safe_def)
  with fetch raw show ?thesis by blast
qed

section \<open>Page frames no writable page leads to\<close>

definition frame_sealed :: "c_int \<Rightarrow> 'm machine_scheme \<Rightarrow> bool" where
  "frame_sealed f s \<longleftrightarrow> (\<forall>v e. mapping s v = Some e \<longrightarrow> \<not> readOnly e \<longrightarrow> physicalPage e \<noteq> f)"

definition frame_holds :: "c_int \<Rightarrow> (nat \<Rightarrow> byte) \<Rightarrow> 'm machine_scheme \<Rightarrow> bool" where
  "frame_holds f m s \<longleftrightarrow> translation_ok s \<and> frame_sealed f s \<and>
     (\<forall>a < 128. mainMemory s (unat f * 128 + a) = m a)"

lemma sealed_map: "mapping s' = mapping s \<Longrightarrow> frame_sealed f s' = frame_sealed f s"
  by (simp add: frame_sealed_def)

lemma translated_sealed:
  assumes "translated va sz w s s'" and "frame_sealed f s"
  shows "frame_sealed f s'"
proof -
  have "mapping s' = map_after va sz w s" using assms(1) by (simp add: translated_def)
  with assms(2) show ?thesis
    by (auto simp: frame_sealed_def map_after_def mmu_def touched_def split: option.splits if_splits)
qed

lemma translated_holds: "translated va sz w s s' \<Longrightarrow> frame_holds f m s \<Longrightarrow> frame_holds f m s'"
  by (simp add: frame_holds_def translated_sealed translated_ok translated_frame)

lemma frame_holds_registers [simp]: "frame_holds f m (s\<lparr>registers := r\<rparr>) = frame_holds f m s"
  by (simp add: frame_holds_def frame_sealed_def)

lemma frame_holds_status [simp]: "frame_holds f m (setStatus st s) = frame_holds f m s"
  by (simp add: frame_holds_def frame_sealed_def)

lemma DelayedLoad_holds: "DelayedLoad nr nv s = Inr s' \<Longrightarrow> frame_holds f m s' = frame_holds f m s"
  by (auto simp: DelayedLoad_def Let_def split: if_splits)

lemma RaiseException_holds:
  assumes "handler_keeps k (frame_holds f m)" and "frame_holds f m s" and "RaiseException k ex a s = Inr s'"
  shows "frame_holds f m s'"
proof -
  obtain s1 s2 where s1: "DelayedLoad 0 0 (s\<lparr>registers := (registers s)(BadVAddrReg := a)\<rparr>) = Inr s1"
    and s2: "ExceptionHandler k ex (setStatus SystemMode s1) = Inr s2" "s' = setStatus UserMode s2"
    using assms(3) by (auto simp: RaiseException_def run_simps)
  from DelayedLoad_holds [OF s1] assms(2) have "frame_holds f m (setStatus SystemMode s1)" by simp
  with assms(1) s2 show ?thesis unfolding handler_keeps_def by (metis frame_holds_status)
qed

lemma frames_disjoint:
  assumes "f \<noteq> g" and "off + n \<le> 128" and "a < (128 :: nat)"
  shows "unat (f :: c_int) * 128 + a < unat g * 128 + off \<or> unat g * 128 + off + n \<le> unat f * 128 + a"
  using assms by (cases "unat f < unat g") (auto simp: word_unat_eq_iff)

lemma write_holds:
  assumes t: "translated va sz True s s1" and p: "mmu va sz True s = Phys p" and sz: "sz \<in> {1, 2, 4}"
    and holds: "frame_holds f m s"
  shows "frame_holds f m (s1\<lparr>mainMemory := written (mainMemory s) (unat p) sz v\<rparr>)"
proof -
  obtain e where e: "mapping s (page_of va) = Some e" "\<not> readOnly e" "physicalPage e < 256"
    and al: "\<not> misaligned va sz" and pa: "p = frame_address e va"
    using p by (auto simp: mmu_def not_le split: option.splits if_splits)
  then have other: "f \<noteq> physicalPage e" using holds by (auto simp: frame_holds_def frame_sealed_def)
  have "written (mainMemory s) (unat p) sz v (unat f * 128 + a) = m a" if "a < 128" for a
  proof -
    have "written (mainMemory s) (unat p) sz v (unat f * 128 + a) = mainMemory s (unat f * 128 + a)"
      using frames_disjoint [OF other aligned_offset [OF al sz] that] sz
      by (intro written_elsewhere) (auto simp: pa unat_frame_address [OF e(3)])
    with that holds show ?thesis by (simp add: frame_holds_def)
  qed
  with translated_holds [OF t holds] show ?thesis
    by (simp add: frame_holds_def frame_sealed_def)
qed

definition frame_inv ::
  "('q, 'k) simulator_scheme kernel \<Rightarrow> c_int \<Rightarrow> (nat \<Rightarrow> byte) \<Rightarrow> ('q, 'k) simulator_scheme \<Rightarrow> bool" where
  "frame_inv k f m s \<longleftrightarrow> handler_keeps k (frame_holds f m) \<and> frame_holds f m s"

interpretation sealed: execution_invariant h k "frame_inv k f m" "frame_inv k f m" for h k f m
proof
  fix s n v
  assume "frame_inv k f m s" and "n < (34 :: nat)"
  then show "frame_inv k f m (set_reg n v s)" by (simp add: frame_inv_def set_reg_def)
next
  fix s sz a r s'
  assume s: "frame_inv k f m s" and sz: "sz \<in> {1, 2, 4 :: c_int}" and run: "ReadMem h k a sz s = Inr (r, s')"
  have "translation_ok s" using s by (simp add: frame_inv_def frame_holds_def)
  then have "frame_inv k f m s'"
    using s run
    by (cases rule: ReadMem_cases [OF _ sz, of _ a h k])
      (auto simp: frame_inv_def run_simps dest: translated_holds RaiseException_holds)
  then show "case r of None \<Rightarrow> frame_inv k f m s' | Some v \<Rightarrow> frame_inv k f m s'"
    by (simp split: option.split)
next
  fix s sz a v b s'
  assume s: "frame_inv k f m s" and sz: "sz \<in> {1, 2, 4 :: c_int}" and run: "WriteMem h k a sz v s = Inr (b, s')"
  have "translation_ok s" using s by (simp add: frame_inv_def frame_holds_def)
  then have "frame_inv k f m s'"
    using s run
    by (cases rule: WriteMem_cases [OF _ sz, of _ a h k v])
      (auto simp: frame_inv_def run_simps intro: write_holds [OF _ _ sz]
        dest: translated_holds RaiseException_holds)
  then show "if b then frame_inv k f m s' else frame_inv k f m s'" by simp
next
  fix s ex a s'
  assume "frame_inv k f m s" and "RaiseException k ex a s = Inr s'"
  then show "frame_inv k f m s'" by (auto simp: frame_inv_def dest: RaiseException_holds)
next
  fix s lr lv pc s'
  assume "frame_inv k f m s" and "unat lr < 32" and "retire (Next s pc lr lv) = Inr s'"
  then show "frame_inv k f m s'"
    by (auto simp: frame_inv_def retire_def run_simps DelayedLoad_holds)
qed

end
