(* ===== verification/Mips_Semantics.thy ===== *)
theory Mips_Semantics
  imports Mips_Safety
begin

unbundle bit_operations_syntax

text \<open>
  What the instructions compute: overflow detection against the mathematical sum, the extension of
  loaded bytes and halves, the delay slots of loads and branches, precise traps, and that neither
  the byte order nor the signedness of \<^verbatim>\<open>char\<close> of the host shows in a step.
\<close>

section \<open>Overflow\<close>

definition int_range :: "int \<Rightarrow> bool" where
  "int_range x \<longleftrightarrow> - (2 ^ 31) \<le> x \<and> x < 2 ^ 31"

lemma sign_xor: "(a XOR b) AND SIGN_BIT \<noteq> 0 \<longleftrightarrow> (sint (a :: c_int) < 0) \<noteq> (sint b < 0)"
proof -
  have "bit (a XOR b) 31 \<longleftrightarrow> bit a 31 \<noteq> bit b 31"
    by (simp add: bit_simps)
  then show ?thesis
    unfolding SIGN_BIT_def sign_bit_iff
    using bit_last_iff [of "a XOR b"] bit_last_iff [of a] bit_last_iff [of b] by simp
qed

lemma sint_bounds: "- (2 ^ 31) \<le> sint (a :: c_int)" "sint a < 2 ^ 31"
  using sint_ge [of a] sint_lt [of a] by simp_all

lemma sint_plus:
  "sint (a + b :: c_int) = sint a + sint b -
     (if 2 ^ 31 \<le> sint a + sint b then 2 ^ 32 else if sint a + sint b < - (2 ^ 31) then - (2 ^ 32) else 0)"
  using sint_uint_c_int [of a] sint_uint_c_int [of b] sint_uint_c_int [of "a + b"]
    uint_plus_if' [of a b] uint_lt2p [of a] uint_lt2p [of b] uint_ge_0 [of a] uint_ge_0 [of b]
  by (simp split: if_splits del: uint_ge_0 unsigned_greater_eq)

lemma sint_minus:
  "sint (a - b :: c_int) = sint a - sint b -
     (if 2 ^ 31 \<le> sint a - sint b then 2 ^ 32 else if sint a - sint b < - (2 ^ 31) then - (2 ^ 32) else 0)"
  using sint_uint_c_int [of a] sint_uint_c_int [of b] sint_uint_c_int [of "a - b"]
    uint_sub_if' [of a b] uint_lt2p [of a] uint_lt2p [of b] uint_ge_0 [of a] uint_ge_0 [of b]
  by (simp split: if_splits del: uint_ge_0 unsigned_greater_eq)

lemma add_overflow:
  "(\<not> (a XOR b) AND SIGN_BIT \<noteq> 0 \<and> (a XOR (a + b)) AND SIGN_BIT \<noteq> 0) \<longleftrightarrow> \<not> int_range (sint a + sint b)"
  unfolding sign_xor int_range_def sint_plus
  using sint_bounds [of a] sint_bounds [of b] by auto

lemma sub_overflow:
  "((a XOR b) AND SIGN_BIT \<noteq> 0 \<and> (a XOR (a - b)) AND SIGN_BIT \<noteq> 0) \<longleftrightarrow> \<not> int_range (sint a - sint b)"
  unfolding sign_xor int_range_def sint_minus
  using sint_bounds [of a] sint_bounds [of b] by auto

lemma word_of_sint_sum:
  "word_of_int (sint a + sint b) = (a + b :: c_int)" "word_of_int (sint a - sint b) = (a - b :: c_int)"
  by (simp_all only: of_int_add of_int_diff of_int_sint scast_id)

section \<open>Loaded bytes and halves\<close>

lemma word_masks_load:
  "(0x80 :: c_int) = 2 ^ 7" "(0x8000 :: c_int) = 2 ^ 15"
  "(0xffffff00 :: c_int) = NOT (mask 8)" "(0xffff0000 :: c_int) = NOT (mask 16)"
  by (simp_all add: mask_eq_exp_minus_1)

lemma only_7: "7 \<le> n \<Longrightarrow> n < 8 \<Longrightarrow> n = (7 :: nat)"
  by simp

lemma top_bit:
  "bit (b :: byte) n \<Longrightarrow> 7 \<le> n \<Longrightarrow> n = 7 \<and> bit b 7"
  "bit (v :: c_short) n \<Longrightarrow> 15 \<le> n \<Longrightarrow> n = 15 \<and> bit v 15"
proof -
  assume "bit b n" and "7 \<le> n"
  moreover from this have "n = 7" using bit_imp_le_length [of b n] by simp
  ultimately show "n = 7 \<and> bit b 7" by simp
next
  assume "bit v n" and "15 \<le> n"
  moreover from this have "n = 15" using bit_imp_le_length [of v n] by simp
  ultimately show "n = 15 \<and> bit v 15" by simp
qed

lemma loaded_byte:
  "char_value h b AND 0xff = ucast b"
  "(if char_value h b AND 0x80 \<noteq> 0 then char_value h b OR 0xffffff00 else char_value h b AND 0xff) =
   (scast b :: c_int)"
proof -
  show low: "char_value h b AND 0xff = ucast b"
    unfolding masks char_value_def
    by (rule bit_word_eqI) (auto simp: bit_simps min_def dest: top_bit only_7 bit_imp_le_length)
  have sign: "char_value h b AND 0x80 \<noteq> 0 \<longleftrightarrow> bit b 7"
    unfolding word_masks_load and_exp_iff_bit by (simp add: char_value_def bit_simps)
  show "(if char_value h b AND 0x80 \<noteq> 0 then char_value h b OR 0xffffff00
         else char_value h b AND 0xff) = (scast b :: c_int)"
    unfolding sign low unfolding word_masks_load char_value_def
    by (rule bit_word_eqI)
      (auto simp: bit_simps min_def dest: top_bit only_7 only_15 bit_imp_le_length split: if_splits)
qed

lemma loaded_half:
  "(ucast (v :: c_short) :: c_int) AND 0xffff = ucast v"
  "(if ucast v AND 0x8000 \<noteq> (0 :: c_int) then ucast v OR 0xffff0000 else ucast v AND 0xffff) =
   (scast v :: c_int)"
proof -
  show low: "(ucast v :: c_int) AND 0xffff = ucast v"
    unfolding masks by (rule bit_word_eqI) (auto simp: bit_simps dest: bit_imp_le_length)
  have sign: "ucast v AND 0x8000 \<noteq> (0 :: c_int) \<longleftrightarrow> bit v 15"
    unfolding word_masks_load and_exp_iff_bit by (simp add: bit_simps)
  show "(if ucast v AND 0x8000 \<noteq> (0 :: c_int) then ucast v OR 0xffff0000 else ucast v AND 0xffff) =
     (scast v :: c_int)"
    unfolding sign low unfolding word_masks_load
    by (rule bit_word_eqI)
      (auto simp: bit_simps min_def dest: top_bit only_7 only_15 bit_imp_le_length split: if_splits)
qed

lemma Translate_frame:
  "Translate va sz w s = Inr (r, s') \<Longrightarrow> registers s' = registers s \<and> mainMemory s' = mainMemory s"
  by (auto simp: Translate_def Let_def run_simps split: if_splits option.splits prod.splits)

section \<open>The host does not show\<close>

lemma WriteMem_host: "WriteMem h k a sz v s = WriteMem h' k a sz v s"
proof (cases "Translate a sz True s")
  case (Inr x)
  obtain r s1 where "x = (r, s1)" by (cases x)
  with Inr show ?thesis
    by (cases r) (simp_all add: WriteMem_def store_word_little store_short_little Let_def)
qed (simp add: WriteMem_def)

lemma ReadMem_host:
  assumes "sz = 2 \<or> sz = 4"
  shows "ReadMem h k a sz s = ReadMem h' k a sz s"
proof (cases "Translate a sz False s")
  case (Inr x)
  obtain r s1 where "x = (r, s1)" by (cases x)
  with Inr assms show ?thesis
    by (cases r) (auto simp: ReadMem_def load_word_little load_short_little Let_def)
qed (simp add: ReadMem_def)

lemma reading_host: "sz = 2 \<or> sz = 4 \<Longrightarrow> reading h k a sz s f = reading h' k a sz s f"
  using ReadMem_host [of sz h k a s h'] by (simp add: reading_def)

lemma writing_host: "writing_mem h k a sz v pc s = writing_mem h' k a sz v pc s"
  using WriteMem_host [of h k a sz v s h'] by (simp add: writing_mem_def)

text \<open>What \<^verbatim>\<open>LB\<close> and \<^verbatim>\<open>LBU\<close> make of the byte that was read does not depend on the host.\<close>

lemma byte_result:
  "(if char_value h b AND 0x80 \<noteq> 0 \<and> c then char_value h b OR 0xffffff00 else char_value h b AND 0xff) =
   (if c then scast b else ucast b :: c_int)"
  using loaded_byte [of h b] by auto

lemma exec_LB_eq:
  "exec_LB h k i pc s =
    and_then (Translate (RS i s + extra i) 1 False s) (\<lambda>(r, s).
    case r of
      Trap ex \<Rightarrow> trap k ex (registers s (unat (rs i)) + extra i) s
    | Phys p \<Rightarrow> Inr (Next s pc (ucast (rt i))
        (let b = mainMemory s (unat p) in if opCode i = OP_LB then scast b else ucast b)))"
proof (cases "Translate (RS i s + extra i) 1 False s")
  case (Inr x)
  then obtain r s1 where x: "x = (r, s1)" and regs: "registers s1 = registers s"
    using Translate_frame [of "RS i s + extra i" 1 False s "fst x" "snd x"] by (cases x) auto
  show ?thesis
    using Inr x regs
    by (cases r) (simp_all add: exec_LB_def reading_def ReadMem_def Let_def byte_result trap_def and_then_assoc)
qed (simp add: exec_LB_def reading_def ReadMem_def)

lemma exec_LB_host: "exec_LB h k i pc s = exec_LB h' k i pc s"
  by (simp only: exec_LB_eq)

lemma exec_op_host: "exec_op oc h k i pc s = exec_op oc h' k i pc s"
proof -
  note hosts = exec_LB_host [of h k i _ _ h'] reading_host [of 2 h k _ _ _ h'] reading_host [of 4 h k _ _ _ h']
    writing_host [of h k _ _ _ _ _ h']
  show ?thesis
    by (cases oc)
      (simp_all add: exec_LH_def exec_LW_def exec_LWL_def exec_LWR_def exec_SB_def exec_SH_def
        exec_SW_def exec_SWL_def exec_SWR_def Let_def hosts)
qed

section \<open>Precise traps\<close>

definition trapped ::
  "('q, 'k) simulator_scheme kernel \<Rightarrow> ('q, 'k) simulator_scheme \<Rightarrow> ('q, 'k) simulator_scheme exec res \<Rightarrow> bool"
  where
  "trapped k s r \<longleftrightarrow> (\<forall>s'. r = Inr (Return s') \<longrightarrow>
     (\<exists>ex a s1. registers s1 = registers s \<and> mainMemory s1 = mainMemory s \<and> RaiseException k ex a s1 = Inr s'))"

lemma trapped_simps [simp]:
  "trapped k s (Inl e)" "trapped k s (Inr (Next t pc lr lv))"
  "trapped k s (to_rd i v pc t)" "trapped k s (to_rt i v pc t)" "trapped k s (branch_if c i pc t)"
  by (simp_all add: trapped_def to_rd_def to_rt_def branch_if_def)

lemma trapped_trap [simp]: "trapped k s (trap k ex a s)"
  by (auto simp: trapped_def trap_def run_simps)

lemma trapped_assert: "trapped k s (f ()) \<Longrightarrow> trapped k s (and_then (assert_that b) f)"
  by (cases b) simp_all

lemma trapped_reading:
  assumes "\<And>v t. registers t = registers s \<Longrightarrow> mainMemory t = mainMemory s \<Longrightarrow> trapped k s (f v t)"
    and "registers s0 = registers s" "mainMemory s0 = mainMemory s"
  shows "trapped k s (reading h k a sz s0 f)"
proof (cases "Translate a sz False s0")
  case (Inr x)
  then obtain r s1 where x: "x = (r, s1)" "registers s1 = registers s" "mainMemory s1 = mainMemory s"
    using Translate_frame [of a sz False s0 "fst x" "snd x"] assms(2,3) by (cases x) auto
  with Inr assms(1) [OF x(2,3)] show ?thesis
    by (cases r) (auto simp: reading_def ReadMem_def Let_def trapped_def run_simps)
qed (simp add: reading_def ReadMem_def)

lemma trapped_writing:
  assumes "registers s0 = registers s" "mainMemory s0 = mainMemory s"
  shows "trapped k s (writing_mem h k a sz v pc s0)"
proof (cases "Translate a sz True s0")
  case (Inr x)
  then obtain r s1 where x: "x = (r, s1)" "registers s1 = registers s" "mainMemory s1 = mainMemory s"
    using Translate_frame [of a sz True s0 "fst x" "snd x"] assms by (cases x) auto
  with Inr show ?thesis
    by (cases r) (auto simp: writing_mem_def WriteMem_def Let_def trapped_def run_simps)
qed (simp add: writing_mem_def WriteMem_def)

lemma exec_op_trapped: "trapped k s (exec_op oc h k i pc s)"
  by (cases oc) (simp_all add: exec_defs Let_def trapped_reading trapped_writing trapped_assert)

end
