(* ===== verification/Mips_Delay.thy ===== *)
theory Mips_Delay
  imports Mips_Semantics
begin

unbundle bit_operations_syntax

text \<open>
  The delay slots of the processor: a fetched load or branch, from its encoding to the registers
  after the step, and the first and second pages of the run that the claims evaluate.
\<close>

section \<open>Fetching\<close>

lemma unat_ucast5 [simp]:
  "unat (ucast (x :: 5 word) :: byte) = unat x" "unat (ucast (x :: 5 word) :: c_int) = unat x"
  by (simp_all add: unsigned_ucast_eq unsigned_take_bit_eq take_bit_nat_eq_self_iff
      order_less_trans [OF unsigned_less])

lemma ucast5_up [simp]: "ucast (ucast (x :: 5 word) :: byte) = (ucast x :: c_int)"
  by (rule bit_word_eqI) (auto simp: bit_simps dest: bit_imp_le_length)

lemma unat5_less: "unat (x :: 5 word) < 32"
  using unsigned_less [of x] by simp

lemma unat5_zero [simp]: "0 < unat x \<longleftrightarrow> x \<noteq> (0 :: 5 word)"
  by (simp add: unat_gt_0)

lemma fetched:
  assumes "translation_ok s" and "ReadMem h k va 4 s = Inr (Some w, s1)"
  shows "registers s1 = registers s" and "translation_ok s1" and "mainMemory s1 = mainMemory s"
    and "mmu a sz b s1 = mmu a sz b s"
proof -
  have sz: "4 \<in> {1, 2, 4 :: c_int}" by simp
  have "translated va 4 False s s1"
    using assms(2) by (cases rule: ReadMem_cases [OF assms(1) sz, of va h k]) (auto simp: run_simps)
  then show "registers s1 = registers s" "translation_ok s1" "mainMemory s1 = mainMemory s"
    "mmu a sz b s1 = mmu a sz b s"
    by (simp_all add: translated_frame translated_ok mmu_stable)
qed

lemma OneInstruction_fetched:
  assumes "ReadMem h k (registers s PCReg) 4 s = Inr (Some w, s1)"
  shows "OneInstruction h k i s =
    and_then (exec_op (opCode (Decode (i\<lparr>instr_value := w\<rparr>))) h k (Decode (i\<lparr>instr_value := w\<rparr>))
      (registers s1 NextPCReg + 4) s1) (\<lambda>r. and_then (retire r) (\<lambda>s. Inr (Decode (i\<lparr>instr_value := w\<rparr>), s)))"
  using assms by (simp add: OneInstruction_def Let_def)

lemma i_format_op:
  assumes "opTable ! unat oc = (c, IFMT)" and "c \<noteq> SPECIAL" and "c \<noteq> BCOND"
  shows "opCode (Decode (i\<lparr>instr_value := i_format oc s t imm\<rparr>)) = c \<and>
    rs (Decode (i\<lparr>instr_value := i_format oc s t imm\<rparr>)) = ucast s \<and>
    rt (Decode (i\<lparr>instr_value := i_format oc s t imm\<rparr>)) = ucast t \<and>
    extra (Decode (i\<lparr>instr_value := i_format oc s t imm\<rparr>)) = scast imm"
  using Decode_i_format [OF assms(1-3)] by blast

section \<open>The registers after a step\<close>

lemma retire_Next:
  assumes "load_ok s"
  shows "retire (Next s pc lr lv) = Inr (s\<lparr>registers :=
    (registers s)(unat (registers s LoadReg) := registers s LoadValueReg, LoadReg := lr,
      LoadValueReg := lv, 0 := 0, PrevPCReg := registers s PCReg, PCReg := registers s NextPCReg,
      NextPCReg := pc)\<rparr>)"
  using assms by (simp add: retire_def DelayedLoad_eq load_ok_def)

definition commits :: "nat \<Rightarrow> c_int \<Rightarrow> 'm machine_scheme \<Rightarrow> bool" where
  "commits r v s \<longleftrightarrow> (\<forall>nr nv s'. DelayedLoad nr nv s = Inr s' \<longrightarrow> registers s' r = v)"

lemma registers_updated: "registers (s\<lparr>registers := r\<rparr>) = r"
  by simp

lemma read_through_retire:
  assumes "n \<noteq> 0" and "n < 32"
  shows "(r(u := w, LoadReg := a, LoadValueReg := b, 0 := 0, PrevPCReg := c, PCReg := d, NextPCReg := e)) n =
    (if n = u then w else r n)"
  using assms by auto

lemma load_delayed:
  assumes ok: "load_ok s" "translation_ok s"
    and fetch: "ReadMem h k (registers s PCReg) 4 s = Inr (Some (i_format 35 b t imm), s1)"
    and aligned: "(registers s (unat b) + scast imm) AND 3 = 0"
    and phys: "mmu (registers s (unat b) + scast imm) 4 False s = Phys p"
    and t: "t \<noteq> 0"
  defines "v \<equiv> read_value h (mainMemory s) (unat p) 4"
  shows "\<exists>i' s'. OneInstruction h k i s = Inr (i', s') \<and>
    registers s' (unat t) = (if registers s LoadReg = ucast t then registers s LoadValueReg
                             else registers s (unat t)) \<and>
    commits (unat t) v s'"
proof -
  let ?i = "Decode (i\<lparr>instr_value := i_format 35 b t imm\<rparr>)"
  have op: "opTable ! unat (35 :: 6 word) = (OP_LW, IFMT)" by (simp add: opTable_def)
  note i = i_format_op [OF op, where i = i and s = b and t = t and imm = imm, simplified]
  note s1 = fetched [OF ok(2) fetch]
  have four: "4 \<in> {1, 2, 4 :: c_int}" by simp
  obtain s2 where s2: "translated (registers s (unat b) + scast imm) 4 False s1 s2"
    using Translate_implements [OF s1(2) four] by blast
  then have read: "ReadMem h k (registers s (unat b) + scast imm) 4 s1 = Inr (Some v, s2)"
    using ReadMem_phys [OF s2, of p h k] phys s1(3,4) by (simp add: v_def)
  have regs: "registers s2 = registers s" using translated_frame [OF s2] s1 by simp
  have load2: "load_ok s2" using ok(1) by (simp add: load_ok_def regs)
  have "exec_op (opCode ?i) h k ?i (registers s1 NextPCReg + 4) s1 =
      Inr (Next s2 (registers s1 NextPCReg + 4) (ucast t) v)"
    using aligned read s1 i by (simp add: exec_LW_def reading_def Let_def)
  then have run: "OneInstruction h k i s =
      and_then (retire (Next s2 (registers s1 NextPCReg + 4) (ucast t) v)) (\<lambda>s. Inr (?i, s))"
    by (simp add: OneInstruction_fetched [OF fetch])
  define s3 where "s3 = projr (retire (Next s2 (registers s1 NextPCReg + 4) (ucast t) v))"
  have eq: "OneInstruction h k i s = Inr (?i, s3)"
    unfolding run s3_def retire_Next [OF load2] by simp
  have small: "unat t < 32" "unat (registers s LoadReg) < 32"
    using unat5_less ok(1) by (auto simp: load_ok_def)
  have nz: "unat t \<noteq> 0" using t by (simp add: unat_eq_zero)
  have target: "registers s LoadReg = ucast t \<longleftrightarrow> unat t = unat (registers s LoadReg)"
    using word_unat_eq_iff [of "registers s LoadReg" "ucast t"] by auto
  have "registers s3 (unat t) = (if registers s LoadReg = ucast t then registers s LoadValueReg
                             else registers s (unat t))"
    unfolding target s3_def retire_Next [OF load2]
    by (simp only: sum.sel registers_updated read_through_retire [OF nz small(1)] regs)
  moreover have "commits (unat t) v s3"
  proof -
    have "load_ok s3" "registers s3 LoadReg = ucast t" "registers s3 LoadValueReg = v"
      unfolding s3_def retire_Next [OF load2] using small by (auto simp: load_ok_def regs)
    with small(1) nz show ?thesis
      by (auto simp: commits_def DelayedLoad_eq unat_0_iff)
  qed
  ultimately show ?thesis using eq by blast
qed

lemma branch_delayed:
  assumes ok: "load_ok s" "translation_ok s"
    and fetch: "ReadMem h k (registers s PCReg) 4 s = Inr (Some (i_format 4 a b imm), s1)"
  shows "\<exists>i' s'. OneInstruction h k i s = Inr (i', s') \<and>
    registers s' PCReg = registers s NextPCReg \<and>
    registers s' NextPCReg = registers s NextPCReg +
      (if registers s (unat a) = registers s (unat b) then push_bit 2 (scast imm) else 4)"
proof -
  let ?i = "Decode (i\<lparr>instr_value := i_format 4 a b imm\<rparr>)"
  have op: "opTable ! unat (4 :: 6 word) = (OP_BEQ, IFMT)" by (simp add: opTable_def)
  note i = i_format_op [OF op, where i = i and s = a and t = b and imm = imm, simplified]
  note s1 = fetched [OF ok(2) fetch]
  have load1: "load_ok s1" using ok(1) by (simp add: load_ok_def s1)
  have "exec_op (opCode ?i) h k ?i (registers s1 NextPCReg + 4) s1 =
      Inr (Next s1 (registers s NextPCReg +
        (if registers s (unat a) = registers s (unat b) then push_bit 2 (scast imm) else 4)) 0 0)"
    using s1 i by (simp add: exec_BEQ_def branch_if_def IndexToAddr_def)
  then show ?thesis
    using ok(1) by (simp add: OneInstruction_fetched [OF fetch] retire_Next [OF load1] s1 load_ok_def)
qed

end
