(* ===== verification/Mips_Properties.thy ===== *)
theory Mips_Properties
  imports Mips_Delay
begin

unbundle bit_operations_syntax

text \<open>
  The claims on the processor and its memory, over runs of any length where a claim is an
  invariant, each with an instance at a concrete machine: one page, mapped to frame 2, that holds
  the instruction to execute, and a kernel whose handlers come straight back.
\<close>

section \<open>Runs\<close>

text \<open>The loop of \<^verbatim>\<open>Machine::Run\<close> without the clock: one instruction after another.\<close>

definition instruction_step ::
  "host \<Rightarrow> ('q, 'k) simulator_scheme kernel \<Rightarrow> instruction \<times> ('q, 'k) simulator_scheme \<Rightarrow>
   (instruction \<times> ('q, 'k) simulator_scheme) res" where
  "instruction_step h k p = OneInstruction h k (fst p) (snd p)"

interpretation cpu_run: kept_invariant "instruction_step h k" "\<lambda>p. cpu_inv k (snd p)" for h k
  by unfold_locales (auto simp: instruction_step_def dest: cpu.OneInstruction_keeps)

interpretation frame_run: kept_invariant "instruction_step h k" "\<lambda>p. frame_inv k f m (snd p)" for h k f m
  by unfold_locales (auto simp: instruction_step_def dest: sealed.OneInstruction_keeps)

section \<open>The machine of the instances\<close>

definition sample_host :: host where
  "sample_host = \<lparr>HOST_IS_BIG_ENDIAN = False, char_signed = True\<rparr>"

definition sample_kernel :: "unit simulator kernel" where
  "sample_kernel =
    \<lparr>ExceptionHandler = (\<lambda>_ s. Inr s), call_handler = (\<lambda>_ _ s. Inr s), Yield = (\<lambda>s. Inr s)\<rparr>"

definition sample_entry :: translation_entry where
  "sample_entry = \<lparr>virtualPage = 0, physicalPage = 2, valid = True, readOnly = False, used = False,
     dirty = False\<rparr>"

definition sample_state :: "c_int \<Rightarrow> unit simulator" where
  "sample_state w =
    \<lparr>mainMemory = store_word sample_host (\<lambda>_. 0) 256 w, registers = (\<lambda>_. 0)(NextPCReg := 4),
     tlb = None, pageTable = Some [sample_entry], pageTableSize = 1, singleStep = False,
     runUntilTime = 0, stats = Statistics, level = IntOn, pending = (), inHandler = False,
     yieldOnReturn = False, status = UserMode\<rparr>"

definition sample_instruction :: instruction where
  "sample_instruction = \<lparr>instr_value = 0, opCode = OP_SLL, rs = 0, rt = 0, rd = 0, extra = 0\<rparr>"

lemma sample_handlers:
  "handler_returns sample_kernel" "handler_keeps sample_kernel P"
  by (simp_all add: handler_returns_def handler_keeps_def sample_kernel_def)

lemma sample_translation: "translation_ok (sample_state w)"
  by (simp add: translation_ok_def sample_state_def page_table_ok_def)

lemma sample_ok: "cpu_ok (sample_state w)" "load_ok (sample_state w)"
  by (simp_all add: cpu_ok_def load_ok_def sample_translation)
    (simp_all add: sample_state_def)

lemma sample_mapping: "mapping (sample_state w) v = (if v = 0 then Some sample_entry else None)"
  by (simp add: mapping_def sample_state_def page_lookup_def sample_entry_def)

lemma sample_mmu: "mmu 0 4 b (sample_state w) = Phys 256"
  by (simp add: mmu_def misaligned_def beyond_def sample_mapping page_of_def frame_address_def)
    (simp add: sample_entry_def sample_state_def)

lemma sample_fetch: "\<exists>s1. ReadMem sample_host sample_kernel 0 4 (sample_state w) = Inr (Some w, s1)"
proof -
  have sz: "4 \<in> {1, 2, 4 :: c_int}" by simp
  obtain s1 where "translated 0 4 False (sample_state w) s1"
    using Translate_implements [OF sample_translation sz] by blast
  note read = ReadMem_phys [OF this sample_mmu sz, of sample_host sample_kernel]
  have "WordToMachine sample_host w = w"
    by (simp add: WordToMachine_def WordToHost_def sample_host_def)
  then have "mainMemory (sample_state w) = written (\<lambda>_. 0) 256 4 w"
    using store_word_little [of sample_host "\<lambda>_. 0" 256 w]
    by (simp add: sample_state_def written_def)
  then have "read_value sample_host (mainMemory (sample_state w)) 256 4 = w"
    using read_written [OF sz, of sample_host "\<lambda>_. 0" 256 w] by simp
  with read show ?thesis by simp
qed

section \<open>Invariants of a run\<close>

text \<open>
  C1. However many instructions a user program executes, the machine stays well formed: register
  0 reads as zero, the pending load names a general register, and exactly one translation table is
  in place. The kernel's trap handler is assumed to return with such a machine, which is what it is
  written to do.
\<close>

theorem run_keeps_cpu_ok:
  assumes "handler_keeps k cpu_ok" and "cpu_ok s"
  shows "case iterate (instruction_step h k) n (i, s) of Inl e \<Rightarrow> True | Inr (i', s') \<Rightarrow> cpu_ok s'"
proof (cases "iterate (instruction_step h k) n (i, s)")
  case (Inr p)
  have "cpu_inv k (snd p)"
    by (rule cpu_run.iterate_keeps [OF _ Inr]) (simp add: cpu_inv_def assms)
  with Inr show ?thesis by (cases p) (simp add: cpu_inv_def)
qed simp

lemma run_keeps_cpu_ok_witness:
  "case iterate (instruction_step sample_host sample_kernel) 3 (sample_instruction, sample_state 0) of
     Inl e \<Rightarrow> True | Inr (i', s') \<Rightarrow> cpu_ok s'"
  by (rule run_keeps_cpu_ok [OF sample_handlers(2) sample_ok(1)])

text \<open>
  C2. A step of a well-formed machine stops the simulator in two situations only: a partial-word
  load or store whose address is not a multiple of four (the \<^verbatim>\<open>ASSERT\<close>s of those cases), and the
  signed division of the smallest integer by -1, which the host traps. In particular no register
  index and no physical address is ever outside its array, and the last \<^verbatim>\<open>ASSERT\<close> of \<^verbatim>\<open>Translate\<close>
  and the \<^verbatim>\<open>default\<close> of the switch are never reached.
\<close>

theorem step_stops_only_there:
  assumes "handler_returns k" and "cpu_ok s" and "OneInstruction h k i s = Inl e"
  shows "\<exists>raw s1. ReadMem h k (registers s PCReg) 4 s = Inr (Some raw, s1) \<and>
           stops_in (Decode (i\<lparr>instr_value := raw\<rparr>)) s1 e"
  using assms by (rule OneInstruction_stops)

lemma sample_stops:
  "OneInstruction sample_host sample_kernel sample_instruction (sample_state (i_format 34 0 1 1)) =
   Inl AssertionFailed"
proof -
  let ?w = "i_format 34 0 1 1"
  obtain s1 where fetch: "ReadMem sample_host sample_kernel (registers (sample_state ?w) PCReg) 4
      (sample_state ?w) = Inr (Some ?w, s1)"
    using sample_fetch [of ?w] by (auto simp: sample_state_def)
  note s1 = fetched [OF sample_translation fetch]
  have op: "opTable ! unat (34 :: 6 word) = (OP_LWL, IFMT)" by (simp add: opTable_def)
  note i = i_format_op [OF op, where i = sample_instruction and s = 0 and t = 1 and imm = 1, simplified]
  show ?thesis
    by (simp add: OneInstruction_fetched [OF fetch] i exec_LWL_def Let_def s1)
      (simp add: sample_state_def)
qed

lemma step_stops_only_there_witness:
  "\<exists>raw s1. ReadMem sample_host sample_kernel 0 4 (sample_state (i_format 34 0 1 1)) = Inr (Some raw, s1) \<and>
     stops_in (Decode (sample_instruction\<lparr>instr_value := raw\<rparr>)) s1 AssertionFailed"
proof -
  have "registers (sample_state w) PCReg = 0" for w by (simp add: sample_state_def)
  then show ?thesis
    using step_stops_only_there [OF sample_handlers(1) sample_ok(1) sample_stops] by simp
qed

text \<open>
  C3. Memory protection: a page frame that no writable page of the current table leads to keeps
  every byte, whatever the user program executes and for however long, as long as the kernel's own
  handlers leave that frame and that property of the table alone.
\<close>

theorem sealed_frame_kept:
  assumes "handler_keeps k (frame_holds f m)" and "frame_holds f m s"
  shows "case iterate (instruction_step h k) n (i, s) of
    Inl e \<Rightarrow> True | Inr (i', s') \<Rightarrow> (\<forall>a < PageSize. mainMemory s' (unat f * PageSize + a) = m a)"
proof (cases "iterate (instruction_step h k) n (i, s)")
  case (Inr p)
  have "frame_inv k f m (snd p)"
    by (rule frame_run.iterate_keeps [OF _ Inr]) (simp add: frame_inv_def assms)
  with Inr show ?thesis by (cases p) (simp add: frame_inv_def frame_holds_def size_defs)
qed simp

lemma sealed_frame_kept_witness:
  "case iterate (instruction_step sample_host sample_kernel) 2 (sample_instruction, sample_state 7) of
    Inl e \<Rightarrow> True | Inr (i', s') \<Rightarrow> (\<forall>a < PageSize. mainMemory s' (unat (3 :: c_int) * PageSize + a) = (\<lambda>_. 0) a)"
proof (rule sealed_frame_kept [OF sample_handlers(2)])
  show "frame_holds 3 (\<lambda>_. 0) (sample_state 7)"
    unfolding frame_holds_def frame_sealed_def sample_mapping
    by (simp add: sample_translation sample_entry_def)
      (simp add: sample_state_def store_word_def sample_host_def)
qed

section \<open>What a user program can tell\<close>

text \<open>
  C4. A user program cannot tell the host apart: runs on a little- and a big-endian host, with
  signed or unsigned \<^verbatim>\<open>char\<close>, go through the same states.
\<close>

theorem run_host_independent:
  "iterate (instruction_step h k) n p = iterate (instruction_step h' k) n p"
proof -
  have "instruction_step h k = instruction_step h' k"
    unfolding instruction_step_def [abs_def] OneInstruction_def
      ReadMem_host [of 4 h k _ _ h', OF disjI2 [OF refl]] exec_op_host [of _ h k _ _ _ h']
    by (rule refl)
  then show ?thesis by simp
qed

text \<open>
  C7. Traps are precise: when an instruction returns early, the trap to the kernel was raised with
  the registers and the memory as they were before the instruction, so that it can be restarted.
\<close>

theorem traps_are_precise:
  "trapped k s (exec_op (opCode i) h k i pcAfter s)"
  by (rule exec_op_trapped)

section \<open>Virtual memory\<close>

text \<open>
  C5. \<^verbatim>\<open>Translate\<close> implements the specification \<open>mmu\<close> for the page table and the TLB alike: it
  never fails an \<^verbatim>\<open>ASSERT\<close>, reports the exceptions in the specified order of precedence, yields
  the address in the entry's frame otherwise, and changes nothing but the use and dirty bits of
  that entry.
\<close>

theorem Translate_refines_mmu:
  assumes "translation_ok s" and "sz \<in> {1, 2, 4}"
  shows "\<exists>s'. Translate va sz w s = Inr (mmu va sz w s, s') \<and> translation_ok s' \<and>
    mapping s' = map_after va sz w s \<and> mainMemory s' = mainMemory s \<and> registers s' = registers s"
proof -
  obtain s' where "translated va sz w s s'" using Translate_implements [OF assms] by blast
  note t = this [unfolded translated_def]
  show ?thesis
    by (intro exI [of _ s'] conjI translated_frame [OF \<open>translated va sz w s s'\<close>] t [THEN conjunct1]
        t [THEN conjunct2, THEN conjunct1] t [THEN conjunct2, THEN conjunct2, THEN conjunct1])
qed

lemma Translate_refines_mmu_witness:
  "\<exists>s'. Translate 0 4 True (sample_state 5) = Inr (Phys 256, s') \<and> translation_ok s' \<and>
    mapping s' = map_after 0 4 True (sample_state 5) \<and> mainMemory s' = mainMemory (sample_state 5) \<and>
    registers s' = registers (sample_state 5)"
  using Translate_refines_mmu [OF sample_translation, where sz = 4 and va = 0 and w1 = 5 and w = True]
  by (simp add: sample_mmu)

text \<open>
  C6. What is written is read back: after a write of 1, 2 or 4 bytes through a writable page, a
  read of the same address and size succeeds and gives the value, cut to its size.
\<close>

theorem write_then_read:
  assumes "translation_ok s" and "sz \<in> {1, 2, 4}" and "mmu va sz True s = Phys p"
  shows "\<exists>s1 s2. WriteMem h k va sz v s = Inr (True, s1) \<and>
    ReadMem h k va sz s1 =
      Inr (Some (if sz = 1 then char_value h (ucast v) else if sz = 2 then ucast (ucast v :: c_short) else v), s2)"
proof -
  obtain s0 where t: "translated va sz True s s0"
    and w: "WriteMem h k va sz v s = Inr (True, s0\<lparr>mainMemory := written (mainMemory s) (unat p) sz v\<rparr>)"
    using WriteMem_done [OF assms] by blast
  let ?s1 = "s0\<lparr>mainMemory := written (mainMemory s) (unat p) sz v\<rparr>"
  have ok: "translation_ok ?s1" using t by (simp add: translated_ok)
  have "mmu va sz False ?s1 = Phys p"
    using mmu_read_of_write [OF assms(3)] mmu_stable [OF t] by simp
  moreover obtain s2 where "translated va sz False ?s1 s2"
    using Translate_implements [OF ok assms(2)] by blast
  ultimately show ?thesis
    using ReadMem_phys [OF _ _ assms(2), of va ?s1 s2 p h k] w read_written [OF assms(2)] by auto
qed

lemma write_then_read_witness:
  "\<exists>s1 s2. WriteMem sample_host sample_kernel 0 4 0x12345678 (sample_state 5) = Inr (True, s1) \<and>
    ReadMem sample_host sample_kernel 0 4 s1 = Inr (Some 0x12345678, s2)"
  using write_then_read [OF sample_translation _ sample_mmu, where h = sample_host and k = sample_kernel and
      v = "0x12345678"]
  by simp


text \<open>
  Pages mapped to different frames do not interfere: a write through one leaves what a read
  through the other gives unchanged.
\<close>

lemma write_keeps_other_frames:
  assumes "translation_ok s" and "sz \<in> {1, 2, 4}" and "sz' \<in> {1, 2, 4}"
    and "mapping s (page_of va) = Some e" and "mapping s (page_of va') = Some e'"
    and "physicalPage e \<noteq> physicalPage e'"
    and "mmu va sz True s = Phys p" and "mmu va' sz' False s = Phys p'"
  shows "\<exists>x s1 s2 s3. WriteMem h k va sz v s = Inr (True, s1) \<and>
    ReadMem h k va' sz' s = Inr (Some x, s2) \<and> ReadMem h k va' sz' s1 = Inr (Some x, s3)"
proof -
  obtain s0 where t: "translated va sz True s s0"
    and w: "WriteMem h k va sz v s = Inr (True, s0\<lparr>mainMemory := written (mainMemory s) (unat p) sz v\<rparr>)"
    using WriteMem_done [OF assms(1,2,7)] by blast
  let ?m = "written (mainMemory s) (unat p) sz v"
  let ?s1 = "s0\<lparr>mainMemory := ?m\<rparr>"
  have ok: "translation_ok ?s1" using t by (simp add: translated_ok)
  have al: "\<not> misaligned va sz" "\<not> misaligned va' sz'" and small: "physicalPage e < 256" "physicalPage e' < 256"
    and p: "p = frame_address e va" "p' = frame_address e' va'"
    using assms(4,5,7,8) by (auto simp: mmu_def not_le split: if_splits)
  have same: "?m (unat p' + j) = mainMemory s (unat p' + j)" if "j < unat sz'" for j
    using frames_disjoint [OF assms(6) [symmetric] aligned_offset [OF al(1) assms(2)],
        of "unat va' mod 128 + j"] aligned_offset [OF al(2) assms(3)] that assms(2)
    by (intro written_elsewhere) (auto simp: p unat_frame_address small)
  have "read_value h ?m (unat p') sz' = read_value h (mainMemory s) (unat p') sz'"
    using assms(3) same [of 0] same [of 1] same [of 2] same [of 3] by (auto simp: read_value_def)
  moreover obtain s2 s3 where "translated va' sz' False s s2" "translated va' sz' False ?s1 s3"
    using Translate_implements [OF assms(1,3)] Translate_implements [OF ok assms(3)] by blast
  moreover have "mmu va' sz' False ?s1 = Phys p'"
    using assms(8) mmu_stable [OF t] by simp
  ultimately show ?thesis
    using ReadMem_phys [OF _ assms(8,3), of s2 h k] ReadMem_phys [OF _ _ assms(3), of va' ?s1 s3 p' h k] w
    by auto
qed

section \<open>Instructions\<close>

text \<open>
  C8. Overflow is detected exactly: \<^verbatim>\<open>ADD\<close>, \<^verbatim>\<open>ADDI\<close> and \<^verbatim>\<open>SUB\<close> trap if and only if the
  mathematical sum or difference of the signed operands is not a 32-bit integer, and otherwise the
  target register gets it.
\<close>

theorem overflow_exact:
  "exec_op OP_ADD h k i pc s =
     (if int_range (sint (RS i s) + sint (RT i s))
      then to_rd i (word_of_int (sint (RS i s) + sint (RT i s))) pc s else trap k OverflowException 0 s) \<and>
   exec_op OP_ADDI h k i pc s =
     (if int_range (sint (RS i s) + sint (extra i))
      then to_rt i (word_of_int (sint (RS i s) + sint (extra i))) pc s else trap k OverflowException 0 s) \<and>
   exec_op OP_SUB h k i pc s =
     (if int_range (sint (RS i s) - sint (RT i s))
      then to_rd i (word_of_int (sint (RS i s) - sint (RT i s))) pc s else trap k OverflowException 0 s)"
  using add_overflow [of "RS i s" "RT i s"] sub_overflow [of "RS i s" "RT i s"]
    add_overflow [of "extra i" "RS i s"]
  unfolding word_of_sint_sum
  by (simp add: exec_ADD_def exec_ADDI_def exec_SUB_def Let_def add.commute [of "sint (extra i)"]
      add.commute [of "extra i"] xor.commute)

text \<open>
  C9. The multiplications leave the 64-bit product of the operands in \<^verbatim>\<open>Hi\<close> and \<^verbatim>\<open>Lo\<close>, signed
  for \<^verbatim>\<open>MULT\<close> (in two's complement) and unsigned for \<^verbatim>\<open>MULTU\<close>, for all operands.
\<close>

theorem multiplication_exact:
  "(\<exists>hi lo. exec_op OP_MULT h k i pc s = Inr (Next (set_hi_lo hi lo s) pc 0 0) \<and>
      dword hi lo = (sint (RS i s) * sint (RT i s)) mod 2 ^ 64) \<and>
   (\<exists>hi lo. exec_op OP_MULTU h k i pc s = Inr (Next (set_hi_lo hi lo s) pc 0 0) \<and>
      dword hi lo = uint (RS i s) * uint (RT i s))"
  using Mult_signed [of "RS i s" "RT i s"] Mult_unsigned [of "RS i s" "RT i s"]
  by (auto simp: exec_MULT_def exec_MULTU_def Let_def)

lemma sint_of_range: "int_range q \<Longrightarrow> sint (word_of_int q :: c_int) = q"
  by (simp add: int_range_def sint_sbintrunc' signed_take_bit_int_eq_self)

text \<open>
  \<^verbatim>\<open>DIV\<close> truncates towards zero: with a divisor other than zero, and but for the one quotient
  that does not fit, \<^verbatim>\<open>Lo\<close> and \<^verbatim>\<open>Hi\<close> are the quotient and the remainder, the remainder is smaller
  than the divisor and has the sign of the dividend.
\<close>

lemma division_exact:
  assumes "RT i s \<noteq> 0" and "\<not> (sint (RS i s) = - (2 ^ 31) \<and> sint (RT i s) = - 1)"
  shows "\<exists>hi lo. exec_op OP_DIV h k i pc s = Inr (Next (set_hi_lo hi lo s) pc 0 0) \<and>
    sint (RS i s) = sint lo * sint (RT i s) + sint hi \<and> \<bar>sint hi\<bar> < \<bar>sint (RT i s)\<bar> \<and>
    (sint hi = 0 \<or> sgn (sint hi) = sgn (sint (RS i s)))"
proof -
  define a b where "a = sint (RS i s)" and "b = sint (RT i s)"
  have b: "b \<noteq> 0" using assms(1) signed_eq_0_iff [of "RT i s"] by (simp add: b_def)
  have bounds: "- (2 ^ 31) \<le> a" "a < 2 ^ 31" "- (2 ^ 31) \<le> b" "b < 2 ^ 31"
    unfolding a_def b_def by (rule sint_bounds)+
  have r: "a smod b \<in> {- \<bar>b\<bar> + 1..\<bar>b\<bar> - 1}" by (rule smod_int_range [OF b])
  have q: "a sdiv b \<in> {- \<bar>a\<bar>..\<bar>a\<bar>}" by (rule sdiv_int_range)
  have "a sdiv b \<noteq> 2 ^ 31"
  proof
    assume "a sdiv b = 2 ^ 31"
    with q bounds have "a = - (2 ^ 31)" by auto
    moreover from this \<open>a sdiv b = 2 ^ 31\<close> have "b = - 1"
      using int_sdiv_negated_is_minus1 [of a b] by simp
    ultimately show False using assms(2) by (simp add: a_def b_def)
  qed
  with q bounds have "int_range (a sdiv b)" by (auto simp: int_range_def)
  moreover have "int_range (a smod b)" using r bounds by (auto simp: int_range_def)
  moreover have "a = a sdiv b * b + a smod b" by (simp add: sdiv_mult_smod_eq)
  moreover have "a smod b = 0 \<or> sgn (a smod b) = sgn a"
  proof (cases "\<bar>a\<bar> mod \<bar>b\<bar> = 0")
    case False
    moreover have "0 \<le> \<bar>a\<bar> mod \<bar>b\<bar>" using b by simp
    ultimately have "sgn (\<bar>a\<bar> mod \<bar>b\<bar>) = 1" by (intro sgn_pos) linarith
    then show ?thesis by (simp add: smod_int_alt_def sgn_mult)
  qed (simp add: smod_int_alt_def)
  moreover have "exec_op OP_DIV h k i pc s =
      Inr (Next (set_hi_lo (word_of_int (a smod b)) (word_of_int (a sdiv b)) s) pc 0 0)"
    using assms by (auto simp: exec_DIV_def a_def b_def)
  ultimately show ?thesis
    using r unfolding a_def [symmetric] b_def [symmetric]
    by (intro exI [of _ "word_of_int (a smod b)"] exI [of _ "word_of_int (a sdiv b)"])
      (auto simp: sint_of_range)
qed


text \<open>
  Loads of bytes and halves: \<^verbatim>\<open>LB\<close> and \<^verbatim>\<open>LH\<close> deliver the sign extension of what memory holds,
  \<^verbatim>\<open>LBU\<close> and \<^verbatim>\<open>LHU\<close> the zero extension, halves in little-endian order; the value goes through the
  delayed load to the target register.
\<close>

lemma loads_extend:
  assumes "translation_ok s" and "mmu (RS i s + extra i) 1 False s = Phys p"
    and "mmu (RS i s + extra i) 2 False s = Phys q"
  shows "\<exists>s1 s2.
    exec_op OP_LB h k (i\<lparr>opCode := OP_LB\<rparr>) pc s =
      Inr (Next s1 pc (ucast (rt i)) (scast (mainMemory s (unat p)))) \<and>
    exec_op OP_LBU h k (i\<lparr>opCode := OP_LBU\<rparr>) pc s =
      Inr (Next s1 pc (ucast (rt i)) (ucast (mainMemory s (unat p)))) \<and>
    exec_op OP_LH h k (i\<lparr>opCode := OP_LH\<rparr>) pc s =
      Inr (Next s2 pc (ucast (rt i)) (scast (le16 (mainMemory s (unat q)) (mainMemory s (unat q + 1))))) \<and>
    exec_op OP_LHU h k (i\<lparr>opCode := OP_LHU\<rparr>) pc s =
      Inr (Next s2 pc (ucast (rt i)) (ucast (le16 (mainMemory s (unat q)) (mainMemory s (unat q + 1)))))"
proof -
  let ?a = "RS i s + extra i" and ?v = "le16 (mainMemory s (unat q)) (mainMemory s (unat q + 1))"
  obtain s1 s2 where t: "translated ?a 1 False s s1" "translated ?a 2 False s s2"
    using Translate_implements [OF assms(1), of 1 ?a False] Translate_implements [OF assms(1), of 2 ?a False]
    by auto
  have "\<not> misaligned ?a 2" using assms(3) by (auto simp: mmu_def split: if_splits)
  moreover have "ReadMem h k ?a 2 s = Inr (Some (ucast ?v), s2)"
    using ReadMem_phys [OF t(2) assms(3)] by (simp add: read_value_def)
  ultimately have half: "exec_LH h k (i\<lparr>opCode := c\<rparr>) pc s =
      Inr (Next s2 pc (ucast (rt i)) (if c = OP_LH then scast ?v else ucast ?v))" for c
    using loaded_half [of ?v] by (auto simp: exec_LH_def reading_def Let_def misaligned_def)
  have "Translate ?a 1 False s = Inr (Phys p, s1)" using t(1) assms(2) by (simp add: translated_def)
  then have byte: "exec_LB h k (i\<lparr>opCode := c\<rparr>) pc s =
      Inr (Next s1 pc (ucast (rt i)) (if c = OP_LB then scast (mainMemory s (unat p))
        else ucast (mainMemory s (unat p))))" for c
    by (simp add: exec_LB_eq translated_frame [OF t(1)])
  from half byte show ?thesis by (intro exI [of _ s1] exI [of _ s2]) simp
qed

section \<open>Delay slots\<close>

text \<open>
  C10. The load delay slot: a fetched \<^verbatim>\<open>LW\<close> of an aligned, mapped word leaves its target register
  as it was (or with the value of a load that was pending for it), so that the next instruction
  still reads the old value; the next delayed load, which every instruction and every trap does at
  its end, puts the word read in it.
\<close>

theorem load_delay_slot:
  assumes "load_ok s" and "translation_ok s"
    and "ReadMem h k (registers s PCReg) 4 s = Inr (Some (i_format 35 b t imm), s1)"
    and "(registers s (unat b) + scast imm) AND 3 = 0"
    and "mmu (registers s (unat b) + scast imm) 4 False s = Phys p" and "t \<noteq> 0"
  shows "\<exists>i' s'. OneInstruction h k i s = Inr (i', s') \<and>
    registers s' (unat t) = (if registers s LoadReg = ucast t then registers s LoadValueReg
                             else registers s (unat t)) \<and>
    (\<forall>nr nv s''. DelayedLoad nr nv s' = Inr s'' \<longrightarrow>
       registers s'' (unat t) = read_value h (mainMemory s) (unat p) 4)"
  using load_delayed [OF assms] by (simp add: commits_def)

lemma load_delay_slot_witness:
  "\<exists>i' s'. OneInstruction sample_host sample_kernel sample_instruction (sample_state (i_format 35 0 1 0)) =
      Inr (i', s') \<and>
    registers s' 1 = 0 \<and>
    (\<forall>nr nv s''. DelayedLoad nr nv s' = Inr s'' \<longrightarrow>
       registers s'' 1 = read_value sample_host (mainMemory (sample_state (i_format 35 0 1 0))) 256 4)"
proof -
  let ?s = "sample_state (i_format 35 0 1 0)"
  have regs: "registers ?s n = (if n = NextPCReg then 4 else 0)" for n
    by (simp add: sample_state_def)
  obtain s1 where "ReadMem sample_host sample_kernel (registers ?s PCReg) 4 ?s =
      Inr (Some (i_format 35 0 1 0), s1)"
    using sample_fetch [of "i_format 35 0 1 0"] by (auto simp: regs)
  from load_delay_slot [OF sample_ok(2) sample_translation this, of 256 sample_instruction] show ?thesis
    by (simp add: sample_mmu regs)
qed

text \<open>
  C11. The branch delay slot: a fetched \<^verbatim>\<open>BEQ\<close> hands control to the instruction after it first, and
  makes the one after that the target, the address of the delay slot plus four times the signed
  offset, exactly if the two registers are equal.
\<close>

theorem branch_delay_slot:
  assumes "load_ok s" and "translation_ok s"
    and "ReadMem h k (registers s PCReg) 4 s = Inr (Some (i_format 4 a b imm), s1)"
  shows "\<exists>i' s'. OneInstruction h k i s = Inr (i', s') \<and>
    registers s' PCReg = registers s NextPCReg \<and>
    registers s' NextPCReg = registers s NextPCReg +
      (if registers s (unat a) = registers s (unat b) then push_bit 2 (scast imm) else 4)"
  using assms by (rule branch_delayed)

lemma branch_delay_slot_witness:
  "\<exists>i' s'. OneInstruction sample_host sample_kernel sample_instruction (sample_state (i_format 4 0 1 (- 3))) =
      Inr (i', s') \<and> registers s' PCReg = 4 \<and> registers s' NextPCReg = - 8"
proof -
  let ?s = "sample_state (i_format 4 0 1 (- 3))"
  have regs: "registers ?s n = (if n = NextPCReg then 4 else 0)" for n
    by (simp add: sample_state_def)
  obtain s1 where "ReadMem sample_host sample_kernel (registers ?s PCReg) 4 ?s =
      Inr (Some (i_format 4 0 1 (- 3)), s1)"
    using sample_fetch [of "i_format 4 0 1 (- 3)"] by (auto simp: regs)
  from branch_delay_slot [OF sample_ok(2) sample_translation this, of sample_instruction] show ?thesis
    by (simp add: regs)
qed

section \<open>Decoding\<close>

text \<open>
  C12. The decoder is total and its fields are within bounds: for each of the 2^32 words the
  operation code has a case in the simulator and the three register numbers are below 32; it undoes
  the encoding of the register format.
\<close>

theorem Decode_total:
  "decoded_fields (Decode i) \<and>
   Decode (i\<lparr>instr_value := r_format s t d sh f\<rparr>) =
     i\<lparr>instr_value := r_format s t d sh f, opCode := specialTable ! unat f,
       rs := ucast s, rt := ucast t, rd := ucast d, extra := ucast sh\<rparr>"
  by (simp add: Decode_fields Decode_r_format)

text \<open>
  The decoder undoes the encoding of the immediate format: the row of the main table gives the
  operation, the fields the registers, and the immediate is sign extended to 32 bits.
\<close>

lemma Decode_immediate:
  assumes "opTable ! unat oc = (c, IFMT)" and "c \<noteq> BCOND"
  shows "opCode (Decode (i\<lparr>instr_value := i_format oc s t imm\<rparr>)) = c \<and>
    rs (Decode (i\<lparr>instr_value := i_format oc s t imm\<rparr>)) = ucast s \<and>
    rt (Decode (i\<lparr>instr_value := i_format oc s t imm\<rparr>)) = ucast t \<and>
    extra (Decode (i\<lparr>instr_value := i_format oc s t imm\<rparr>)) = scast imm"
proof -
  have "\<forall>p \<in> set opTable. snd p = IFMT \<longrightarrow> fst p \<noteq> SPECIAL" by (simp add: opTable_def)
  moreover have "opTable ! unat oc \<in> set opTable" using unsigned_less [of oc] by (intro nth_mem) simp
  ultimately have "c \<noteq> SPECIAL" using assms(1) by force
  with assms show ?thesis by (intro i_format_op)
qed

end
