(* ===== verification/Interrupts.thy ===== *)
theory Interrupts
  imports Mips_Memory
begin

text \<open>
  The interrupt simulation (\<^verbatim>\<open>machine/interrupt.cc\<close>): simulated time, the pending interrupts and
  their delivery. The list of pending interrupts is the kernel's; what the code relies on is stated
  as \<open>sorted_list\<close>. A loop that drains the due interrupts may run forever when a handler keeps
  scheduling, so the operations that drain return an option, \<open>None\<close> for a run that does not end.
\<close>

section \<open>The operations\<close>

definition ChangeLevel :: "IntStatus \<Rightarrow> IntStatus \<Rightarrow> ('q, 'k) simulator_scheme \<Rightarrow> ('q, 'k) simulator_scheme" where
  "ChangeLevel old now s = s\<lparr>level := now\<rparr>"

definition Schedule ::
  "'q list_ops \<Rightarrow> int_handler \<Rightarrow> c_int \<Rightarrow> int \<Rightarrow> IntType \<Rightarrow> ('q, 'k) simulator_scheme \<Rightarrow>
   ('q, 'k) simulator_scheme res" where
  "Schedule L h a fromNow ty s =
    (let t = totalTicks (stats s) + fromNow;
         toOccur = \<lparr>handler = h, arg = a, when = t, type = ty\<rparr>
     in and_then (assert_that (0 < fromNow)) (\<lambda>_.
        Inr (s\<lparr>pending := SortedInsert L toOccur t (pending s)\<rparr>)))"

definition YieldOnReturn :: "('q, 'k) simulator_scheme \<Rightarrow> ('q, 'k) simulator_scheme res" where
  "YieldOnReturn s = and_then (assert_that (inHandler s)) (\<lambda>_. Inr (s\<lparr>yieldOnReturn := True\<rparr>))"

text \<open>The end of \<^verbatim>\<open>CheckIfDue\<close>: the interrupt \<open>p\<close> is delivered.\<close>

definition deliver ::
  "('q, 'k) simulator_scheme kernel \<Rightarrow> pending_interrupt \<Rightarrow> ('q, 'k) simulator_scheme \<Rightarrow>
   ('q, 'k) simulator_scheme res" where
  "deliver k p s =
    (let old = status s
     in and_then (if status s = UserMode then DelayedLoad 0 0 s else Inr s) (\<lambda>s.
        and_then (call_handler k (handler p) (arg p) (s\<lparr>inHandler := True, status := SystemMode\<rparr>)) (\<lambda>s.
        Inr (s\<lparr>status := old, inHandler := False\<rparr>))))"

definition CheckIfDue ::
  "'q list_ops \<Rightarrow> ('q, 'k) simulator_scheme kernel \<Rightarrow> bool \<Rightarrow> ('q, 'k) simulator_scheme \<Rightarrow>
   (bool \<times> ('q, 'k) simulator_scheme) res" where
  "CheckIfDue L k advanceClock s =
    and_then (assert_that (level s = IntOff)) (\<lambda>_.
    case SortedRemove L (pending s) of
      (None, q) \<Rightarrow> Inr (False, s\<lparr>pending := q\<rparr>)
    | (Some (toOccur, t), q) \<Rightarrow>
        (let now = totalTicks (stats s);
             reinserted = SortedInsert L toOccur t q
         in if \<not> advanceClock \<and> now < t then Inr (False, s\<lparr>pending := reinserted\<rparr>)
            else
              (let s1 = s\<lparr>pending := q\<rparr>;
                   s2 = (if now < t
                         then s1\<lparr>stats := (stats s)\<lparr>idleTicks := idleTicks (stats s) + (t - now),
                                                      totalTicks := t\<rparr>\<rparr>
                         else s1)
               in if status s = IdleMode \<and> type toOccur = TimerInt \<and> IsEmpty L q
                  then Inr (False, s2\<lparr>pending := reinserted\<rparr>)
                  else and_then (deliver k toOccur s2) (\<lambda>s. Inr (True, s)))))"

text \<open>The loop \<^verbatim>\<open>while (CheckIfDue(FALSE))\<close>.\<close>

partial_function (option) drain ::
  "'q list_ops \<Rightarrow> ('q, 'k) simulator_scheme kernel \<Rightarrow> ('q, 'k) simulator_scheme \<Rightarrow>
   ('q, 'k) simulator_scheme res option" where
  "drain L k s =
    (case CheckIfDue L k False s of
       Inl e \<Rightarrow> Some (Inl e)
     | Inr r \<Rightarrow> if fst r then drain L k (snd r) else Some (Inr (snd r)))"

definition advance_clock :: "('q, 'k) simulator_scheme \<Rightarrow> ('q, 'k) simulator_scheme" where
  "advance_clock s =
    (if status s = SystemMode
     then s\<lparr>stats := (stats s)\<lparr>totalTicks := totalTicks (stats s) + SystemTick,
                              systemTicks := systemTicks (stats s) + SystemTick\<rparr>\<rparr>
     else s\<lparr>stats := (stats s)\<lparr>totalTicks := totalTicks (stats s) + UserTick,
                              userTicks := userTicks (stats s) + UserTick\<rparr>\<rparr>)"

definition after_drain ::
  "('q, 'k) simulator_scheme kernel \<Rightarrow> MachineStatus \<Rightarrow> ('q, 'k) simulator_scheme \<Rightarrow>
   ('q, 'k) simulator_scheme res" where
  "after_drain k old s =
    (let s = ChangeLevel IntOff IntOn s
     in if yieldOnReturn s
        then and_then (Yield k (s\<lparr>yieldOnReturn := False, status := SystemMode\<rparr>)) (\<lambda>s.
             Inr (s\<lparr>status := old\<rparr>))
        else Inr s)"

definition OneTick ::
  "'q list_ops \<Rightarrow> ('q, 'k) simulator_scheme kernel \<Rightarrow> ('q, 'k) simulator_scheme \<Rightarrow>
   ('q, 'k) simulator_scheme res option" where
  "OneTick L k s =
    Option.bind (drain L k (ChangeLevel IntOn IntOff (advance_clock s))) (\<lambda>r.
    Some (and_then r (after_drain k (status s))))"

definition SetLevel ::
  "'q list_ops \<Rightarrow> ('q, 'k) simulator_scheme kernel \<Rightarrow> IntStatus \<Rightarrow> ('q, 'k) simulator_scheme \<Rightarrow>
   (IntStatus \<times> ('q, 'k) simulator_scheme) res option" where
  "SetLevel L k now s =
    (let old = level s
     in if \<not> (now = IntOff \<or> \<not> inHandler s) then Some (Inl AssertionFailed)
        else
          (let s1 = ChangeLevel old now s
           in if now = IntOn \<and> old = IntOff
              then Option.bind (OneTick L k s1) (\<lambda>r. Some (and_then r (\<lambda>s. Inr (old, s))))
              else Some (Inr (old, s1))))"

definition Enable ::
  "'q list_ops \<Rightarrow> ('q, 'k) simulator_scheme kernel \<Rightarrow> ('q, 'k) simulator_scheme \<Rightarrow>
   ('q, 'k) simulator_scheme res option" where
  "Enable L k s =
    Option.bind (SetLevel L k IntOn s) (\<lambda>r. Some (and_then r (\<lambda>p. Inr (snd p))))"

text \<open>\<^verbatim>\<open>Halt\<close> prints the statistics and ends the program.\<close>

definition Halt :: "('q, 'k) simulator_scheme \<Rightarrow> ('q, 'k) simulator_scheme res" where
  "Halt s = Inl NoReturn"

definition Idle ::
  "'q list_ops \<Rightarrow> ('q, 'k) simulator_scheme kernel \<Rightarrow> ('q, 'k) simulator_scheme \<Rightarrow>
   ('q, 'k) simulator_scheme res option" where
  "Idle L k s =
    (case CheckIfDue L k True (s\<lparr>status := IdleMode\<rparr>) of
       Inl e \<Rightarrow> Some (Inl e)
     | Inr r \<Rightarrow>
         if fst r then
           Option.bind (drain L k (snd r)) (\<lambda>r.
           Some (and_then r (\<lambda>s. Inr (s\<lparr>yieldOnReturn := False, status := SystemMode\<rparr>))))
         else Some (Halt (snd r)))"

section \<open>What the code relies on in the kernel's list\<close>

text \<open>
  A list of items sorted by key: \<open>contents\<close> is the multiset it holds, an insertion adds an item,
  a removal takes one with the smallest key.
\<close>

definition sorted_list :: "'q list_ops \<Rightarrow> ('q \<Rightarrow> (int \<times> pending_interrupt) multiset) \<Rightarrow> bool" where
  "sorted_list L contents \<longleftrightarrow>
     (\<forall>p t q. contents (SortedInsert L p t q) = add_mset (t, p) (contents q)) \<and>
     (\<forall>q q'. SortedRemove L q = (None, q') \<longrightarrow> contents q = {#} \<and> contents q' = {#}) \<and>
     (\<forall>q p t q'. SortedRemove L q = (Some (p, t), q') \<longrightarrow>
        contents q = add_mset (t, p) (contents q') \<and> (\<forall>x \<in># contents q. t \<le> fst x)) \<and>
     (\<forall>q. IsEmpty L q \<longleftrightarrow> contents q = {#})"

lemma sorted_list_insert:
  "sorted_list L C \<Longrightarrow> C (SortedInsert L p t q) = add_mset (t, p) (C q)"
  by (simp add: sorted_list_def)

lemma sorted_list_none:
  "sorted_list L C \<Longrightarrow> SortedRemove L q = (None, q') \<Longrightarrow> C q = {#} \<and> C q' = {#}"
  unfolding sorted_list_def by blast

lemma sorted_list_some:
  "sorted_list L C \<Longrightarrow> SortedRemove L q = (Some (p, t), q') \<Longrightarrow>
   C q = add_mset (t, p) (C q') \<and> (\<forall>x \<in># C q. t \<le> fst x)"
  unfolding sorted_list_def by blast

lemma sorted_list_empty: "sorted_list L C \<Longrightarrow> IsEmpty L q \<longleftrightarrow> C q = {#}"
  by (simp add: sorted_list_def)

text \<open>The interrupts that are due at the current time.\<close>

definition due :: "('q \<Rightarrow> (int \<times> pending_interrupt) multiset) \<Rightarrow> ('q, 'k) simulator_scheme \<Rightarrow>
  (int \<times> pending_interrupt) multiset" where
  "due C s = filter_mset (\<lambda>x. fst x \<le> totalTicks (stats s)) (C (pending s))"

section \<open>One check\<close>

text \<open>
  A check that does not advance the clock has exactly two outcomes: nothing is due (or only the
  timer of an idle machine) and the pending interrupts are as before, or the earliest interrupt,
  which is due, leaves the list and is delivered.
\<close>

lemma CheckIfDue_cases:
  assumes L: "sorted_list L C" and off: "level s = IntOff"
  obtains q where "CheckIfDue L k False s = Inr (False, s\<lparr>pending := q\<rparr>)" and "C q = C (pending s)"
      and "due C s = {#} \<or> status s = IdleMode \<and> (\<exists>t p. C (pending s) = {#(t, p)#} \<and> type p = TimerInt)"
  | t p q where "CheckIfDue L k False s = and_then (deliver k p (s\<lparr>pending := q\<rparr>)) (\<lambda>s. Inr (True, s))"
      and "C (pending s) = add_mset (t, p) (C q)" and "t \<le> totalTicks (stats s)"
      and "\<forall>x \<in># C (pending s). t \<le> fst x"
proof -
  obtain r q where rem: "SortedRemove L (pending s) = (r, q)" by (cases "SortedRemove L (pending s)")
  show thesis
  proof (cases r)
    case None
    then have "C (pending s) = {#}" "C q = {#}"
      using rem sorted_list_none [OF L] by auto
    with None rem off show thesis
      by (intro that(1) [of q]) (auto simp: CheckIfDue_def due_def)
  next
    case (Some x)
    obtain p t where x: "x = (p, t)" by (cases x)
    then have mem: "C (pending s) = add_mset (t, p) (C q)" "\<forall>x \<in># C (pending s). t \<le> fst x"
      using rem Some sorted_list_some [OF L] by blast+
    let ?whole = "SortedInsert L p t q"
    have reinserted: "C ?whole = C (pending s)" by (simp add: sorted_list_insert [OF L] mem(1))
    show thesis
    proof (cases "totalTicks (stats s) < t")
      case True
      then have "due C s = {#}"
        using mem(2) by (force simp: due_def)
      with True Some x rem off reinserted show thesis
        by (intro that(1) [of ?whole]) (auto simp: CheckIfDue_def)
    next
      case False
      show thesis
      proof (cases "status s = IdleMode \<and> type p = TimerInt \<and> IsEmpty L q")
        case True
        then have "C (pending s) = {#(t, p)#}"
          using mem(1) by (simp add: sorted_list_empty [OF L])
        with True False Some x rem off reinserted show thesis
          by (intro that(1) [of ?whole]) (auto simp: CheckIfDue_def)
      next
        case go: False
        show thesis
          by (rule that(2) [of p q t]) (use go False Some x rem off mem in \<open>auto simp: CheckIfDue_def\<close>)
      qed
    qed
  qed
qed


section \<open>Delivery\<close>

lemma DelayedLoad_frame:
  fixes s :: "('q, 'k) simulator_scheme"
  assumes "DelayedLoad nr nv s = Inr s'"
  shows "level s' = level s" and "stats s' = stats s" and "pending s' = pending s"
    and "status s' = status s" and "inHandler s' = inHandler s"
  using assms by (auto simp: DelayedLoad_def Let_def split: if_splits)

text \<open>
  The context an interrupt handler is called in: interrupts off, in the kernel, and marked so that
  the handler cannot turn interrupts on.
\<close>

definition handler_context :: "('q, 'k) simulator_scheme \<Rightarrow> bool" where
  "handler_context s \<longleftrightarrow> level s = IntOff \<and> inHandler s \<and> status s = SystemMode"

lemma deliver_calls:
  assumes "deliver k p s = Inr s'" and "level s = IntOff"
  obtains s1 s2 where "handler_context s1" and "stats s1 = stats s" and "pending s1 = pending s"
    and "call_handler k (handler p) (arg p) s1 = Inr s2"
    and "s' = s2\<lparr>status := status s, inHandler := False\<rparr>"
proof -
  obtain s0 where s0: "(if status s = UserMode then DelayedLoad 0 0 s else Inr s) = Inr s0"
    and call: "and_then (call_handler k (handler p) (arg p) (s0\<lparr>inHandler := True, status := SystemMode\<rparr>))
      (\<lambda>t. Inr (t\<lparr>status := status s, inHandler := False\<rparr>)) = Inr s'"
    using assms(1) by (auto simp: deliver_def Let_def run_simps)
  have "level s0 = level s" "stats s0 = stats s" "pending s0 = pending s"
    using s0 DelayedLoad_frame [of 0 0 s s0] by (auto split: if_splits)
  moreover obtain s2 where "call_handler k (handler p) (arg p) (s0\<lparr>inHandler := True, status := SystemMode\<rparr>) = Inr s2"
    "s' = s2\<lparr>status := status s, inHandler := False\<rparr>"
    using call by (auto simp: run_simps)
  ultimately show thesis
    using assms(2) by (intro that [of "s0\<lparr>inHandler := True, status := SystemMode\<rparr>" s2])
      (simp_all add: handler_context_def)
qed

text \<open>
  What the kernel's handlers keep to: they leave interrupts off, do not move the clock and schedule
  only what is not due yet (\<open>Schedule\<close> asserts it).
\<close>

definition handlers_ok ::
  "('q \<Rightarrow> (int \<times> pending_interrupt) multiset) \<Rightarrow> ('q, 'k) simulator_scheme kernel \<Rightarrow> bool" where
  "handlers_ok C k \<longleftrightarrow> (\<forall>h a s s'. handler_context s \<longrightarrow> call_handler k h a s = Inr s' \<longrightarrow>
     level s' = IntOff \<and> totalTicks (stats s') = totalTicks (stats s) \<and> due C s' \<subseteq># due C s)"

lemma deliver_ok:
  assumes "handlers_ok C k" and "deliver k p s = Inr s'" and "level s = IntOff"
  shows "level s' = IntOff" and "totalTicks (stats s') = totalTicks (stats s)"
    and "due C s' \<subseteq># due C s" and "status s' = status s"
proof -
  obtain s1 s2 where c: "handler_context s1" "stats s1 = stats s" "pending s1 = pending s"
    "call_handler k (handler p) (arg p) s1 = Inr s2" "s' = s2\<lparr>status := status s, inHandler := False\<rparr>"
    using deliver_calls [OF assms(2,3)] by blast
  have "level s2 = IntOff \<and> totalTicks (stats s2) = totalTicks (stats s1) \<and> due C s2 \<subseteq># due C s1"
    using assms(1) c(1,4) unfolding handlers_ok_def by blast
  moreover have "due C s' = due C s2" "due C s1 = due C s" using c by (simp_all add: due_def)
  ultimately show "level s' = IntOff" "totalTicks (stats s') = totalTicks (stats s)"
    "due C s' \<subseteq># due C s" "status s' = status s"
    using c by simp_all
qed

section \<open>Draining the due interrupts ends\<close>

lemma drain_unfold:
  "CheckIfDue L k False s = Inl e \<Longrightarrow> drain L k s = Some (Inl e)"
  "CheckIfDue L k False s = Inr (False, s') \<Longrightarrow> drain L k s = Some (Inr s')"
  "CheckIfDue L k False s = Inr (True, s') \<Longrightarrow> drain L k s = drain L k s'"
  by (simp_all add: drain.simps [of L k s])

definition drained :: "('q \<Rightarrow> (int \<times> pending_interrupt) multiset) \<Rightarrow> ('q, 'k) simulator_scheme \<Rightarrow> bool" where
  "drained C s \<longleftrightarrow> due C s = {#} \<or>
     status s = IdleMode \<and> (\<exists>t p. C (pending s) = {#(t, p)#} \<and> type p = TimerInt)"

lemma drain_ends:
  assumes L: "sorted_list L C" and k: "handlers_ok C k" and "level s = IntOff"
  shows "\<exists>r. drain L k s = Some r \<and> (\<forall>s'. r = Inr s' \<longrightarrow> drained C s' \<and> level s' = IntOff \<and>
    totalTicks (stats s') = totalTicks (stats s) \<and> status s' = status s)"
  using assms(3)
proof (induction "size (due C s)" arbitrary: s rule: less_induct)
  case less
  from L less.prems show ?case
  proof (cases rule: CheckIfDue_cases [where k = k])
    case (1 q)
    then show ?thesis
      using less.prems by (auto simp: drain_unfold(2) drained_def due_def)
  next
    case (2 t p q)
    let ?s = "s\<lparr>pending := q\<rparr>"
    show ?thesis
    proof (cases "deliver k p ?s")
      case (Inl e)
      with 2 show ?thesis by (simp add: drain_unfold(1))
    next
      case (Inr s')
      have off: "level ?s = IntOff" using less.prems by simp
      note d = deliver_ok [OF k Inr off]
      have "due C s = add_mset (t, p) (due C ?s)" using 2 by (simp add: due_def)
      then have "size (due C s') < size (due C s)"
        using size_mset_mono [OF d(3)] by simp
      from less.hyps [OF this d(1)] show ?thesis
        using 2 Inr d by (auto simp: drain_unfold(3))
    qed
  qed
qed

lemma OneTick_ends:
  assumes "sorted_list L C" and "handlers_ok C k"
  shows "\<exists>r. OneTick L k s = Some r"
  using drain_ends [OF assms, of "ChangeLevel IntOn IntOff (advance_clock s)"]
  by (auto simp: OneTick_def ChangeLevel_def)

section \<open>What every check keeps, the loop keeps\<close>

lemma drain_keeps_all:
  assumes step: "\<And>L k s b s'. I L k s \<Longrightarrow> CheckIfDue L k False s = Inr (b, s') \<Longrightarrow> I L k s'"
    and "drain L k s = Some r" and "I L k s" and "r = Inr s'"
  shows "I L k s'"
proof -
  have "I L k s \<longrightarrow> (\<forall>s'. r = Inr s' \<longrightarrow> I L k s')"
  proof (rule drain.raw_induct [OF _ assms(2), where P = "\<lambda>L k s r. I L k s \<longrightarrow> (\<forall>s'. r = Inr s' \<longrightarrow> I L k s')"])
    fix dr L k s r
    assume IH: "\<And>L k s r. dr L k s = Some r \<Longrightarrow> I L k s \<longrightarrow> (\<forall>s'. r = Inr s' \<longrightarrow> I L k s')"
      and run: "(case CheckIfDue L k False s of Inl e \<Rightarrow> Some (Inl e)
        | Inr r \<Rightarrow> if fst r then dr L k (snd r) else Some (Inr (snd r))) = Some r"
    then show "I L k s \<longrightarrow> (\<forall>s'. r = Inr s' \<longrightarrow> I L k s')"
      by (cases "CheckIfDue L k False s") (auto split: if_splits dest: step)
  qed
  with assms(3,4) show ?thesis by blast
qed

lemma drain_keeps:
  assumes step: "\<And>s b s'. I s \<Longrightarrow> CheckIfDue L k False s = Inr (b, s') \<Longrightarrow> I s'"
    and "I s" and "drain L k s = Some (Inr s')"
  shows "I s'"
proof -
  have "(\<lambda>L' k' s. L' = L \<and> k' = k \<and> I s) L k s'"
    by (rule drain_keeps_all [OF _ assms(3)]) (use step assms(2) in auto)
  then show ?thesis by simp
qed

end
