(* ===== verification/Interrupt_Clock.thy ===== *)
theory Interrupt_Clock
  imports Interrupts
begin

text \<open>
  The interrupt simulation as a state machine: the operations of the class are the steps, and what
  they keep of the statistics is proved once, in a locale whose assumptions name the three ways the
  simulation itself moves the clock and what the kernel's code has to keep.
\<close>

section \<open>Invariants of the statistics\<close>

locale clock_invariant =
  fixes k :: "('q, 'k) simulator_scheme kernel"
    and P :: "statistics \<Rightarrow> bool"
  assumes handler_keeps: "P (stats s) \<Longrightarrow> call_handler k h a s = Inr s' \<Longrightarrow> P (stats s')"
    and yield_keeps: "P (stats s) \<Longrightarrow> Yield k s = Inr s' \<Longrightarrow> P (stats s')"
    and system_tick: "P st \<Longrightarrow> P (st\<lparr>totalTicks := totalTicks st + SystemTick,
                                   systemTicks := systemTicks st + SystemTick\<rparr>)"
    and user_tick: "P st \<Longrightarrow> P (st\<lparr>totalTicks := totalTicks st + UserTick,
                                 userTicks := userTicks st + UserTick\<rparr>)"
    and idle_until: "P st \<Longrightarrow> totalTicks st < t \<Longrightarrow>
                       P (st\<lparr>idleTicks := idleTicks st + (t - totalTicks st), totalTicks := t\<rparr>)"
begin

lemma deliver_keeps:
  assumes "deliver k p s = Inr s'" and "P (stats s)"
  shows "P (stats s')"
proof -
  obtain s0 s2 where s0: "(if status s = UserMode then DelayedLoad 0 0 s else Inr s) = Inr s0"
    and call: "call_handler k (handler p) (arg p) (s0\<lparr>inHandler := True, status := SystemMode\<rparr>) = Inr s2"
    and s': "s' = s2\<lparr>status := status s, inHandler := False\<rparr>"
    using assms(1) by (auto simp: deliver_def Let_def run_simps)
  have "stats s0 = stats s" using s0 DelayedLoad_frame(2) by (auto split: if_splits)
  then have "P (stats s2)" using handler_keeps [OF _ call] assms(2) by simp
  then show ?thesis by (simp add: s')
qed

lemma CheckIfDue_keeps: "P (stats s) \<Longrightarrow> CheckIfDue L k adv s = Inr (b, s') \<Longrightarrow> P (stats s')"
  unfolding CheckIfDue_def
  by (auto simp: run_simps Let_def idle_until split: prod.splits option.splits if_splits
      elim!: deliver_keeps)

lemma drain_keeps_stats: "P (stats s) \<Longrightarrow> drain L k s = Some (Inr s') \<Longrightarrow> P (stats s')"
  by (rule drain_keeps [where I = "\<lambda>s. P (stats s)" and L = L and k = k and s = s])
    (auto intro: CheckIfDue_keeps)

lemma after_drain_keeps: "P (stats s) \<Longrightarrow> after_drain k old s = Inr s' \<Longrightarrow> P (stats s')"
  by (auto simp: after_drain_def ChangeLevel_def Let_def run_simps split: if_splits dest!: yield_keeps [rotated])

lemma OneTick_keeps:
  assumes "P (stats s)" and "OneTick L k s = Some (Inr s')"
  shows "P (stats s')"
proof -
  obtain s1 where d: "drain L k (ChangeLevel IntOn IntOff (advance_clock s)) = Some (Inr s1)"
    and a: "after_drain k (status s) s1 = Inr s'"
    using assms(2) by (auto simp: OneTick_def Option.bind_eq_Some_conv run_simps)
  have "P (stats (ChangeLevel IntOn IntOff (advance_clock s)))"
    using assms(1) by (simp add: ChangeLevel_def advance_clock_def system_tick user_tick)
  from after_drain_keeps [OF drain_keeps_stats [OF this d] a] show ?thesis .
qed

lemma SetLevel_keeps:
  assumes "P (stats s)" and "SetLevel L k l s = Some (Inr (old, s'))"
  shows "P (stats s')"
proof -
  have "P (stats (ChangeLevel (level s) l s))" using assms(1) by (simp add: ChangeLevel_def)
  with assms(2) OneTick_keeps show ?thesis
    by (fastforce simp: SetLevel_def Let_def Option.bind_eq_Some_conv run_simps split: if_splits)
qed

lemma Idle_keeps:
  assumes "P (stats s)" and "Idle L k s = Some (Inr s')"
  shows "P (stats s')"
proof -
  obtain s1 s2 where c: "CheckIfDue L k True (s\<lparr>status := IdleMode\<rparr>) = Inr (True, s1)"
    and d: "drain L k s1 = Some (Inr s2)" and s': "s' = s2\<lparr>yieldOnReturn := False, status := SystemMode\<rparr>"
    using assms(2) by (auto simp: Idle_def Halt_def Option.bind_eq_Some_conv run_simps split: sum.splits if_splits)
  have "P (stats s1)" using CheckIfDue_keeps [OF _ c] assms(1) by simp
  then have "P (stats s2)" by (rule drain_keeps_stats [OF _ d])
  then show ?thesis by (simp add: s')
qed

end

section \<open>The state machine\<close>

text \<open>One operation of the class \<^verbatim>\<open>Interrupt\<close>, called by the processor or by the kernel.\<close>

inductive interrupt_step ::
  "'q list_ops \<Rightarrow> ('q, 'k) simulator_scheme kernel \<Rightarrow> ('q, 'k) simulator_scheme \<Rightarrow>
   ('q, 'k) simulator_scheme \<Rightarrow> bool" for L k where
  tick: "OneTick L k s = Some (Inr s') \<Longrightarrow> interrupt_step L k s s'"
| level: "SetLevel L k l s = Some (Inr (old, s')) \<Longrightarrow> interrupt_step L k s s'"
| idle: "Idle L k s = Some (Inr s') \<Longrightarrow> interrupt_step L k s s'"
| schedule: "Schedule L h a n ty s = Inr s' \<Longrightarrow> interrupt_step L k s s'"
| yield: "YieldOnReturn s = Inr s' \<Longrightarrow> interrupt_step L k s s'"

inductive_cases interrupt_stepE: "interrupt_step L k s s'"

definition interrupt_run ::
  "'q list_ops \<Rightarrow> ('q, 'k) simulator_scheme kernel \<Rightarrow> ('q, 'k) simulator_scheme \<Rightarrow>
   ('q, 'k) simulator_scheme \<Rightarrow> bool" where
  "interrupt_run L k = (interrupt_step L k)^**"

context clock_invariant
begin

lemma interrupt_step_keeps: "interrupt_step L k s s' \<Longrightarrow> P (stats s) \<Longrightarrow> P (stats s')"
proof (induction rule: interrupt_step.induct)
  case (schedule h a n ty s s')
  then show ?case by (auto simp: Schedule_def Let_def run_simps)
next
  case (yield s s')
  then show ?case by (auto simp: YieldOnReturn_def run_simps)
qed (auto intro: OneTick_keeps SetLevel_keeps Idle_keeps)

lemma interrupt_run_keeps: "interrupt_run L k s s' \<Longrightarrow> P (stats s) \<Longrightarrow> P (stats s')"
  unfolding interrupt_run_def
  by (induction rule: rtranclp_induct) (auto intro: interrupt_step_keeps)

end

section \<open>Every tick is accounted for\<close>

text \<open>
  The time that has passed since the counters read \<open>st0\<close> is the sum of the idle, system and user
  ticks counted since.
\<close>

definition accounted :: "statistics \<Rightarrow> statistics \<Rightarrow> bool" where
  "accounted st0 st \<longleftrightarrow>
     totalTicks st - totalTicks st0 = (idleTicks st - idleTicks st0) + (systemTicks st - systemTicks st0) +
       (userTicks st - userTicks st0) \<and>
     totalTicks st0 \<le> totalTicks st \<and> idleTicks st0 \<le> idleTicks st \<and>
     systemTicks st0 \<le> systemTicks st \<and> userTicks st0 \<le> userTicks st"

text \<open>The kernel's handlers and its scheduler call the simulation, so they account for time too.\<close>

definition kernel_accounts :: "('q, 'k) simulator_scheme kernel \<Rightarrow> bool" where
  "kernel_accounts k \<longleftrightarrow>
     (\<forall>h a s s'. call_handler k h a s = Inr s' \<longrightarrow> accounted (stats s) (stats s')) \<and>
     (\<forall>s s'. Yield k s = Inr s' \<longrightarrow> accounted (stats s) (stats s'))"

lemma accounted_refl: "accounted st st"
  by (simp add: accounted_def)

lemma accounted_trans: "accounted st0 st1 \<Longrightarrow> accounted st1 st2 \<Longrightarrow> accounted st0 st2"
  by (auto simp: accounted_def)

lemma kernel_accountsD:
  "kernel_accounts k \<Longrightarrow> call_handler k h a s = Inr s' \<Longrightarrow> accounted (stats s) (stats s')"
  "kernel_accounts k \<Longrightarrow> Yield k s = Inr s' \<Longrightarrow> accounted (stats s) (stats s')"
  unfolding kernel_accounts_def by blast+

lemma accounted_tick:
  "accounted st0 st \<Longrightarrow> accounted st0 (st\<lparr>totalTicks := totalTicks st + SystemTick,
     systemTicks := systemTicks st + SystemTick\<rparr>)"
  "accounted st0 st \<Longrightarrow> accounted st0 (st\<lparr>totalTicks := totalTicks st + UserTick,
     userTicks := userTicks st + UserTick\<rparr>)"
  "accounted st0 st \<Longrightarrow> totalTicks st < t \<Longrightarrow>
     accounted st0 (st\<lparr>idleTicks := idleTicks st + (t - totalTicks st), totalTicks := t\<rparr>)"
  by (simp_all add: accounted_def SystemTick_def UserTick_def)

interpretation clock: clock_invariant k "\<lambda>st. kernel_accounts k \<and> accounted st0 st" for k st0
  by unfold_locales
    (use accounted_trans kernel_accountsD in blast, use accounted_trans kernel_accountsD in blast,
      simp_all add: accounted_tick)

end
