(* ===== verification/Device_Interface.thy ===== *)
theory Device_Interface
  imports Interrupts
begin

text \<open>
  The contract of the asynchronous devices: a request is accepted only by an idle device, makes it
  busy and schedules one completion interrupt in the future; the completion makes it idle. Clients
  rely on what follows: a busy device has exactly one completion on its way, an idle one none.
\<close>

section \<open>Scheduling\<close>

lemma Schedule_effect:
  assumes "sorted_list L C" and "Schedule L h a n ty s = Inr s'"
  shows "C (pending s') = add_mset (totalTicks (stats s) + n,
      \<lparr>handler = h, arg = a, when = totalTicks (stats s) + n, type = ty\<rparr>) (C (pending s))"
    and "0 < n" and "stats s' = stats s" and "level s' = level s" and "due C s' = due C s"
    and "inHandler s' = inHandler s" and "status s' = status s"
proof -
  have n: "0 < n" and s': "s' = s\<lparr>pending := SortedInsert L
      \<lparr>handler = h, arg = a, when = totalTicks (stats s) + n, type = ty\<rparr> (totalTicks (stats s) + n) (pending s)\<rparr>"
    using assms(2) by (auto simp: Schedule_def Let_def run_simps)
  show "0 < n" by (rule n)
  show c: "C (pending s') = add_mset (totalTicks (stats s) + n,
      \<lparr>handler = h, arg = a, when = totalTicks (stats s) + n, type = ty\<rparr>) (C (pending s))"
    by (simp add: s' sorted_list_insert [OF assms(1)])
  show "stats s' = stats s" "level s' = level s" "inHandler s' = inHandler s" "status s' = status s"
    by (simp_all add: s')
  show "due C s' = due C s"
    using c n by (simp add: due_def s')
qed

lemma Schedule_returns: "0 < n \<Longrightarrow> \<exists>s'. Schedule L h a n ty s = Inr s'"
  by (simp add: Schedule_def Let_def)

section \<open>The contract\<close>

text \<open>The pending interrupts of one device: those for its handler with its address.\<close>

definition outstanding ::
  "('q \<Rightarrow> (int \<times> pending_interrupt) multiset) \<Rightarrow> int_handler \<Rightarrow> c_int \<Rightarrow> ('q, 'k) simulator_scheme \<Rightarrow> nat"
  where
  "outstanding C h this s =
    size (filter_mset (\<lambda>x. handler (snd x) = h \<and> arg (snd x) = this) (C (pending s)))"

text \<open>
  A device seen from outside: it is asked for something, its completion interrupt is delivered (and
  leaves the list), or the rest of the machine moves on and leaves this device's interrupts alone.
\<close>

inductive device_step ::
  "('q \<Rightarrow> (int \<times> pending_interrupt) multiset) \<Rightarrow> int_handler \<Rightarrow>
   ('a \<Rightarrow> c_int \<Rightarrow> 'd \<Rightarrow> ('q, 'k) simulator_scheme \<Rightarrow> ('d \<times> ('q, 'k) simulator_scheme) res) \<Rightarrow>
   ('d \<Rightarrow> 'd) \<Rightarrow> c_int \<Rightarrow> 'd \<times> ('q, 'k) simulator_scheme \<Rightarrow> 'd \<times> ('q, 'k) simulator_scheme \<Rightarrow> bool"
  for C irq request complete this where
  requested: "request a this d s = Inr (d', s') \<Longrightarrow> device_step C irq request complete this (d, s) (d', s')"
| completed: "C (pending s) = add_mset (t, p) (C q) \<Longrightarrow> handler p = irq \<Longrightarrow> arg p = this \<Longrightarrow>
    device_step C irq request complete this (d, s) (complete d, s\<lparr>pending := q\<rparr>)"
| elsewhere: "outstanding C irq this s' = outstanding C irq this s \<Longrightarrow>
    device_step C irq request complete this (d, s) (d, s')"

inductive_cases device_stepE: "device_step C irq request complete this (d, s) (d', s')"

locale async_device =
  fixes L :: "'q list_ops"
    and C :: "'q \<Rightarrow> (int \<times> pending_interrupt) multiset"
    and irq :: int_handler
    and busy :: "'d \<Rightarrow> bool"
    and request :: "'a \<Rightarrow> c_int \<Rightarrow> 'd \<Rightarrow> ('q, 'k) simulator_scheme \<Rightarrow> ('d \<times> ('q, 'k) simulator_scheme) res"
    and complete :: "'d \<Rightarrow> 'd"
  assumes request_idle: "request a this d s = Inr (d', s') \<Longrightarrow> \<not> busy d \<and> busy d'"
    and request_schedules: "sorted_list L C \<Longrightarrow> request a this d s = Inr (d', s') \<Longrightarrow>
          \<exists>t ty. totalTicks (stats s) < t \<and> totalTicks (stats s') = totalTicks (stats s) \<and>
            C (pending s') = add_mset (t, \<lparr>handler = irq, arg = this, when = t, type = ty\<rparr>) (C (pending s))"
    and request_busy: "busy d \<Longrightarrow> request a this d s = Inl AssertionFailed"
    and complete_idle: "\<not> busy (complete d)"
begin

definition one_completion :: "c_int \<Rightarrow> 'd \<Rightarrow> ('q, 'k) simulator_scheme \<Rightarrow> bool" where
  "one_completion this d s \<longleftrightarrow> outstanding C irq this s = (if busy d then 1 else 0)"

lemma request_keeps:
  assumes "sorted_list L C" and "one_completion this d s" and "request a this d s = Inr (d', s')"
  shows "one_completion this d' s'"
  using assms request_idle [OF assms(3)] request_schedules [OF assms(1,3)]
  by (auto simp: one_completion_def outstanding_def)

text \<open>The completion, when the clock delivers the interrupt: it leaves the list first.\<close>

lemma complete_keeps:
  assumes "one_completion this d s" and "C (pending s) = add_mset (t, p) (C q)"
    and "handler p = irq" and "arg p = this"
  shows "busy d" and "one_completion this (complete d) (s\<lparr>pending := q\<rparr>)"
  using assms complete_idle [of d] by (auto simp: one_completion_def outstanding_def split: if_splits)

text \<open>A request that succeeds twice without a completion in between is impossible.\<close>

lemma no_overlap: "request a this d s = Inr (d', s') \<Longrightarrow> request a' this d' s'' = Inl AssertionFailed"
  by (rule request_busy, drule request_idle) (erule conjunct2)

lemma step_keeps:
  assumes "sorted_list L C" and "device_step C irq request complete this (d, s) (d', s')"
    and "one_completion this d s"
  shows "one_completion this d' s'"
  using assms(2)
proof (rule device_stepE)
  fix a
  assume "request a this d s = Inr (d', s')"
  then show ?thesis by (rule request_keeps [OF assms(1,3)])
next
  fix t p q
  assume "d' = complete d" "s' = s\<lparr>pending := q\<rparr>" "C (pending s) = add_mset (t, p) (C q)" "handler p = irq" "arg p = this"
  then show ?thesis using complete_keeps(2) [OF assms(3)] by blast
next
  assume "d' = d" "outstanding C irq this s' = outstanding C irq this s"
  then show ?thesis using assms(3) by (simp add: one_completion_def)
qed

lemma run_keeps:
  assumes "sorted_list L C" and "(device_step C irq request complete this)^** (d, s) (d', s')"
    and "one_completion this d s"
  shows "one_completion this d' s'"
  using assms(2,3)
proof (induction rule: rtranclp_induct2)
  case (step d1 s1 d2 s2)
  then show ?case using step_keeps [OF assms(1)] by blast
qed

text \<open>A request keeps to what the clock asks of handlers: nothing becomes due.\<close>

lemma request_due:
  assumes "sorted_list L C" and "request a this d s = Inr (d', s')"
  shows "due C s' = due C s"
  using request_schedules [OF assms] by (auto simp: due_def)

end

end
