(* ===== verification/Machine_Run.thy ===== *)
theory Machine_Run
  imports Mips_Safety Interrupts
begin

text \<open>
  \<^verbatim>\<open>Machine::Run\<close> (\<^verbatim>\<open>machine/mipssim.cc\<close>) and the debugger (\<^verbatim>\<open>machine/machine.cc\<close>): the loop that
  puts the processor and the clock together. The loop never exits in the code; a run of it is a
  number of iterations.
\<close>

section \<open>The debugger\<close>

text \<open>
  A line typed at the debugger: one that \<^verbatim>\<open>sscanf\<close> reads a number from, or one that starts with
  the given character.
\<close>

datatype debugger_input = Number c_int | Line char

definition Debugger :: "debugger_input \<Rightarrow> 'm machine_scheme \<Rightarrow> 'm machine_scheme" where
  "Debugger inp s =
    (case inp of
       Number num \<Rightarrow> s\<lparr>runUntilTime := num\<rparr>
     | Line c \<Rightarrow>
         (let s = s\<lparr>runUntilTime := 0\<rparr> in if c = CHR ''c'' then s\<lparr>singleStep := False\<rparr> else s))"

section \<open>The loop\<close>

text \<open>
  One iteration. \<open>inp\<close> is what is typed at the debugger, \<open>j\<close> the number of lines read so far; a
  drain of interrupts that does not end is a run that does not return.
\<close>

definition Run_body ::
  "host \<Rightarrow> ('q, 'k) simulator_scheme kernel \<Rightarrow> 'q list_ops \<Rightarrow> (nat \<Rightarrow> debugger_input) \<Rightarrow>
   nat \<times> instruction \<times> ('q, 'k) simulator_scheme \<Rightarrow> (nat \<times> instruction \<times> ('q, 'k) simulator_scheme) res" where
  "Run_body h k L inp p =
    (case p of (j, i, s) \<Rightarrow>
      and_then (OneInstruction h k i s) (\<lambda>(i, s).
      and_then (case OneTick L k s of None \<Rightarrow> Inl NoReturn | Some r \<Rightarrow> r) (\<lambda>s.
      if singleStep s \<and> sint (runUntilTime s) \<le> totalTicks (stats s)
      then Inr (Suc j, i, Debugger (inp j) s) else Inr (j, i, s))))"

definition Run ::
  "host \<Rightarrow> ('q, 'k) simulator_scheme kernel \<Rightarrow> 'q list_ops \<Rightarrow> (nat \<Rightarrow> debugger_input) \<Rightarrow> nat \<Rightarrow>
   instruction \<Rightarrow> ('q, 'k) simulator_scheme \<Rightarrow> (nat \<times> instruction \<times> ('q, 'k) simulator_scheme) res" where
  "Run h k L inp n i s = iterate (Run_body h k L inp) n (0, i, setStatus UserMode s)"

section \<open>User instructions and user ticks\<close>

text \<open>The kernel leaves the count of user ticks alone.\<close>

definition kernel_keeps_user :: "('q, 'k) simulator_scheme kernel \<Rightarrow> bool" where
  "kernel_keeps_user k \<longleftrightarrow>
     (\<forall>ex s s'. ExceptionHandler k ex s = Inr s' \<longrightarrow> userTicks (stats s') = userTicks (stats s)) \<and>
     (\<forall>h a s s'. call_handler k h a s = Inr s' \<longrightarrow> userTicks (stats s') = userTicks (stats s)) \<and>
     (\<forall>s s'. Yield k s = Inr s' \<longrightarrow> userTicks (stats s') = userTicks (stats s))"

definition user_at :: "('q, 'k) simulator_scheme kernel \<Rightarrow> int \<Rightarrow> ('q, 'k) simulator_scheme \<Rightarrow> bool" where
  "user_at k u s \<longleftrightarrow> kernel_keeps_user k \<and> status s = UserMode \<and> userTicks (stats s) = u"

lemma Translate_stats:
  fixes s :: "('q, 'k) simulator_scheme"
  assumes "Translate va sz w s = Inr (r, s')"
  shows "stats s' = stats s \<and> status s' = status s"
  using assms by (auto simp: Translate_def Let_def run_simps split: if_splits option.splits prod.splits)

lemma RaiseException_user:
  assumes "kernel_keeps_user k" and "RaiseException k ex a s = Inr s'"
  shows "status s' = UserMode \<and> userTicks (stats s') = userTicks (stats s)"
proof -
  obtain s1 s2 where s1: "DelayedLoad 0 0 (s\<lparr>registers := (registers s)(BadVAddrReg := a)\<rparr>) = Inr s1"
    and s2: "ExceptionHandler k ex (setStatus SystemMode s1) = Inr s2" "s' = setStatus UserMode s2"
    using assms(2) by (auto simp: RaiseException_def run_simps)
  have "userTicks (stats s2) = userTicks (stats (setStatus SystemMode s1))"
    using assms(1) s2(1) unfolding kernel_keeps_user_def by blast
  then show ?thesis using DelayedLoad_frame(2) [OF s1] s2(2) by (simp add: setStatus_def)
qed

lemma ReadMem_user:
  assumes k: "user_at k u s" and "ReadMem h k a sz s = Inr (r, s')"
  shows "user_at k u s'"
proof -
  obtain x s1 where t: "Translate a sz False s = Inr (x, s1)"
    using assms(2) by (cases "Translate a sz False s") (auto simp: ReadMem_def)
  have s1: "user_at k u s1" using Translate_stats [OF t] k by (simp add: user_at_def)
  show ?thesis
    using assms(2) t s1 RaiseException_user [of k]
    by (cases x) (auto simp: ReadMem_def Let_def run_simps user_at_def split: if_splits)
qed

lemma WriteMem_user:
  assumes k: "user_at k u s" and "WriteMem h k a sz v s = Inr (b, s')"
  shows "user_at k u s'"
proof -
  obtain x s1 where t: "Translate a sz True s = Inr (x, s1)"
    using assms(2) by (cases "Translate a sz True s") (auto simp: WriteMem_def)
  have s1: "user_at k u s1" using Translate_stats [OF t] k by (simp add: user_at_def)
  show ?thesis
    using assms(2) t s1 RaiseException_user [of k]
    by (cases x) (auto simp: WriteMem_def Let_def run_simps user_at_def split: if_splits)
qed

interpretation user: execution_invariant h k "user_at k u" "user_at k u" for h k u
proof
  fix s ex a s'
  assume "user_at k u s" and "RaiseException k ex a s = Inr s'"
  then show "user_at k u s'" using RaiseException_user [of k ex a s s'] by (simp add: user_at_def)
next
  fix s lr lv pc s'
  assume "user_at k u s" and "retire (Next s pc lr lv) = Inr s'"
  then show "user_at k u s'"
    by (auto simp: user_at_def retire_def run_simps DelayedLoad_frame)
qed (auto simp: set_reg_def user_at_def [of _ _ "_\<lparr>registers := _\<rparr>"] split: option.split
     intro: ReadMem_user WriteMem_user, auto simp: user_at_def)

lemma user_at_pending [simp]: "user_at k u (s\<lparr>pending := q\<rparr>) = user_at k u s"
  by (simp add: user_at_def)

lemma CheckIfDue_user:
  assumes k: "user_at k u s" and "CheckIfDue L k False s = Inr (b, s')"
  shows "user_at k u s'"
proof -
  have deliver: "user_at k u s'" if d: "deliver k p s1 = Inr s'" and s1: "user_at k u s1" for p s1
  proof -
    obtain s0 s2 where s0: "DelayedLoad 0 0 s1 = Inr s0"
      and call: "call_handler k (handler p) (arg p) (s0\<lparr>inHandler := True, status := SystemMode\<rparr>) = Inr s2"
      and s': "s' = s2\<lparr>status := status s1, inHandler := False\<rparr>"
      using d s1 by (auto simp: deliver_def Let_def run_simps user_at_def)
    have "userTicks (stats s2) = userTicks (stats (s0\<lparr>inHandler := True, status := SystemMode\<rparr>))"
      using s1 call unfolding user_at_def kernel_keeps_user_def by blast
    with s1 s' DelayedLoad_frame(2) [OF s0] show ?thesis by (simp add: user_at_def)
  qed
  from assms show ?thesis
    unfolding CheckIfDue_def
    by (auto simp: run_simps Let_def split: prod.splits option.splits if_splits elim!: deliver)
qed

lemma OneTick_user:
  assumes k: "user_at k u s" and "OneTick L k s = Some (Inr s')"
  shows "user_at k (u + 1) s'"
proof -
  obtain s1 where d: "drain L k (ChangeLevel IntOn IntOff (advance_clock s)) = Some (Inr s1)"
    and a: "after_drain k (status s) s1 = Inr s'"
    using assms(2) by (auto simp: OneTick_def Option.bind_eq_Some_conv run_simps)
  have start: "user_at k (u + 1) (ChangeLevel IntOn IntOff (advance_clock s))"
    using k by (simp add: user_at_def ChangeLevel_def advance_clock_def UserTick_def)
  have s1: "user_at k (u + 1) s1"
    by (rule drain_keeps [where I = "user_at k (u + 1)", OF _ start d]) (rule CheckIfDue_user)
  show ?thesis
  proof (cases "yieldOnReturn s1")
    case True
    let ?y = "s1\<lparr>level := IntOn, yieldOnReturn := False, status := SystemMode\<rparr>"
    obtain s2 where s2: "Yield k ?y = Inr s2" "s' = s2\<lparr>status := status s\<rparr>"
      using a True by (auto simp: after_drain_def ChangeLevel_def Let_def run_simps)
    have "userTicks (stats s2) = userTicks (stats ?y)"
      using s2(1) k unfolding user_at_def kernel_keeps_user_def by blast
    with s1 s2(2) k show ?thesis by (simp add: user_at_def)
  next
    case False
    with a s1 show ?thesis by (auto simp: after_drain_def ChangeLevel_def user_at_def)
  qed
qed

lemma Run_body_user:
  assumes "user_at k u s" and "Run_body h k L inp (j, i, s) = Inr (j', i', s')"
  shows "user_at k (u + 1) s'"
proof -
  obtain i1 s1 s2 where one: "OneInstruction h k i s = Inr (i1, s1)"
    and tick: "OneTick L k s1 = Some (Inr s2)"
    and fin: "s' = s2 \<or> s' = Debugger (inp j) s2"
    using assms(2) by (auto simp: Run_body_def run_simps split: option.splits if_splits prod.splits)
  have "user_at k (u + 1) s2"
    by (rule OneTick_user [OF user.OneInstruction_keeps [OF assms(1) one] tick])
  with fin show ?thesis
    by (auto simp: user_at_def Debugger_def Let_def split: debugger_input.splits)
qed

lemma Run_user:
  assumes "user_at k u s" and "iterate (Run_body h k L inp) n (j, i, s) = Inr (j', i', s')"
  shows "user_at k (u + int n) s'"
  using assms
proof (induction n arbitrary: u j i s)
  case 0
  then show ?case by simp
next
  case (Suc n)
  then obtain j1 i1 s1 where step: "Run_body h k L inp (j, i, s) = Inr (j1, i1, s1)"
    and rest: "iterate (Run_body h k L inp) n (j1, i1, s1) = Inr (j', i', s')"
    by (auto simp: run_simps)
  from Suc.IH [OF Run_body_user [OF Suc.prems(1) step] rest] show ?case
    by (simp add: add.assoc)
qed

end
