(* ===== verification/Interrupt_Properties.thy ===== *)
theory Interrupt_Properties
  imports Interrupt_Clock Device_Interface Machine_Run Mips_Properties
begin

text \<open>
  The claims on the interrupt simulation and on the main loop. Their instances use a list kept in
  order of time, and a kernel whose handlers schedule themselves again 100 ticks later, as the
  timer and the polling devices do.
\<close>

section \<open>The kernel of the instances\<close>

type_synonym alarms = "(int \<times> pending_interrupt) list"

definition sample_list :: "alarms list_ops" where
  "sample_list =
    \<lparr>SortedInsert = (\<lambda>p t q. insort_key fst (t, p) q),
     SortedRemove = (\<lambda>q. case sort_key fst q of [] \<Rightarrow> (None, []) | (t, p) # q \<Rightarrow> (Some (p, t), q)),
     IsEmpty = (\<lambda>q. q = [])\<rparr>"

definition periodic_kernel :: "alarms simulator kernel" where
  "periodic_kernel =
    \<lparr>ExceptionHandler = (\<lambda>_ s. Inr s),
     call_handler = (\<lambda>h a s. Schedule sample_list h a 100 TimerInt s), Yield = (\<lambda>s. Inr s)\<rparr>"

definition sample_alarm :: "int \<Rightarrow> IntType \<Rightarrow> int \<times> pending_interrupt" where
  "sample_alarm t ty = (t, \<lparr>handler = DiskDone, arg = 7, when = t, type = ty\<rparr>)"

definition sample_clock :: "MachineStatus \<Rightarrow> alarms \<Rightarrow> alarms simulator" where
  "sample_clock st q =
    \<lparr>mainMemory = (\<lambda>_. 0), registers = (\<lambda>_. 0), tlb = None, pageTable = Some [sample_entry],
     pageTableSize = 1, singleStep = False, runUntilTime = 0, stats = Statistics, level = IntOff,
     pending = q, inHandler = False, yieldOnReturn = False, status = st\<rparr>"

lemma sample_clock_simps [simp]:
  "status (sample_clock st q) = st" "level (sample_clock st q) = IntOff" "pending (sample_clock st q) = q"
  "stats (sample_clock st q) = Statistics" "totalTicks Statistics = 0"
  "(sample_clock st q)\<lparr>pending := q'\<rparr> = sample_clock st q'"
  by (simp_all add: sample_clock_def Statistics_def)

lemma sample_list_ok: "sorted_list sample_list mset"
proof -
  have "mset q = add_mset (t, p) (mset q') \<and> (\<forall>x \<in># mset q. t \<le> fst x)"
    if "SortedRemove sample_list q = (Some (p, t), q')" for q p t q'
  proof -
    have s: "sort_key fst q = (t, p) # q'"
      using that by (auto simp: sample_list_def split: list.splits)
    then have "mset q = add_mset (t, p) (mset q')" by (metis mset_sort mset.simps(2))
    moreover have "sorted (List.map fst ((t, p) # q'))" using s sorted_sort_key [of fst q] by simp
    ultimately show ?thesis by auto
  qed
  moreover have "mset q = {#} \<and> mset q' = {#}" if "SortedRemove sample_list q = (None, q')" for q q'
  proof -
    have "sort_key fst q = []" "q' = []"
      using that by (auto simp: sample_list_def split: list.splits)
    then show ?thesis by (metis mset_sort mset.simps(1))
  qed
  moreover have "mset (SortedInsert sample_list p t q) = add_mset (t, p) (mset q)" for p t q
    by (simp add: sample_list_def)
  moreover have "IsEmpty sample_list q \<longleftrightarrow> mset q = {#}" for q
    by (simp add: sample_list_def)
  ultimately show ?thesis
    unfolding sorted_list_def by blast
qed

lemma periodic_schedule:
  fixes s s' :: "alarms simulator"
  assumes "call_handler periodic_kernel h a s = Inr s'"
  shows "Schedule sample_list h a 100 TimerInt s = Inr s'"
  using assms by (simp add: periodic_kernel_def)

lemma periodic_ok: "handlers_ok mset periodic_kernel"
  unfolding handlers_ok_def handler_context_def
  using Schedule_effect [OF sample_list_ok periodic_schedule] by (metis subset_mset.order_refl)

lemma periodic_accounts: "kernel_accounts periodic_kernel"
  unfolding kernel_accounts_def
  using Schedule_effect(3) [OF sample_list_ok periodic_schedule] accounted_refl
  by (metis Inr_inject kernel.select_convs(3) periodic_kernel_def)

section \<open>Delivery of interrupts\<close>

text \<open>
  C13. A check of a machine that is not idle delivers an interrupt exactly when one is due: with
  nothing due it keeps the pending interrupts as they are and reports that there was nothing to do,
  and otherwise it takes an earliest one out of the list, whose time has come, and calls its
  handler with the rest still pending. No interrupt is lost, delivered twice or delivered early.
\<close>

theorem CheckIfDue_exact:
  assumes "sorted_list L C" and "level s = IntOff" and "status s \<noteq> IdleMode"
  shows "if due C s = {#}
    then \<exists>q. C q = C (pending s) \<and> CheckIfDue L k False s = Inr (False, s\<lparr>pending := q\<rparr>)
    else \<exists>t p q. C (pending s) = add_mset (t, p) (C q) \<and> t \<le> totalTicks (stats s) \<and>
      (\<forall>x \<in># C (pending s). t \<le> fst x) \<and>
      CheckIfDue L k False s = and_then (deliver k p (s\<lparr>pending := q\<rparr>)) (\<lambda>s. Inr (True, s))"
  using assms(1,2)
proof (cases rule: CheckIfDue_cases [where k = k])
  case (1 q)
  with assms(3) show ?thesis by auto
next
  case (2 t p q)
  then have "(t, p) \<in># due C s" by (simp add: due_def)
  then have "due C s \<noteq> {#}" by auto
  with 2 show ?thesis by auto
qed

lemma CheckIfDue_exact_witness:
  "\<exists>t p q. {#sample_alarm 0 DiskInt, sample_alarm 5 DiskInt#} = add_mset (t, p) (mset q) \<and> t \<le> 0 \<and>
     CheckIfDue sample_list periodic_kernel False
       (sample_clock SystemMode [sample_alarm 0 DiskInt, sample_alarm 5 DiskInt]) =
     and_then (deliver periodic_kernel p (sample_clock SystemMode q)) (\<lambda>s. Inr (True, s))"
proof -
  let ?s = "sample_clock SystemMode [sample_alarm 0 DiskInt, sample_alarm 5 DiskInt]"
  have s: "level ?s = IntOff" "status ?s \<noteq> IdleMode" by (simp_all add: sample_clock_def)
  have "due mset ?s \<noteq> {#}"
    by (simp add: due_def sample_clock_def sample_alarm_def Statistics_def)
  with CheckIfDue_exact [OF sample_list_ok s, of periodic_kernel] show ?thesis
    by (auto simp: sample_clock_def Statistics_def)
qed

text \<open>
  C14. A tick always comes to an end, and when its loop over the due interrupts is left nothing that
  is due remains pending (an idle machine may keep the timer's interrupt). The clock has then
  advanced by 10 in the kernel and by 1 in user mode, and interrupts are enabled again before a
  requested context switch.
\<close>

theorem OneTick_delivers_all:
  assumes "sorted_list L C" and "handlers_ok C k"
  shows "\<exists>r. OneTick L k s = Some (and_then r (after_drain k (status s))) \<and>
    (case r of Inl e \<Rightarrow> True
     | Inr s1 \<Rightarrow> drained C s1 \<and> status s1 = status s \<and> level (ChangeLevel IntOff IntOn s1) = IntOn \<and>
        totalTicks (stats s1) = totalTicks (stats s) + (if status s = SystemMode then 10 else 1))"
proof -
  let ?s = "ChangeLevel IntOn IntOff (advance_clock s)"
  have "level ?s = IntOff" by (simp add: ChangeLevel_def)
  from drain_ends [OF assms this] obtain r where r: "drain L k ?s = Some r"
    "\<forall>s'. r = Inr s' \<longrightarrow> drained C s' \<and> level s' = IntOff \<and>
      totalTicks (stats s') = totalTicks (stats ?s) \<and> status s' = status ?s" by blast
  moreover have "totalTicks (stats ?s) = totalTicks (stats s) + (if status s = SystemMode then 10 else 1)"
    "status ?s = status s"
    by (simp_all add: ChangeLevel_def advance_clock_def SystemTick_def UserTick_def)
  ultimately show ?thesis
    by (intro exI [of _ r]) (auto simp: OneTick_def ChangeLevel_def [of IntOff] split: sum.split)
qed

lemma OneTick_delivers_all_witness:
  "\<exists>r. OneTick sample_list periodic_kernel (sample_clock UserMode [sample_alarm 1 DiskInt]) =
      Some (and_then r (after_drain periodic_kernel UserMode)) \<and>
    (case r of Inl e \<Rightarrow> True | Inr s1 \<Rightarrow> drained mset s1 \<and> totalTicks (stats s1) = 1)"
proof -
  let ?s = "sample_clock UserMode [sample_alarm 1 DiskInt]"
  obtain r where r: "OneTick sample_list periodic_kernel ?s = Some (and_then r (after_drain periodic_kernel (status ?s)))"
    and d: "case r of Inl e \<Rightarrow> True
      | Inr s1 \<Rightarrow> drained mset s1 \<and> status s1 = status ?s \<and> level (ChangeLevel IntOff IntOn s1) = IntOn \<and>
          totalTicks (stats s1) = totalTicks (stats ?s) + (if status ?s = SystemMode then 10 else 1)"
    using OneTick_delivers_all [OF sample_list_ok periodic_ok, of ?s] by blast
  have "case r of Inl e \<Rightarrow> True | Inr s1 \<Rightarrow> drained mset s1 \<and> totalTicks (stats s1) = 1"
    using d by (cases r) simp_all
  then show ?thesis using r by (intro exI [of _ r]) simp
qed

text \<open>
  A machine with nothing to run ends the simulation exactly when no interrupt but the timer's
  is pending. Otherwise it moves the clock to the time of the earliest interrupt, no further, counts
  the ticks skipped as idle, and delivers that interrupt at its time.
\<close>

lemma Idle_exact:
  assumes "sorted_list L C" and "level s = IntOff" and "due C s = {#}"
  shows "if C (pending s) = {#} \<or> (\<exists>t p. C (pending s) = {#(t, p)#} \<and> type p = TimerInt)
    then Idle L k s = Some (Inl NoReturn)
    else \<exists>t p q. C (pending s) = add_mset (t, p) (C q) \<and> (\<forall>x \<in># C (pending s). t \<le> fst x) \<and>
      CheckIfDue L k True (s\<lparr>status := IdleMode\<rparr>) =
        and_then (deliver k p (s\<lparr>status := IdleMode, pending := q,
          stats := (stats s)\<lparr>idleTicks := idleTicks (stats s) + (t - totalTicks (stats s)),
                            totalTicks := t\<rparr>\<rparr>)) (\<lambda>s. Inr (True, s))"
proof (cases "SortedRemove L (pending s)")
  case (Pair r q)
  show ?thesis
  proof (cases r)
    case None
    then show ?thesis
      using Pair assms(2) sorted_list_none [OF assms(1), of "pending s" q]
      by (simp add: Idle_def CheckIfDue_def Halt_def)
  next
    case (Some x)
    obtain p t where x: "x = (p, t)" by (cases x)
    then have rem: "SortedRemove L (pending s) = (Some (p, t), q)" using Pair Some by simp
    note c = sorted_list_some [OF assms(1) rem]
    have later: "totalTicks (stats s) < t" using c assms(3) by (auto simp: due_def split: if_splits)
    have only: "IsEmpty L q \<longleftrightarrow> C q = {#}" by (rule sorted_list_empty [OF assms(1)])
    have single: "C q = {#} \<and> type p = TimerInt \<longleftrightarrow>
        C (pending s) = {#} \<or> (\<exists>t p. C (pending s) = {#(t, p)#} \<and> type p = TimerInt)"
      using c by auto
    show ?thesis
    proof (cases "C q = {#} \<and> type p = TimerInt")
      case True
      then have "Idle L k s = Some (Inl NoReturn)"
        using rem assms(2) later only by (simp add: Idle_def CheckIfDue_def Halt_def Let_def)
      with True single show ?thesis by simp
    next
      case False
      then have "CheckIfDue L k True (s\<lparr>status := IdleMode\<rparr>) =
        and_then (deliver k p (s\<lparr>status := IdleMode, pending := q,
          stats := (stats s)\<lparr>idleTicks := idleTicks (stats s) + (t - totalTicks (stats s)),
                            totalTicks := t\<rparr>\<rparr>)) (\<lambda>s. Inr (True, s))"
        using rem assms(2) later only by (simp add: CheckIfDue_def Let_def) blast
      then have "\<exists>t p q. C (pending s) = add_mset (t, p) (C q) \<and> (\<forall>x \<in># C (pending s). t \<le> fst x) \<and>
        CheckIfDue L k True (s\<lparr>status := IdleMode\<rparr>) =
          and_then (deliver k p (s\<lparr>status := IdleMode, pending := q,
            stats := (stats s)\<lparr>idleTicks := idleTicks (stats s) + (t - totalTicks (stats s)),
                              totalTicks := t\<rparr>\<rparr>)) (\<lambda>s. Inr (True, s))"
        using c by blast
      moreover have "\<not> (C (pending s) = {#} \<or> (\<exists>t p. C (pending s) = {#(t, p)#} \<and> type p = TimerInt))"
        using False unfolding single .
      ultimately show ?thesis by (simp only: if_False)
    qed
  qed
qed

section \<open>Time\<close>

text \<open>
  C15. Over any sequence of operations of the interrupt simulation (ticks, changes of the interrupt
  level, idling, scheduling, requests to yield) the time that passes is accounted for tick by tick:
  it is the sum of the idle, system and user ticks counted meanwhile, and no counter ever decreases.
\<close>

theorem time_is_accounted:
  assumes "kernel_accounts k" and "interrupt_run L k s s'"
  shows "accounted (stats s) (stats s')"
  using clock.interrupt_run_keeps [OF assms(2), of "stats s"] assms(1) accounted_refl by blast

lemma time_is_accounted_witness:
  "\<exists>s'. totalTicks (stats s') = 0 \<and> accounted Statistics (stats s') \<and>
    interrupt_run sample_list periodic_kernel (sample_clock SystemMode []) s'"
proof -
  obtain s' where s: "Schedule sample_list DiskDone 7 500 DiskInt (sample_clock SystemMode []) = Inr s'"
    using Schedule_returns [of 500] by force
  then have run: "interrupt_run sample_list periodic_kernel (sample_clock SystemMode []) s'"
    unfolding interrupt_run_def by (intro r_into_rtranclp schedule)
  from time_is_accounted [OF periodic_accounts run] run show ?thesis
    using Schedule_effect(3) [OF sample_list_ok s] by (intro exI [of _ s'] conjI) simp_all
qed

section \<open>The main loop\<close>

text \<open>
  The main loop of the simulator charges every user instruction exactly one user tick: after
  \<open>n\<close> iterations that come back, whatever traps and interrupts they took and whatever was typed at
  the debugger, the user clock has advanced by \<open>n\<close>, and the machine is in user mode again. The
  kernel is assumed not to change the user ticks itself.
\<close>

lemma Run_charges_user_ticks:
  assumes "kernel_keeps_user k" and "Run h k L inp n i s = Inr (j, i', s')"
  shows "userTicks (stats s') = userTicks (stats s) + int n \<and> status s' = UserMode"
proof -
  have "user_at k (userTicks (stats s)) (setStatus UserMode s)"
    using assms(1) by (simp add: user_at_def setStatus_def)
  from Run_user [OF this assms(2) [unfolded Run_def]] show ?thesis
    by (simp add: user_at_def)
qed

end
