(* ===== verification/Disk_Device.thy ===== *)
theory Disk_Device
  imports Device_Interface "HOL-Library.Signed_Division"
begin

text \<open>
  The disk (\<^verbatim>\<open>machine/disk.cc\<close>): requests, their latency and the completion interrupt. The UNIX
  file that holds the sectors is part of the state. Sector numbers and delays are written as
  integers with the divisions of C; the points where the code assigns the 64-bit tick count to an
  \<^verbatim>\<open>int\<close> are kept as \<open>narrow\<close>.
\<close>

section \<open>Layout\<close>

definition SectorSize :: nat where "SectorSize = 128"
definition SectorsPerTrack :: int where "SectorsPerTrack = 32"
definition NumTracks :: int where "NumTracks = 32"
definition NumSectors :: int where "NumSectors = SectorsPerTrack * NumTracks"
definition MagicNumber :: c_int where "MagicNumber = 0x456789ab"

definition narrow :: "int \<Rightarrow> int" where
  "narrow x = sint (word_of_int x :: c_int)"

text \<open>The class \<^verbatim>\<open>Disk\<close>; \<open>sectors\<close> is the contents of the file behind the magic number.\<close>

record disk =
  sectors :: "int \<Rightarrow> byte list"
  active :: bool
  lastSector :: int
  bufferInit :: int

text \<open>
  \<^verbatim>\<open>Disk::Disk\<close>: \<open>file\<close> is the file of that name, if it can be opened, with the first word it
  holds; a new file reads as zeros.
\<close>

definition Disk :: "(c_int \<times> (int \<Rightarrow> byte list)) option \<Rightarrow> disk res" where
  "Disk file =
    (case file of
       Some (magicNum, secs) \<Rightarrow>
         and_then (assert_that (magicNum = MagicNumber)) (\<lambda>_.
         Inr \<lparr>sectors = secs, active = False, lastSector = 0, bufferInit = 0\<rparr>)
     | None \<Rightarrow>
         Inr \<lparr>sectors = (\<lambda>_. replicate SectorSize 0), active = False, lastSector = 0, bufferInit = 0\<rparr>)"

section \<open>Latency\<close>

text \<open>The seek time and the rotation left over to the next sector boundary.\<close>

definition TimeToSeek :: "int \<Rightarrow> int \<Rightarrow> disk \<Rightarrow> int \<times> int" where
  "TimeToSeek ticks newSector d =
    (let newTrack = newSector sdiv SectorsPerTrack;
         oldTrack = lastSector d sdiv SectorsPerTrack;
         seek = \<bar>newTrack - oldTrack\<bar> * SeekTime;
         over = narrow ((ticks + seek) smod RotationTime)
     in (seek, if 0 < over then RotationTime - over else 0))"

definition ModuloDiff :: "int \<Rightarrow> int \<Rightarrow> int" where
  "ModuloDiff to frm =
    (let toOffset = to smod SectorsPerTrack;
         fromOffset = frm smod SectorsPerTrack
     in ((toOffset - fromOffset) + SectorsPerTrack) smod SectorsPerTrack)"

definition ComputeLatency :: "int \<Rightarrow> int \<Rightarrow> bool \<Rightarrow> disk \<Rightarrow> int" where
  "ComputeLatency ticks newSector writing d =
    (let (seek, rotation) = TimeToSeek ticks newSector d;
         timeAfter = narrow (ticks + seek + rotation)
     in if \<not> writing \<and> seek = 0 \<and>
           narrow (timeAfter - bufferInit d) sdiv RotationTime
             > ModuloDiff newSector (bufferInit d sdiv RotationTime)
        then RotationTime
        else
          (let rotation = rotation + ModuloDiff newSector (timeAfter sdiv RotationTime) * RotationTime
           in seek + rotation + RotationTime))"

definition UpdateLast :: "int \<Rightarrow> int \<Rightarrow> disk \<Rightarrow> disk" where
  "UpdateLast ticks newSector d =
    (let (seek, rotate) = TimeToSeek ticks newSector d;
         d = (if seek \<noteq> 0 then d\<lparr>bufferInit := narrow (ticks + seek + rotate)\<rparr> else d)
     in d\<lparr>lastSector := newSector\<rparr>)"

section \<open>Requests\<close>

text \<open>\<open>this\<close> is the address of the disk. A read hands its buffer's contents to the caller at once.\<close>

definition ReadRequest ::
  "'q list_ops \<Rightarrow> int \<Rightarrow> c_int \<Rightarrow> disk \<Rightarrow> ('q, 'k) simulator_scheme \<Rightarrow>
   (byte list \<times> disk \<times> ('q, 'k) simulator_scheme) res" where
  "ReadRequest L sectorNumber this d s =
    (let ticks = ComputeLatency (totalTicks (stats s)) sectorNumber False d
     in and_then (assert_that (\<not> active d)) (\<lambda>_.
        and_then (assert_that (0 \<le> sectorNumber \<and> sectorNumber < NumSectors)) (\<lambda>_.
        let data = sectors d sectorNumber;
            d = UpdateLast (totalTicks (stats s)) sectorNumber (d\<lparr>active := True\<rparr>);
            s = s\<lparr>stats := (stats s)\<lparr>numDiskReads := Suc (numDiskReads (stats s))\<rparr>\<rparr>
        in and_then (Schedule L DiskDone this ticks DiskInt s) (\<lambda>s.
           Inr (data, d, s)))))"

definition WriteRequest ::
  "'q list_ops \<Rightarrow> int \<Rightarrow> byte list \<Rightarrow> c_int \<Rightarrow> disk \<Rightarrow> ('q, 'k) simulator_scheme \<Rightarrow>
   (disk \<times> ('q, 'k) simulator_scheme) res" where
  "WriteRequest L sectorNumber data this d s =
    (let ticks = ComputeLatency (totalTicks (stats s)) sectorNumber True d
     in and_then (assert_that (\<not> active d)) (\<lambda>_.
        and_then (assert_that (0 \<le> sectorNumber \<and> sectorNumber < NumSectors)) (\<lambda>_.
        if length data < SectorSize then Inl OutOfBounds
        else
          (let d = d\<lparr>sectors := (sectors d)(sectorNumber := take SectorSize data)\<rparr>;
               d = UpdateLast (totalTicks (stats s)) sectorNumber (d\<lparr>active := True\<rparr>);
               s = s\<lparr>stats := (stats s)\<lparr>numDiskWrites := Suc (numDiskWrites (stats s))\<rparr>\<rparr>
           in and_then (Schedule L DiskDone this ticks DiskInt s) (\<lambda>s.
              Inr (d, s))))))"

text \<open>\<open>notify\<close> is the kernel's handler for a completed request.\<close>

definition idle_again :: "disk \<Rightarrow> disk" where
  "idle_again d = d\<lparr>active := False\<rparr>"

definition Disk_HandleInterrupt ::
  "(disk \<times> 's \<Rightarrow> (disk \<times> 's) res) \<Rightarrow> disk \<Rightarrow> 's \<Rightarrow> (disk \<times> 's) res" where
  "Disk_HandleInterrupt notify d s = notify (idle_again d, s)"

section \<open>Bounds of the latency\<close>

lemma smod_eq_mod: "0 \<le> a \<Longrightarrow> 0 < b \<Longrightarrow> a smod b = (a mod b :: int)"
  by (rule smod_mod_positive) simp_all

lemma sdiv_eq_div: "0 \<le> a \<Longrightarrow> 0 < b \<Longrightarrow> a sdiv b = (a div b :: int)"
  by (cases "a = 0") (simp_all add: signed_divide_int_def)

lemma smod_bounds: "0 < b \<Longrightarrow> - b < a smod b \<and> a smod b < (b :: int)"
  using smod_int_range [of b a] by auto

lemma narrow_small: "- (2 ^ 31) \<le> x \<Longrightarrow> x < 2 ^ 31 \<Longrightarrow> narrow x = x"
  by (simp add: narrow_def sint_sbintrunc' signed_take_bit_int_eq_self)

lemma ModuloDiff_range:
  assumes "0 \<le> to"
  shows "0 \<le> ModuloDiff to f \<and> ModuloDiff to f < 32"
proof -
  have "0 \<le> to smod 32" using assms by (simp add: smod_eq_mod)
  moreover have "f smod 32 < 32" using smod_bounds [of 32 f] by simp
  ultimately show ?thesis
    by (simp add: ModuloDiff_def SectorsPerTrack_def smod_eq_mod)
qed

lemma ModuloDiff_eq:
  assumes "0 \<le> to" and "0 \<le> f"
  shows "ModuloDiff to f = (to - f) mod 32"
proof -
  have "0 \<le> to mod 32 - f mod 32 + 32"
    using pos_mod_bound [of 32 f] pos_mod_sign [of 32 to] by simp
  then show ?thesis
    using assms by (simp add: ModuloDiff_def SectorsPerTrack_def smod_eq_mod mod_simps)
qed

lemma TimeToSeek_bounds:
  assumes "0 \<le> n" "n < NumSectors" "0 \<le> lastSector d" "lastSector d < NumSectors"
  shows "0 \<le> fst (TimeToSeek t n d)" "fst (TimeToSeek t n d) \<le> 31 * SeekTime"
    "0 \<le> snd (TimeToSeek t n d)" "snd (TimeToSeek t n d) < RotationTime"
proof -
  have tracks: "n div 32 \<le> 31" "0 \<le> n div 32" "lastSector d div 32 \<le> 31" "0 \<le> lastSector d div 32"
    using assms by (auto simp: NumSectors_def SectorsPerTrack_def NumTracks_def)
  show "0 \<le> fst (TimeToSeek t n d)" "fst (TimeToSeek t n d) \<le> 31 * SeekTime"
    using tracks assms
    by (auto simp: TimeToSeek_def Let_def SeekTime_def SectorsPerTrack_def sdiv_eq_div)
  show "0 \<le> snd (TimeToSeek t n d)" "snd (TimeToSeek t n d) < RotationTime"
  proof -
    let ?x = "(t + \<bar>n sdiv SectorsPerTrack - lastSector d sdiv SectorsPerTrack\<bar> * SeekTime) smod RotationTime"
    have "- 500 < ?x \<and> ?x < 500"
      using smod_bounds [of RotationTime] by (simp add: RotationTime_def)
    then show "0 \<le> snd (TimeToSeek t n d)" "snd (TimeToSeek t n d) < RotationTime"
      by (auto simp: TimeToSeek_def Let_def narrow_small RotationTime_def)
  qed
qed

lemma latency_bounds:
  assumes "0 \<le> n" "n < NumSectors" "0 \<le> lastSector d" "lastSector d < NumSectors"
  shows "RotationTime \<le> ComputeLatency t n w d" "ComputeLatency t n w d < 64 * RotationTime"
proof -
  obtain seek rot where sr: "TimeToSeek t n d = (seek, rot)" by (cases "TimeToSeek t n d")
  note b = TimeToSeek_bounds [OF assms, of t, unfolded sr fst_conv snd_conv]
  have m: "0 \<le> ModuloDiff n f" "ModuloDiff n f \<le> 31" for f
    using ModuloDiff_range [OF assms(1), of f] by auto
  show "RotationTime \<le> ComputeLatency t n w d" "ComputeLatency t n w d < 64 * RotationTime"
    using b m [of "narrow (t + seek + rot) sdiv 500"]
    by (auto simp: ComputeLatency_def sr Let_def RotationTime_def SeekTime_def)
qed

section \<open>Where the head is when the request completes\<close>

lemma rotation_aligned:
  assumes "0 \<le> t" and "0 \<le> seek"
  shows "\<exists>k. t + seek + (if 0 < (t + seek) mod 500 then 500 - (t + seek) mod 500 else 0) = 500 * (k :: int)"
proof (cases "0 < (t + seek) mod 500")
  case True
  have "t + seek + (500 - (t + seek) mod 500) = 500 * ((t + seek) div 500 + 1)"
    using minus_mod_eq_mult_div [of "t + seek" 500] by simp
  then show ?thesis
    unfolding if_P [OF True] by (rule exI)
next
  case False
  then have "(t + seek) mod 500 = 0" using pos_mod_sign [of 500 "t + seek"] by linarith
  then show ?thesis using False by (auto simp: mod_eq_0_iff_dvd elim!: dvdE)
qed

lemma latency_exact:
  assumes n: "0 \<le> n" "n < NumSectors" "0 \<le> lastSector d" "lastSector d < NumSectors"
    and t: "0 \<le> t" "t + 64 * RotationTime < 2 ^ 31"
  shows "\<exists>j. t + ComputeLatency t n True d = RotationTime * (j + 1) \<and> j mod SectorsPerTrack = n mod SectorsPerTrack"
proof -
  obtain seek rot where sr: "TimeToSeek t n d = (seek, rot)" by (cases "TimeToSeek t n d")
  note b = TimeToSeek_bounds [OF n, of t, unfolded sr fst_conv snd_conv]
  have rot: "rot = (if 0 < (t + seek) mod 500 then 500 - (t + seek) mod 500 else 0)"
  proof -
    have "narrow ((t + seek) smod 500) = (t + seek) mod 500"
      using t(1) b(1) pos_mod_bound [of 500 "t + seek"] by (simp add: smod_eq_mod narrow_small)
    then show ?thesis using sr by (auto simp: TimeToSeek_def Let_def RotationTime_def)
  qed
  obtain k where k: "t + seek + rot = 500 * k"
    using rotation_aligned [OF t(1) b(1)] rot by auto
  then have k0: "0 \<le> k" using t(1) b(1,3) by linarith
  have after: "narrow (t + seek + rot) = 500 * k"
    using t b k by (subst narrow_small) (auto simp: SeekTime_def RotationTime_def)
  define m where "m = (n - k) mod 32"
  have "ModuloDiff n (500 * k sdiv 500) = m"
    using k0 n(1) by (simp add: sdiv_eq_div ModuloDiff_eq m_def)
  then have "t + ComputeLatency t n True d = 500 * (k + m + 1)"
    using k after [unfolded k] by (simp add: ComputeLatency_def sr Let_def k k [unfolded add.assoc] RotationTime_def)
  moreover have "(k + m) mod 32 = n mod 32"
    by (simp add: m_def mod_simps)
  ultimately show ?thesis unfolding RotationTime_def SectorsPerTrack_def by blast
qed

section \<open>The invariant of a disk\<close>

definition disk_ok :: "disk \<Rightarrow> bool" where
  "disk_ok d \<longleftrightarrow> 0 \<le> lastSector d \<and> lastSector d < NumSectors \<and>
     (\<forall>n. 0 \<le> n \<longrightarrow> n < NumSectors \<longrightarrow> length (sectors d n) = SectorSize)"

lemma UpdateLast_simps [simp]:
  "lastSector (UpdateLast t n d) = n" "sectors (UpdateLast t n d) = sectors d"
  "active (UpdateLast t n d) = active d"
  by (auto simp: UpdateLast_def Let_def split: prod.splits)

definition disk_request ::
  "'q list_ops \<Rightarrow> (int \<times> byte list option) \<Rightarrow> c_int \<Rightarrow> disk \<Rightarrow> ('q, 'k) simulator_scheme \<Rightarrow>
   (disk \<times> ('q, 'k) simulator_scheme) res" where
  "disk_request L a this d s =
    (case a of
       (n, None) \<Rightarrow> and_then (ReadRequest L n this d s) (\<lambda>(data, d, s). Inr (d, s))
     | (n, Some data) \<Rightarrow> WriteRequest L n data this d s)"

lemma ReadRequest_done:
  assumes "ReadRequest L n this d s = Inr (data, d', s')"
  shows "\<not> active d" and "0 \<le> n" and "n < NumSectors" and "data = sectors d n"
    and "active d'" and "sectors d' = sectors d" and "lastSector d' = n"
    and "Schedule L DiskDone this (ComputeLatency (totalTicks (stats s)) n False d) DiskInt
      (s\<lparr>stats := (stats s)\<lparr>numDiskReads := Suc (numDiskReads (stats s))\<rparr>\<rparr>) = Inr s'"
  using assms by (auto simp: ReadRequest_def Let_def run_simps)

lemma WriteRequest_done:
  assumes "WriteRequest L n data this d s = Inr (d', s')"
  shows "\<not> active d" and "0 \<le> n" and "n < NumSectors" and "SectorSize \<le> length data"
    and "active d'" and "sectors d' = (sectors d)(n := take SectorSize data)" and "lastSector d' = n"
    and "Schedule L DiskDone this (ComputeLatency (totalTicks (stats s)) n True d) DiskInt
      (s\<lparr>stats := (stats s)\<lparr>numDiskWrites := Suc (numDiskWrites (stats s))\<rparr>\<rparr>) = Inr s'"
  using assms by (auto simp: WriteRequest_def Let_def run_simps split: if_splits)

interpretation disk: async_device L C DiskDone active "disk_request L" idle_again for L C
proof
  fix a this d d' and s s' :: "('a, 'b) simulator_scheme"
  assume r: "disk_request L a this d s = Inr (d', s')"
  show "\<not> active d \<and> active d'"
    using r by (auto simp: disk_request_def run_simps dest: ReadRequest_done(1,5) WriteRequest_done(1,5)
        split: prod.splits option.splits)
  assume L: "sorted_list L C"
  obtain n data where a: "a = (n, data)" by (cases a)
  show "\<exists>t ty. totalTicks (stats s) < t \<and> totalTicks (stats s') = totalTicks (stats s) \<and>
      C (pending s') = add_mset (t, \<lparr>handler = DiskDone, arg = this, when = t, type = ty\<rparr>) (C (pending s))"
  proof (cases data)
    case None
    then obtain x where "ReadRequest L n this d s = Inr (x, d', s')"
      using r a by (auto simp: disk_request_def run_simps)
    from Schedule_effect [OF L ReadRequest_done(8) [OF this]] show ?thesis by auto
  next
    case (Some x)
    then have "WriteRequest L n x this d s = Inr (d', s')"
      using r a by (simp add: disk_request_def)
    from Schedule_effect [OF L WriteRequest_done(8) [OF this]] show ?thesis by auto
  qed
next
  fix d :: disk and a this and s :: "('a, 'b) simulator_scheme"
  assume "active d"
  then show "disk_request L a this d s = Inl AssertionFailed"
    by (auto simp: disk_request_def ReadRequest_def WriteRequest_def Let_def split: prod.split option.split)
qed (simp add: idle_again_def)

end
