(* ===== verification/Char_Devices.thy ===== *)
theory Char_Devices
  imports Device_Interface "HOL-Library.Signed_Division"
begin

text \<open>
  The timer (\<^verbatim>\<open>machine/timer.cc\<close>) and the console (\<^verbatim>\<open>machine/console.cc\<close>). Both poll: each of their
  interrupts schedules the next one before it does anything else. What the UNIX side delivers (a
  character typed, the random numbers) and the kernel's handlers are arguments.
\<close>

section \<open>Timer\<close>

record timer =
  randomize :: bool

text \<open>\<open>r\<close> is the number \<^verbatim>\<open>Random\<close> returns.\<close>

definition TimeOfNextInterrupt :: "int \<Rightarrow> timer \<Rightarrow> int" where
  "TimeOfNextInterrupt r t = (if randomize t then 1 + (r smod (TimerTicks * 2)) else TimerTicks)"

definition Timer ::
  "'q list_ops \<Rightarrow> int \<Rightarrow> c_int \<Rightarrow> bool \<Rightarrow> ('q, 'k) simulator_scheme \<Rightarrow>
   (timer \<times> ('q, 'k) simulator_scheme) res" where
  "Timer L r this doRandom s =
    (let t = \<lparr>randomize = doRandom\<rparr>
     in and_then (Schedule L TimerHandler this (TimeOfNextInterrupt r t) TimerInt s) (\<lambda>s.
        Inr (t, s)))"

definition TimerExpired ::
  "'q list_ops \<Rightarrow> (('q, 'k) simulator_scheme \<Rightarrow> ('q, 'k) simulator_scheme res) \<Rightarrow> int \<Rightarrow> c_int \<Rightarrow>
   timer \<Rightarrow> ('q, 'k) simulator_scheme \<Rightarrow> ('q, 'k) simulator_scheme res" where
  "TimerExpired L notify r this t s =
    and_then (Schedule L TimerHandler this (TimeOfNextInterrupt r t) TimerInt s) notify"

section \<open>Console\<close>

text \<open>
  The class \<^verbatim>\<open>Console\<close>; \<open>display\<close> is what has been written to its output file. \<open>incoming\<close> holds
  a \<^verbatim>\<open>char\<close>, in which the code also keeps \<^verbatim>\<open>EOF\<close>.
\<close>

record console =
  display :: "byte list"
  putBusy :: bool
  incoming :: byte

definition EOF_byte :: byte where
  "EOF_byte = - 1"

text \<open>The comparison of a \<^verbatim>\<open>char\<close> with \<^verbatim>\<open>EOF\<close>, an \<^verbatim>\<open>int\<close>.\<close>

definition is_EOF :: "host \<Rightarrow> byte \<Rightarrow> bool" where
  "is_EOF h c \<longleftrightarrow> char_value h c = - 1"

definition Console ::
  "'q list_ops \<Rightarrow> c_int \<Rightarrow> ('q, 'k) simulator_scheme \<Rightarrow> (console \<times> ('q, 'k) simulator_scheme) res" where
  "Console L this s =
    and_then (Schedule L ConsoleReadPoll this ConsoleTime ConsoleReadInt s) (\<lambda>s.
    Inr (\<lparr>display = [], putBusy = False, incoming = EOF_byte\<rparr>, s))"

text \<open>
  What polling the keyboard finds: nothing, a character, or a file from which no character can be
  read.
\<close>

datatype keyboard = NoInput | Typed byte | NoCharacter

definition CheckCharAvail ::
  "host \<Rightarrow> 'q list_ops \<Rightarrow> (console \<times> ('q, 'k) simulator_scheme \<Rightarrow> (console \<times> ('q, 'k) simulator_scheme) res) \<Rightarrow>
   keyboard \<Rightarrow> c_int \<Rightarrow> console \<Rightarrow> ('q, 'k) simulator_scheme \<Rightarrow> (console \<times> ('q, 'k) simulator_scheme) res" where
  "CheckCharAvail h L readHandler key this c s =
    and_then (Schedule L ConsoleReadPoll this ConsoleTime ConsoleReadInt s) (\<lambda>s.
    if \<not> is_EOF h (incoming c) \<or> key = NoInput then Inr (c, s)
    else
      (let c = c\<lparr>incoming := (case key of Typed ch \<Rightarrow> ch | _ \<Rightarrow> EOF_byte)\<rparr>;
           s = s\<lparr>stats := (stats s)\<lparr>numConsoleCharsRead := Suc (numConsoleCharsRead (stats s))\<rparr>\<rparr>
       in readHandler (c, s)))"

definition put_idle :: "console \<Rightarrow> console" where
  "put_idle c = c\<lparr>putBusy := False\<rparr>"

definition WriteDone ::
  "(console \<times> ('q, 'k) simulator_scheme \<Rightarrow> (console \<times> ('q, 'k) simulator_scheme) res) \<Rightarrow>
   console \<Rightarrow> ('q, 'k) simulator_scheme \<Rightarrow> (console \<times> ('q, 'k) simulator_scheme) res" where
  "WriteDone writeHandler c s =
    writeHandler (put_idle c,
      s\<lparr>stats := (stats s)\<lparr>numConsoleCharsWritten := Suc (numConsoleCharsWritten (stats s))\<rparr>\<rparr>)"

definition GetChar :: "console \<Rightarrow> byte \<times> console" where
  "GetChar c = (incoming c, c\<lparr>incoming := EOF_byte\<rparr>)"

definition PutChar ::
  "'q list_ops \<Rightarrow> byte \<Rightarrow> c_int \<Rightarrow> console \<Rightarrow> ('q, 'k) simulator_scheme \<Rightarrow>
   (console \<times> ('q, 'k) simulator_scheme) res" where
  "PutChar L ch this c s =
    and_then (assert_that (\<not> putBusy c)) (\<lambda>_.
    let c = c\<lparr>display := display c @ [ch], putBusy := True\<rparr>
    in and_then (Schedule L ConsoleWriteDone this ConsoleTime ConsoleWriteInt s) (\<lambda>s. Inr (c, s)))"

section \<open>The timer never stops\<close>

lemma TimeOfNextInterrupt_range:
  assumes "0 \<le> r"
  shows "1 \<le> TimeOfNextInterrupt r t" "TimeOfNextInterrupt r t \<le> 2 * TimerTicks"
proof -
  have "r mod 200 \<le> 199" "0 \<le> r mod 200"
    using pos_mod_bound [of 200 r] pos_mod_sign [of 200 r] by linarith+
  with assms show "1 \<le> TimeOfNextInterrupt r t" "TimeOfNextInterrupt r t \<le> 2 * TimerTicks"
    by (simp_all add: TimeOfNextInterrupt_def TimerTicks_def smod_mod_positive)
qed

lemma TimerExpired_schedules:
  assumes "0 \<le> r"
  obtains s1 where "Schedule L TimerHandler this (TimeOfNextInterrupt r t) TimerInt s = Inr s1"
    and "TimerExpired L notify r this t s = notify s1"
proof -
  have "0 < TimeOfNextInterrupt r t" using TimeOfNextInterrupt_range(1) [OF assms, of t] by linarith
  then obtain s1 where "Schedule L TimerHandler this (TimeOfNextInterrupt r t) TimerInt s = Inr s1"
    using Schedule_returns by blast
  then show thesis by (intro that) (auto simp: TimerExpired_def)
qed

section \<open>Console output is an asynchronous device\<close>

lemma PutChar_done:
  assumes "PutChar L ch this c s = Inr (c', s')"
  shows "\<not> putBusy c" and "c' = c\<lparr>display := display c @ [ch], putBusy := True\<rparr>"
    and "Schedule L ConsoleWriteDone this ConsoleTime ConsoleWriteInt s = Inr s'"
  using assms by (auto simp: PutChar_def Let_def run_simps)

interpretation console_output: async_device L C ConsoleWriteDone putBusy "PutChar L" put_idle for L C
proof
  fix a this c c' and s s' :: "('a, 'b) simulator_scheme"
  assume r: "PutChar L a this c s = Inr (c', s')"
  show "\<not> putBusy c \<and> putBusy c'" using PutChar_done(1,2) [OF r] by simp
  assume "sorted_list L C"
  from Schedule_effect [OF this PutChar_done(3) [OF r]]
  show "\<exists>t ty. totalTicks (stats s) < t \<and> totalTicks (stats s') = totalTicks (stats s) \<and>
      C (pending s') = add_mset (t, \<lparr>handler = ConsoleWriteDone, arg = this, when = t, type = ty\<rparr>) (C (pending s))"
    by auto
qed (simp_all add: PutChar_def put_idle_def)

section \<open>Console input\<close>

lemma EOF_is_EOF: "char_signed h \<Longrightarrow> is_EOF h c \<longleftrightarrow> c = EOF_byte"
proof -
  assume "char_signed h"
  then have "is_EOF h c \<longleftrightarrow> (scast c :: c_int) = - 1" by (simp add: is_EOF_def char_value_def)
  also have "\<dots> \<longleftrightarrow> c = - 1"
  proof
    assume *: "(scast c :: c_int) = - 1"
    have "bit c n" if "n < 8" for n
    proof -
      have "bit (scast c :: c_int) n" using that by (simp add: *)
      with that show ?thesis by (cases "n = 7") (auto simp: bit_simps min_def split: if_splits)
    qed
    then show "c = - 1" by (intro bit_word_eqI) simp
  qed simp
  finally show ?thesis by (simp add: EOF_byte_def)
qed

lemma unsigned_never_EOF: "\<not> char_signed h \<Longrightarrow> \<not> is_EOF h c"
proof
  assume "\<not> char_signed h" and "is_EOF h c"
  then have *: "(ucast c :: c_int) = - 1" by (simp add: is_EOF_def char_value_def)
  have "bit (ucast c :: c_int) 31" by (simp add: *)
  then show False by (simp add: bit_simps) (use bit_imp_le_length [of c 31] in simp)
qed

end
