(* ===== verification/Network_Device.thy ===== *)
theory Network_Device
  imports Complex_Main Device_Interface Mips_Memory "HOL-Library.Signed_Division"
begin

text \<open>
  The network interface (\<^verbatim>\<open>machine/network.cc\<close>): packets of a fixed size on the wire, one send at a
  time, one packet buffered at the receiver. The socket is the stream of buffers handed to it; what
  the socket delivers and whether the random draw loses a packet are arguments.
\<close>

section \<open>Packets\<close>

record packet_header =
  to_addr :: c_int
  from_addr :: c_int
  hdr_length :: c_int

text \<open>The size of the structure \<^verbatim>\<open>PacketHeader\<close>: three words.\<close>

definition sizeof_PacketHeader :: nat where "sizeof_PacketHeader = 12"
definition MaxWireSize :: nat where "MaxWireSize = 64"
definition MaxPacketSize :: nat where "MaxPacketSize = MaxWireSize - sizeof_PacketHeader"

text \<open>A header stored at the start of a buffer, and read back, as the host lays its words out.\<close>

definition put_header :: "host \<Rightarrow> packet_header \<Rightarrow> (nat \<Rightarrow> byte) \<Rightarrow> nat \<Rightarrow> byte" where
  "put_header h hdr buf =
    store_word h (store_word h (store_word h buf 0 (to_addr hdr)) 4 (from_addr hdr)) 8 (hdr_length hdr)"

definition get_header :: "host \<Rightarrow> (nat \<Rightarrow> byte) \<Rightarrow> packet_header" where
  "get_header h buf =
    \<lparr>to_addr = load_word h buf 0, from_addr = load_word h buf 4, hdr_length = load_word h buf 8\<rparr>"

text \<open>\<^verbatim>\<open>bcopy\<close> of \<open>n\<close> bytes into a buffer at \<open>pos\<close>, and out of it.\<close>

definition copy_in :: "byte list \<Rightarrow> nat \<Rightarrow> nat \<Rightarrow> (nat \<Rightarrow> byte) \<Rightarrow> nat \<Rightarrow> byte" where
  "copy_in data n pos buf = (\<lambda>i. if pos \<le> i \<and> i < pos + n then data ! (i - pos) else buf i)"

definition copy_out :: "(nat \<Rightarrow> byte) \<Rightarrow> nat \<Rightarrow> nat \<Rightarrow> byte list" where
  "copy_out buf pos n = List.map (\<lambda>i. buf (pos + i)) [0..<n]"

section \<open>The device\<close>

text \<open>
  The class \<^verbatim>\<open>Network\<close>; \<open>chanceToWork\<close> is a \<^verbatim>\<open>double\<close>, read as a rational, and \<open>wire\<close> the packets
  put into the socket with the machine each is for. The bytes of a fresh buffer are arbitrary.
\<close>

record network =
  ident :: c_int
  chanceToWork :: rat
  sendBusy :: bool
  inHdr :: packet_header
  inbox :: "nat \<Rightarrow> byte"
  wire :: "(c_int \<times> (nat \<Rightarrow> byte)) list"

definition Network ::
  "'q list_ops \<Rightarrow> c_int \<Rightarrow> rat \<Rightarrow> packet_header \<Rightarrow> (nat \<Rightarrow> byte) \<Rightarrow> c_int \<Rightarrow> ('q, 'k) simulator_scheme \<Rightarrow>
   (network \<times> ('q, 'k) simulator_scheme) res" where
  "Network L addr reliability hdr0 inbox0 this s =
    (let n = \<lparr>ident = addr,
              chanceToWork = (if reliability < 0 then 0 else if 1 < reliability then 1 else reliability),
              sendBusy = False, inHdr = hdr0\<lparr>hdr_length := 0\<rparr>, inbox = inbox0, wire = []\<rparr>
     in and_then (Schedule L NetworkReadPoll this NetworkTime NetworkRecvInt s) (\<lambda>s. Inr (n, s)))"

text \<open>\<open>sock\<close> is the packet the socket has for us, if any.\<close>

definition CheckPktAvail ::
  "host \<Rightarrow> 'q list_ops \<Rightarrow> (network \<times> ('q, 'k) simulator_scheme \<Rightarrow> (network \<times> ('q, 'k) simulator_scheme) res) \<Rightarrow>
   (nat \<Rightarrow> byte) option \<Rightarrow> c_int \<Rightarrow> network \<Rightarrow> ('q, 'k) simulator_scheme \<Rightarrow>
   (network \<times> ('q, 'k) simulator_scheme) res" where
  "CheckPktAvail h L readHandler sock this n s =
    and_then (Schedule L NetworkReadPoll this NetworkTime NetworkRecvInt s) (\<lambda>s.
    if hdr_length (inHdr n) \<noteq> 0 then Inr (n, s)
    else case sock of
      None \<Rightarrow> Inr (n, s)
    | Some buffer \<Rightarrow>
        (let hdr = get_header h buffer
         in and_then (assert_that (to_addr hdr = ident n \<and> unat (hdr_length hdr) \<le> MaxPacketSize)) (\<lambda>_.
            let len = unat (hdr_length hdr);
                n = n\<lparr>inHdr := hdr,
                      inbox := copy_in (copy_out buffer sizeof_PacketHeader len) len 0 (inbox n)\<rparr>;
                s = s\<lparr>stats := (stats s)\<lparr>numPacketsRecvd := Suc (numPacketsRecvd (stats s))\<rparr>\<rparr>
            in readHandler (n, s))))"

definition send_idle :: "network \<Rightarrow> network" where
  "send_idle n = n\<lparr>sendBusy := False\<rparr>"

definition SendDone ::
  "(network \<times> ('q, 'k) simulator_scheme \<Rightarrow> (network \<times> ('q, 'k) simulator_scheme) res) \<Rightarrow>
   network \<Rightarrow> ('q, 'k) simulator_scheme \<Rightarrow> (network \<times> ('q, 'k) simulator_scheme) res" where
  "SendDone writeHandler n s =
    writeHandler (send_idle n,
      s\<lparr>stats := (stats s)\<lparr>numPacketsSent := Suc (numPacketsSent (stats s))\<rparr>\<rparr>)"

text \<open>
  \<open>r\<close> is the number \<^verbatim>\<open>Random\<close> returns, \<open>fresh\<close> the uninitialised buffer. The code checks that no
  send is in progress but does not record the one it starts.
\<close>

definition Send ::
  "host \<Rightarrow> 'q list_ops \<Rightarrow> int \<Rightarrow> (nat \<Rightarrow> byte) \<Rightarrow> packet_header \<Rightarrow> byte list \<Rightarrow> c_int \<Rightarrow> network \<Rightarrow>
   ('q, 'k) simulator_scheme \<Rightarrow> (network \<times> ('q, 'k) simulator_scheme) res" where
  "Send h L r fresh hdr data this n s =
    and_then (assert_that (\<not> sendBusy n \<and> hdr_length hdr > 0 \<and> unat (hdr_length hdr) \<le> MaxPacketSize \<and>
      from_addr hdr = ident n)) (\<lambda>_.
    and_then (Schedule L NetworkSendDone this NetworkTime NetworkSendInt s) (\<lambda>s.
    if chanceToWork n * 100 \<le> of_int (r smod 100) then Inr (n, s)
    else
      (let len = unat (hdr_length hdr)
       in if length data < len then Inl OutOfBounds
          else
            (let buffer = copy_in data len sizeof_PacketHeader (put_header h hdr fresh)
             in Inr (n\<lparr>wire := wire n @ [(to_addr hdr, buffer)]\<rparr>, s)))))"

definition Receive :: "network \<Rightarrow> packet_header \<times> byte list \<times> network" where
  "Receive n =
    (let hdr = inHdr n
     in (hdr, copy_out (inbox n) 0 (unat (hdr_length hdr)), n\<lparr>inHdr := hdr\<lparr>hdr_length := 0\<rparr>\<rparr>))"


section \<open>What is sent is received\<close>

lemma load_store_word: "load_word h (store_word h m p w) p = w"
  using le32_bytes [of w] by (simp add: load_word_def store_word_def)

lemma load_store_word_other:
  "q + 4 \<le> p \<or> p + 4 \<le> q \<Longrightarrow> load_word h (store_word h m p w) q = load_word h m q"
  by (auto simp: load_word_def store_word_def)

lemma get_put_header: "get_header h (put_header h hdr buf) = hdr"
  by (simp add: get_header_def put_header_def load_store_word load_store_word_other)

lemma load_word_copy_in: "p + 4 \<le> pos \<Longrightarrow> load_word h (copy_in data n pos buf) p = load_word h buf p"
  by (auto simp: load_word_def copy_in_def)

lemma get_header_packet: "get_header h (copy_in data n sizeof_PacketHeader (put_header h hdr buf)) = hdr"
  using get_put_header [of h hdr buf]
  by (simp add: get_header_def load_word_copy_in sizeof_PacketHeader_def)

lemma copy_out_in: "n \<le> length data \<Longrightarrow> copy_out (copy_in data n pos buf) pos n = take n data"
  by (intro nth_equalityI) (auto simp: copy_out_def copy_in_def)

lemma Send_reliable:
  assumes "\<not> sendBusy n" "hdr_length hdr > 0" "unat (hdr_length hdr) \<le> MaxPacketSize"
    "from_addr hdr = ident n" "chanceToWork n = 1" "0 \<le> r" "unat (hdr_length hdr) \<le> length data"
  obtains s' where "Send h L r fresh hdr data this n s = Inr (n\<lparr>wire := wire n @
      [(to_addr hdr, copy_in data (unat (hdr_length hdr)) sizeof_PacketHeader (put_header h hdr fresh))]\<rparr>, s')"
    and "Schedule L NetworkSendDone this NetworkTime NetworkSendInt s = Inr s'"
proof -
  have "r smod 100 < 100" using smod_int_range [of 100 r] by simp
  then have "\<not> (100 :: rat) \<le> of_int (r smod 100)"
    by (metis leD of_int_le_iff of_int_numeral)
  moreover obtain s' where "Schedule L NetworkSendDone this NetworkTime NetworkSendInt s = Inr s'"
    using Schedule_returns [of NetworkTime] by (force simp: NetworkTime_def)
  ultimately show thesis
    using assms by (intro that [of s']) (auto simp: Send_def Let_def)
qed

lemma CheckPktAvail_delivers:
  assumes "hdr_length (inHdr n) = 0" "to_addr (get_header h buffer) = ident n"
    "unat (hdr_length (get_header h buffer)) \<le> MaxPacketSize"
  shows "\<exists>s1. CheckPktAvail h L notify (Some buffer) this n s =
    notify (n\<lparr>inHdr := get_header h buffer,
      inbox := copy_in (copy_out buffer sizeof_PacketHeader (unat (hdr_length (get_header h buffer))))
        (unat (hdr_length (get_header h buffer))) 0 (inbox n)\<rparr>, s1)"
proof -
  obtain s1 where "Schedule L NetworkReadPoll this NetworkTime NetworkRecvInt s = Inr s1"
    using Schedule_returns [of NetworkTime] by (force simp: NetworkTime_def)
  with assms show ?thesis by (auto simp: CheckPktAvail_def Let_def)
qed

lemma Send_never_busy:
  "Send h L r fresh hdr data this n s = Inr (n', s') \<Longrightarrow> \<not> sendBusy n'"
  by (auto simp: Send_def run_simps Let_def split: if_splits)

end
