(* ===== verification/Fs_Store.thy ===== *)
theory Fs_Store
  imports Disk_Device
begin

text \<open>
  The array of sectors the file system works on, and the requests to the disk it stands for. That the
  synchronous disk (\<^verbatim>\<open>filesys/synchdisk.cc\<close>) implements it is shown in \<open>Synch_Disk\<close>; the file system's
  own operations are written over the sectors alone.
\<close>

section \<open>The sectors\<close>

type_synonym store = "int \<Rightarrow> byte list"

definition ReadSector :: "int \<Rightarrow> store \<Rightarrow> byte list res" where
  "ReadSector n st = and_then (assert_that (0 \<le> n \<and> n < NumSectors)) (\<lambda>_. Inr (st n))"

definition WriteSector :: "int \<Rightarrow> byte list \<Rightarrow> store \<Rightarrow> store res" where
  "WriteSector n data st =
    and_then (assert_that (0 \<le> n \<and> n < NumSectors)) (\<lambda>_.
    if length data < SectorSize then Inl OutOfBounds else Inr (st(n := take SectorSize data)))"

section \<open>Requests an idle disk accepts\<close>

definition idle_disk :: "disk \<Rightarrow> bool" where
  "idle_disk d \<longleftrightarrow> \<not> active d \<and> 0 \<le> lastSector d \<and> lastSector d < NumSectors"

lemma ReadRequest_accepts:
  assumes "idle_disk d" and "0 \<le> n" and "n < NumSectors"
  shows "\<exists>d' s'. ReadRequest L n this d s = Inr (sectors d n, d', s')"
proof -
  have "0 < ComputeLatency (totalTicks (stats s)) n False d"
    using latency_bounds(1) [of n d "totalTicks (stats s)" False] assms
    by (simp add: idle_disk_def RotationTime_def)
  with assms show ?thesis
    by (auto simp: ReadRequest_def Let_def Schedule_def idle_disk_def)
qed

lemma WriteRequest_accepts:
  assumes "idle_disk d" and "0 \<le> n" and "n < NumSectors" and "SectorSize \<le> length data"
  shows "\<exists>d' s'. WriteRequest L n data this d s = Inr (d', s')"
proof -
  have "0 < ComputeLatency (totalTicks (stats s)) n True d"
    using latency_bounds(1) [of n d "totalTicks (stats s)" True] assms
    by (simp add: idle_disk_def RotationTime_def)
  with assms show ?thesis
    by (auto simp: WriteRequest_def Let_def Schedule_def idle_disk_def)
qed

section \<open>Words in a sector\<close>

definition word_bytes :: "host \<Rightarrow> c_int \<Rightarrow> byte list" where
  "word_bytes h w =
    (let bs = [ucast w, ucast (drop_bit 8 w), ucast (drop_bit 16 w), ucast (drop_bit 24 w)]
     in if HOST_IS_BIG_ENDIAN h then rev bs else bs)"

definition bytes_of_words :: "host \<Rightarrow> c_int list \<Rightarrow> byte list" where
  "bytes_of_words h ws = concat (List.map (word_bytes h) ws)"

definition words_of_bytes :: "host \<Rightarrow> byte list \<Rightarrow> c_int list" where
  "words_of_bytes h bs = List.map (\<lambda>i. load_word h ((!) bs) (4 * i)) [0..<length bs div 4]"

lemma length_word_bytes [simp]: "length (word_bytes h w) = 4"
  by (simp add: word_bytes_def Let_def)

lemma length_bytes_of_words [simp]: "length (bytes_of_words h ws) = 4 * length ws"
  by (induction ws) (simp_all add: bytes_of_words_def)

lemma load_word_bytes: "load_word h ((!) (word_bytes h w @ bs)) 0 = w"
  using le32_bytes [of w]
  by (simp add: load_word_def word_bytes_def Let_def nth_append numeral_3_eq_3 numeral_2_eq_2)

lemma load_word_shift:
  assumes "length xs = 4"
  shows "load_word h ((!) (xs @ bs)) (4 * Suc i) = load_word h ((!) bs) (4 * i)"
  using assms by (simp add: load_word_def nth_append add.commute)

lemma words_of_bytes_of_words: "words_of_bytes h (bytes_of_words h ws) = ws"
proof (induction ws)
  case Nil
  then show ?case by (simp add: words_of_bytes_def bytes_of_words_def)
next
  case (Cons w ws)
  let ?bs = "bytes_of_words h ws"
  have "bytes_of_words h (w # ws) = word_bytes h w @ ?bs" by (simp add: bytes_of_words_def)
  moreover have "[0..<Suc (length ws)] = 0 # List.map Suc [0..<length ws]"
    by (simp add: upt_conv_Cons map_Suc_upt del: upt_Suc)
  ultimately show ?case
    using Cons.IH
    by (simp add: words_of_bytes_def load_word_bytes load_word_shift [simplified] comp_def del: upt_Suc)
qed

end
