(* ===== verification/Device_Properties.thy ===== *)
theory Device_Properties
  imports Disk_Device Char_Devices Network_Device Fs_Store Interrupt_Properties
begin

text \<open>
  The claims on the device simulators, with instances on the list and the kernel of the theory
  \<^verbatim>\<open>Interrupt_Properties\<close>.
\<close>

section \<open>The disk\<close>

definition sample_disk :: disk where
  "sample_disk = \<lparr>sectors = (\<lambda>_. replicate SectorSize 0), active = False, lastSector = 0, bufferInit = 0\<rparr>"

lemma sample_disk_ok: "disk_ok sample_disk"
  by (simp add: disk_ok_def sample_disk_def NumSectors_def SectorsPerTrack_def NumTracks_def)

text \<open>
  C16. A request the disk accepts completes after at least one sector's rotation and less than 64,
  and a write completes exactly when the target sector has passed under the head: at a multiple of
  the rotation time whose number, modulo the sectors of a track, is the sector's position in its
  track. (The bound on the time keeps the code's \<^verbatim>\<open>int\<close> copies of the clock exact.)
\<close>

theorem disk_request_timing:
  assumes "disk_ok d" and "0 \<le> n" and "n < NumSectors"
  shows "RotationTime \<le> ComputeLatency t n w d \<and> ComputeLatency t n w d < 64 * RotationTime \<and>
    (0 \<le> t \<longrightarrow> t + 64 * RotationTime < 2 ^ 31 \<longrightarrow>
      (\<exists>j. t + ComputeLatency t n True d = RotationTime * (j + 1) \<and> j mod SectorsPerTrack = n mod SectorsPerTrack))"
proof -
  have d: "0 \<le> lastSector d" "lastSector d < NumSectors" using assms(1) by (simp_all add: disk_ok_def)
  show ?thesis
    using latency_bounds [OF assms(2,3) d, of t w] latency_exact [OF assms(2,3) d, of t] by blast
qed

lemma disk_request_timing_witness:
  "\<exists>j. 700 + ComputeLatency 700 40 True sample_disk = RotationTime * (j + 1) \<and> j mod 32 = 8"
proof -
  have "(40 :: int) < NumSectors" by (simp add: NumSectors_def SectorsPerTrack_def NumTracks_def)
  from disk_request_timing [OF sample_disk_ok _ this, of 700 True] show ?thesis
    by (simp add: RotationTime_def SectorsPerTrack_def)
qed

text \<open>
  C17. The disk is a store of sectors. After an accepted write and its completion, a read that is
  accepted hands back the bytes written if it asks for that sector, and what was there before if it
  asks for another one; reads change nothing; and both leave a well-formed disk.
\<close>

theorem disk_holds_data:
  assumes "disk_ok d" and "WriteRequest L n data this d s = Inr (d1, s1)"
    and "ReadRequest L m this (idle_again d1) s2 = Inr (x, d2, s3)"
  shows "x = (if m = n then take SectorSize data else sectors d m) \<and> sectors d2 = sectors d1 \<and>
    disk_ok d1 \<and> disk_ok d2"
proof -
  note w = WriteRequest_done [OF assms(2)] and r = ReadRequest_done [OF assms(3)]
  have "x = (if m = n then take SectorSize data else sectors d m)"
    using r(4) w(6) by (simp add: idle_again_def)
  moreover have "sectors d2 = sectors d1" using r(6) by (simp add: idle_again_def)
  ultimately show ?thesis using assms(1) w r by (auto simp: disk_ok_def)
qed

lemma disk_write_read_sample:
  obtains d1 s1 x d2 s3 where
    "WriteRequest sample_list 5 (replicate 128 (9 :: byte)) 1 sample_disk (sample_clock SystemMode []) = Inr (d1, s1)"
    "ReadRequest sample_list 5 1 (idle_again d1) s1 = Inr (x, d2, s3)"
proof -
  have n: "0 \<le> (5 :: int)" "(5 :: int) < NumSectors"
    by (simp_all add: NumSectors_def SectorsPerTrack_def NumTracks_def)
  have i: "idle_disk sample_disk"
    by (simp add: idle_disk_def sample_disk_def NumSectors_def SectorsPerTrack_def NumTracks_def)
  obtain d1 s1 where w: "WriteRequest sample_list 5 (replicate 128 (9 :: byte)) 1 sample_disk
      (sample_clock SystemMode []) = Inr (d1, s1)"
    using WriteRequest_accepts [OF i n, of "replicate 128 9"] by (force simp: SectorSize_def)
  then have "idle_disk (idle_again d1)"
    using WriteRequest_done [OF w] n by (simp add: idle_disk_def idle_again_def)
  from ReadRequest_accepts [OF this n, of sample_list 1 s1] w show thesis using that by blast
qed

lemma disk_holds_data_witness:
  "\<exists>d1 s1 x d2 s3.
    WriteRequest sample_list 5 (replicate 128 (9 :: byte)) 1 sample_disk (sample_clock SystemMode []) = Inr (d1, s1) \<and>
    ReadRequest sample_list 5 1 (idle_again d1) s1 = Inr (x, d2, s3) \<and> x = replicate 128 9"
proof -
  obtain d1 s1 x d2 s3 where
    w: "WriteRequest sample_list 5 (replicate 128 (9 :: byte)) 1 sample_disk (sample_clock SystemMode []) = Inr (d1, s1)"
    and r: "ReadRequest sample_list 5 1 (idle_again d1) s1 = Inr (x, d2, s3)"
    by (rule disk_write_read_sample)
  from disk_holds_data [OF sample_disk_ok w r] have "x = replicate 128 9"
    by (simp add: SectorSize_def)
  with w r show ?thesis by blast
qed

section \<open>Requests and completions\<close>

text \<open>
  C18. The disk and the console's output are never asked for two things at once, and no completion
  is lost or made up: whatever sequence of requests, completion interrupts and other activity they
  go through, exactly one completion interrupt is pending for the device while it is busy, none
  while it is idle, and a request to the busy device stops the simulator.
\<close>

theorem one_completion_per_request:
  assumes "sorted_list L C"
    and "\<not> active d" and "outstanding C DiskDone this s = 0"
    and "\<not> putBusy c" and "outstanding C ConsoleWriteDone this s = 0"
    and "(device_step C DiskDone (disk_request L) idle_again this)^** (d, s) (d', s')"
    and "(device_step C ConsoleWriteDone (PutChar L) put_idle this)^** (c, s) (c', s'')"
  shows "outstanding C DiskDone this s' = (if active d' then 1 else 0) \<and>
    outstanding C ConsoleWriteDone this s'' = (if putBusy c' then 1 else 0) \<and>
    (active d' \<longrightarrow> disk_request L r this d' s' = Inl AssertionFailed) \<and>
    (putBusy c' \<longrightarrow> PutChar L ch this c' s'' = Inl AssertionFailed)"
  using disk.run_keeps [OF assms(1,6)] console_output.run_keeps [OF assms(1,7)] assms(2-5)
  by (simp add: disk.one_completion_def console_output.one_completion_def disk.request_busy
      console_output.request_busy)

lemma one_completion_per_request_witness:
  "\<exists>d' s'. active d' \<and> outstanding mset DiskDone 1 s' = 1 \<and>
    (device_step mset DiskDone (disk_request sample_list) idle_again 1)^**
      (sample_disk, sample_clock SystemMode []) (d', s')"
proof -
  let ?s = "sample_clock SystemMode []" and ?c = "\<lparr>display = [], putBusy = False, incoming = EOF_byte\<rparr>"
  obtain d1 s1 where w:
    "WriteRequest sample_list 5 (replicate 128 (9 :: byte)) 1 sample_disk ?s = Inr (d1, s1)"
    by (rule disk_write_read_sample)
  then have "disk_request sample_list (5, Some (replicate 128 9)) 1 sample_disk ?s = Inr (d1, s1)"
    by (simp add: disk_request_def)
  then have run: "(device_step mset DiskDone (disk_request sample_list) idle_again 1)^**
      (sample_disk, ?s) (d1, s1)"
    by (intro r_into_rtranclp requested)
  have idle: "\<not> active sample_disk" "outstanding mset DiskDone 1 ?s = 0" "\<not> putBusy ?c"
    "outstanding mset ConsoleWriteDone 1 ?s = 0"
    by (simp_all add: sample_disk_def outstanding_def)
  from one_completion_per_request [OF sample_list_ok idle run rtranclp.rtrancl_refl] run
    WriteRequest_done(5) [OF w] show ?thesis by auto
qed

section \<open>Devices that poll\<close>

definition rearmed ::
  "('q \<Rightarrow> (int \<times> pending_interrupt) multiset) \<Rightarrow> int_handler \<Rightarrow> c_int \<Rightarrow> IntType \<Rightarrow> int \<Rightarrow>
   ('q, 'k) simulator_scheme \<Rightarrow> ('q, 'k) simulator_scheme \<Rightarrow> bool" where
  "rearmed C irq this ty n s s' \<longleftrightarrow> C (pending s') = add_mset (totalTicks (stats s) + n,
     \<lparr>handler = irq, arg = this, when = totalTicks (stats s) + n, type = ty\<rparr>) (C (pending s))"

lemma rearmed_Schedule:
  assumes "sorted_list L C" and "0 < n"
  obtains s1 where "Schedule L irq this n ty s = Inr s1" and "rearmed C irq this ty n s s1"
  using Schedule_returns [OF assms(2)] Schedule_effect(1) [OF assms(1)] unfolding rearmed_def by metis

lemma rearmed_stats [simp]: "rearmed C irq this ty n s (s1\<lparr>stats := st\<rparr>) = rearmed C irq this ty n s s1"
  by (simp add: rearmed_def)

lemma CheckCharAvail_rearms:
  assumes "sorted_list L C"
  shows "\<exists>c' s1. rearmed C ConsoleReadPoll this ConsoleReadInt ConsoleTime s s1 \<and>
    CheckCharAvail h L readHandler key this c s \<in> {Inr (c', s1), readHandler (c', s1)}"
proof -
  have "0 < ConsoleTime" by (simp add: ConsoleTime_def)
  then obtain s1 where s1: "Schedule L ConsoleReadPoll this ConsoleTime ConsoleReadInt s = Inr s1"
    "rearmed C ConsoleReadPoll this ConsoleReadInt ConsoleTime s s1"
    by (rule rearmed_Schedule [OF assms])
  show ?thesis
  proof (cases "\<not> is_EOF h (incoming c) \<or> key = NoInput")
    case True
    with s1 show ?thesis by (intro exI [of _ c] exI [of _ s1]) (simp add: CheckCharAvail_def)
  next
    case False
    with s1 show ?thesis
      by (intro exI [of _ "c\<lparr>incoming := (case key of Typed ch \<Rightarrow> ch | _ \<Rightarrow> EOF_byte)\<rparr>"] exI
          [of _ "s1\<lparr>stats := (stats s1)\<lparr>numConsoleCharsRead := Suc (numConsoleCharsRead (stats s1))\<rparr>\<rparr>"])
        (simp add: CheckCharAvail_def Let_def)
  qed
qed

lemma CheckPktAvail_rearms:
  assumes "sorted_list L C"
  shows "\<exists>n' s1. rearmed C NetworkReadPoll this NetworkRecvInt NetworkTime s s1 \<and>
    CheckPktAvail h L readHandler sock this n s \<in> {Inr (n', s1), readHandler (n', s1), Inl AssertionFailed}"
proof -
  have "0 < NetworkTime" by (simp add: NetworkTime_def)
  then obtain s1 where s1: "Schedule L NetworkReadPoll this NetworkTime NetworkRecvInt s = Inr s1"
    "rearmed C NetworkReadPoll this NetworkRecvInt NetworkTime s s1"
    by (rule rearmed_Schedule [OF assms])
  show ?thesis
  proof (cases "hdr_length (inHdr n) \<noteq> 0 \<or> sock = None")
    case True
    with s1 show ?thesis
      by (intro exI [of _ n] exI [of _ s1]) (auto simp: CheckPktAvail_def split: option.split)
  next
    case False
    then obtain buffer where sock: "sock = Some buffer" by auto
    let ?hdr = "get_header h buffer"
    let ?len = "unat (hdr_length ?hdr)"
    show ?thesis
      by (intro exI [of _ "n\<lparr>inHdr := ?hdr, inbox := copy_in (copy_out buffer sizeof_PacketHeader ?len) ?len 0 (inbox n)\<rparr>"]
          exI [of _ "s1\<lparr>stats := (stats s1)\<lparr>numPacketsRecvd := Suc (numPacketsRecvd (stats s1))\<rparr>\<rparr>"])
        (use s1 False sock in \<open>simp add: CheckPktAvail_def Let_def assert_that_def\<close>)
  qed
qed

text \<open>
  The timer, the keyboard and the network never stop: each of their interrupts puts the next
  one on its way before anything else happens, in at most 200 ticks for the timer and in exactly 100
  for the other two, whatever was found and whatever the kernel's handler then does. (A packet that
  is not for this machine, or too long, stops the simulator.)
\<close>

lemma pollers_rearm:
  assumes "sorted_list L C" and "0 \<le> r"
  shows "(\<exists>s1 m. TimerExpired L notify r this tm s = notify s1 \<and> 0 < m \<and> m \<le> 200 \<and>
      rearmed C TimerHandler this TimerInt m s s1) \<and>
    (\<exists>c' s1. rearmed C ConsoleReadPoll this ConsoleReadInt 100 s s1 \<and>
      CheckCharAvail h L readHandler key this c s \<in> {Inr (c', s1), readHandler (c', s1)}) \<and>
    (\<exists>n' s1. rearmed C NetworkReadPoll this NetworkRecvInt 100 s s1 \<and>
      CheckPktAvail h L packetHandler sock this n s \<in>
        {Inr (n', s1), packetHandler (n', s1), Inl AssertionFailed})"
proof -
  have "0 < TimeOfNextInterrupt r tm" using TimeOfNextInterrupt_range(1) [OF assms(2), of tm] by linarith
  then obtain s1 where "Schedule L TimerHandler this (TimeOfNextInterrupt r tm) TimerInt s = Inr s1"
    "rearmed C TimerHandler this TimerInt (TimeOfNextInterrupt r tm) s s1"
    by (rule rearmed_Schedule [OF assms(1)])
  with \<open>0 < TimeOfNextInterrupt r tm\<close> TimeOfNextInterrupt_range(2) [OF assms(2), of tm]
  have "\<exists>s1 m. TimerExpired L notify r this tm s = notify s1 \<and> 0 < m \<and> m \<le> 200 \<and>
      rearmed C TimerHandler this TimerInt m s s1"
    by (intro exI [of _ s1] exI [of _ "TimeOfNextInterrupt r tm"]) (simp add: TimerExpired_def TimerTicks_def)
  with CheckCharAvail_rearms [OF assms(1), of this s h readHandler key c]
    CheckPktAvail_rearms [OF assms(1), of this s h packetHandler sock n] show ?thesis
    by (simp add: ConsoleTime_def NetworkTime_def)
qed

section \<open>The console\<close>

text \<open>
  C20. A character typed is handed to the kernel once. Where \<^verbatim>\<open>char\<close> is signed, polling with no
  character waiting takes the typed one and calls the read handler with it, \<^verbatim>\<open>GetChar\<close> returns it
  and makes room, and polling while it has not been fetched takes nothing. Where \<^verbatim>\<open>char\<close> is unsigned
  the comparison with \<^verbatim>\<open>EOF\<close> can never hold and no character is ever taken.
\<close>

theorem console_input:
  assumes "Schedule L ConsoleReadPoll this ConsoleTime ConsoleReadInt s = Inr s1"
  shows "if char_signed h
    then (incoming c = EOF_byte \<longrightarrow> (\<exists>c1 s2. CheckCharAvail h L readHandler (Typed ch) this c s = readHandler (c1, s2) \<and>
        GetChar c1 = (ch, c1\<lparr>incoming := EOF_byte\<rparr>) \<and> display c1 = display c \<and> putBusy c1 = putBusy c)) \<and>
      (incoming c \<noteq> EOF_byte \<longrightarrow> CheckCharAvail h L readHandler key this c s = Inr (c, s1))
    else CheckCharAvail h L readHandler key this c s = Inr (c, s1)"
proof (cases "char_signed h")
  case True
  have "CheckCharAvail h L readHandler (Typed ch) this c s = readHandler (c\<lparr>incoming := ch\<rparr>,
      s1\<lparr>stats := (stats s1)\<lparr>numConsoleCharsRead := Suc (numConsoleCharsRead (stats s1))\<rparr>\<rparr>)"
    if "incoming c = EOF_byte"
    using that assms True by (simp add: CheckCharAvail_def EOF_is_EOF Let_def)
  moreover have "GetChar (c\<lparr>incoming := ch\<rparr>) = (ch, c\<lparr>incoming := EOF_byte\<rparr>)"
    by (simp add: GetChar_def)
  ultimately show ?thesis
    using assms True by (auto simp: CheckCharAvail_def EOF_is_EOF GetChar_def)
next
  case False
  with assms show ?thesis by (simp add: CheckCharAvail_def unsigned_never_EOF)
qed

lemma console_input_witness:
  "\<exists>c1 s2. CheckCharAvail sample_host sample_list Inr (Typed 65) 1
      \<lparr>display = [], putBusy = False, incoming = EOF_byte\<rparr> (sample_clock SystemMode []) = Inr (c1, s2) \<and>
    fst (GetChar c1) = 65"
proof -
  obtain s1 where "Schedule sample_list ConsoleReadPoll 1 ConsoleTime ConsoleReadInt (sample_clock SystemMode []) = Inr s1"
    using Schedule_returns [of ConsoleTime] by (force simp: ConsoleTime_def)
  from console_input [OF this, of sample_host "\<lparr>display = [], putBusy = False, incoming = EOF_byte\<rparr>" Inr 65]
  show ?thesis by (auto simp: sample_host_def GetChar_def)
qed

section \<open>The network\<close>

text \<open>
  A packet sent over a reliable network to a machine whose buffer is free arrives as it was
  sent: \<^verbatim>\<open>Receive\<close> returns the header and exactly the bytes the header's length counts, and frees
  the buffer for the next packet.
\<close>

lemma network_roundtrip:
  assumes "\<not> sendBusy n" "hdr_length hdr > 0" "unat (hdr_length hdr) \<le> MaxPacketSize" "from_addr hdr = ident n"
    and "chanceToWork n = 1" "0 \<le> r" "unat (hdr_length hdr) \<le> length data"
    and "to_addr hdr = ident n2" "hdr_length (inHdr n2) = 0"
  shows "\<exists>s' buffer n2' s2'. Send h L r fresh hdr data this n s =
      Inr (n\<lparr>wire := wire n @ [(to_addr hdr, buffer)]\<rparr>, s') \<and>
    CheckPktAvail h L notify (Some buffer) this2 n2 s2 = notify (n2', s2') \<and>
    (case Receive n2' of (hdr', data', n2'') \<Rightarrow>
      hdr' = hdr \<and> data' = take (unat (hdr_length hdr)) data \<and> hdr_length (inHdr n2'') = 0)"
proof -
  let ?len = "unat (hdr_length hdr)"
  let ?b = "copy_in data ?len sizeof_PacketHeader (put_header h hdr fresh)"
  note hdr = get_header_packet [of h data ?len hdr fresh]
  obtain s' where "Send h L r fresh hdr data this n s = Inr (n\<lparr>wire := wire n @ [(to_addr hdr, ?b)]\<rparr>, s')"
    by (rule Send_reliable [OF assms(1-7)])
  moreover obtain s2' where "CheckPktAvail h L notify (Some ?b) this2 n2 s2 =
      notify (n2\<lparr>inHdr := hdr, inbox := copy_in (take ?len data) ?len 0 (inbox n2)\<rparr>, s2')"
    using CheckPktAvail_delivers [OF assms(9), of h ?b L notify this2 s2] assms(3,7,8)
    by (auto simp: hdr copy_out_in)
  ultimately show ?thesis
    using assms(7) by (auto simp: Receive_def copy_out_in Let_def intro!: exI)
qed

definition sample_network :: "c_int \<Rightarrow> network" where
  "sample_network me =
    \<lparr>ident = me, chanceToWork = 1, sendBusy = False,
     inHdr = \<lparr>to_addr = 0, from_addr = 0, hdr_length = 0\<rparr>, inbox = (\<lambda>_. 0), wire = []\<rparr>"

end
