(* ===== verification/Fs_Header.thy ===== *)
theory Fs_Header
  imports Fs_Store
begin

text \<open>
  File headers (\<^verbatim>\<open>filesys/filehdr.cc\<close>). A header names either the data sectors of a file themselves
  (mode 0, for directories and the free map) or the sectors of a table of data sectors (mode 1, for
  files). The bit map of free sectors (\<^verbatim>\<open>userprog/bitmap.h\<close>) and the rounding macros
  (\<^verbatim>\<open>threads/utility.h\<close>) are not in the repository: they are parameters, and what the code relies
  on is stated as \<open>bitmap_ok\<close> and \<open>utility_ok\<close>. Headers fresh from \<^verbatim>\<open>new\<close> hold arbitrary words,
  which are parameters too.
\<close>

section \<open>What the repository does not hold\<close>

record utility =
  divRoundUp :: "int \<Rightarrow> int \<Rightarrow> int"
  divRoundDown :: "int \<Rightarrow> int \<Rightarrow> int"

definition utility_ok :: "utility \<Rightarrow> bool" where
  "utility_ok u \<longleftrightarrow> (\<forall>n s. 0 \<le> n \<longrightarrow> 0 < s \<longrightarrow>
     divRoundUp u n s = (n + s - 1) div s \<and> divRoundDown u n s = n div s)"

text \<open>The bit map: \<open>FindBit\<close> is \<^verbatim>\<open>BitMap::Find\<close>, which marks the clear bit it returns, or returns -1.\<close>

record 'b bitmap_ops =
  NewMap :: "int \<Rightarrow> 'b"
  NumClear :: "'b \<Rightarrow> int"
  FindBit :: "'b \<Rightarrow> int \<times> 'b"
  Mark :: "int \<Rightarrow> 'b \<Rightarrow> 'b res"
  Clear :: "int \<Rightarrow> 'b \<Rightarrow> 'b res"
  Test :: "int \<Rightarrow> 'b \<Rightarrow> bool res"

abbreviation disk_sectors :: "int set" where
  "disk_sectors \<equiv> {0..<NumSectors}"

text \<open>\<open>bits\<close> is the set of the marked sectors of a map of \<open>NumSectors\<close> bits.\<close>

definition bitmap_ok :: "'b bitmap_ops \<Rightarrow> ('b \<Rightarrow> int set) \<Rightarrow> bool" where
  "bitmap_ok B bits \<longleftrightarrow>
     bits (NewMap B NumSectors) = {} \<and>
     (\<forall>b. NumClear B b = int (card (disk_sectors - bits b))) \<and>
     (\<forall>b n b'. FindBit B b = (n, b') \<longrightarrow>
        (if disk_sectors \<subseteq> bits b then n = - 1 \<and> bits b' = bits b
         else n \<in> disk_sectors \<and> n \<notin> bits b \<and> bits b' = insert n (bits b))) \<and>
     (\<forall>b. \<forall>n \<in> disk_sectors. (\<exists>b'. Mark B n b = Inr b' \<and> bits b' = insert n (bits b)) \<and>
        (\<exists>b'. Clear B n b = Inr b' \<and> bits b' = bits b - {n}) \<and> Test B n b = Inr (n \<in> bits b))"

section \<open>Headers\<close>

definition NumDirect :: nat where "NumDirect = (SectorSize - 2 * 4) div 4"

text \<open>\<^verbatim>\<open>SectorSize / sizeof(int)\<close>, the data sectors one sector of the table names.\<close>

definition IntsPerSector :: nat where "IntsPerSector = SectorSize div 4"

record file_header =
  numBytes :: int
  numSectors :: int
  dataSectors :: "int list"

text \<open>A header seen as an array of words, and as the bytes of a sector.\<close>

definition header_words :: "file_header \<Rightarrow> int list" where
  "header_words hdr = numBytes hdr # numSectors hdr # dataSectors hdr"

definition header_of_words :: "int list \<Rightarrow> file_header" where
  "header_of_words ws = \<lparr>numBytes = ws ! 0, numSectors = ws ! 1, dataSectors = drop 2 ws\<rparr>"

definition header_bytes :: "host \<Rightarrow> file_header \<Rightarrow> byte list" where
  "header_bytes h hdr = bytes_of_words h (List.map word_of_int (header_words hdr))"

definition header_of_bytes :: "host \<Rightarrow> byte list \<Rightarrow> file_header" where
  "header_of_bytes h bs = header_of_words (List.map sint (words_of_bytes h bs))"

definition FetchFrom :: "host \<Rightarrow> int \<Rightarrow> store \<Rightarrow> file_header res" where
  "FetchFrom h sector st = and_then (ReadSector sector st) (\<lambda>bs. Inr (header_of_bytes h bs))"

definition WriteBack :: "host \<Rightarrow> int \<Rightarrow> file_header \<Rightarrow> store \<Rightarrow> store res" where
  "WriteBack h sector hdr st = WriteSector sector (header_bytes h hdr) st"

definition FileLength :: "file_header \<Rightarrow> int" where
  "FileLength hdr = numBytes hdr"

definition ByteToSector :: "host \<Rightarrow> file_header \<Rightarrow> int \<Rightarrow> int \<Rightarrow> store \<Rightarrow> int res" where
  "ByteToSector h hdr off mode st =
    (let dataSectorNumber = off sdiv int SectorSize
     in if mode = 0 then
          (if 0 \<le> dataSectorNumber \<and> nat dataSectorNumber < NumDirect
           then Inr (dataSectors hdr ! nat dataSectorNumber) else Inl OutOfBounds)
        else
          (let entrySector = dataSectorNumber div int IntsPerSector;
               sectorOffset = dataSectorNumber mod int IntsPerSector
           in if 0 \<le> entrySector \<and> nat entrySector < NumDirect
              then and_then (FetchFrom h (dataSectors hdr ! nat entrySector) st) (\<lambda>newHdr.
                   Inr (header_words newHdr ! nat sectorOffset))
              else Inl OutOfBounds))"

section \<open>Allocation\<close>

text \<open>Calls of \<^verbatim>\<open>Find\<close> in a row.\<close>

primrec find_many :: "'b bitmap_ops \<Rightarrow> nat \<Rightarrow> 'b \<Rightarrow> int list \<times> 'b" where
  "find_many B 0 b = ([], b)"
| "find_many B (Suc n) b =
    (let (x, b) = FindBit B b; (xs, b) = find_many B n b in (x # xs, b))"

text \<open>The first words of a header are overwritten.\<close>

definition fill_header :: "int list \<Rightarrow> file_header \<Rightarrow> file_header" where
  "fill_header ws hdr = header_of_words (ws @ drop (length ws) (header_words hdr))"

text \<open>The loop of \<open>Allocate\<close>: \<open>m\<close> iterations from \<open>j\<close> on; \<open>fresh j\<close> is the header \<^verbatim>\<open>new\<close> gives.\<close>

primrec allocate_blocks ::
  "host \<Rightarrow> 'b bitmap_ops \<Rightarrow> (nat \<Rightarrow> file_header) \<Rightarrow> nat \<Rightarrow> nat \<Rightarrow> int \<Rightarrow> file_header \<Rightarrow> 'b \<Rightarrow> store \<Rightarrow>
   (file_header \<times> 'b \<times> store) res" where
  "allocate_blocks h B fresh 0 j sectorsToFill hdr b st = Inr (hdr, b, st)"
| "allocate_blocks h B fresh (Suc m) j sectorsToFill hdr b st =
    (let (sector, b) = FindBit B b;
         hdr = hdr\<lparr>dataSectors := (dataSectors hdr)[j := sector]\<rparr>;
         (ws, b) = find_many B (nat (min sectorsToFill (int IntsPerSector))) b
     in if NumDirect \<le> j then Inl OutOfBounds
        else and_then (WriteBack h sector (fill_header ws (fresh j)) st) (\<lambda>st.
             allocate_blocks h B fresh m (Suc j) (sectorsToFill - int IntsPerSector) hdr b st))"

text \<open>
  The number of iterations: the division's second argument is unsigned, so the first is taken as
  unsigned too.
\<close>

definition table_size :: "utility \<Rightarrow> int \<Rightarrow> nat" where
  "table_size u n = nat (divRoundUp u (uint (word_of_int n :: c_int)) (int IntsPerSector))"

definition Allocate ::
  "utility \<Rightarrow> host \<Rightarrow> 'b bitmap_ops \<Rightarrow> (nat \<Rightarrow> file_header) \<Rightarrow> int \<Rightarrow> file_header \<Rightarrow> 'b \<Rightarrow> store \<Rightarrow>
   (bool \<times> file_header \<times> 'b \<times> store) res" where
  "Allocate u h B fresh fileSize hdr freeMap st =
    (let n = divRoundUp u fileSize (int SectorSize);
         hdr = hdr\<lparr>numBytes := fileSize, numSectors := n\<rparr>
     in if NumClear B freeMap < n then Inr (False, hdr, freeMap, st)
        else and_then (allocate_blocks h B fresh (table_size u n) 0 n hdr freeMap st) (\<lambda>p.
             Inr (True, p)))"

definition AllocateDirectory ::
  "utility \<Rightarrow> 'b bitmap_ops \<Rightarrow> int \<Rightarrow> file_header \<Rightarrow> 'b \<Rightarrow> (bool \<times> file_header \<times> 'b) res" where
  "AllocateDirectory u B dirSize hdr freeMap =
    (let n = divRoundUp u dirSize (int SectorSize);
         hdr = hdr\<lparr>numBytes := dirSize, numSectors := n\<rparr>
     in if NumClear B freeMap < n then Inr (False, hdr, freeMap)
        else if int NumDirect < n then Inl OutOfBounds
        else
          (let (secs, b) = find_many B (nat n) freeMap
           in Inr (True, hdr\<lparr>dataSectors := secs @ drop (length secs) (dataSectors hdr)\<rparr>, b)))"

section \<open>Deallocation\<close>

text \<open>The inner loop of \<open>Deallocate\<close>, with its condition as it is written.\<close>

function clear_data :: "'b bitmap_ops \<Rightarrow> file_header \<Rightarrow> int \<Rightarrow> int \<Rightarrow> 'b \<Rightarrow> 'b res" where
  "clear_data B sectorArray sectorsToClear i b =
    (if i < sectorsToClear \<and> (i \<noteq> 0 \<and> i mod int IntsPerSector \<noteq> 0)
     then and_then (Clear B (header_words sectorArray ! nat i) b) (\<lambda>b.
          clear_data B sectorArray sectorsToClear (i + 1) b)
     else Inr b)"
  by pat_completeness auto

termination by (relation "measure (\<lambda>(_, _, n, i, _). nat (n - i))") auto

primrec deallocate_blocks ::
  "host \<Rightarrow> 'b bitmap_ops \<Rightarrow> nat \<Rightarrow> nat \<Rightarrow> int \<Rightarrow> file_header \<Rightarrow> store \<Rightarrow> 'b \<Rightarrow> 'b res" where
  "deallocate_blocks h B 0 j sectorsToClear hdr st b = Inr b"
| "deallocate_blocks h B (Suc m) j sectorsToClear hdr st b =
    (if NumDirect \<le> j then Inl OutOfBounds
     else and_then (FetchFrom h (dataSectors hdr ! j) st) (\<lambda>sectorArray.
          and_then (clear_data B sectorArray sectorsToClear 0 b) (\<lambda>b.
          and_then (Clear B (dataSectors hdr ! j) b) (\<lambda>b.
          deallocate_blocks h B m (Suc j) (sectorsToClear - int IntsPerSector) hdr st b))))"

definition Deallocate ::
  "utility \<Rightarrow> host \<Rightarrow> 'b bitmap_ops \<Rightarrow> file_header \<Rightarrow> store \<Rightarrow> 'b \<Rightarrow> 'b res" where
  "Deallocate u h B hdr st freeMap =
    deallocate_blocks h B (table_size u (numSectors hdr)) 0 (numSectors hdr) hdr st freeMap"

primrec clear_tested :: "'b bitmap_ops \<Rightarrow> int list \<Rightarrow> 'b \<Rightarrow> 'b res" where
  "clear_tested B [] b = Inr b"
| "clear_tested B (n # ns) b =
    and_then (Test B n b) (\<lambda>marked.
    and_then (assert_that marked) (\<lambda>_.
    and_then (Clear B n b) (clear_tested B ns)))"

definition DeallocateDirectory :: "'b bitmap_ops \<Rightarrow> file_header \<Rightarrow> 'b \<Rightarrow> 'b res" where
  "DeallocateDirectory B hdr freeMap =
    and_then (clear_tested B (take (nat (numSectors hdr)) (dataSectors hdr)) freeMap) (\<lambda>b.
    if int NumDirect < numSectors hdr then Inl OutOfBounds else Inr b)"

section \<open>Headers on disk\<close>

definition c_range :: "int \<Rightarrow> bool" where
  "c_range x \<longleftrightarrow> - (2 ^ 31) \<le> x \<and> x < 2 ^ 31"

text \<open>A header the code can have in memory: its table has its full length, its fields are C integers.\<close>

definition header_ok :: "file_header \<Rightarrow> bool" where
  "header_ok hdr \<longleftrightarrow> length (dataSectors hdr) = NumDirect \<and> (\<forall>w \<in> set (header_words hdr). c_range w)"

lemmas header_sizes = NumDirect_def IntsPerSector_def SectorSize_def

lemma sint_of_c_range: "c_range x \<Longrightarrow> sint (word_of_int x :: c_int) = x"
  by (simp add: c_range_def sint_sbintrunc' signed_take_bit_int_eq_self)

lemma c_range_sint: "c_range (sint (w :: c_int))"
  using sint_ge [of w] sint_lt [of w] by (simp add: c_range_def)

lemma words_header_bytes:
  assumes "header_ok hdr"
  shows "List.map sint (words_of_bytes h (header_bytes h hdr)) = header_words hdr"
proof -
  have "List.map (sint \<circ> (word_of_int :: int \<Rightarrow> c_int)) (header_words hdr) = header_words hdr"
    by (rule map_idI) (use assms in \<open>auto simp: header_ok_def sint_of_c_range\<close>)
  then show ?thesis by (simp add: header_bytes_def words_of_bytes_of_words)
qed

lemma header_words_of_words: "2 \<le> length ws \<Longrightarrow> header_words (header_of_words ws) = ws"
  by (cases ws; cases "tl ws") (auto simp: header_words_def header_of_words_def)

lemma header_of_words_words: "header_of_words (header_words hdr) = hdr"
  by (simp add: header_words_def header_of_words_def)

lemma length_header_words: "header_ok hdr \<Longrightarrow> length (header_words hdr) = 32"
  by (simp add: header_ok_def header_words_def header_sizes)

lemma length_header_bytes: "header_ok hdr \<Longrightarrow> length (header_bytes h hdr) = SectorSize"
  using length_header_words [of hdr] by (simp add: header_bytes_def SectorSize_def)

lemma header_of_header_bytes: "header_ok hdr \<Longrightarrow> header_of_bytes h (header_bytes h hdr) = hdr"
  by (simp add: header_of_bytes_def words_header_bytes header_of_words_words)

lemma header_of_bytes_ok: "length bs = SectorSize \<Longrightarrow> header_ok (header_of_bytes h bs)"
  by (auto simp: header_ok_def header_of_bytes_def header_of_words_def header_words_def words_of_bytes_def
      header_sizes c_range_sint dest!: in_set_dropD)

lemma WriteBack_header:
  assumes "header_ok hdr" and "n \<in> disk_sectors"
  shows "WriteBack h n hdr st = Inr (st(n := header_bytes h hdr))"
  using assms by (simp add: WriteBack_def WriteSector_def length_header_bytes)

lemma FetchFrom_written:
  assumes "header_ok hdr" and "n \<in> disk_sectors" and "st n = header_bytes h hdr"
  shows "FetchFrom h n st = Inr hdr"
  using assms by (simp add: FetchFrom_def ReadSector_def header_of_header_bytes)

lemma fill_header_words:
  assumes "header_ok hdr" and "length ws \<le> 32"
  shows "header_words (fill_header ws hdr) = ws @ drop (length ws) (header_words hdr)"
  using assms length_header_words [of hdr] by (simp add: fill_header_def header_words_of_words)

lemma fill_header_ok:
  assumes "header_ok hdr" and "length ws \<le> 32" and "\<forall>w \<in> set ws. c_range w"
  shows "header_ok (fill_header ws hdr)"
proof -
  have "length (header_words (fill_header ws hdr)) = 32"
    using assms length_header_words [of hdr] by (simp add: fill_header_words)
  then have "length (dataSectors (fill_header ws hdr)) = 30" by (simp add: header_words_def)
  then show ?thesis
    using assms by (auto simp: header_ok_def fill_header_words header_sizes dest: in_set_dropD)
qed

end
