(* ===== verification/Fs_Alloc.thy ===== *)
theory Fs_Alloc
  imports Fs_Header
begin

text \<open>
  What allocation and deallocation do to the bit map and to the sectors: the sectors handed out are
  free, distinct and recorded, in the header itself or in the sectors of its table.
\<close>

lemma header_counts: "NumDirect = 30" "IntsPerSector = 32"
  by (simp_all add: header_sizes)

section \<open>Finding free sectors\<close>

abbreviation free_sectors :: "('b \<Rightarrow> int set) \<Rightarrow> 'b \<Rightarrow> int set" where
  "free_sectors bits b \<equiv> disk_sectors - bits b"

lemma bitmap_find:
  assumes "bitmap_ok B bits" and "FindBit B b = (n, b')" and "free_sectors bits b \<noteq> {}"
  shows "n \<in> free_sectors bits b" and "bits b' = insert n (bits b)"
    and "card (free_sectors bits b) = Suc (card (free_sectors bits b'))"
proof -
  show n: "n \<in> free_sectors bits b" and b': "bits b' = insert n (bits b)"
    using assms unfolding bitmap_ok_def by (metis DiffI Diff_eq_empty_iff)+
  have "free_sectors bits b' = free_sectors bits b - {n}" using b' by auto
  then show "card (free_sectors bits b) = Suc (card (free_sectors bits b'))"
    using n card_Suc_Diff1 [of "free_sectors bits b" n] by simp
qed

lemma bitmap_full:
  assumes "bitmap_ok B bits" and "FindBit B b = (n, b')" and "free_sectors bits b = {}"
  shows "n = - 1" and "bits b' = bits b"
  using assms unfolding bitmap_ok_def by (metis Diff_eq_empty_iff)+

lemma bitmap_NumClear: "bitmap_ok B bits \<Longrightarrow> NumClear B b = int (card (free_sectors bits b))"
  by (simp add: bitmap_ok_def)

lemma bitmap_Clear:
  assumes "bitmap_ok B bits" and "n \<in> disk_sectors"
  obtains b' where "Clear B n b = Inr b'" and "bits b' = bits b - {n}"
  using assms unfolding bitmap_ok_def by blast

lemma bitmap_Mark:
  assumes "bitmap_ok B bits" and "n \<in> disk_sectors"
  obtains b' where "Mark B n b = Inr b'" and "bits b' = insert n (bits b)"
  using assms unfolding bitmap_ok_def by blast

lemma bitmap_Test: "bitmap_ok B bits \<Longrightarrow> n \<in> disk_sectors \<Longrightarrow> Test B n b = Inr (n \<in> bits b)"
  unfolding bitmap_ok_def by blast

lemma find_many_length: "find_many B n b = (xs, b') \<Longrightarrow> length xs = n"
  by (induction n arbitrary: b xs b') (auto simp: Let_def split: prod.splits)

lemma find_many_ok:
  assumes "bitmap_ok B bits" and "find_many B n b = (xs, b')" and "n \<le> card (free_sectors bits b)"
  shows "length xs = n \<and> distinct xs \<and> set xs \<subseteq> free_sectors bits b \<and> bits b' = bits b \<union> set xs \<and>
    card (free_sectors bits b) = n + card (free_sectors bits b')"
  using assms(2,3)
proof (induction n arbitrary: b xs)
  case 0
  then show ?case by simp
next
  case (Suc n)
  obtain x b1 where f: "FindBit B b = (x, b1)" by fastforce
  obtain ys where ys: "find_many B n b1 = (ys, b')" "xs = x # ys"
    using Suc.prems(1) f by (auto simp: Let_def split: prod.splits)
  have "free_sectors bits b \<noteq> {}" using Suc.prems(2) by (intro notI) simp
  note x = bitmap_find [OF assms(1) f this]
  from Suc.IH [OF ys(1)] Suc.prems(2) x(3)
  have rest: "length ys = n" "distinct ys" "set ys \<subseteq> free_sectors bits b1" "bits b' = bits b1 \<union> set ys"
    "card (free_sectors bits b1) = n + card (free_sectors bits b')" by auto
  have "x \<notin> set ys" using rest(3) x(2) by auto
  moreover have "set ys \<subseteq> free_sectors bits b" using rest(3) x(2) by auto
  ultimately show ?case using rest x ys(2) by auto
qed

section \<open>Well-formed files\<close>

text \<open>The data sectors a header names: itself (mode 0), or through the sectors of its table (mode 1).\<close>

definition direct_sectors :: "file_header \<Rightarrow> int list" where
  "direct_sectors hdr = take (nat (numSectors hdr)) (dataSectors hdr)"

definition table_length :: "file_header \<Rightarrow> nat" where
  "table_length hdr = (nat (numSectors hdr) + 31) div 32"

definition table_sectors :: "file_header \<Rightarrow> int list" where
  "table_sectors hdr = take (table_length hdr) (dataSectors hdr)"

definition table_entry :: "host \<Rightarrow> file_header \<Rightarrow> store \<Rightarrow> nat \<Rightarrow> int" where
  "table_entry h hdr st k =
    header_words (header_of_bytes h (st (dataSectors hdr ! (k div 32)))) ! (k mod 32)"

definition indirect_sectors :: "host \<Rightarrow> file_header \<Rightarrow> store \<Rightarrow> int list" where
  "indirect_sectors h hdr st = List.map (table_entry h hdr st) [0..<nat (numSectors hdr)]"

definition whole_sectors :: "store \<Rightarrow> bool" where
  "whole_sectors st \<longleftrightarrow> (\<forall>n \<in> disk_sectors. length (st n) = SectorSize)"

definition sized_header :: "file_header \<Rightarrow> bool" where
  "sized_header hdr \<longleftrightarrow> header_ok hdr \<and> 0 \<le> numBytes hdr \<and>
     numSectors hdr = (numBytes hdr + 127) div 128"

definition direct_ok :: "file_header \<Rightarrow> bool" where
  "direct_ok hdr \<longleftrightarrow> sized_header hdr \<and> numSectors hdr \<le> int NumDirect \<and>
     distinct (direct_sectors hdr) \<and> set (direct_sectors hdr) \<subseteq> disk_sectors"

definition indirect_ok :: "host \<Rightarrow> file_header \<Rightarrow> store \<Rightarrow> bool" where
  "indirect_ok h hdr st \<longleftrightarrow> sized_header hdr \<and> numSectors hdr \<le> 960 \<and>
     distinct (table_sectors hdr @ indirect_sectors h hdr st) \<and>
     set (table_sectors hdr @ indirect_sectors h hdr st) \<subseteq> disk_sectors"

lemma sized_header_bounds: "sized_header hdr \<Longrightarrow> 0 \<le> numSectors hdr"
  by (auto simp: sized_header_def intro!: div_int_pos_iff [THEN iffD2])

lemma c_range_small: "0 \<le> x \<Longrightarrow> x < 2 ^ 31 \<Longrightarrow> c_range x"
  by (simp add: c_range_def)

lemma c_range_sector: "n \<in> disk_sectors \<Longrightarrow> c_range n"
  by (simp add: c_range_def NumSectors_def SectorsPerTrack_def NumTracks_def)

lemma utility_up: "utility_ok u \<Longrightarrow> 0 \<le> n \<Longrightarrow> divRoundUp u n (int SectorSize) = (n + 127) div 128"
  by (simp add: utility_ok_def SectorSize_def)

lemma utility_down: "utility_ok u \<Longrightarrow> 0 \<le> n \<Longrightarrow> divRoundDown u n (int SectorSize) = n div 128"
  by (simp add: utility_ok_def SectorSize_def)

lemma table_size_eq:
  assumes "utility_ok u" and "0 \<le> n" and "n < 2 ^ 31"
  shows "table_size u n = (nat n + 31) div 32"
proof -
  have n: "uint (word_of_int n :: c_int) = n"
    using assms(2,3) by (simp add: uint_word_of_int)
  have "divRoundUp u n 32 = (n + 31) div 32"
    using assms(1,2) by (simp add: utility_ok_def)
  then show ?thesis
    using assms(2) n by (simp add: table_size_def header_sizes nat_div_distrib nat_add_distrib)
qed

section \<open>Allocation of a directory\<close>

lemma AllocateDirectory_ok:
  assumes B: "bitmap_ok B bits" and u: "utility_ok u" and hdr: "header_ok hdr"
    and size: "0 \<le> dirSize" "dirSize \<le> 30 * 128"
    and free: "(dirSize + 127) div 128 \<le> int (card (free_sectors bits b))"
  shows "\<exists>hdr' b'. AllocateDirectory u B dirSize hdr b = Inr (True, hdr', b') \<and> direct_ok hdr' \<and>
    numBytes hdr' = dirSize \<and> set (direct_sectors hdr') \<subseteq> free_sectors bits b \<and>
    bits b' = bits b \<union> set (direct_sectors hdr')"
proof -
  define n where "n = (dirSize + 127) div 128"
  have n: "0 \<le> n" "n \<le> 30" using size by (simp_all add: n_def)
  obtain secs b' where f: "find_many B (nat n) b = (secs, b')" by fastforce
  have "nat n \<le> card (free_sectors bits b)" using free n(1) by (simp add: n_def)
  note s = find_many_ok [OF B f this]
  let ?hdr = "hdr\<lparr>numBytes := dirSize, numSectors := n, dataSectors := secs @ drop (length secs) (dataSectors hdr)\<rparr>"
  have direct: "direct_sectors ?hdr = secs" using s by (simp add: direct_sectors_def)
  have "AllocateDirectory u B dirSize hdr b = Inr (True, ?hdr, b')"
    using free n f by (simp add: AllocateDirectory_def utility_up [OF u size(1)] bitmap_NumClear [OF B]
        header_counts n_def [symmetric])
  moreover have "header_ok ?hdr"
    using hdr s n size by (auto simp: header_ok_def header_words_def header_sizes
        intro: c_range_small c_range_sector dest: in_set_dropD)
  then have "direct_ok ?hdr"
    using s n(2) size(1) unfolding direct_ok_def direct by (auto simp: sized_header_def header_counts n_def)
  ultimately show ?thesis using s direct by force
qed

lemma clear_tested_ok:
  assumes B: "bitmap_ok B bits"
  shows "distinct ns \<Longrightarrow> set ns \<subseteq> disk_sectors \<Longrightarrow> set ns \<subseteq> bits b \<Longrightarrow>
    \<exists>b'. clear_tested B ns b = Inr b' \<and> bits b' = bits b - set ns"
proof (induction ns arbitrary: b)
  case Nil
  then show ?case by simp
next
  case (Cons n ns)
  then obtain b1 where b1: "Clear B n b = Inr b1" "bits b1 = bits b - {n}"
    using bitmap_Clear [OF B, of n b] by auto
  moreover have "Test B n b = Inr True" using Cons.prems bitmap_Test [OF B, of n b] by simp
  moreover obtain b2 where "clear_tested B ns b1 = Inr b2" "bits b2 = bits b1 - set ns"
    using Cons.IH [of b1] Cons.prems b1(2) by auto
  ultimately show ?case by auto
qed

lemma DeallocateDirectory_ok:
  assumes "bitmap_ok B bits" and "direct_ok hdr" and "set (direct_sectors hdr) \<subseteq> bits b"
  shows "\<exists>b'. DeallocateDirectory B hdr b = Inr b' \<and> bits b' = bits b - set (direct_sectors hdr)"
  using clear_tested_ok [OF assms(1), of "direct_sectors hdr" b] assms(2,3)
  by (auto simp: DeallocateDirectory_def direct_ok_def direct_sectors_def header_sizes)

section \<open>Allocation of a file\<close>

text \<open>
  The loop of \<open>Allocate\<close>: \<open>m\<close> sectors of the table are filled with \<open>n\<close> data sectors.
\<close>

lemma table_entry_shift:
  fixes ws :: "int list"
  assumes "length cs = min n 32" and "k < n" and "\<not> k < 32"
  shows "(cs @ ws) ! k = ws ! (k - 32)" and "(k - 32) div 32 = k div 32 - 1" and "(k - 32) mod 32 = k mod 32"
    and "k - 32 < n - 32" and "0 < k div 32"
  using assms by (auto simp: nth_append le_div_geq le_mod_geq)

lemma allocate_blocks_ok:
  assumes B: "bitmap_ok B bits" and fresh: "\<And>i. header_ok (fresh i)"
  shows "m = (n + 31) div 32 \<Longrightarrow> j + m \<le> 30 \<Longrightarrow> length (dataSectors hdr) = 30 \<Longrightarrow>
    m + n \<le> card (free_sectors bits b) \<Longrightarrow>
    \<exists>secs ws b' st'. allocate_blocks h B fresh m j (int n) hdr b st =
        Inr (hdr\<lparr>dataSectors := take j (dataSectors hdr) @ secs @ drop (j + m) (dataSectors hdr)\<rparr>, b', st') \<and>
      length secs = m \<and> length ws = n \<and> distinct (secs @ ws) \<and>
      set (secs @ ws) \<subseteq> free_sectors bits b \<and> bits b' = bits b \<union> set (secs @ ws) \<and>
      (\<forall>k < n. header_words (header_of_bytes h (st' (secs ! (k div 32)))) ! (k mod 32) = ws ! k) \<and>
      (\<forall>x. x \<notin> set secs \<longrightarrow> st' x = st x) \<and> (\<forall>x \<in> set secs. length (st' x) = SectorSize)"
proof (induction m arbitrary: n j hdr b st)
  case 0
  then have "n = 0" by simp
  with 0 show ?case by (intro exI [of _ "[]"] exI [of _ b] exI [of _ st]) simp
next
  case (Suc m)
  then have n: "0 < n" by (cases n) auto
  obtain s b1 where s: "FindBit B b = (s, b1)" by fastforce
  obtain cs b2 where c: "find_many B (min n 32) b1 = (cs, b2)" by fastforce
  have "free_sectors bits b \<noteq> {}" using Suc.prems(4) by (intro notI) simp
  note fs = bitmap_find [OF B s this]
  have "min n 32 \<le> card (free_sectors bits b1)" using fs(3) Suc.prems(4) by simp
  note fc = find_many_ok [OF B c this]
  have cs_free: "set cs \<subseteq> free_sectors bits b1" and cs_marked: "bits b2 = bits b1 \<union> set cs"
    using fc by blast+
  let ?hdr = "hdr\<lparr>dataSectors := (dataSectors hdr)[j := s]\<rparr>" and ?t = "fill_header cs (fresh j)"
  have cs_range: "\<forall>w \<in> set cs. c_range w" using fc c_range_sector by blast
  have t: "header_ok ?t" "header_words ?t = cs @ drop (length cs) (header_words (fresh j))"
    using fill_header_ok [OF fresh _ cs_range] fill_header_words [OF fresh] fc by simp_all
  have wb: "WriteBack h s ?t st = Inr (st(s := header_bytes h ?t))"
    using WriteBack_header [OF t(1)] fs(1) by simp
  have m: "m = (n - 32 + 31) div 32" using Suc.prems(1) n by linarith
  have rest: "Suc j + m \<le> 30" "length (dataSectors ?hdr) = 30" using Suc.prems by simp_all
  have card: "m + (n - 32) \<le> card (free_sectors bits b2)"
    using fc fs(3) Suc.prems(4) by (auto simp: min_def split: if_splits)
  obtain secs ws b' st' where run: "allocate_blocks h B fresh m (Suc j) (int (n - 32)) ?hdr b2
        (st(s := header_bytes h ?t)) =
        Inr (?hdr\<lparr>dataSectors := take (Suc j) (dataSectors ?hdr) @ secs @ drop (Suc j + m) (dataSectors ?hdr)\<rparr>, b', st')"
    and r: "length secs = m" "length ws = n - 32" "distinct (secs @ ws)"
      "set (secs @ ws) \<subseteq> free_sectors bits b2" "bits b' = bits b2 \<union> set (secs @ ws)"
      "\<forall>k < n - 32. header_words (header_of_bytes h (st' (secs ! (k div 32)))) ! (k mod 32) = ws ! k"
      "\<forall>x. x \<notin> set secs \<longrightarrow> st' x = (st(s := header_bytes h ?t)) x"
      "\<forall>x \<in> set secs. length (st' x) = SectorSize"
    using Suc.IH [OF m rest card, of "st(s := header_bytes h ?t)"] by (elim exE conjE)
  have same: "allocate_blocks h B fresh m (Suc j) (int n - 32) hdr1 b2 st1 =
      allocate_blocks h B fresh m (Suc j) (int (n - 32)) hdr1 b2 st1" for hdr1 st1
    by (cases "32 \<le> n") (use m in \<open>auto simp: of_nat_diff\<close>)
  have len: "nat (min (int n) 32) = min n 32" by auto
  have j: "j < 30" using Suc.prems(2) by simp
  have secs_hdr: "take (Suc j) ((dataSectors hdr)[j := s]) @ secs @ drop (Suc j + m) ((dataSectors hdr)[j := s]) =
      take j (dataSectors hdr) @ (s # secs) @ drop (j + Suc m) (dataSectors hdr)"
    using j Suc.prems(3) by (simp add: take_Suc_conv_app_nth)
  have ran: "allocate_blocks h B fresh (Suc m) j (int n) hdr b st =
      Inr (hdr\<lparr>dataSectors := take j (dataSectors hdr) @ (s # secs) @ drop (j + Suc m) (dataSectors hdr)\<rparr>, b', st')"
    using run j by (simp add: s c len header_counts wb same) (simp add: secs_hdr [simplified])
  have s_new: "s \<notin> set secs" "s \<notin> set cs" "s \<notin> set ws"
    using r(4) fc fs(2) by auto
  have dist: "distinct ((s # secs) @ cs @ ws)" using s_new r(3,4) fc by auto
  have table: "header_words (header_of_bytes h (st' ((s # secs) ! (k div 32)))) ! (k mod 32) = (cs @ ws) ! k"
    if k: "k < n" for k
  proof (cases "k < 32")
    case True
    have "st' s = header_bytes h ?t" using r(7) s_new(1) by simp
    with True k fc show ?thesis by (simp add: header_of_header_bytes [OF t(1)] t(2) nth_append)
  next
    case False
    note shift = table_entry_shift [of cs, OF _ k False]
    have "length cs = min n 32" using fc by simp
    note shift = shift [OF this]
    show ?thesis using r(6) [rule_format, OF shift(4)] shift(1,2,3,5) by (simp add: nth_Cons')
  qed
  have sub: "set ((s # secs) @ cs @ ws) \<subseteq> free_sectors bits b" using r(4) cs_free cs_marked fs(1,2) by (simp only: set_append list.set) blast
  have marked: "bits b' = bits b \<union> set ((s # secs) @ cs @ ws)" using r(5) cs_marked fs(2) by (simp only: set_append list.set) blast
  have len_ws: "length (cs @ ws) = n" using fc r(2) by simp
  have len_s: "length (st' s) = SectorSize" using r(7) s_new(1) length_header_bytes [OF t(1)] by simp
  have rest_st: "\<forall>x. x \<notin> set (s # secs) \<longrightarrow> st' x = st x" "\<forall>x \<in> set (s # secs). length (st' x) = SectorSize"
    "length (s # secs) = Suc m"
    using r(1,7,8) len_s by simp_all
  show ?case
    by (intro exI conjI allI impI, rule ran) (fact | rule table | rule rest_st [rule_format], assumption)+
qed

text \<open>
  The space \<open>Allocate\<close> needs is that of the data and that of the table; its own check covers the data
  only, so the theorem asks for both.
\<close>

lemma Allocate_ok:
  assumes B: "bitmap_ok B bits" and u: "utility_ok u" and hdr: "header_ok hdr" and fresh: "\<And>i. header_ok (fresh i)"
    and size: "0 \<le> fileSize" "fileSize \<le> 960 * 128"
    and free: "(nat ((fileSize + 127) div 128) + 31) div 32 + nat ((fileSize + 127) div 128)
      \<le> card (free_sectors bits b)"
  shows "\<exists>hdr' b' st'. Allocate u h B fresh fileSize hdr b st = Inr (True, hdr', b', st') \<and>
    indirect_ok h hdr' st' \<and> numBytes hdr' = fileSize \<and>
    set (table_sectors hdr' @ indirect_sectors h hdr' st') \<subseteq> free_sectors bits b \<and>
    bits b' = bits b \<union> set (table_sectors hdr' @ indirect_sectors h hdr' st') \<and>
    (\<forall>x. x \<notin> set (table_sectors hdr') \<longrightarrow> st' x = st x) \<and>
    (\<forall>x \<in> set (table_sectors hdr'). length (st' x) = SectorSize)"
proof -
  define k where "k = (fileSize + 127) div 128"
  define n where "n = nat k"
  have k: "k = int n" "n \<le> 960" using size by (simp_all add: n_def k_def)
  define m where "m = (n + 31) div 32"
  have m: "m = (n + 31) div 32" "0 + m \<le> 30" using k(2) by (simp_all add: m_def)
  let ?hdr = "hdr\<lparr>numBytes := fileSize, numSectors := int n\<rparr>"
  have len: "length (dataSectors ?hdr) = 30" using hdr by (simp add: header_ok_def header_counts)
  have free': "m + n \<le> card (free_sectors bits b)" using free by (simp add: m_def n_def k_def)
  obtain secs ws b' st' where run: "allocate_blocks h B fresh m 0 (int n) ?hdr b st =
        Inr (?hdr\<lparr>dataSectors := take 0 (dataSectors ?hdr) @ secs @ drop (0 + m) (dataSectors ?hdr)\<rparr>, b', st')"
    and r: "length secs = m" "length ws = n" "distinct (secs @ ws)"
      "set (secs @ ws) \<subseteq> free_sectors bits b" "bits b' = bits b \<union> set (secs @ ws)"
      "\<forall>k < n. header_words (header_of_bytes h (st' (secs ! (k div 32)))) ! (k mod 32) = ws ! k"
      "\<forall>x. x \<notin> set secs \<longrightarrow> st' x = st x" "\<forall>x \<in> set secs. length (st' x) = SectorSize"
    using allocate_blocks_ok [where fresh = fresh and h = h and st = st, OF B fresh m len free'] by (elim exE conjE)
  let ?new = "?hdr\<lparr>dataSectors := secs @ drop m (dataSectors hdr)\<rparr>"
  have "table_size u (int n) = m"
    using table_size_eq [OF u, of "int n"] k(2) by (simp add: m_def)
  moreover have "divRoundUp u fileSize (int SectorSize) = int n"
    using utility_up [OF u size(1)] k(1) by (simp add: k_def)
  ultimately have "Allocate u h B fresh fileSize hdr b st = Inr (True, ?new, b', st')"
    using free' run by (simp add: Allocate_def bitmap_NumClear [OF B] Let_def)
  moreover have table: "table_sectors ?new = secs"
    using r(1) by (simp add: table_sectors_def table_length_def m_def)
  moreover have datas: "indirect_sectors h ?new st' = ws"
  proof (rule nth_equalityI)
    fix i
    assume "i < length (indirect_sectors h ?new st')"
    then have i: "i < n" by (simp add: indirect_sectors_def)
    then have "i div 32 < length secs" using r(1) by (simp add: m_def div_less_iff_less_mult)
    then show "indirect_sectors h ?new st' ! i = ws ! i"
      using i r(6) by (simp add: indirect_sectors_def table_entry_def nth_append)
  qed (simp add: indirect_sectors_def r(2))
  moreover have "header_ok ?new"
  proof -
    have "\<forall>w \<in> set secs. c_range w" using r(4) c_range_sector by auto
    with hdr r(1) m size k(2) show ?thesis
      by (auto simp: header_ok_def header_words_def header_counts intro: c_range_small dest: in_set_dropD)
  qed
  then have "indirect_ok h ?new st'"
    unfolding indirect_ok_def table datas using r(3,4) size(1) k
    by (auto simp: sized_header_def k_def)
  ultimately show ?thesis
    using r(4,5,7,8) by (intro exI [of _ ?new] exI [of _ b'] exI [of _ st']) simp
qed

section \<open>Deallocation of a file\<close>

text \<open>The inner loop never runs: its condition is false for the first value of its counter.\<close>

lemma clear_data_nothing: "clear_data B sectorArray n 0 b = Inr b"
  by (simp add: clear_data.simps [of B sectorArray n 0])

lemma deallocate_blocks_ok:
  assumes B: "bitmap_ok B bits"
  shows "j + m \<le> 30 \<Longrightarrow> j + m \<le> length (dataSectors hdr) \<Longrightarrow>
    set (take m (drop j (dataSectors hdr))) \<subseteq> disk_sectors \<Longrightarrow>
    \<exists>b'. deallocate_blocks h B m j n hdr st b = Inr b' \<and>
      bits b' = bits b - set (take m (drop j (dataSectors hdr)))"
proof (induction m arbitrary: j n b)
  case 0
  then show ?case by simp
next
  case (Suc m)
  let ?x = "dataSectors hdr ! j"
  have split: "take (Suc m) (drop j (dataSectors hdr)) = ?x # take m (drop (Suc j) (dataSectors hdr))"
    using Suc.prems(2) by (simp add: Cons_nth_drop_Suc [symmetric])
  then have x: "?x \<in> disk_sectors" and rest: "set (take m (drop (Suc j) (dataSectors hdr))) \<subseteq> disk_sectors"
    using Suc.prems(3) by auto
  obtain b1 where b1: "Clear B ?x b = Inr b1" "bits b1 = bits b - {?x}" by (rule bitmap_Clear [OF B x])
  obtain b' where "deallocate_blocks h B m (Suc j) (n - int IntsPerSector) hdr st b1 = Inr b'"
    "bits b' = bits b1 - set (take m (drop (Suc j) (dataSectors hdr)))"
    using Suc.IH [of "Suc j" "n - int IntsPerSector" b1] Suc.prems(1,2) rest by auto
  with Suc.prems x b1 show ?case
    unfolding split by (auto simp: FetchFrom_def ReadSector_def clear_data_nothing header_counts)
qed

lemma Deallocate_ok:
  assumes B: "bitmap_ok B bits" and u: "utility_ok u" and f: "indirect_ok h hdr st"
  shows "\<exists>b'. Deallocate u h B hdr st b = Inr b' \<and> bits b' = bits b - set (table_sectors hdr)"
proof -
  have n: "0 \<le> numSectors hdr" "numSectors hdr \<le> 960" and len: "length (dataSectors hdr) = 30"
    using f sized_header_bounds [of hdr]
    by (simp_all add: indirect_ok_def sized_header_def header_ok_def header_counts)
  have size: "table_size u (numSectors hdr) = table_length hdr"
    using table_size_eq [OF u n(1)] n(2) by (simp add: table_length_def)
  have "0 + table_length hdr \<le> 30" using n by (simp add: table_length_def)
  then show ?thesis
    using deallocate_blocks_ok [OF B, where j = 0 and m = "table_length hdr" and hdr = hdr and n = "numSectors hdr" and h = h and st = st and b = b] len f
    by (simp add: Deallocate_def size table_sectors_def indirect_ok_def)
qed

end
