(* ===== verification/Synch_Disk.thy ===== *)
theory Synch_Disk
  imports Fs_Alloc Device_Properties
begin

text \<open>
  The synchronous disk (\<^verbatim>\<open>filesys/synchdisk.cc\<close>): a read or a write of a whole sector is a request to
  the disk and a wait on a semaphore, which the disk's completion interrupt signals. The semaphore
  and the lock belong to the kernel; the request, the passing of time until it completes, the
  delivery of the interrupt and the handlers it goes through are the code of the repository. It is
  proved that the wait comes back and that the whole implements the array of sectors of \<open>Fs_Store\<close>.
\<close>

section \<open>The machine with its disk\<close>

text \<open>
  The object of class \<^verbatim>\<open>Disk\<close> is part of the state, so that its interrupt handler finds it; the scheme
  variable is the kernel's part, with its semaphores and locks.
\<close>

record 'q disk_machine = "'q simulator" +
  the_disk :: disk

text \<open>
  \<open>acquire\<close>, \<open>release\<close>, \<open>wait\<close> and \<open>signal\<close> are \<^verbatim>\<open>Lock::Acquire\<close>, \<^verbatim>\<open>Lock::Release\<close>, \<^verbatim>\<open>Semaphore::P\<close> and
  \<^verbatim>\<open>Semaphore::V\<close> of the lock and the semaphore that \<^verbatim>\<open>SynchDisk::SynchDisk\<close> makes; \<open>sem_value\<close> and
  \<open>lock_free\<close> read them in the kernel's part of the state.
\<close>

record ('s, 'k) synch_ops =
  acquire :: "'s \<Rightarrow> 's res"
  release :: "'s \<Rightarrow> 's res"
  wait :: "'s \<Rightarrow> 's res"
  signal :: "'s \<Rightarrow> 's res"
  sem_value :: "'k \<Rightarrow> nat"
  lock_free :: "'k \<Rightarrow> bool"

type_synonym ('q, 'k) disk_synch = "(('q, 'k) disk_machine_scheme, 'k) synch_ops"

definition SynchDisk_ReadSector ::
  "'q list_ops \<Rightarrow> ('q, 'k) disk_synch \<Rightarrow> int \<Rightarrow> c_int \<Rightarrow> ('q, 'k) disk_machine_scheme \<Rightarrow>
   (byte list \<times> ('q, 'k) disk_machine_scheme) res" where
  "SynchDisk_ReadSector L y n this s =
    and_then (acquire y s) (\<lambda>s.
    and_then (ReadRequest L n this (the_disk s) s) (\<lambda>(data, d, s).
    and_then (wait y (s\<lparr>the_disk := d\<rparr>)) (\<lambda>s.
    and_then (release y s) (\<lambda>s. Inr (data, s)))))"

definition SynchDisk_WriteSector ::
  "'q list_ops \<Rightarrow> ('q, 'k) disk_synch \<Rightarrow> int \<Rightarrow> byte list \<Rightarrow> c_int \<Rightarrow> ('q, 'k) disk_machine_scheme \<Rightarrow>
   ('q, 'k) disk_machine_scheme res" where
  "SynchDisk_WriteSector L y n data this s =
    and_then (acquire y s) (\<lambda>s.
    and_then (WriteRequest L n data this (the_disk s) s) (\<lambda>(d, s).
    and_then (wait y (s\<lparr>the_disk := d\<rparr>)) (release y)))"

definition SynchDisk_RequestDone ::
  "('q, 'k) disk_synch \<Rightarrow> ('q, 'k) disk_machine_scheme \<Rightarrow> ('q, 'k) disk_machine_scheme res" where
  "SynchDisk_RequestDone y s = signal y s"

section \<open>The handlers of the completion interrupt\<close>

text \<open>
  \<^verbatim>\<open>DiskRequestDone\<close> is the handler the synchronous disk gives the disk, and \<^verbatim>\<open>DiskDone\<close> the one the disk
  gives \<^verbatim>\<open>Interrupt::Schedule\<close>; both turn their argument back into the object.
\<close>

definition DiskRequestDone ::
  "('q, 'k) disk_synch \<Rightarrow> disk \<times> ('q, 'k) disk_machine_scheme \<Rightarrow> (disk \<times> ('q, 'k) disk_machine_scheme) res" where
  "DiskRequestDone y p =
    and_then (SynchDisk_RequestDone y ((snd p)\<lparr>the_disk := fst p\<rparr>)) (\<lambda>s. Inr (the_disk s, s))"

definition call_DiskDone ::
  "('q, 'k) disk_synch \<Rightarrow> ('q, 'k) disk_machine_scheme \<Rightarrow> ('q, 'k) disk_machine_scheme res" where
  "call_DiskDone y s =
    and_then (Disk_HandleInterrupt (DiskRequestDone y) (the_disk s) s) (\<lambda>(d, s). Inr (s\<lparr>the_disk := d\<rparr>))"

text \<open>The kernel with this disk, whose address is \<open>this\<close>: its interrupt calls \<^verbatim>\<open>DiskDone\<close>.\<close>

definition with_disk ::
  "('q, 'k) disk_synch \<Rightarrow> c_int \<Rightarrow> ('q, 'k) disk_machine_scheme kernel \<Rightarrow> ('q, 'k) disk_machine_scheme kernel" where
  "with_disk y this k =
    k\<lparr>call_handler := (\<lambda>h a s. if h = DiskDone \<and> a = this then call_DiskDone y s else call_handler k h a s)\<rparr>"

section \<open>What the code relies on in the kernel\<close>

text \<open>The completions pending for the disk, and what of the state a request depends on.\<close>

definition completions :: "('q \<Rightarrow> (int \<times> pending_interrupt) multiset) \<Rightarrow> c_int \<Rightarrow> ('q, 'k) simulator_scheme \<Rightarrow>
  (int \<times> pending_interrupt) multiset" where
  "completions C this s = filter_mset (\<lambda>x. handler (snd x) = DiskDone \<and> arg (snd x) = this) (C (pending s))"

definition disk_view ::
  "('q \<Rightarrow> (int \<times> pending_interrupt) multiset) \<Rightarrow> c_int \<Rightarrow> ('q, 'k) disk_synch \<Rightarrow> ('q, 'k) disk_machine_scheme \<Rightarrow>
   disk \<times> (int \<times> pending_interrupt) multiset \<times> nat \<times> bool" where
  "disk_view C this y s =
    (the_disk s, completions C this s, sem_value y (disk_machine.more s), lock_free y (disk_machine.more s))"

abbreviation now :: "('q, 'k) simulator_scheme \<Rightarrow> int" where "now s \<equiv> totalTicks (stats s)"

text \<open>
  A semaphore is a counter: \<^verbatim>\<open>V\<close> adds one to it and \<^verbatim>\<open>P\<close> takes one off as soon as it is positive. A thread
  that finds it zero sleeps; when it is the only one, the kernel idles, which moves the clock to the
  next interrupt and delivers what is due, and the thread looks at the counter again. (Neither says
  that the counter ever becomes positive, nor when.) A lock that is free is taken at once. Outside
  these, the kernel may do what it wants with its own state and its own interrupts. Its other
  handlers return, and leave the disk, its interrupt, the semaphore and the lock alone.
\<close>

definition other_handlers_ok ::
  "('q \<Rightarrow> (int \<times> pending_interrupt) multiset) \<Rightarrow> c_int \<Rightarrow> ('q, 'k) disk_synch \<Rightarrow>
   ('q, 'k) disk_machine_scheme kernel \<Rightarrow> bool" where
  "other_handlers_ok C this y k \<longleftrightarrow>
     (\<forall>h a s. (h \<noteq> DiskDone \<or> a \<noteq> this) \<longrightarrow> handler_context s \<longrightarrow>
        (\<exists>s'. call_handler k h a s = Inr s' \<and> disk_view C this y s' = disk_view C this y s \<and>
           level s' = IntOff \<and> now s' = now s \<and> due C s' \<subseteq># due C s))"

definition semaphore_ok ::
  "'q list_ops \<Rightarrow> ('q \<Rightarrow> (int \<times> pending_interrupt) multiset) \<Rightarrow> c_int \<Rightarrow> ('q, 'k) disk_synch \<Rightarrow>
   ('q, 'k) disk_machine_scheme kernel \<Rightarrow> bool" where
  "semaphore_ok L C this y k \<longleftrightarrow>
     (\<forall>s d c v f. handler_context s \<longrightarrow> disk_view C this y s = (d, c, v, f) \<longrightarrow>
        (\<exists>s'. signal y s = Inr s' \<and> disk_view C this y s' = (d, c, v + 1, f) \<and>
           level s' = IntOff \<and> now s' = now s \<and> due C s' = due C s)) \<and>
     (\<forall>s d v f. disk_view C this y s = (d, {#}, v + 1, f) \<longrightarrow>
        (\<exists>s'. wait y s = Inr s' \<and> disk_view C this y s' = (d, {#}, v, f) \<and> now s \<le> now s')) \<and>
     (\<forall>s s'. sem_value y (disk_machine.more s) = 0 \<longrightarrow>
        Idle L (with_disk y this k) (s\<lparr>level := IntOff\<rparr>) = Some (Inr s') \<longrightarrow>
        wait y s = wait y (s'\<lparr>level := level s\<rparr>))"

definition lock_ok ::
  "('q \<Rightarrow> (int \<times> pending_interrupt) multiset) \<Rightarrow> c_int \<Rightarrow> ('q, 'k) disk_synch \<Rightarrow> bool" where
  "lock_ok C this y \<longleftrightarrow>
     (\<forall>s d v. disk_view C this y s = (d, {#}, v, True) \<longrightarrow>
        (\<exists>s'. acquire y s = Inr s' \<and> disk_view C this y s' = (d, {#}, v, False) \<and> now s \<le> now s')) \<and>
     (\<forall>s d v. disk_view C this y s = (d, {#}, v, False) \<longrightarrow>
        (\<exists>s'. release y s = Inr s' \<and> disk_view C this y s' = (d, {#}, v, True) \<and> now s \<le> now s'))"

definition synch_kernel_ok where
  "synch_kernel_ok L C this y k \<longleftrightarrow>
     sorted_list L C \<and> other_handlers_ok C this y k \<and> semaphore_ok L C this y k \<and> lock_ok C this y"

text \<open>Between the operations the disk is idle, none of its interrupts is pending, the semaphore is zero
  and the lock free.\<close>

definition at_rest where
  "at_rest C this y s \<longleftrightarrow> idle_disk (the_disk s) \<and> disk_view C this y s = (the_disk s, {#}, 0, True)"

section \<open>Delivery of the completion\<close>

lemma view_updates [simp]:
  fixes s :: "('q, 'k) disk_machine_scheme"
  shows "disk_view C this y (s\<lparr>level := l\<rparr>) = disk_view C this y s"
    and "disk_view C this y (s\<lparr>status := m\<rparr>) = disk_view C this y s"
    and "disk_view C this y (s\<lparr>inHandler := b\<rparr>) = disk_view C this y s"
    and "disk_view C this y (s\<lparr>yieldOnReturn := b\<rparr>) = disk_view C this y s"
    and "disk_view C this y (s\<lparr>stats := st\<rparr>) = disk_view C this y s"
    and "disk_view C this y (s\<lparr>the_disk := d\<rparr>) = (d, snd (disk_view C this y s))"
  by (simp_all add: disk_view_def completions_def)

lemma due_updates [simp]:
  "due C (s\<lparr>level := l\<rparr>) = due C s" "due C (s\<lparr>status := m\<rparr>) = due C s"
  "due C (s\<lparr>inHandler := b\<rparr>) = due C s" "due C (s\<lparr>yieldOnReturn := b\<rparr>) = due C s"
  by (simp_all add: due_def)

lemma due_the_disk [simp]: "due C ((s :: ('q, 'k) disk_machine_scheme)\<lparr>the_disk := d\<rparr>) = due C s"
  by (simp add: due_def)

text \<open>The interrupt scheduled by a request, and the two states of the machine while the caller waits for it.\<close>

definition completion :: "c_int \<Rightarrow> int \<Rightarrow> int \<times> pending_interrupt" where
  "completion this t = (t, \<lparr>handler = DiskDone, arg = this, when = t, type = DiskInt\<rparr>)"

definition waiting where
  "waiting C this y d t f s \<longleftrightarrow> disk_view C this y s = (d, {#completion this t#}, 0, f)"

definition completed where
  "completed C this y d t f s \<longleftrightarrow> disk_view C this y s = (idle_again d, {#}, 1, f) \<and> t \<le> now s"

lemma phase_updates [simp]:
  fixes s :: "('q, 'k) disk_machine_scheme"
  shows "waiting C this y d t f (s\<lparr>level := l\<rparr>) = waiting C this y d t f s"
    and "waiting C this y d t f (s\<lparr>status := m\<rparr>) = waiting C this y d t f s"
    and "waiting C this y d t f (s\<lparr>yieldOnReturn := b\<rparr>) = waiting C this y d t f s"
    and "waiting C this y d t f (s\<lparr>stats := st\<rparr>) = waiting C this y d t f s"
    and "completed C this y d t f (s\<lparr>level := l\<rparr>) = completed C this y d t f s"
    and "completed C this y d t f (s\<lparr>status := m\<rparr>) = completed C this y d t f s"
    and "completed C this y d t f (s\<lparr>yieldOnReturn := b\<rparr>) = completed C this y d t f s"
  by (simp_all add: waiting_def completed_def)

lemma waiting_pending:
  assumes "waiting C this y d t f s"
  shows "completion this t \<in># C (pending s)"
proof -
  have "completion this t \<in># completions C this s"
    using assms by (simp add: waiting_def disk_view_def)
  then show ?thesis by (simp add: completions_def)
qed

text \<open>The disk's handlers make it idle and signal the semaphore.\<close>

lemma call_DiskDone_effect:
  assumes "semaphore_ok L C this y k" and "handler_context s" and "disk_view C this y s = (d, c, v, f)"
  shows "\<exists>s'. call_DiskDone y s = Inr s' \<and> disk_view C this y s' = (idle_again d, c, v + 1, f) \<and>
    level s' = IntOff \<and> now s' = now s \<and> due C s' = due C s"
proof -
  let ?s = "s\<lparr>the_disk := idle_again (the_disk s)\<rparr>"
  have "the_disk s = d" using assms(3) by (simp add: disk_view_def)
  then have "handler_context ?s" "disk_view C this y ?s = (idle_again d, c, v, f)"
    using assms(2,3) by (simp_all add: handler_context_def)
  then obtain s' where s': "signal y ?s = Inr s'" "disk_view C this y s' = (idle_again d, c, v + 1, f)"
      "level s' = IntOff" "now s' = now ?s" "due C s' = due C ?s"
    using assms(1) unfolding semaphore_ok_def by blast
  then have "call_DiskDone y s = Inr (s'\<lparr>the_disk := the_disk s'\<rparr>)"
    by (simp add: call_DiskDone_def Disk_HandleInterrupt_def DiskRequestDone_def SynchDisk_RequestDone_def)
  then show ?thesis using s' by simp
qed

lemma deliver_idle:
  assumes "status s = IdleMode"
  shows "deliver k p s = and_then (call_handler k (handler p) (arg p) (s\<lparr>inHandler := True, status := SystemMode\<rparr>))
    (\<lambda>s. Inr (s\<lparr>status := IdleMode, inHandler := False\<rparr>))"
  using assms by (simp add: deliver_def)

text \<open>
  What an idle machine delivers takes the machine from the one state to the other when it is the
  disk's completion, and otherwise leaves it where it is.
\<close>

lemma deliver_phase:
  fixes s :: "('q, 'k) disk_machine_scheme"
  assumes ok: "other_handlers_ok C this y k" "semaphore_ok L C this y k"
    and idle: "status s = IdleMode" "level s = IntOff"
    and phase: "waiting C this y d t f s \<or> completed C this y d t f s"
    and p: "C (pending s) = add_mset (t', p) (C q)" "t' \<le> now s"
  shows "\<exists>s'. deliver (with_disk y this k) p (s\<lparr>pending := q\<rparr>) = Inr s' \<and>
    (waiting C this y d t f s' \<or> completed C this y d t f s') \<and> level s' = IntOff \<and> status s' = IdleMode \<and>
    now s' = now s \<and> due C s' \<subseteq># due C (s\<lparr>pending := q\<rparr>)"
proof -
  let ?s = "s\<lparr>pending := q, inHandler := True, status := SystemMode\<rparr>"
  have ctx: "handler_context ?s" using idle by (simp add: handler_context_def)
  have run: "deliver (with_disk y this k) p (s\<lparr>pending := q\<rparr>) =
      and_then (call_handler (with_disk y this k) (handler p) (arg p) ?s) (\<lambda>s. Inr (s\<lparr>status := IdleMode, inHandler := False\<rparr>))"
    using idle(1) by (simp add: deliver_idle)
  show ?thesis
  proof (cases "handler p = DiskDone \<and> arg p = this")
    case True
    then have c: "completions C this s = add_mset (t', p) (completions C this (s\<lparr>pending := q\<rparr>))"
      using p(1) by (simp add: completions_def)
    have w: "waiting C this y d t f s"
      using phase c by (auto simp: completed_def disk_view_def)
    then have "add_mset (t', p) (completions C this (s\<lparr>pending := q\<rparr>)) = {#completion this t#}"
      unfolding c [symmetric] by (simp add: waiting_def disk_view_def)
    then have only: "t' = t" "completions C this (s\<lparr>pending := q\<rparr>) = {#}"
      by (simp_all add: completion_def)
    have "disk_view C this y ?s = (d, {#}, 0, f)"
      using w only(2) by (simp add: waiting_def disk_view_def completions_def)
    from call_DiskDone_effect [OF ok(2) ctx this] obtain s' where s': "call_DiskDone y ?s = Inr s'"
        "disk_view C this y s' = (idle_again d, {#}, 1, f)" "level s' = IntOff" "now s' = now ?s" "due C s' = due C ?s"
      by auto
    then show ?thesis
      using run True p(2) only(1) by (simp add: with_disk_def completed_def)
  next
    case False
    then have other: "handler p \<noteq> DiskDone \<or> arg p \<noteq> this" by blast
    then obtain s' where s': "call_handler k (handler p) (arg p) ?s = Inr s'"
        "disk_view C this y s' = disk_view C this y ?s" "level s' = IntOff" "now s' = now ?s" "due C s' \<subseteq># due C ?s"
      using ok(1) ctx unfolding other_handlers_ok_def by blast
    have "completions C this (s\<lparr>pending := q\<rparr>) = completions C this s"
      using other p(1) by (auto simp: completions_def)
    then have "disk_view C this y s' = disk_view C this y s"
      unfolding s'(2) by (simp add: disk_view_def completions_def)
    then have "waiting C this y d t f s' = waiting C this y d t f s" "completed C this y d t f s' = completed C this y d t f s"
      using s'(4) by (simp_all add: waiting_def completed_def)
    then show ?thesis
      using run other s' phase by (auto simp: with_disk_def waiting_def completed_def)
  qed
qed

text \<open>The loop over the due interrupts ends in one of the two states.\<close>

lemma drain_phase:
  fixes s :: "('q, 'k) disk_machine_scheme"
  assumes L: "sorted_list L C" and ok: "other_handlers_ok C this y k" "semaphore_ok L C this y k"
    and "status s = IdleMode" and "level s = IntOff"
    and "waiting C this y d t f s \<or> completed C this y d t f s"
  shows "\<exists>s'. drain L (with_disk y this k) s = Some (Inr s') \<and>
    (waiting C this y d t f s' \<and> due C s' = {#} \<or> completed C this y d t f s') \<and> now s' = now s"
  using assms(4-)
proof (induction "size (due C s)" arbitrary: s rule: less_induct)
  case less
  show ?case
    using L less.prems(2)
  proof (cases rule: CheckIfDue_cases [where k = "with_disk y this k"])
    case (1 q)
    have same: "waiting C this y d t f (s\<lparr>pending := q\<rparr>) = waiting C this y d t f s"
      "completed C this y d t f (s\<lparr>pending := q\<rparr>) = completed C this y d t f s"
      "due C (s\<lparr>pending := q\<rparr>) = due C s"
      using 1(2) by (simp_all add: waiting_def completed_def disk_view_def completions_def due_def)
    have "due C s = {#}" if w: "waiting C this y d t f s"
    proof (rule ccontr)
      assume "due C s \<noteq> {#}"
      then obtain t' p where "C (pending s) = {#(t', p)#}" "type p = TimerInt" using 1(3) by auto
      with w show False
        by (auto simp: waiting_def disk_view_def completions_def completion_def split: if_splits)
    qed
    then show ?thesis
      using less.prems(3) 1(1) by (auto simp: drain_unfold(2) same)
  next
    case (2 t' p q)
    from deliver_phase [OF ok less.prems 2(2,3)] obtain s' where
      s': "deliver (with_disk y this k) p (s\<lparr>pending := q\<rparr>) = Inr s'"
        "waiting C this y d t f s' \<or> completed C this y d t f s'" "level s' = IntOff" "status s' = IdleMode"
        "now s' = now s" "due C s' \<subseteq># due C (s\<lparr>pending := q\<rparr>)" by blast
    have "due C s = add_mset (t', p) (due C (s\<lparr>pending := q\<rparr>))" using 2(2,3) by (simp add: due_def)
    then have "size (due C s') < size (due C s)" using size_mset_mono [OF s'(6)] by simp
    from less.hyps [OF this s'(4,3,2)] show ?thesis using 2(1) s'(1,5) by (auto simp: drain_unfold(3))
  qed
qed

text \<open>One idle: the clock moves to the earliest interrupt, which is delivered with what is due then.\<close>

lemma Idle_phase:
  fixes s :: "('q, 'k) disk_machine_scheme"
  assumes L: "sorted_list L C" and ok: "other_handlers_ok C this y k" "semaphore_ok L C this y k"
    and off: "level s = IntOff" and w: "waiting C this y d t f s"
  shows "\<exists>s'. Idle L (with_disk y this k) s = Some (Inr s') \<and>
    (waiting C this y d t f s' \<and> due C s' = {#} \<or> completed C this y d t f s') \<and>
    (now s < now s' \<or> due C s \<noteq> {#} \<and> now s' = now s)"
proof -
  note mine = waiting_pending [OF w]
  obtain r q where rem: "SortedRemove L (pending s) = (r, q)" by (cases "SortedRemove L (pending s)")
  have "r \<noteq> None"
  proof
    assume "r = None"
    then show False using sorted_list_none [OF L, of "pending s" q] rem mine by simp
  qed
  then obtain p t' where r: "r = Some (p, t')" by auto
  note c = sorted_list_some [OF L rem [unfolded r]]
  define u where "u = (if now s < t' then s\<lparr>status := IdleMode, stats := (stats s)\<lparr>idleTicks := idleTicks (stats s) + (t' - now s),
      totalTicks := t'\<rparr>\<rparr> else s\<lparr>status := IdleMode\<rparr>)"
  have u: "status u = IdleMode" "level u = IntOff" "waiting C this y d t f u" "t' \<le> now u" "pending u = pending s"
    "now s \<le> now u" "now s < t' \<Longrightarrow> now u = t'" "\<not> now s < t' \<Longrightarrow> now u = now s"
    using off w by (auto simp: u_def)
  have several: "\<not> (type p = TimerInt \<and> C q = {#})"
    using mine c by (auto simp: completion_def)
  have swap: "s\<lparr>status := m, pending := q, stats := st\<rparr> = s\<lparr>status := m, stats := st, pending := q\<rparr>" for m st
    by simp
  have check: "CheckIfDue L (with_disk y this k) True (s\<lparr>status := IdleMode\<rparr>) =
      and_then (deliver (with_disk y this k) p (u\<lparr>pending := q\<rparr>)) (\<lambda>s. Inr (True, s))"
    using off rem r several sorted_list_empty [OF L, of q] by (auto simp: CheckIfDue_def Let_def u_def swap)
  from c have "C (pending u) = add_mset (t', p) (C q)" by (simp add: u(5))
  from deliver_phase [OF ok u(1,2) disjI1 [OF u(3)] this u(4)] obtain v where
    v: "deliver (with_disk y this k) p (u\<lparr>pending := q\<rparr>) = Inr v"
      "waiting C this y d t f v \<or> completed C this y d t f v" "level v = IntOff" "status v = IdleMode" "now v = now u" by blast
  from drain_phase [OF L ok v(4,3,2)] obtain x where
    x: "drain L (with_disk y this k) v = Some (Inr x)"
      "waiting C this y d t f x \<and> due C x = {#} \<or> completed C this y d t f x" "now x = now v" by blast
  have "Idle L (with_disk y this k) s = Some (Inr (x\<lparr>yieldOnReturn := False, status := SystemMode\<rparr>))"
    using v(1) x(1) by (simp add: Idle_def check)
  moreover have "now s < now x \<or> due C s \<noteq> {#} \<and> now x = now s"
  proof (cases "now s < t'")
    case True
    then show ?thesis using u(7) v(5) x(3) by simp
  next
    case False
    then have "(t', p) \<in># due C s" using c by (simp add: due_def)
    then show ?thesis using False u(8) v(5) x(3) by auto
  qed
  ultimately show ?thesis using x(2) by auto
qed

section \<open>The wait comes back\<close>

text \<open>
  Every idle brings the clock nearer to the time of the completion (or delivers what was overdue), so
  the semaphore is signalled after finitely many; the wait then takes the signal.
\<close>

lemma wait_returns:
  fixes s :: "('q, 'k) disk_machine_scheme"
  assumes ok: "synch_kernel_ok L C this y k" and "waiting C this y d t f s"
  shows "\<exists>s'. wait y s = Inr s' \<and> disk_view C this y s' = (idle_again d, {#}, 0, f) \<and> t \<le> now s'"
  using assms(2)
proof (induction "nat (t - now s) + (if due C s = {#} then 0 else 1)" arbitrary: s rule: less_induct)
  case less
  have k: "sorted_list L C" "other_handlers_ok C this y k" "semaphore_ok L C this y k"
    using ok by (simp_all add: synch_kernel_ok_def)
  have "waiting C this y d t f (s\<lparr>level := IntOff\<rparr>)" using less.prems by simp
  from Idle_phase [OF k _ this] obtain s' where
    s': "Idle L (with_disk y this k) (s\<lparr>level := IntOff\<rparr>) = Some (Inr s')"
      "waiting C this y d t f s' \<and> due C s' = {#} \<or> completed C this y d t f s'"
      "now s < now s' \<or> due C s \<noteq> {#} \<and> now s' = now s" by auto
  have "sem_value y (disk_machine.more s) = 0" using less.prems by (simp add: waiting_def disk_view_def)
  then have again: "wait y s = wait y (s'\<lparr>level := level s\<rparr>)"
    using k(3) s'(1) unfolding semaphore_ok_def by blast
  show ?case
    using s'(2)
  proof (elim disjE conjE)
    assume w: "waiting C this y d t f s'" "due C s' = {#}"
    have "now s' < t"
    proof (rule ccontr)
      assume "\<not> now s' < t"
      then have "completion this t \<in># due C s'"
        using waiting_pending [OF w(1)] by (simp add: due_def completion_def)
      then show False using w(2) by simp
    qed
    then have "nat (t - now (s'\<lparr>level := level s\<rparr>)) + (if due C (s'\<lparr>level := level s\<rparr>) = {#} then 0 else 1) <
        nat (t - now s) + (if due C s = {#} then 0 else 1)"
      using s'(3) w(2) by auto
    from less.hyps [OF this] w(1) again show ?thesis by simp
  next
    assume "completed C this y d t f s'"
    then have "disk_view C this y (s'\<lparr>level := level s\<rparr>) = (idle_again d, {#}, 0 + 1, f)" "t \<le> now s'"
      by (simp_all add: completed_def)
    then show ?thesis
      using k(3) again unfolding semaphore_ok_def by fastforce
  qed
qed

section \<open>The operations\<close>

text \<open>An accepted request puts the caller in the waiting state.\<close>

lemma scheduled_waits:
  fixes s s' :: "('q, 'k) disk_machine_scheme"
  assumes L: "sorted_list L C" and v: "disk_view C this y s = (d, {#}, 0, f)"
    and sched: "Schedule L DiskDone this n DiskInt (s\<lparr>stats := st\<rparr>) = Inr s'" and "totalTicks st = now s"
  shows "waiting C this y d' (now s + n) f (s'\<lparr>the_disk := d'\<rparr>)"
proof -
  have s': "s' = s\<lparr>stats := st, pending := SortedInsert L
      \<lparr>handler = DiskDone, arg = this, when = totalTicks st + n, type = DiskInt\<rparr> (totalTicks st + n) (pending s)\<rparr>"
    using sched by (auto simp: Schedule_def Let_def run_simps)
  show ?thesis
    using v assms(4) unfolding s'
    by (simp add: waiting_def disk_view_def completions_def completion_def sorted_list_insert [OF L])
qed

lemma acquired:
  assumes "synch_kernel_ok L C this y k" and "at_rest C this y s"
  obtains s1 where "acquire y s = Inr s1" and "disk_view C this y s1 = (the_disk s, {#}, 0, False)"
    and "the_disk s1 = the_disk s" and "now s \<le> now s1"
proof -
  obtain s1 where "acquire y s = Inr s1" "disk_view C this y s1 = (the_disk s, {#}, 0, False)" "now s \<le> now s1"
    using assms unfolding synch_kernel_ok_def lock_ok_def at_rest_def by blast
  then show thesis using that by (simp add: disk_view_def)
qed

lemma released:
  assumes "synch_kernel_ok L C this y k" and "disk_view C this y s = (d, {#}, 0, False)" and "idle_disk d"
  obtains s1 where "release y s = Inr s1" and "at_rest C this y s1" and "the_disk s1 = d" and "now s \<le> now s1"
proof -
  obtain s1 where "release y s = Inr s1" "disk_view C this y s1 = (d, {#}, 0, True)" "now s \<le> now s1"
    using assms(1,2) unfolding synch_kernel_ok_def lock_ok_def by blast
  then show thesis using that assms(3) by (auto simp: at_rest_def disk_view_def)
qed

text \<open>The request of either kind, the wait and the release.\<close>

lemma request_completes:
  fixes s s1 :: "('q, 'k) disk_machine_scheme"
  assumes ok: "synch_kernel_ok L C this y k" and v: "disk_view C this y s = (d, {#}, 0, False)"
    and sched: "Schedule L DiskDone this n DiskInt (s\<lparr>stats := st\<rparr>) = Inr s1" and st: "totalTicks st = now s"
    and d': "0 \<le> lastSector d'" "lastSector d' < NumSectors" and n: "RotationTime \<le> n"
  obtains s2 s3 where "wait y (s1\<lparr>the_disk := d'\<rparr>) = Inr s2" and "release y s2 = Inr s3"
    and "at_rest C this y s3" and "sectors (the_disk s3) = sectors d'" and "now s + RotationTime \<le> now s3"
proof -
  have L: "sorted_list L C" using ok by (simp add: synch_kernel_ok_def)
  from wait_returns [OF ok scheduled_waits [OF L v sched st]] obtain s2 where
    s2: "wait y (s1\<lparr>the_disk := d'\<rparr>) = Inr s2" "disk_view C this y s2 = (idle_again d', {#}, 0, False)"
      "now s + n \<le> now s2" by blast
  have "idle_disk (idle_again d')" using d' by (simp add: idle_disk_def idle_again_def)
  from released [OF ok s2(2) this] obtain s3 where
    s3: "release y s2 = Inr s3" "at_rest C this y s3" "the_disk s3 = idle_again d'" "now s2 \<le> now s3" .
  show thesis
    by (rule that [OF s2(1) s3(1,2)]) (use s2(3) s3(3,4) n in \<open>simp_all add: idle_again_def\<close>)
qed

lemma SynchDisk_reads:
  fixes s :: "('q, 'k) disk_machine_scheme"
  assumes ok: "synch_kernel_ok L C this y k" and rest: "at_rest C this y s" and n: "0 \<le> n" "n < NumSectors"
  obtains s' where "SynchDisk_ReadSector L y n this s = Inr (sectors (the_disk s) n, s')"
    and "at_rest C this y s'" and "sectors (the_disk s') = sectors (the_disk s)" and "now s + RotationTime \<le> now s'"
proof -
  have idle: "idle_disk (the_disk s)" using rest by (simp add: at_rest_def)
  from acquired [OF ok rest] obtain s1 where
    s1: "acquire y s = Inr s1" "disk_view C this y s1 = (the_disk s, {#}, 0, False)" "the_disk s1 = the_disk s" "now s \<le> now s1" .
  obtain d2 s2 where r: "ReadRequest L n this (the_disk s) s1 = Inr (sectors (the_disk s) n, d2, s2)"
    using ReadRequest_accepts [OF idle n] by blast
  note acc = ReadRequest_done [OF r]
  have "RotationTime \<le> ComputeLatency (now s1) n False (the_disk s)"
    using idle n by (intro latency_bounds(1)) (simp_all add: idle_disk_def)
  from request_completes [OF ok s1(2) acc(8) _ _ _ this, of d2] obtain s3 s4 where
    w: "wait y (s2\<lparr>the_disk := d2\<rparr>) = Inr s3" "release y s3 = Inr s4" "at_rest C this y s4"
      "sectors (the_disk s4) = sectors d2" "now s1 + RotationTime \<le> now s4"
    using acc(7) n by auto
  show thesis
    by (rule that [of s4]) (use s1 r w acc(6) in \<open>simp_all add: SynchDisk_ReadSector_def\<close>)
qed

lemma SynchDisk_writes:
  fixes s :: "('q, 'k) disk_machine_scheme"
  assumes ok: "synch_kernel_ok L C this y k" and rest: "at_rest C this y s" and n: "0 \<le> n" "n < NumSectors"
    and len: "SectorSize \<le> length data"
  obtains s' where "SynchDisk_WriteSector L y n data this s = Inr s'"
    and "at_rest C this y s'" and "sectors (the_disk s') = (sectors (the_disk s))(n := take SectorSize data)"
    and "now s + RotationTime \<le> now s'"
proof -
  have idle: "idle_disk (the_disk s)" using rest by (simp add: at_rest_def)
  from acquired [OF ok rest] obtain s1 where
    s1: "acquire y s = Inr s1" "disk_view C this y s1 = (the_disk s, {#}, 0, False)" "the_disk s1 = the_disk s" "now s \<le> now s1" .
  obtain d2 s2 where r: "WriteRequest L n data this (the_disk s) s1 = Inr (d2, s2)"
    using WriteRequest_accepts [OF idle n len] by blast
  note acc = WriteRequest_done [OF r]
  have "RotationTime \<le> ComputeLatency (now s1) n True (the_disk s)"
    using idle n by (intro latency_bounds(1)) (simp_all add: idle_disk_def)
  from request_completes [OF ok s1(2) acc(8) _ _ _ this, of d2] obtain s3 s4 where
    w: "wait y (s2\<lparr>the_disk := d2\<rparr>) = Inr s3" "release y s3 = Inr s4" "at_rest C this y s4"
      "sectors (the_disk s4) = sectors d2" "now s1 + RotationTime \<le> now s4"
    using acc(7) n by auto
  show thesis
    by (rule that [of s4]) (use s1 r w acc(6) in \<open>simp_all add: SynchDisk_WriteSector_def\<close>)
qed

section \<open>The refinement\<close>

text \<open>
  C21. The synchronous disk implements an array of sectors, and its waits end. From a disk at rest a
  write returns, and a following read returns exactly what the array of sectors says, through the
  request, the wait on the semaphore, the passing of time, the completion interrupt and the handlers
  that make the disk idle and signal the semaphore. Each leaves the disk at rest again (idle, none of its
  interrupts pending, every signal taken) and takes at least the time of one sector. What is
  assumed of the kernel is its list of interrupts, that a semaphore is a counter whose waiter idles until
  it is positive, that a free lock is taken, and that other handlers leave this disk alone.
\<close>

theorem synch_disk_refines_sectors:
  assumes "synch_kernel_ok L C this y k" and "at_rest C this y s"
    and "n \<in> disk_sectors" and "m \<in> disk_sectors" and "SectorSize \<le> length data"
  shows "\<exists>s1 s2 st bs. SynchDisk_WriteSector L y n data this s = Inr s1 \<and>
    WriteSector n data (sectors (the_disk s)) = Inr st \<and> sectors (the_disk s1) = st \<and>
    SynchDisk_ReadSector L y m this s1 = Inr (bs, s2) \<and> ReadSector m st = Inr bs \<and> sectors (the_disk s2) = st \<and>
    at_rest C this y s1 \<and> at_rest C this y s2 \<and>
    totalTicks (stats s) + RotationTime \<le> totalTicks (stats s1) \<and>
    totalTicks (stats s1) + RotationTime \<le> totalTicks (stats s2)"
proof -
  have n: "0 \<le> n" "n < NumSectors" "0 \<le> m" "m < NumSectors" using assms(3,4) by auto
  from SynchDisk_writes [OF assms(1,2) n(1,2) assms(5)] obtain s1 where
    w: "SynchDisk_WriteSector L y n data this s = Inr s1" "at_rest C this y s1"
      "sectors (the_disk s1) = (sectors (the_disk s))(n := take SectorSize data)" "now s + RotationTime \<le> now s1" .
  from SynchDisk_reads [OF assms(1) w(2) n(3,4)] obtain s2 where
    r: "SynchDisk_ReadSector L y m this s1 = Inr (sectors (the_disk s1) m, s2)" "at_rest C this y s2"
      "sectors (the_disk s2) = sectors (the_disk s1)" "now s1 + RotationTime \<le> now s2" .
  have "WriteSector n data (sectors (the_disk s)) = Inr (sectors (the_disk s1))"
    "ReadSector m (sectors (the_disk s1)) = Inr (sectors (the_disk s1) m)"
    using n assms(5) w(3) by (simp_all add: WriteSector_def ReadSector_def)
  with w r show ?thesis by blast
qed

section \<open>An instance\<close>

text \<open>
  A kernel of one thread: the semaphore and the lock are a number and a flag, the wait idles in a loop,
  and a timer goes off every 100 ticks while the disk works.
\<close>

type_synonym sample_machine = "(alarms, nat \<times> bool) disk_machine_scheme"

definition sample_counter :: "nat \<Rightarrow> sample_machine \<Rightarrow> sample_machine res" where
  "sample_counter v s = Inr (disk_machine.more_update (\<lambda>p. (v, snd p)) s)"

definition sample_flag :: "bool \<Rightarrow> sample_machine \<Rightarrow> sample_machine res" where
  "sample_flag f s = Inr (disk_machine.more_update (\<lambda>p. (fst p, f)) s)"

definition sample_V :: "sample_machine \<Rightarrow> sample_machine res" where
  "sample_V s = sample_counter (fst (disk_machine.more s) + 1) s"

definition sample_signals :: "(alarms, nat \<times> bool) disk_synch" where
  "sample_signals = \<lparr>acquire = sample_flag False, release = sample_flag True, wait = Inr, signal = sample_V,
    sem_value = fst, lock_free = snd\<rparr>"

definition timer_kernel :: "sample_machine kernel" where
  "timer_kernel =
    \<lparr>ExceptionHandler = (\<lambda>_ s. Inr s),
     call_handler = (\<lambda>h a s. Schedule sample_list h a 100 TimerInt s), Yield = (\<lambda>s. Inr s)\<rparr>"

partial_function (option) sample_P :: "sample_machine \<Rightarrow> sample_machine res option" where
  "sample_P s =
    (if 0 < fst (disk_machine.more s) then Some (sample_counter (fst (disk_machine.more s) - 1) s)
     else
       (case Idle sample_list (with_disk sample_signals 1 timer_kernel) (s\<lparr>level := IntOff\<rparr>) of
          None \<Rightarrow> None
        | Some (Inl e) \<Rightarrow> Some (Inl e)
        | Some (Inr s') \<Rightarrow> sample_P (s'\<lparr>level := level s\<rparr>)))"

definition sample_synch :: "(alarms, nat \<times> bool) disk_synch" where
  "sample_synch = sample_signals\<lparr>wait := (\<lambda>s. case sample_P s of None \<Rightarrow> Inl NoReturn | Some r \<Rightarrow> r)\<rparr>"

definition sample_start :: sample_machine where
  "sample_start =
    \<lparr>mainMemory = (\<lambda>_. 0), registers = (\<lambda>_. 0), tlb = None, pageTable = Some [sample_entry],
     pageTableSize = 1, singleStep = False, runUntilTime = 0, stats = Statistics, level = IntOn,
     pending = [(100, \<lparr>handler = TimerHandler, arg = 0, when = 100, type = TimerInt\<rparr>)],
     inHandler = False, yieldOnReturn = False, status = SystemMode, the_disk = sample_disk, \<dots> = (0, True)\<rparr>"

lemma sample_view: "disk_view C this sample_synch s = (the_disk s, completions C this s, disk_machine.more s)"
  by (simp add: disk_view_def sample_synch_def sample_signals_def)

lemma with_sample_synch: "with_disk sample_synch this k = with_disk sample_signals this k"
proof -
  have "DiskRequestDone sample_synch = DiskRequestDone sample_signals"
    by (rule ext) (simp add: DiskRequestDone_def SynchDisk_RequestDone_def sample_synch_def)
  then have "call_DiskDone sample_synch = call_DiskDone sample_signals"
    by (intro ext) (simp add: call_DiskDone_def)
  then show ?thesis by (simp only: with_disk_def)
qed

lemma timer_kernel_ok: "other_handlers_ok mset 1 sample_synch timer_kernel"
  unfolding other_handlers_ok_def
proof (intro allI impI)
  fix h and a :: c_int and s :: sample_machine
  assume other: "h \<noteq> DiskDone \<or> a \<noteq> 1" and "handler_context s"
  obtain s' where s': "Schedule sample_list h a 100 TimerInt s = Inr s'" using Schedule_returns [of 100] by force
  note e = Schedule_effect [OF sample_list_ok s']
  have "the_disk s' = the_disk s" "disk_machine.more s' = disk_machine.more s"
    using s' by (auto simp: Schedule_def Let_def)
  moreover have "completions mset 1 s' = completions mset 1 s" using other e(1) by (auto simp: completions_def)
  ultimately show "\<exists>s'. call_handler timer_kernel h a s = Inr s' \<and> disk_view mset 1 sample_synch s' = disk_view mset 1 sample_synch s \<and>
      level s' = IntOff \<and> now s' = now s \<and> due mset s' \<subseteq># due mset s"
    using s' e \<open>handler_context s\<close> by (simp add: timer_kernel_def sample_view handler_context_def)
qed

lemma sample_semaphore_ok: "semaphore_ok sample_list mset 1 sample_synch timer_kernel"
  unfolding semaphore_ok_def
proof (intro conjI allI impI)
  fix s :: sample_machine and d c v f
  assume "handler_context s" "disk_view mset 1 sample_synch s = (d, c, v, f)"
  then show "\<exists>s'. signal sample_synch s = Inr s' \<and> disk_view mset 1 sample_synch s' = (d, c, v + 1, f) \<and>
      level s' = IntOff \<and> now s' = now s \<and> due mset s' = due mset s"
    unfolding sample_view
    by (simp add: sample_synch_def sample_signals_def sample_V_def sample_counter_def completions_def due_def handler_context_def)
next
  fix s :: sample_machine and d v f
  assume "disk_view mset 1 sample_synch s = (d, {#}, v + 1, f)"
  then show "\<exists>s'. wait sample_synch s = Inr s' \<and> disk_view mset 1 sample_synch s' = (d, {#}, v, f) \<and> now s \<le> now s'"
    unfolding sample_view
    by (simp add: sample_synch_def sample_P.simps [of s] sample_counter_def completions_def)
next
  fix s s' :: sample_machine
  assume "sem_value sample_synch (disk_machine.more s) = 0"
    "Idle sample_list (with_disk sample_synch 1 timer_kernel) (s\<lparr>level := IntOff\<rparr>) = Some (Inr s')"
  then show "wait sample_synch s = wait sample_synch (s'\<lparr>level := level s\<rparr>)"
    unfolding with_sample_synch by (simp add: sample_synch_def sample_signals_def sample_P.simps [of s])
qed

lemma sample_synch_kernel_ok: "synch_kernel_ok sample_list mset 1 sample_synch timer_kernel"
proof -
  have "lock_ok mset 1 sample_synch"
    unfolding lock_ok_def sample_view
    by (simp add: sample_synch_def sample_signals_def sample_flag_def completions_def)
  then show ?thesis
    by (simp add: synch_kernel_ok_def sample_list_ok timer_kernel_ok sample_semaphore_ok)
qed

lemma sample_at_rest: "at_rest mset 1 sample_synch sample_start"
  by (simp add: at_rest_def sample_view sample_start_def completions_def idle_disk_def sample_disk_def
      NumSectors_def SectorsPerTrack_def NumTracks_def)

lemma synch_disk_refines_sectors_witness:
  "\<exists>s1 s2. SynchDisk_WriteSector sample_list sample_synch 7 (replicate 128 9) 1 sample_start = Inr s1 \<and>
    SynchDisk_ReadSector sample_list sample_synch 7 1 s1 = Inr (replicate 128 9, s2) \<and>
    1000 \<le> totalTicks (stats s2) \<and> at_rest mset 1 sample_synch s2"
proof -
  have sec: "7 \<in> disk_sectors" by (simp add: NumSectors_def SectorsPerTrack_def NumTracks_def)
  have len: "SectorSize \<le> length (replicate 128 (9 :: byte))" by (simp add: SectorSize_def)
  from synch_disk_refines_sectors [OF sample_synch_kernel_ok sample_at_rest sec sec len] obtain s1 s2 st bs where
    w: "SynchDisk_WriteSector sample_list sample_synch 7 (replicate 128 9) 1 sample_start = Inr s1"
    and st: "WriteSector 7 (replicate 128 9) (sectors (the_disk sample_start)) = Inr st"
    and r: "SynchDisk_ReadSector sample_list sample_synch 7 1 s1 = Inr (bs, s2)" "ReadSector 7 st = Inr bs"
    and rest: "at_rest mset 1 sample_synch s2"
    and t: "now sample_start + RotationTime \<le> now s1" "now s1 + RotationTime \<le> now s2" by blast
  have "bs = replicate 128 9"
    using sec st r(2) by (auto simp: WriteSector_def ReadSector_def SectorSize_def)
  moreover have "1000 \<le> now s2" using t by (simp add: sample_start_def Statistics_def RotationTime_def)
  ultimately show ?thesis using w r(1) rest by blast
qed

end
