(* ===== verification/Fs_OpenFile.thy ===== *)
theory Fs_OpenFile
  imports Fs_Alloc
begin

text \<open>
  Open files (\<^verbatim>\<open>filesys/openfile.cc\<close>): reads and writes of any range of bytes, built on whole
  sectors. The two ways a header names its sectors share one contract, the locale \<open>file_layout\<close>,
  under which a file is its list of bytes.
\<close>

section \<open>The operations\<close>

record openfile =
  file_hdr :: file_header
  seekPosition :: int

definition OpenFile :: "host \<Rightarrow> int \<Rightarrow> store \<Rightarrow> openfile res" where
  "OpenFile h sector st =
    and_then (FetchFrom h sector st) (\<lambda>hdr. Inr \<lparr>file_hdr = hdr, seekPosition = 0\<rparr>)"

definition Seek :: "int \<Rightarrow> openfile \<Rightarrow> openfile" where
  "Seek position f = f\<lparr>seekPosition := position\<rparr>"

definition OpenFile_Length :: "openfile \<Rightarrow> int" where
  "OpenFile_Length f = FileLength (file_hdr f)"

text \<open>The loops over the sectors \<open>i\<close>, \<open>i + 1\<close>, ... of a file.\<close>

primrec read_blocks ::
  "host \<Rightarrow> file_header \<Rightarrow> int \<Rightarrow> int \<Rightarrow> nat \<Rightarrow> store \<Rightarrow> byte list res" where
  "read_blocks h hdr mode i 0 st = Inr []"
| "read_blocks h hdr mode i (Suc n) st =
    and_then (ByteToSector h hdr (i * int SectorSize) mode st) (\<lambda>s.
    and_then (ReadSector s st) (\<lambda>bs.
    and_then (read_blocks h hdr mode (i + 1) n st) (\<lambda>rest. Inr (bs @ rest))))"

primrec write_blocks ::
  "host \<Rightarrow> file_header \<Rightarrow> int \<Rightarrow> int \<Rightarrow> nat \<Rightarrow> byte list \<Rightarrow> store \<Rightarrow> store res" where
  "write_blocks h hdr mode i 0 buf st = Inr st"
| "write_blocks h hdr mode i (Suc n) buf st =
    and_then (ByteToSector h hdr (i * int SectorSize) mode st) (\<lambda>s.
    and_then (WriteSector s buf st) (\<lambda>st.
    write_blocks h hdr mode (i + 1) n (drop SectorSize buf) st))"

text \<open>\<^verbatim>\<open>bcopy\<close> into a buffer.\<close>

definition splice :: "nat \<Rightarrow> 'a list \<Rightarrow> 'a list \<Rightarrow> 'a list" where
  "splice pos xs buf = take pos buf @ xs @ drop (pos + length xs) buf"

text \<open>The bytes of the request that lie in the file; the code's \<^verbatim>\<open>int\<close> sum may wrap.\<close>

definition clip :: "int \<Rightarrow> int \<Rightarrow> int \<Rightarrow> int" where
  "clip fileLength position n = (if fileLength < narrow (position + n) then fileLength - position else n)"

definition ReadAt ::
  "utility \<Rightarrow> host \<Rightarrow> file_header \<Rightarrow> int \<Rightarrow> int \<Rightarrow> int \<Rightarrow> store \<Rightarrow> (int \<times> byte list) res" where
  "ReadAt u h hdr n position mode st =
    (let fileLength = FileLength hdr
     in if n \<le> 0 \<or> fileLength \<le> position then Inr (0, [])
        else
          (let n = clip fileLength position n;
               firstSector = divRoundDown u position (int SectorSize);
               lastSector = divRoundDown u (position + n - 1) (int SectorSize);
               off = position - firstSector * int SectorSize
           in and_then (read_blocks h hdr mode firstSector (nat (1 + lastSector - firstSector)) st) (\<lambda>buf.
              if off < 0 \<or> int (length buf) < off + n then Inl OutOfBounds
              else Inr (n, take (nat n) (drop (nat off) buf)))))"

text \<open>\<open>from\<close> is the caller's buffer, \<open>fresh\<close> what the buffer of \<^verbatim>\<open>new\<close> holds.\<close>

definition WriteAt ::
  "utility \<Rightarrow> host \<Rightarrow> file_header \<Rightarrow> (nat \<Rightarrow> byte) \<Rightarrow> byte list \<Rightarrow> int \<Rightarrow> int \<Rightarrow> int \<Rightarrow> store \<Rightarrow>
   (int \<times> store) res" where
  "WriteAt u h hdr fresh src n position mode st =
    (let fileLength = FileLength hdr
     in if n \<le> 0 \<or> fileLength \<le> position then Inr (0, st)
        else
          (let n = clip fileLength position n;
               firstSector = divRoundDown u position (int SectorSize);
               lastSector = divRoundDown u (position + n - 1) (int SectorSize);
               count = nat (1 + lastSector - firstSector);
               buf = List.map fresh [0..<count * SectorSize];
               firstAligned = (position = firstSector * int SectorSize);
               lastAligned = (position + n = (lastSector + 1) * int SectorSize);
               off = position - firstSector * int SectorSize
           in and_then (if \<not> firstAligned
                        then ReadAt u h hdr (int SectorSize) (firstSector * int SectorSize) mode st
                        else Inr (0, [])) (\<lambda>(_, d1).
              and_then (if \<not> lastAligned \<and> (firstSector \<noteq> lastSector \<or> firstAligned)
                        then ReadAt u h hdr (int SectorSize) (lastSector * int SectorSize) mode st
                        else Inr (0, [])) (\<lambda>(_, d2).
              if off < 0 \<or> int (length buf) < off + n \<or> int (length src) < n then Inl OutOfBounds
              else
                (let buf = splice (nat off) (take (nat n) src)
                             (splice (nat ((lastSector - firstSector) * int SectorSize)) d2 (splice 0 d1 buf))
                 in and_then (write_blocks h hdr mode firstSector count buf st) (\<lambda>st. Inr (n, st)))))))"

definition OpenFile_Read ::
  "utility \<Rightarrow> host \<Rightarrow> int \<Rightarrow> openfile \<Rightarrow> store \<Rightarrow> (int \<times> byte list \<times> openfile) res" where
  "OpenFile_Read u h n f st =
    and_then (ReadAt u h (file_hdr f) n (seekPosition f) 1 st) (\<lambda>(result, data).
    Inr (result, data, f\<lparr>seekPosition := seekPosition f + result\<rparr>))"

definition OpenFile_Write ::
  "utility \<Rightarrow> host \<Rightarrow> (nat \<Rightarrow> byte) \<Rightarrow> byte list \<Rightarrow> int \<Rightarrow> openfile \<Rightarrow> store \<Rightarrow>
   (int \<times> openfile \<times> store) res" where
  "OpenFile_Write u h fresh src n f st =
    and_then (WriteAt u h (file_hdr f) fresh src n (seekPosition f) 1 st) (\<lambda>(result, st).
    Inr (result, f\<lparr>seekPosition := seekPosition f + result\<rparr>, st))"

text \<open>
  The table of open files, 10 pointers of which \<open>None\<close> is \<^verbatim>\<open>NULL\<close>. A full table is reported as
  \<^verbatim>\<open>false\<close>, which is the index 0.
\<close>

fun getEmptyIndex_from :: "nat \<Rightarrow> 'f option list \<Rightarrow> int" where
  "getEmptyIndex_from i [] = - 1"
| "getEmptyIndex_from i (None # tbl) = int i"
| "getEmptyIndex_from i (Some f # tbl) = getEmptyIndex_from (Suc i) tbl"

definition getEmptyIndex :: "'f option list \<Rightarrow> int" where
  "getEmptyIndex tbl = getEmptyIndex_from 0 (take 10 tbl)"

definition insertOpenFileTable :: "'f \<Rightarrow> 'f option list \<Rightarrow> int \<times> 'f option list" where
  "insertOpenFileTable this tbl =
    (let i = getEmptyIndex tbl
     in if i = - 1 then (0, tbl) else (i, tbl[nat i := Some this]))"

section \<open>Buffers and blocks\<close>

lemma length_splice [simp]: "pos + length xs \<le> length buf \<Longrightarrow> length (splice pos xs buf) = length buf"
  by (simp add: splice_def)

lemma nth_splice:
  assumes "pos + length xs \<le> length buf" and "q < length buf"
  shows "splice pos xs buf ! q = (if pos \<le> q \<and> q < pos + length xs then xs ! (q - pos) else buf ! q)"
  using assms by (auto simp: splice_def nth_append not_less)

lemma nth_blocks:
  assumes "\<forall>x \<in> set xs. length (st x) = SectorSize" and "p < SectorSize * length xs"
  shows "concat (List.map st xs) ! p = st (xs ! (p div SectorSize)) ! (p mod SectorSize)"
  using assms
proof (induction xs arbitrary: p)
  case (Cons x xs)
  show ?case
  proof (cases "p < SectorSize")
    case True
    then show ?thesis using Cons.prems by (simp add: nth_append)
  next
    case False
    then have "(p - SectorSize) div SectorSize = p div SectorSize - 1" "(p - SectorSize) mod SectorSize = p mod SectorSize"
      "0 < p div SectorSize"
      by (simp_all add: le_div_geq le_mod_geq SectorSize_def)
    then show ?thesis
      using False Cons.IH [of "p - SectorSize"] Cons.prems by (simp add: nth_append nth_Cons')
  qed
qed simp

lemma length_blocks:
  "\<forall>x \<in> set xs. length (st x) = SectorSize \<Longrightarrow> length (concat (List.map st xs)) = SectorSize * length xs"
  by (induction xs) simp_all

text \<open>The bytes of a file of \<open>n\<close> bytes in the given sectors.\<close>

definition file_bytes :: "int list \<Rightarrow> nat \<Rightarrow> store \<Rightarrow> byte list" where
  "file_bytes secs n st =
    List.map (\<lambda>p. st (secs ! (p div SectorSize)) ! (p mod SectorSize)) [0..<n]"

lemma length_file_bytes [simp]: "length (file_bytes secs n st) = n"
  by (simp add: file_bytes_def)

lemma nth_file_bytes: "p < n \<Longrightarrow> file_bytes secs n st ! p = st (secs ! (p div SectorSize)) ! (p mod SectorSize)"
  by (simp add: file_bytes_def)

end
