(* ===== verification/Fs_Layout.thy ===== *)
theory Fs_Layout
  imports Fs_OpenFile
begin

text \<open>
  The contract between open files and the headers that lay them out, and what reads and writes of
  byte ranges amount to under it: slices of the file's list of bytes. Both modes of
  \<^verbatim>\<open>FileHeader::ByteToSector\<close> keep the contract.
\<close>

section \<open>The buffer of a write\<close>

lemma int_SectorSize: "int SectorSize = 128"
  by (simp add: SectorSize_def)

text \<open>
  The buffer of a write of \<open>m\<close> bytes at \<open>p\<close> over the sectors \<open>F\<close>, ..., \<open>F + c - 1\<close>: what was in the
  first and the last sector, where they are written partly, and the new bytes over it.
\<close>

definition patched :: "nat \<Rightarrow> nat \<Rightarrow> nat \<Rightarrow> nat \<Rightarrow> byte list \<Rightarrow> byte list \<Rightarrow> byte list \<Rightarrow> byte list" where
  "patched p m F c src old buf =
    splice (p - F * 128) (take m src)
      (splice ((c - 1) * 128)
        (if p + m \<noteq> (F + c) * 128 \<and> (c \<noteq> 1 \<or> p = F * 128) then take 128 (drop ((F + c - 1) * 128) old) else [])
        (splice 0 (if p \<noteq> F * 128 then take 128 (drop (F * 128) old) else []) buf))"

definition patch_range :: "nat \<Rightarrow> nat \<Rightarrow> nat \<Rightarrow> nat \<Rightarrow> byte list \<Rightarrow> byte list \<Rightarrow> byte list \<Rightarrow> bool" where
  "patch_range p m F c src old buf \<longleftrightarrow> length buf = 128 * c \<and> 0 < c \<and>
     128 * F \<le> p \<and> p < 128 * Suc F \<and> p + m \<le> 128 * (F + c) \<and> 128 * (F + c) < p + m + 128 \<and>
     0 < m \<and> p + m \<le> length old \<and> m \<le> length src"

lemma length_patched:
  assumes "patch_range p m F c src old buf"
  shows "length (patched p m F c src old buf) = 128 * c"
proof -
  have len: "length buf = 128 * c" "0 < c" "p - F * 128 + m \<le> 128 * c" "m \<le> length src"
    using assms by (auto simp: patch_range_def)
  then have c: "(c - 1) * 128 + 128 = 128 * c" by (cases c) auto
  define B1 where "B1 = (if p \<noteq> F * 128 then take 128 (drop (F * 128) old) else [])"
  define B2 where "B2 = (if p + m \<noteq> (F + c) * 128 \<and> (c \<noteq> 1 \<or> p = F * 128) then take 128 (drop ((F + c - 1) * 128) old) else [])"
  have "length B1 \<le> 128" "length B2 \<le> 128" by (simp_all add: B1_def B2_def)
  then have "length (splice ((c - 1) * 128) B2 (splice 0 B1 buf)) = 128 * c"
    using len c by (subst length_splice; subst length_splice) auto
  then show ?thesis
    using len unfolding patched_def B1_def [symmetric] B2_def [symmetric] by (subst length_splice) auto
qed

lemma nth_patched:
  assumes r: "patch_range p m F c src old buf" and q: "q < 128 * c" "F * 128 + q < length old"
  shows "patched p m F c src old buf ! q = splice p (take m src) old ! (F * 128 + q)"
proof -
  have len: "length buf = 128 * c" "0 < c" "p - F * 128 + m \<le> 128 * c" "m \<le> length src" "p + m \<le> length old" "F * 128 \<le> p"
    and range: "p < 128 * Suc F" "128 * (F + c) < p + m + 128" "p + m \<le> 128 * (F + c)"
    using r by (auto simp: patch_range_def)
  then have c: "(c - 1) * 128 + 128 = 128 * c" by (cases c) auto
  define B1 where "B1 = (if p \<noteq> F * 128 then take 128 (drop (F * 128) old) else [])"
  define B2 where "B2 = (if p + m \<noteq> (F + c) * 128 \<and> (c \<noteq> 1 \<or> p = F * 128) then take 128 (drop ((F + c - 1) * 128) old) else [])"
  have B: "length B1 \<le> 128" "length B2 \<le> 128" by (simp_all add: B1_def B2_def)
  let ?b1 = "splice 0 B1 buf" and ?pos = "(c - 1) * 128"
  let ?b2 = "splice ?pos B2 ?b1"
  have l1: "length ?b1 = 128 * c" using B(1) len(1) c by (subst length_splice) auto
  then have l2: "length ?b2 = 128 * c" using B(2) c by (subst length_splice) auto
  have nth1: "?b1 ! q = (if q < length B1 then B1 ! q else buf ! q)"
    using nth_splice [of 0 B1 buf q] B(1) len(1) c q(1) by simp
  have nth2: "?b2 ! q = (if ?pos \<le> q \<and> q < ?pos + length B2 then B2 ! (q - ?pos) else ?b1 ! q)"
    using nth_splice [of ?pos B2 ?b1 q] B(2) l1 c q(1) by simp
  have nth: "patched p m F c src old buf ! q =
      (if p - F * 128 \<le> q \<and> q < p - F * 128 + m then src ! (q - (p - F * 128)) else ?b2 ! q)"
    using nth_splice [of "p - F * 128" "take m src" ?b2 q] l2 len q(1)
    unfolding patched_def B1_def [symmetric] B2_def [symmetric] by auto
  have spec: "splice p (take m src) old ! (F * 128 + q) =
      (if p \<le> F * 128 + q \<and> F * 128 + q < p + m then src ! (F * 128 + q - p) else old ! (F * 128 + q))"
    using nth_splice [of p "take m src" old "F * 128 + q"] len q(2) by auto
  show ?thesis
  proof (cases "p \<le> F * 128 + q \<and> F * 128 + q < p + m")
    case True
    then show ?thesis using nth spec len(6) by (auto simp: add.commute)
  next
    case False
    have pos: "(F + c - 1) * 128 + (q - ?pos) = F * 128 + q" if "?pos \<le> q"
      using that len(2) by (cases c) auto
    have b2: "B2 ! (q - ?pos) = old ! (F * 128 + q)" if "?pos \<le> q" "q < ?pos + length B2"
    proof -
      have "B2 = take 128 (drop ((F + c - 1) * 128) old)" using that by (auto simp: B2_def split: if_splits)
      moreover have "q - ?pos < 128" using that B(2) by linarith
      ultimately have "B2 ! (q - ?pos) = drop ((F + c - 1) * 128) old ! (q - ?pos)" by (simp only: nth_take)
      also have "\<dots> = old ! ((F + c - 1) * 128 + (q - ?pos))"
        by (rule nth_drop) (use pos [OF that(1)] q(2) in linarith)
      finally show ?thesis unfolding pos [OF that(1)] .
    qed
    have b1: "B1 ! q = old ! (F * 128 + q)" if "q < length B1"
      using that q(2) by (auto simp: B1_def split: if_splits)
    have "q < length B1" if "\<not> (?pos \<le> q \<and> q < ?pos + length B2)"
    proof (cases "F * 128 + q < p")
      case True
      then have "p \<noteq> F * 128" "q < 128" using range(1) by auto
      then show ?thesis using q(2) by (simp add: B1_def)
    next
      case after: False
      then have past: "p + m \<le> F * 128 + q" using False by auto
      have "p + m \<noteq> (F + c) * 128" using past q(1) by (auto simp: algebra_simps)
      moreover have "?pos \<le> q" using past range(2) c by (simp add: algebra_simps)
      moreover have "q - ?pos < 128" using q(1) c by linarith
      ultimately have "c = 1 \<and> p \<noteq> F * 128"
        using that pos q(2) by (auto simp: B2_def split: if_splits)
      then show ?thesis using q by (simp add: B1_def)
    qed
    then have "?b2 ! q = old ! (F * 128 + q)" using nth1 nth2 b1 b2 by auto
    with False show ?thesis using nth spec len(6) by auto
  qed
qed

section \<open>The contract\<close>

locale file_layout =
  fixes h :: host
    and mode :: int
    and secs :: "file_header \<Rightarrow> store \<Rightarrow> int list"
    and table :: "file_header \<Rightarrow> int set"
    and wf :: "file_header \<Rightarrow> store \<Rightarrow> bool"
  assumes lookup: "wf hdr st \<Longrightarrow> k < length (secs hdr st) \<Longrightarrow>
                     ByteToSector h hdr (int k * int SectorSize) mode st = Inr (secs hdr st ! k)"
    and valid: "wf hdr st \<Longrightarrow> distinct (secs hdr st) \<and> set (secs hdr st) \<subseteq> disk_sectors - table hdr"
    and sized: "wf hdr st \<Longrightarrow> sized_header hdr \<and> length (secs hdr st) = nat (numSectors hdr) \<and> whole_sectors st"
    and stable: "wf hdr st \<Longrightarrow> n \<notin> table hdr \<Longrightarrow> length d = SectorSize \<Longrightarrow>
                   wf hdr (st(n := d)) \<and> secs hdr (st(n := d)) = secs hdr st"
begin

definition content :: "file_header \<Rightarrow> store \<Rightarrow> byte list" where
  "content hdr st = file_bytes (secs hdr st) (nat (numBytes hdr)) st"

lemma length_content [simp]: "length (content hdr st) = nat (numBytes hdr)"
  by (simp add: content_def)

lemma sector_in_disk: "wf hdr st \<Longrightarrow> k < length (secs hdr st) \<Longrightarrow> secs hdr st ! k \<in> disk_sectors - table hdr"
  using valid [of hdr st] nth_mem by blast

lemma sector_length: "wf hdr st \<Longrightarrow> x \<in> set (secs hdr st) \<Longrightarrow> length (st x) = SectorSize"
  using valid [of hdr st] sized [of hdr st] by (auto simp: whole_sectors_def)

lemma byte_in_sector:
  assumes "wf hdr st" and "p < nat (numBytes hdr)"
  shows "p div SectorSize < length (secs hdr st)"
proof -
  have "int p < numBytes hdr" using assms(2) by simp
  then have "int p div 128 < (numBytes hdr + 127) div 128" by linarith
  then show ?thesis
    using sized [OF assms(1)] by (auto simp: sized_header_def SectorSize_def)
qed

lemma read_blocks_ok:
  assumes "wf hdr st"
  shows "i + n \<le> length (secs hdr st) \<Longrightarrow>
    read_blocks h hdr mode (int i) n st = Inr (concat (List.map st (take n (drop i (secs hdr st)))))"
proof (induction n arbitrary: i)
  case (Suc n)
  have i: "i < length (secs hdr st)" using Suc.prems by simp
  have "take (Suc n) (drop i (secs hdr st)) = secs hdr st ! i # take n (drop (Suc i) (secs hdr st))"
    using i by (simp add: Cons_nth_drop_Suc [symmetric])
  moreover have "read_blocks h hdr mode (int i + 1) n st =
      Inr (concat (List.map st (take n (drop (Suc i) (secs hdr st)))))"
    using Suc.IH [of "Suc i"] Suc.prems by (simp add: add.commute)
  ultimately show ?case
    using lookup [OF assms i] sector_in_disk [OF assms i] by (simp add: ReadSector_def)
qed simp

lemma write_blocks_ok:
  "wf hdr st \<Longrightarrow> i + n \<le> length (secs hdr st) \<Longrightarrow> length buf = n * SectorSize \<Longrightarrow>
    \<exists>st'. write_blocks h hdr mode (int i) n buf st = Inr st' \<and> wf hdr st' \<and> secs hdr st' = secs hdr st \<and>
      (\<forall>k < n. st' (secs hdr st ! (i + k)) = take SectorSize (drop (k * SectorSize) buf)) \<and>
      (\<forall>x. x \<notin> set (take n (drop i (secs hdr st))) \<longrightarrow> st' x = st x)"
proof (induction n arbitrary: i buf st)
  case 0
  then show ?case by simp
next
  case (Suc n)
  let ?s = "secs hdr st ! i" and ?d = "take SectorSize buf"
  let ?st = "st(?s := ?d)" and ?buf = "drop SectorSize buf"
  have i: "i < length (secs hdr st)" using Suc.prems(2) by simp
  have d: "length ?d = SectorSize" using Suc.prems(3) by simp
  note s = sector_in_disk [OF Suc.prems(1) i]
  have st: "wf hdr ?st" "secs hdr ?st = secs hdr st"
    using stable [OF Suc.prems(1) _ d, of ?s] s by blast+
  have l: "Suc i + n \<le> length (secs hdr ?st)" "length ?buf = n * SectorSize"
    using Suc.prems(2,3) st(2) by simp_all
  obtain st' where run: "write_blocks h hdr mode (int (Suc i)) n ?buf ?st = Inr st'"
    and r: "wf hdr st'" "secs hdr st' = secs hdr st"
      "\<forall>k < n. st' (secs hdr st ! (Suc i + k)) = take SectorSize (drop (k * SectorSize) ?buf)"
      "\<forall>x. x \<notin> set (take n (drop (Suc i) (secs hdr st))) \<longrightarrow> st' x = ?st x"
    using Suc.IH [OF st(1) l] unfolding st(2) by (elim exE conjE)
  have split: "take (Suc n) (drop i (secs hdr st)) = ?s # take n (drop (Suc i) (secs hdr st))"
    using i by (simp add: Cons_nth_drop_Suc [symmetric])
  have "distinct (take (Suc n) (drop i (secs hdr st)))" using valid [OF Suc.prems(1)] by simp
  then have "st' ?s = ?d" using r(4) by (simp add: split)
  then have "st' (secs hdr st ! (i + k)) = take SectorSize (drop (k * SectorSize) buf)" if "k < Suc n" for k
    using that r(3) by (cases k) (auto simp: add.commute)
  moreover have "write_blocks h hdr mode (int i) (Suc n) buf st = Inr st'"
    using lookup [OF Suc.prems(1) i] s Suc.prems(3) run by (simp add: WriteSector_def add.commute)
  ultimately show ?case
    using r(1,2,4) by (intro exI [of _ st']) (auto simp: split)
qed

section \<open>Reading\<close>

text \<open>The sectors \<open>F\<close>, ..., \<open>F + n - 1\<close> a request of bytes touches.\<close>

lemma touched_sectors:
  assumes w: "wf hdr st" and p: "0 \<le> p" "0 < n" "p + n \<le> numBytes hdr"
  defines "F \<equiv> nat p div 128" and "c \<equiv> nat (1 + (p + n - 1) div 128 - p div 128)"
  shows "p div 128 = int F" and "F + c \<le> length (secs hdr st)" and "0 < c"
    and "p + n \<le> 128 * int (F + c)" and "128 * int F \<le> p" and "p < 128 * int (Suc F)"
    and "128 * int (F + c) < p + n + 128" and "(p + n - 1) div 128 = int (F + c) - 1"
proof -
  define a b where "a = p div 128" and "b = (p + n - 1) div 128"
  have div: "128 * a \<le> p" "p < 128 * a + 128" "128 * b \<le> p + n - 1" "p + n - 1 < 128 * b + 128"
  proof -
    have "128 * a + p mod 128 = p" "p mod 128 < 128" "0 \<le> p mod 128"
      "128 * b + (p + n - 1) mod 128 = p + n - 1" "(p + n - 1) mod 128 < 128" "0 \<le> (p + n - 1) mod 128"
      by (simp_all add: a_def b_def)
    then show "128 * a \<le> p" "p < 128 * a + 128" "128 * b \<le> p + n - 1" "p + n - 1 < 128 * b + 128"
      by linarith+
  qed
  then have ab: "0 \<le> a" "a \<le> b" using p by simp_all
  have F: "a = int F" using p(1) by (simp add: a_def F_def nat_div_distrib)
  have c: "int (F + c) = b + 1" using ab F by (simp add: c_def a_def [symmetric] b_def [symmetric])
  show "p div 128 = int F" "(p + n - 1) div 128 = int (F + c) - 1"
    using F c by (simp_all add: a_def b_def)
  show "128 * int F \<le> p" "p < 128 * int (Suc F)" using div F by simp_all
  show "p + n \<le> 128 * int (F + c)" "128 * int (F + c) < p + n + 128"
    unfolding c using div by simp_all
  show "0 < c" using c F ab(2) by simp
  have "(p + n - 1) div 128 < (numBytes hdr + 127) div 128"
    using zdiv_mono1 [of "p + n + 127" "numBytes hdr + 127" 128] p(3) div_add_self1 [of 128 "p + n - 1"] by simp
  moreover have "numSectors hdr = (numBytes hdr + 127) div 128" "length (secs hdr st) = nat (numSectors hdr)"
    using sized [OF w] by (simp_all add: sized_header_def)
  ultimately have "int (F + c) \<le> int (length (secs hdr st))" unfolding c b_def by simp
  then show "F + c \<le> length (secs hdr st)" by simp
qed

lemma ReadAt_slice:
  assumes w: "wf hdr st" and u: "utility_ok u" and p: "0 \<le> p" and n: "p + n < 2 ^ 31" "- (2 ^ 31) \<le> n"
  shows "ReadAt u h hdr n p mode st =
    Inr (int (length (take (nat n) (drop (nat p) (content hdr st)))), take (nat n) (drop (nat p) (content hdr st)))"
proof (cases "n \<le> 0 \<or> numBytes hdr \<le> p")
  case True
  then show ?thesis using p by (auto simp: ReadAt_def FileLength_def)
next
  case False
  define m where "m = clip (numBytes hdr) p n"
  have narrow: "narrow (p + n) = p + n" using p n False by (intro narrow_small) auto
  have m: "0 < m" "p + m \<le> numBytes hdr" "m = min n (numBytes hdr - p)"
    using False p by (auto simp: m_def clip_def narrow)
  define F where "F = nat p div 128"
  define c where "c = nat (1 + (p + m - 1) div 128 - p div 128)"
  note t = touched_sectors [OF w p m(1,2), folded F_def c_def]
  let ?xs = "take c (drop F (secs hdr st))"
  have lens: "\<forall>x \<in> set ?xs. length (st x) = SectorSize"
    using sector_length [OF w] by (auto dest!: in_set_takeD in_set_dropD)
  have blocks: "read_blocks h hdr mode (int F) c st = Inr (concat (List.map st ?xs))"
    by (rule read_blocks_ok [OF w t(2)])
  have len: "length (concat (List.map st ?xs)) = 128 * c"
    using length_blocks [OF lens] t(2) by (simp add: SectorSize_def)
  have q: "nat (p - int F * 128) + nat m \<le> 128 * c"
    using t(4,5) m(1) by (simp add: nat_add_distrib [symmetric] nat_le_iff algebra_simps)
  have slice: "take (nat m) (drop (nat (p - int F * 128)) (concat (List.map st ?xs))) =
      take (nat m) (drop (nat p) (content hdr st))"
  proof (rule nth_equalityI)
    show "length (take (nat m) (drop (nat (p - int F * 128)) (concat (List.map st ?xs)))) =
        length (take (nat m) (drop (nat p) (content hdr st)))"
      using q len m(2) p by simp
    fix i
    assume "i < length (take (nat m) (drop (nat (p - int F * 128)) (concat (List.map st ?xs))))"
    then have i: "i < nat m" by simp
    define r where "r = nat (p - int F * 128) + i"
    have r: "r < SectorSize * length ?xs" "nat p + i = 128 * F + r"
      using i q t(2,5) p by (simp_all add: r_def SectorSize_def)
    have "r div 128 < c" using r(1) t(2) by (simp add: SectorSize_def div_less_iff_less_mult mult.commute)
    moreover have "(nat p + i) div 128 = F + r div 128" "(nat p + i) mod 128 = r mod 128"
      by (simp_all add: r(2))
    moreover have "nat p + i < nat (numBytes hdr)" using i m(2) p by linarith
    ultimately show "take (nat m) (drop (nat (p - int F * 128)) (concat (List.map st ?xs))) ! i =
        take (nat m) (drop (nat p) (content hdr st)) ! i"
      using i q len m(2) p nth_blocks [OF lens r(1)] t(2)
      by (simp add: r_def [symmetric] content_def nth_file_bytes SectorSize_def)
  qed
  have clipped: "take (nat m) (drop (nat p) (content hdr st)) = take (nat n) (drop (nat p) (content hdr st))"
    using m p by (cases "n \<le> numBytes hdr - p") auto
  have count: "int (length (take (nat m) (drop (nat p) (content hdr st)))) = m"
    using m p by simp
  have blocks_read: "nat (1 + (p + m - 1) div 128 - int F) = c" by (simp add: c_def t(1))
  have inside: "\<not> (p - int F * 128 < 0 \<or> int (length (concat (List.map st ?xs))) < p - int F * 128 + m)"
    using t(4,5) len by (simp add: algebra_simps)
  have down: "divRoundDown u p (int SectorSize) = p div 128"
      "divRoundDown u (p + m - 1) (int SectorSize) = (p + m - 1) div 128"
    using utility_down [OF u] p m(1) by simp_all
  have "ReadAt u h hdr n p mode st =
      and_then (read_blocks h hdr mode (p div 128) (nat (1 + (p + m - 1) div 128 - p div 128)) st) (\<lambda>buf.
        if p - p div 128 * 128 < 0 \<or> int (length buf) < p - p div 128 * 128 + m then Inl OutOfBounds
        else Inr (m, take (nat m) (drop (nat (p - p div 128 * 128)) buf)))"
    using False unfolding ReadAt_def FileLength_def Let_def m_def [symmetric] down unfolding int_SectorSize by simp
  also have "\<dots> = Inr (m, take (nat m) (drop (nat (p - int F * 128)) (concat (List.map st ?xs))))"
    unfolding t(1) blocks_read blocks and_then.simps if_not_P [OF inside] ..
  finally show ?thesis
    unfolding slice clipped using count unfolding clipped by simp
qed

section \<open>Writing\<close>

text \<open>A whole-sector read, as a write makes of its first and last sector.\<close>

lemma ReadAt_sector:
  assumes w: "wf hdr st" and u: "utility_ok u" and k: "int k * 128 + 128 < 2 ^ 31"
  shows "ReadAt u h hdr (int SectorSize) (int k * int SectorSize) mode st =
    Inr (int (length (take 128 (drop (k * 128) (content hdr st)))), take 128 (drop (k * 128) (content hdr st)))"
  using ReadAt_slice [OF w u, of "int k * 128" 128] k
  by (simp add: int_SectorSize nat_mult_distrib)

lemma WriteAt_patched:
  assumes w: "wf hdr st" and u: "utility_ok u" and p: "0 \<le> p" "p < numBytes hdr" "0 < n"
    and src: "n \<le> int (length src)" and m: "m = clip (numBytes hdr) p n" "0 < m" "p + m \<le> numBytes hdr" "m \<le> n"
    and small: "numBytes hdr + 128 < 2 ^ 31"
  defines "F \<equiv> nat p div 128" and "c \<equiv> nat (1 + (p + m - 1) div 128 - p div 128)"
  assumes buf_def: "buf = List.map fresh [0..<c * SectorSize]"
  shows "WriteAt u h hdr fresh src n p mode st =
      and_then (write_blocks h hdr mode (int F) c (patched (nat p) (nat m) F c src (content hdr st) buf) st)
        (\<lambda>st. Inr (m, st))"
    and "patch_range (nat p) (nat m) F c src (content hdr st) buf"
proof -
  note t = touched_sectors [OF w p(1) m(2,3), folded F_def c_def]
  show range: "patch_range (nat p) (nat m) F c src (content hdr st) buf"
    using t(3-7) p m(2-4) src
    by (simp add: patch_range_def buf_def SectorSize_def nat_le_iff nat_add_distrib [symmetric]) arith
  have down: "divRoundDown u p (int SectorSize) = int F"
      "divRoundDown u (p + m - 1) (int SectorSize) = int (F + c - 1)"
    using utility_down [OF u] p m(2) t(1,3,8) by (simp_all add: of_nat_diff)
  have cnt: "nat (1 + int (F + c - 1) - int F) = c" using t(3) by simp
  have first: "p = int F * int SectorSize \<longleftrightarrow> nat p = F * 128"
    using p(1) by (auto simp: int_SectorSize)
  have lst: "p + m = (int (F + c - 1) + 1) * int SectorSize \<longleftrightarrow> nat p + nat m = (F + c) * 128"
    using p(1) m(2) t(3) by (auto simp: int_SectorSize of_nat_diff)
  have one: "int F \<noteq> int (F + c - 1) \<longleftrightarrow> c \<noteq> 1" using t(3) by auto
  have off: "nat (p - int F * int SectorSize) = nat p - F * 128"
    using p(1) by (simp add: int_SectorSize nat_diff_distrib nat_mult_distrib)
  have gap: "nat ((int (F + c - 1) - int F) * int SectorSize) = (c - 1) * 128"
    using t(3) by (simp add: int_SectorSize of_nat_diff nat_mult_distrib)
  have bound: "int F * 128 + 128 < 2 ^ 31" "int (F + c - 1) * 128 + 128 < 2 ^ 31"
    using t(3,5,7) p small m(3) by (simp_all add: of_nat_diff)
  note read = ReadAt_sector [OF w u bound(1)] ReadAt_sector [OF w u bound(2)]
  show "WriteAt u h hdr fresh src n p mode st =
      and_then (write_blocks h hdr mode (int F) c (patched (nat p) (nat m) F c src (content hdr st) buf) st)
        (\<lambda>st. Inr (m, st))"
  proof -
    let ?old = "content hdr st"
    have run: "WriteAt u h hdr fresh src n p mode st =
      and_then (if p \<noteq> int F * int SectorSize
                then ReadAt u h hdr (int SectorSize) (int F * int SectorSize) mode st else Inr (0, [])) (\<lambda>(_, d1).
      and_then (if p + m \<noteq> (int (F + c - 1) + 1) * int SectorSize \<and> (int F \<noteq> int (F + c - 1) \<or> p = int F * int SectorSize)
                then ReadAt u h hdr (int SectorSize) (int (F + c - 1) * int SectorSize) mode st else Inr (0, [])) (\<lambda>(_, d2).
      if p - int F * int SectorSize < 0 \<or> int (length buf) < p - int F * int SectorSize + m \<or> int (length src) < m
      then Inl OutOfBounds
      else and_then (write_blocks h hdr mode (int F) c
          (splice (nat (p - int F * int SectorSize)) (take (nat m) src)
            (splice (nat ((int (F + c - 1) - int F) * int SectorSize)) d2 (splice 0 d1 buf))) st) (\<lambda>st. Inr (m, st))))"
      using p unfolding WriteAt_def FileLength_def Let_def m(1) [symmetric] down cnt buf_def [symmetric] by simp
    have inside: "\<not> (p - int F * int SectorSize < 0 \<or> int (length buf) < p - int F * int SectorSize + m \<or> int (length src) < m)"
      using t(4,5) src m(4) by (simp add: int_SectorSize buf_def algebra_simps)
    have d1: "(if p \<noteq> int F * int SectorSize
        then ReadAt u h hdr (int SectorSize) (int F * int SectorSize) mode st else Inr (0, [])) =
      Inr (int (length (if nat p \<noteq> F * 128 then take 128 (drop (F * 128) ?old) else [])),
        if nat p \<noteq> F * 128 then take 128 (drop (F * 128) ?old) else [])"
      unfolding first read by simp
    have d2: "(if p + m \<noteq> (int (F + c - 1) + 1) * int SectorSize \<and> (int F \<noteq> int (F + c - 1) \<or> p = int F * int SectorSize)
        then ReadAt u h hdr (int SectorSize) (int (F + c - 1) * int SectorSize) mode st else Inr (0, [])) =
      Inr (int (length (if nat p + nat m \<noteq> (F + c) * 128 \<and> (c \<noteq> 1 \<or> nat p = F * 128)
                        then take 128 (drop ((F + c - 1) * 128) ?old) else [])),
        if nat p + nat m \<noteq> (F + c) * 128 \<and> (c \<noteq> 1 \<or> nat p = F * 128)
        then take 128 (drop ((F + c - 1) * 128) ?old) else [])"
      unfolding first lst one read by simp
    show ?thesis
      unfolding run d1 d2 and_then.simps prod.case if_not_P [OF inside] off gap patched_def ..
  qed
qed

lemma written_content:
  assumes w: "wf hdr st" "wf hdr st'" "secs hdr st' = secs hdr st"
    and r: "patch_range p m F c src (content hdr st) buf" and fit: "F + c \<le> length (secs hdr st)"
    and new: "\<forall>k < c. st' (secs hdr st ! (F + k)) =
      take SectorSize (drop (k * SectorSize) (patched p m F c src (content hdr st) buf))"
    and same: "\<forall>x. x \<notin> set (take c (drop F (secs hdr st))) \<longrightarrow> st' x = st x"
  shows "content hdr st' = splice p (take m src) (content hdr st)"
proof (rule nth_equalityI)
  have len: "p + m \<le> length (content hdr st)" "m \<le> length src" "128 * F \<le> p" "p + m \<le> 128 * (F + c)"
    using r by (auto simp: patch_range_def)
  show "length (content hdr st') = length (splice p (take m src) (content hdr st))"
    using len by (subst length_splice) auto
  fix P
  assume "P < length (content hdr st')"
  then have P: "P < nat (numBytes hdr)" by simp
  let ?k = "P div SectorSize"
  have k: "?k < length (secs hdr st)" using byte_in_sector [OF w(1) P] .
  have old: "content hdr st ! P = st (secs hdr st ! ?k) ! (P mod SectorSize)"
    and now: "content hdr st' ! P = st' (secs hdr st ! ?k) ! (P mod SectorSize)"
    using P w(3) by (simp_all add: content_def nth_file_bytes)
  show "content hdr st' ! P = splice p (take m src) (content hdr st) ! P"
  proof (cases "F \<le> ?k \<and> ?k < F + c")
    case True
    define q where "q = P - F * 128"
    have q: "F * 128 + q = P" "q < 128 * c"
      using True by (auto simp: q_def SectorSize_def less_eq_div_iff_mult_less_eq div_less_iff_less_mult algebra_simps)
    have "?k - F < c" "F + (?k - F) = ?k" using True by auto
    then have "st' (secs hdr st ! ?k) =
        take SectorSize (drop ((?k - F) * SectorSize) (patched p m F c src (content hdr st) buf))"
      using new by metis
    moreover have "(?k - F) * SectorSize + P mod SectorSize = q"
    proof -
      have "?k * SectorSize + P mod SectorSize = P" by simp
      moreover have "F * SectorSize \<le> ?k * SectorSize" using True by simp
      ultimately show ?thesis using q(1) by (simp add: diff_mult_distrib SectorSize_def)
    qed
    moreover have "P mod SectorSize < SectorSize" by (simp add: SectorSize_def)
    ultimately have "content hdr st' ! P = patched p m F c src (content hdr st) buf ! q"
      using now length_patched [OF r] q(2) by simp
    then show ?thesis using nth_patched [OF r q(2)] q(1) P by simp
  next
    case False
    have "secs hdr st ! ?k \<notin> set (take c (drop F (secs hdr st)))"
    proof
      assume "secs hdr st ! ?k \<in> set (take c (drop F (secs hdr st)))"
      then obtain j where j: "j < c" "secs hdr st ! ?k = secs hdr st ! (F + j)"
        using fit by (auto simp: in_set_conv_nth)
      then have "?k = F + j"
        using valid [OF w(1)] k fit nth_eq_iff_index_eq [of "secs hdr st" ?k "F + j"] by auto
      with j(1) False show False by simp
    qed
    then have "content hdr st' ! P = content hdr st ! P" using now old same by simp
    moreover have "\<not> (p \<le> P \<and> P < p + m)"
      using False len(3,4) by (auto simp: SectorSize_def less_eq_div_iff_mult_less_eq div_less_iff_less_mult algebra_simps)
    ultimately show ?thesis
      using nth_splice [of p "take m src" "content hdr st" P] len P by auto
  qed
qed

theorem WriteAt_splice:
  assumes w: "wf hdr st" and u: "utility_ok u" and p: "0 \<le> p" and n: "p + n < 2 ^ 31" "- (2 ^ 31) \<le> n"
    and src: "n \<le> int (length src)" and small: "numBytes hdr + 128 < 2 ^ 31"
  defines "k \<equiv> min (nat n) (nat (numBytes hdr) - nat p)"
  shows "\<exists>st'. WriteAt u h hdr fresh src n p mode st = Inr (int k, st') \<and> wf hdr st' \<and> secs hdr st' = secs hdr st \<and>
    content hdr st' = splice (nat p) (take k src) (content hdr st) \<and>
    (\<forall>x. x \<notin> set (secs hdr st) \<longrightarrow> st' x = st x)"
proof (cases "n \<le> 0 \<or> numBytes hdr \<le> p")
  case True
  then have "k = 0" using p by (auto simp: k_def)
  with True w show ?thesis
    by (intro exI [of _ st]) (auto simp: WriteAt_def FileLength_def splice_def)
next
  case False
  have narrow: "narrow (p + n) = p + n" using p n False by (intro narrow_small) auto
  define m where "m = clip (numBytes hdr) p n"
  have m: "0 < m" "p + m \<le> numBytes hdr" "m \<le> n" "m = int k"
    using False p by (auto simp: m_def clip_def narrow k_def)
  define F where "F = nat p div 128"
  define c where "c = nat (1 + (p + m - 1) div 128 - p div 128)"
  define buf where "buf = List.map fresh [0..<c * SectorSize]"
  have pn: "p < numBytes hdr" "0 < n" using False by auto
  note run = WriteAt_patched [OF w u p pn src m_def m(1-3) small, folded F_def c_def, OF buf_def]
  note t = touched_sectors [OF w p m(1,2), folded F_def c_def]
  have len: "length (patched (nat p) (nat m) F c src (content hdr st) buf) = c * SectorSize"
    using length_patched [OF run(2)] by (simp add: SectorSize_def)
  obtain st' where st': "write_blocks h hdr mode (int F) c (patched (nat p) (nat m) F c src (content hdr st) buf) st = Inr st'"
    "wf hdr st'" "secs hdr st' = secs hdr st"
    "\<forall>k < c. st' (secs hdr st ! (F + k)) =
      take SectorSize (drop (k * SectorSize) (patched (nat p) (nat m) F c src (content hdr st) buf))"
    "\<forall>x. x \<notin> set (take c (drop F (secs hdr st))) \<longrightarrow> st' x = st x"
    using write_blocks_ok [OF w t(2) len] by (elim exE conjE)
  have "content hdr st' = splice (nat p) (take (nat m) src) (content hdr st)"
    by (rule written_content [OF w st'(2,3) run(2) t(2) st'(4,5)])
  moreover have "nat m = k" using m(4) by simp
  moreover have "\<forall>x. x \<notin> set (secs hdr st) \<longrightarrow> st' x = st x"
    using st'(5) by (meson in_set_dropD in_set_takeD)
  ultimately show ?thesis
    using st'(1-3) m(4) by (intro exI [of _ st']) (simp add: run(1))
qed

end

section \<open>Both modes keep the contract\<close>

lemma whole_sectors_update: "whole_sectors st \<Longrightarrow> length d = SectorSize \<Longrightarrow> whole_sectors (st(n := d))"
  by (simp add: whole_sectors_def)

interpretation direct: file_layout h 0 "\<lambda>hdr st. direct_sectors hdr" "\<lambda>hdr. {}"
  "\<lambda>hdr st. direct_ok hdr \<and> whole_sectors st" for h
proof
  fix hdr st k
  assume "direct_ok hdr \<and> whole_sectors st" and "k < length (direct_sectors hdr)"
  then show "ByteToSector h hdr (int k * int SectorSize) 0 st = Inr (direct_sectors hdr ! k)"
    by (simp add: ByteToSector_def int_SectorSize sdiv_eq_div direct_sectors_def direct_ok_def sized_header_def
        header_ok_def header_counts)
qed (auto simp: direct_ok_def direct_sectors_def sized_header_def header_ok_def header_counts
    whole_sectors_update)

lemma indirect_lookup:
  assumes "indirect_ok h hdr st" and k: "k < nat (numSectors hdr)"
  shows "ByteToSector h hdr (int k * int SectorSize) 1 st = Inr (table_entry h hdr st k)"
    and "dataSectors hdr ! (k div 32) \<in> set (table_sectors hdr)"
proof -
  have hdr: "length (dataSectors hdr) = 30" "numSectors hdr \<le> 960" "set (table_sectors hdr) \<subseteq> disk_sectors"
    using assms(1) by (simp_all add: indirect_ok_def sized_header_def header_ok_def header_counts)
  have e: "k div 32 < table_length hdr" "k div 32 < 30"
    using k hdr(2) by (auto simp: table_length_def div_less_iff_less_mult)
  then have "dataSectors hdr ! (k div 32) = table_sectors hdr ! (k div 32)" "k div 32 < length (table_sectors hdr)"
    using hdr(1) by (simp_all add: table_sectors_def)
  then show s: "dataSectors hdr ! (k div 32) \<in> set (table_sectors hdr)" by simp
  have "ByteToSector h hdr (int k * int SectorSize) 1 st =
      and_then (FetchFrom h (dataSectors hdr ! (k div 32)) st) (\<lambda>newHdr. Inr (header_words newHdr ! (k mod 32)))"
  proof -
    have "int k div 32 = int (k div 32)" "int k mod 32 = int (k mod 32)"
      by (simp_all add: zdiv_int zmod_int)
    then show ?thesis
      using e(2) by (simp add: ByteToSector_def int_SectorSize sdiv_eq_div header_counts Let_def)
  qed
  then show "ByteToSector h hdr (int k * int SectorSize) 1 st = Inr (table_entry h hdr st k)"
    using s hdr(3) by (auto simp: FetchFrom_def ReadSector_def table_entry_def)
qed

lemma indirect_stable:
  assumes "indirect_ok h hdr st" and "n \<notin> set (table_sectors hdr)"
  shows "indirect_sectors h hdr (st(n := d)) = indirect_sectors h hdr st" and "indirect_ok h hdr (st(n := d))"
proof -
  have "table_entry h hdr (st(n := d)) k = table_entry h hdr st k" if "k < nat (numSectors hdr)" for k
    using indirect_lookup(2) [OF assms(1) that] assms(2) by (auto simp: table_entry_def)
  then show s: "indirect_sectors h hdr (st(n := d)) = indirect_sectors h hdr st"
    by (simp add: indirect_sectors_def)
  show "indirect_ok h hdr (st(n := d))"
    using assms(1) unfolding indirect_ok_def s .
qed

interpretation indirect: file_layout h 1 "indirect_sectors h" "\<lambda>hdr. set (table_sectors hdr)"
  "\<lambda>hdr st. indirect_ok h hdr st \<and> whole_sectors st" for h
proof
  fix hdr st k
  assume "indirect_ok h hdr st \<and> whole_sectors st" and "k < length (indirect_sectors h hdr st)"
  then show "ByteToSector h hdr (int k * int SectorSize) 1 st = Inr (indirect_sectors h hdr st ! k)"
    using indirect_lookup(1) by (simp add: indirect_sectors_def)
next
  fix hdr st
  assume "indirect_ok h hdr st \<and> whole_sectors st"
  then show "distinct (indirect_sectors h hdr st) \<and> set (indirect_sectors h hdr st) \<subseteq> disk_sectors - set (table_sectors hdr)"
    and "sized_header hdr \<and> length (indirect_sectors h hdr st) = nat (numSectors hdr) \<and> whole_sectors st"
    by (auto simp: indirect_ok_def) (simp_all add: indirect_sectors_def)
next
  fix hdr n and st :: store and d :: "byte list"
  assume "indirect_ok h hdr st \<and> whole_sectors st" and "n \<notin> set (table_sectors hdr)" and "length d = SectorSize"
  then show "(indirect_ok h hdr (st(n := d)) \<and> whole_sectors (st(n := d))) \<and>
      indirect_sectors h hdr (st(n := d)) = indirect_sectors h hdr st"
    using indirect_stable whole_sectors_update by blast
qed

end
