(* ===== verification/Fs_Directory.thy ===== *)
theory Fs_Directory
  imports Fs_Layout
begin

text \<open>
  Directories (\<^verbatim>\<open>filesys/directory.cc\<close>): a table of entries of 16 bytes, in memory and in a file. A
  directory is, to its clients, a map from names cut to 9 characters to the sectors of headers: the
  locale \<open>name_table\<close> is that contract, and the table keeps it.
\<close>

section \<open>Strings of C\<close>

text \<open>The characters of a string that starts in the buffer.\<close>

definition cstring :: "byte list \<Rightarrow> byte list" where
  "cstring buf = takeWhile (\<lambda>c. c \<noteq> 0) buf"

definition FileNameMaxLen :: nat where "FileNameMaxLen = 9"

text \<open>\<^verbatim>\<open>strncmp\<close> finds the strings equal when the parts it compares are.\<close>

definition strncmp_equal :: "byte list \<Rightarrow> byte list \<Rightarrow> nat \<Rightarrow> bool" where
  "strncmp_equal a b n \<longleftrightarrow> take n (cstring a) = take n (cstring b)"

definition strncpy :: "byte list \<Rightarrow> byte list \<Rightarrow> nat \<Rightarrow> byte list" where
  "strncpy dst src n =
    (let s = take n (cstring src) in s @ replicate (n - length s) 0 @ drop n dst)"

definition strcpy :: "byte list \<Rightarrow> byte list \<Rightarrow> byte list" where
  "strcpy dst src = splice 0 (cstring src @ [0]) dst"

section \<open>Entries\<close>

definition NumDirEntries :: nat where "NumDirEntries = 10"

abbreviation (input) CurrentDirectoryIndex :: nat where "CurrentDirectoryIndex \<equiv> 0"
abbreviation (input) ParentDirectoryIndex :: nat where "ParentDirectoryIndex \<equiv> Suc 0"

text \<open>\<open>entry_pad\<close> is the byte the compiler puts before the aligned \<^verbatim>\<open>sector\<close>.\<close>

record directory_entry =
  entry_name :: "byte list"
  inUseAndIsDir :: byte
  entry_pad :: byte
  entry_sector :: int

text \<open>The class \<^verbatim>\<open>Directory\<close>: the table, whose length is \<^verbatim>\<open>tableSize\<close>.\<close>

type_synonym directory = "directory_entry list"

definition sizeof_DirectoryEntry :: nat where "sizeof_DirectoryEntry = 16"

definition in_use :: "directory_entry \<Rightarrow> bool" where
  "in_use e \<longleftrightarrow> inUseAndIsDir e AND 1 \<noteq> 0"

definition is_dir :: "directory_entry \<Rightarrow> bool" where
  "is_dir e \<longleftrightarrow> drop_bit 1 (inUseAndIsDir e AND 2) \<noteq> 0"

definition set_in_use :: "bool \<Rightarrow> directory_entry \<Rightarrow> directory_entry" where
  "set_in_use v e =
    (if v then e\<lparr>inUseAndIsDir := inUseAndIsDir e OR 1\<rparr> else e\<lparr>inUseAndIsDir := inUseAndIsDir e AND NOT 1\<rparr>)"

definition set_is_dir :: "bool \<Rightarrow> directory_entry \<Rightarrow> directory_entry" where
  "set_is_dir v e =
    (if v then e\<lparr>inUseAndIsDir := inUseAndIsDir e OR push_bit 1 1\<rparr>
     else e\<lparr>inUseAndIsDir := inUseAndIsDir e AND NOT 2\<rparr>)"

definition isInUseOfIndex :: "int \<Rightarrow> directory \<Rightarrow> bool res" where
  "isInUseOfIndex i d = (if 0 \<le> i \<and> nat i < length d then Inr (in_use (d ! nat i)) else Inl OutOfBounds)"

definition isDirOfIndex :: "int \<Rightarrow> directory \<Rightarrow> bool res" where
  "isDirOfIndex i d = (if 0 \<le> i \<and> nat i < length d then Inr (is_dir (d ! nat i)) else Inl OutOfBounds)"

definition setInUseOfIndex :: "int \<Rightarrow> bool \<Rightarrow> directory \<Rightarrow> directory res" where
  "setInUseOfIndex i v d =
    (if 0 \<le> i \<and> nat i < length d then Inr (d[nat i := set_in_use v (d ! nat i)]) else Inl OutOfBounds)"

definition setIsDirOfIndex :: "int \<Rightarrow> bool \<Rightarrow> directory \<Rightarrow> directory res" where
  "setIsDirOfIndex i v d =
    (if 0 \<le> i \<and> nat i < length d then Inr (d[nat i := set_is_dir v (d ! nat i)]) else Inl OutOfBounds)"

text \<open>\<open>getSector\<close> and the sector of any entry, as \<^verbatim>\<open>getTableAt(i).sector\<close>.\<close>

definition getTableAt :: "int \<Rightarrow> directory \<Rightarrow> directory_entry res" where
  "getTableAt i d = (if 0 \<le> i \<and> nat i < length d then Inr (d ! nat i) else Inl OutOfBounds)"

definition getSector :: "directory \<Rightarrow> int res" where
  "getSector d = and_then (getTableAt 0 d) (\<lambda>e. Inr (entry_sector e))"

definition setTableAt :: "int \<Rightarrow> directory_entry \<Rightarrow> directory \<Rightarrow> directory res" where
  "setTableAt i e d = (if 0 \<le> i \<and> nat i < length d then Inr (d[nat i := e]) else Inl OutOfBounds)"

text \<open>The loops of \<open>isEmpty\<close> and \<open>isFull\<close>, which are the same.\<close>

definition isEmpty :: "directory \<Rightarrow> int res" where
  "isEmpty d =
    (if length d < NumDirEntries \<and> (\<forall>e \<in> set (drop 2 d). \<not> in_use e) then Inl OutOfBounds
     else Inr (if \<exists>e \<in> set (drop 2 (take NumDirEntries d)). in_use e then 0 else 1))"

definition isFull :: "directory \<Rightarrow> int res" where
  "isFull d =
    (if length d < NumDirEntries \<and> (\<forall>e \<in> set (drop 2 d). \<not> in_use e) then Inl OutOfBounds
     else Inr (if \<exists>e \<in> set (drop 2 (take NumDirEntries d)). in_use e then 0 else 1))"

section \<open>The table\<close>

text \<open>\<open>fresh\<close> is the table \<^verbatim>\<open>new\<close> gives.\<close>

definition Directory :: "directory \<Rightarrow> directory res" where
  "Directory fresh =
    (if length fresh < 2 then Inl OutOfBounds
     else Inr
       ((fresh ! 0)\<lparr>inUseAndIsDir := 3, entry_name := strcpy (entry_name (fresh ! 0)) [46]\<rparr> #
        (fresh ! 1)\<lparr>inUseAndIsDir := 3, entry_name := strcpy (entry_name (fresh ! 1)) [46, 46]\<rparr> #
        List.map (\<lambda>e. e\<lparr>inUseAndIsDir := 0\<rparr>) (drop 2 fresh)))"

fun FindIndex_from :: "nat \<Rightarrow> byte list \<Rightarrow> directory \<Rightarrow> int" where
  "FindIndex_from i name [] = - 1"
| "FindIndex_from i name (e # d) =
    (if in_use e \<and> strncmp_equal (entry_name e) name FileNameMaxLen then int i
     else FindIndex_from (Suc i) name d)"

definition FindIndex :: "byte list \<Rightarrow> directory \<Rightarrow> int" where
  "FindIndex name d = FindIndex_from 0 name d"

definition Find :: "byte list \<Rightarrow> directory \<Rightarrow> int" where
  "Find name d = (let i = FindIndex name d in if i \<noteq> - 1 then entry_sector (d ! nat i) else - 1)"

text \<open>The first free entry from the third on is taken.\<close>

fun take_entry :: "bool \<Rightarrow> byte list \<Rightarrow> int \<Rightarrow> directory \<Rightarrow> bool \<times> directory" where
  "take_entry dir name sector [] = (False, [])"
| "take_entry dir name sector (e # d) =
    (if \<not> in_use e
     then (True, (set_is_dir dir (set_in_use True e))
                   \<lparr>entry_name := strncpy (entry_name e) name FileNameMaxLen, entry_sector := sector\<rparr> # d)
     else let (ok, d) = take_entry dir name sector d in (ok, e # d))"

definition Add :: "byte list \<Rightarrow> int \<Rightarrow> directory \<Rightarrow> bool \<times> directory" where
  "Add name newSector d =
    (if FindIndex name d \<noteq> - 1 then (False, d)
     else let (ok, r) = take_entry False name newSector (drop 2 d) in (ok, take 2 d @ r))"

definition AddDirectory :: "byte list \<Rightarrow> int \<Rightarrow> directory \<Rightarrow> bool \<times> directory" where
  "AddDirectory name sector d =
    (let (ok, r) = take_entry True name sector (drop 2 d) in (ok, take 2 d @ r))"

definition Directory_Remove :: "byte list \<Rightarrow> directory \<Rightarrow> bool \<times> directory" where
  "Directory_Remove name d =
    (let i = FindIndex name d
     in if i = - 1 then (False, d) else (True, d[nat i := set_in_use False (d ! nat i)]))"

section \<open>The table in a file\<close>

definition entry_bytes :: "host \<Rightarrow> directory_entry \<Rightarrow> byte list" where
  "entry_bytes h e = entry_name e @ [inUseAndIsDir e, entry_pad e] @ word_bytes h (word_of_int (entry_sector e))"

definition entry_of_bytes :: "host \<Rightarrow> byte list \<Rightarrow> directory_entry" where
  "entry_of_bytes h bs =
    \<lparr>entry_name = take 10 bs, inUseAndIsDir = bs ! 10, entry_pad = bs ! 11,
     entry_sector = sint (load_word h ((!) bs) 12)\<rparr>"

definition table_bytes :: "host \<Rightarrow> directory \<Rightarrow> byte list" where
  "table_bytes h d = concat (List.map (entry_bytes h) d)"

definition table_of_bytes :: "host \<Rightarrow> nat \<Rightarrow> byte list \<Rightarrow> directory" where
  "table_of_bytes h n bs = List.map (\<lambda>i. entry_of_bytes h (take 16 (drop (16 * i) bs))) [0..<n]"

text \<open>\<^verbatim>\<open>FetchFrom\<close> overwrites the bytes of the table that the file has.\<close>

definition Directory_FetchFrom ::
  "utility \<Rightarrow> host \<Rightarrow> file_header \<Rightarrow> store \<Rightarrow> directory \<Rightarrow> directory res" where
  "Directory_FetchFrom u h file st d =
    and_then (ReadAt u h file (int (length d * sizeof_DirectoryEntry)) 0 0 st) (\<lambda>(_, data).
    Inr (table_of_bytes h (length d) (splice 0 data (table_bytes h d))))"

definition Directory_WriteBack ::
  "utility \<Rightarrow> host \<Rightarrow> file_header \<Rightarrow> (nat \<Rightarrow> byte) \<Rightarrow> directory \<Rightarrow> store \<Rightarrow> store res" where
  "Directory_WriteBack u h file fresh d st =
    and_then (WriteAt u h file fresh (table_bytes h d) (int (length d * sizeof_DirectoryEntry)) 0 0 st)
      (\<lambda>(_, st). Inr st)"

section \<open>Entries and bytes\<close>

definition entry_ok :: "directory_entry \<Rightarrow> bool" where
  "entry_ok e \<longleftrightarrow> length (entry_name e) = 10 \<and> c_range (entry_sector e)"

lemma length_entry_bytes: "entry_ok e \<Longrightarrow> length (entry_bytes h e) = 16"
  by (simp add: entry_bytes_def entry_ok_def)

lemma length_table_bytes: "\<forall>e \<in> set d. entry_ok e \<Longrightarrow> length (table_bytes h d) = length d * 16"
  by (induction d) (simp_all add: table_bytes_def length_entry_bytes)

lemma load_word_skip: "load_word h ((!) (xs @ ys)) (length xs) = load_word h ((!) ys) 0"
  by (simp add: load_word_def nth_append numeral_2_eq_2 numeral_3_eq_3)

lemma entry_of_entry_bytes:
  assumes "entry_ok e"
  shows "entry_of_bytes h (entry_bytes h e) = e"
proof -
  have "length (entry_name e @ [inUseAndIsDir e, entry_pad e]) = 12" using assms by (simp add: entry_ok_def)
  then have "load_word h ((!) (entry_bytes h e)) 12 = word_of_int (entry_sector e)"
    using load_word_skip [of h "entry_name e @ [inUseAndIsDir e, entry_pad e]" "word_bytes h (word_of_int (entry_sector e))"]
      load_word_bytes [of h "word_of_int (entry_sector e)" "[]"]
    by (simp add: entry_bytes_def)
  then show ?thesis
    using assms by (simp add: entry_of_bytes_def entry_ok_def sint_of_c_range)
      (simp add: entry_bytes_def nth_append)
qed

lemma table_of_table_bytes:
  "\<forall>e \<in> set d. entry_ok e \<Longrightarrow> table_of_bytes h (length d) (table_bytes h d @ xs) = d"
proof (induction d)
  case Nil
  then show ?case by (simp add: table_of_bytes_def)
next
  case (Cons e d)
  have "[0..<Suc (length d)] = 0 # List.map Suc [0..<length d]"
    by (simp add: upt_conv_Cons map_Suc_upt del: upt_Suc)
  moreover have "drop (16 * Suc i) (table_bytes h (e # d) @ xs) = drop (16 * i) (table_bytes h d @ xs)" for i
    using Cons.prems by (simp add: table_bytes_def length_entry_bytes)
  ultimately show ?case
    using Cons by (simp add: table_of_bytes_def comp_def table_bytes_def length_entry_bytes entry_of_entry_bytes
        del: upt_Suc)
qed

section \<open>The contract\<close>

text \<open>
  A table of names: a map from names, of which only the part \<open>key\<close> counts, to sectors. What the
  clients conclude is proved once, from the laws of the operations.
\<close>

locale name_table =
  fixes ok :: "'t \<Rightarrow> bool"
    and key :: "'n \<Rightarrow> 'n"
    and reserved :: "'n set"
    and secs :: "int set"
    and abs :: "'t \<Rightarrow> 'n \<Rightarrow> int option"
    and find :: "'n \<Rightarrow> 't \<Rightarrow> int"
    and add :: "'n \<Rightarrow> int \<Rightarrow> 't \<Rightarrow> bool \<times> 't"
    and remove :: "'n \<Rightarrow> 't \<Rightarrow> bool \<times> 't"
  assumes find_abs: "ok t \<Longrightarrow> find n t = (case abs t (key n) of None \<Rightarrow> - 1 | Some s \<Rightarrow> s)"
    and add_done: "ok t \<Longrightarrow> add n s t = (True, t') \<Longrightarrow> s \<in> secs \<Longrightarrow>
                     ok t' \<and> abs t (key n) = None \<and> abs t' = (abs t)(key n \<mapsto> s)"
    and add_refused: "add n s t = (False, t') \<Longrightarrow> t' = t"
    and remove_done: "ok t \<Longrightarrow> key n \<notin> reserved \<Longrightarrow> remove n t = (b, t') \<Longrightarrow>
                     ok t' \<and> b = (abs t (key n) \<noteq> None) \<and> abs t' = (abs t)(key n := None)"
begin

lemma find_added:
  assumes "ok t" and "add n s t = (True, t')" and "s \<in> secs"
  shows "find m t' = (if key m = key n then s else find m t)" and "find n t = - 1"
  using add_done [OF assms] find_abs [OF assms(1)] find_abs [of t'] by auto

lemma find_removed:
  assumes "ok t" and "key n \<notin> reserved" and "remove n t = (b, t')"
  shows "find m t' = (if key m = key n then - 1 else find m t)"
  using remove_done [OF assms] find_abs [OF assms(1)] find_abs [of t'] by auto

lemma remove_added:
  assumes "ok t" and "add n s t = (True, t')" and "s \<in> secs" and "key n \<notin> reserved" and "remove n t' = (b, t'')"
  shows "b \<and> abs t'' = abs t"
  using add_done [OF assms(1-3)] remove_done [OF _ assms(4,5)] by (auto simp: fun_upd_idem_iff)

end

section \<open>The directory keeps the contract\<close>

definition name_key :: "byte list \<Rightarrow> byte list" where
  "name_key n = take FileNameMaxLen (cstring n)"

definition directory_map :: "directory \<Rightarrow> byte list \<Rightarrow> int option" where
  "directory_map d = map_of (List.map (\<lambda>e. (name_key (entry_name e), entry_sector e)) (filter in_use d))"

text \<open>
  A well-formed directory: entries of the right form, the two entries for itself and its parent in
  use, and no name in use twice.
\<close>

definition directory_ok :: "directory \<Rightarrow> bool" where
  "directory_ok d \<longleftrightarrow> 2 \<le> length d \<and> (\<forall>e \<in> set d. entry_ok e) \<and>
     in_use (d ! 0) \<and> name_key (entry_name (d ! 0)) = [46] \<and>
     in_use (d ! 1) \<and> name_key (entry_name (d ! 1)) = [46, 46] \<and>
     distinct (List.map (\<lambda>e. name_key (entry_name e)) (filter in_use d)) \<and>
     (\<forall>e \<in> set d. in_use e \<longrightarrow> 0 \<le> entry_sector e)"

lemma in_use_bit: "in_use e \<longleftrightarrow> bit (inUseAndIsDir e) 0"
  using and_exp_iff_bit [of "inUseAndIsDir e" 0] by (simp add: in_use_def)

lemma is_dir_bit: "is_dir e \<longleftrightarrow> bit (inUseAndIsDir e) 1"
proof -
  have "bit (drop_bit 1 (inUseAndIsDir e AND 2)) 0 \<longleftrightarrow> bit (inUseAndIsDir e) 1"
    by (simp add: bit_simps)
  moreover have "drop_bit 1 (inUseAndIsDir e AND 2) = 0" if "\<not> bit (inUseAndIsDir e) 1"
  proof -
    have "inUseAndIsDir e AND 2 ^ 1 = 0" using that and_exp_iff_bit [of "inUseAndIsDir e" 1] by blast
    then show ?thesis by simp
  qed
  ultimately show ?thesis by (auto simp: is_dir_def)
qed

lemma in_use_simps [simp]:
  "in_use (set_in_use v e) = v" "in_use (set_is_dir v e) = in_use e"
  "in_use (e\<lparr>entry_name := n\<rparr>) = in_use e" "in_use (e\<lparr>entry_sector := s\<rparr>) = in_use e"
  "is_dir (set_is_dir v e) = v" "is_dir (set_in_use v e) = is_dir e"
  "is_dir (e\<lparr>entry_name := n\<rparr>) = is_dir e" "is_dir (e\<lparr>entry_sector := s\<rparr>) = is_dir e"
  "entry_name (set_in_use v e) = entry_name e" "entry_sector (set_in_use v e) = entry_sector e"
  "entry_name (set_is_dir v e) = entry_name e" "entry_sector (set_is_dir v e) = entry_sector e"
  by (simp_all add: in_use_bit is_dir_bit set_in_use_def set_is_dir_def bit_simps)

lemma strncmp_key: "strncmp_equal a b FileNameMaxLen \<longleftrightarrow> name_key a = name_key b"
  by (simp add: strncmp_equal_def name_key_def)

lemma cstring_nonzero: "c \<in> set (cstring buf) \<Longrightarrow> c \<noteq> 0"
  by (auto simp: cstring_def dest: set_takeWhileD)

lemma length_strncpy: "length dst = 10 \<Longrightarrow> length (strncpy dst src FileNameMaxLen) = 10"
  by (simp add: strncpy_def Let_def FileNameMaxLen_def)

text \<open>A name copied with \<^verbatim>\<open>strncpy\<close> compares equal to the original, also when it fills all 9 characters.\<close>

lemma name_key_strncpy:
  assumes "length dst = 10"
  shows "name_key (strncpy dst src FileNameMaxLen) = name_key src"
proof -
  define s where "s = take 9 (cstring src)"
  have "c \<noteq> 0" if "c \<in> set s" for c
    using that cstring_nonzero unfolding s_def by (blast dest: in_set_takeD)
  then have w: "cstring (s @ r) = s @ cstring r" for r
    unfolding cstring_def by (rule takeWhile_append2)
  have len: "length s \<le> 9" by (simp add: s_def)
  have copy: "strncpy dst src FileNameMaxLen = s @ replicate (9 - length s) 0 @ drop 9 dst"
    by (simp add: strncpy_def Let_def FileNameMaxLen_def s_def)
  have key: "name_key src = s" by (simp add: name_key_def FileNameMaxLen_def s_def)
  show ?thesis
  proof (cases "length s = 9")
    case True
    then show ?thesis unfolding copy key by (simp add: name_key_def FileNameMaxLen_def w)
  next
    case False
    then obtain k where "9 - length s = Suc k" using len by (cases "9 - length s") auto
    then have "cstring (replicate (9 - length s) 0 @ drop 9 dst) = []" by (simp add: cstring_def)
    then show ?thesis
      unfolding copy key using len by (simp add: name_key_def FileNameMaxLen_def w)
  qed
qed

lemma FindIndex_from_none: "FindIndex_from i n d = - 1 \<Longrightarrow> directory_map d (name_key n) = None"
  by (induction i n d rule: FindIndex_from.induct)
    (auto simp: directory_map_def strncmp_key split: if_splits)

lemma FindIndex_from_some:
  "FindIndex_from i n d \<noteq> - 1 \<Longrightarrow> \<exists>a e b. d = a @ e # b \<and> FindIndex_from i n d = int (i + length a) \<and> in_use e \<and>
     name_key (entry_name e) = name_key n \<and> directory_map d (name_key n) = Some (entry_sector e)"
proof (induction i n d rule: FindIndex_from.induct)
  case (2 i n e d)
  show ?case
  proof (cases "in_use e \<and> strncmp_equal (entry_name e) n FileNameMaxLen")
    case True
    then show ?thesis
      by (intro exI [of _ "[]"] exI [of _ e] exI [of _ d]) (simp add: directory_map_def strncmp_key)
  next
    case False
    then obtain a e' b where "d = a @ e' # b" "FindIndex_from (Suc i) n d = int (Suc i + length a)" "in_use e'"
      "name_key (entry_name e') = name_key n" "directory_map d (name_key n) = Some (entry_sector e')"
      using 2 by auto
    with False show ?thesis
      by (intro exI [of _ "e # a"] exI [of _ e'] exI [of _ b]) (auto simp: directory_map_def strncmp_key)
  qed
qed simp

lemma FindIndex_cases:
  obtains "FindIndex n d = - 1" and "directory_map d (name_key n) = None"
  | a e b where "d = a @ e # b" and "FindIndex n d = int (length a)" and "in_use e"
      and "name_key (entry_name e) = name_key n" and "directory_map d (name_key n) = Some (entry_sector e)"
  using FindIndex_from_none [of 0 n d] FindIndex_from_some [of 0 n d] unfolding FindIndex_def
  by (cases "FindIndex_from 0 n d = - 1") auto

lemma Find_map:
  "Find n d = (case directory_map d (name_key n) of None \<Rightarrow> - 1 | Some s \<Rightarrow> s)"
  by (cases rule: FindIndex_cases [of n d]) (auto simp: Find_def Let_def)

lemma take_entry_done:
  "take_entry v n s d = (True, d') \<Longrightarrow> \<exists>a e b. d = a @ e # b \<and> \<not> in_use e \<and>
    d' = a @ (set_is_dir v (set_in_use True e))
      \<lparr>entry_name := strncpy (entry_name e) n FileNameMaxLen, entry_sector := s\<rparr> # b"
proof (induction v n s d arbitrary: d' rule: take_entry.induct)
  case (2 v n s e d)
  show ?case
  proof (cases "in_use e")
    case False
    with 2 show ?thesis by (intro exI [of _ "[]"] exI [of _ e] exI [of _ d]) simp
  next
    case True
    then obtain r where "take_entry v n s d = (True, r)" "d' = e # r"
      using 2 by (auto simp: Let_def split: prod.splits)
    with 2 True obtain a x b where "d = a @ x # b" "\<not> in_use x" "r = a @ (set_is_dir v (set_in_use True x))
      \<lparr>entry_name := strncpy (entry_name x) n FileNameMaxLen, entry_sector := s\<rparr> # b" by blast
    with \<open>d' = e # r\<close> show ?thesis
      by (intro exI [of _ "e # a"] exI [of _ x] exI [of _ b]) simp
  qed
qed simp

lemma take_entry_refused: "take_entry v n s d = (False, d') \<Longrightarrow> d' = d"
  by (induction v n s d arbitrary: d' rule: take_entry.induct) (auto simp: Let_def split: if_splits prod.splits)

text \<open>An entry in the middle of a table whose keys are distinct.\<close>

lemma map_of_middle:
  assumes "k \<notin> fst ` set xs"
  shows "map_of (xs @ (k, v) # ys) = (map_of (xs @ ys))(k \<mapsto> v)"
proof -
  have "map_of xs k = None" using assms by (simp add: map_of_eq_None_iff)
  then show ?thesis by (auto simp: map_add_def fun_eq_iff split: option.split)
qed

lemma directory_map_middle:
  assumes "in_use e" and "name_key (entry_name e) \<notin> set (List.map (\<lambda>e. name_key (entry_name e)) (filter in_use a))"
  shows "directory_map (a @ e # b) = (directory_map (a @ b))(name_key (entry_name e) \<mapsto> entry_sector e)"
proof -
  let ?f = "\<lambda>e. (name_key (entry_name e), entry_sector e)"
  have "name_key (entry_name e) \<notin> fst ` set (List.map ?f (filter in_use a))"
    using assms(2) by (auto simp: image_image)
  from map_of_middle [OF this, of "entry_sector e" "List.map ?f (filter in_use b)"] show ?thesis
    using assms(1) by (simp add: directory_map_def)
qed

lemma directory_map_free: "\<not> in_use e \<Longrightarrow> directory_map (a @ e # b) = directory_map (a @ b)"
  by (simp add: directory_map_def)

lemma directory_map_none_iff:
  "directory_map d k = None \<longleftrightarrow> k \<notin> set (List.map (\<lambda>e. name_key (entry_name e)) (filter in_use d))"
  by (force simp: directory_map_def map_of_eq_None_iff)

text \<open>What \<open>Add\<close> and \<open>AddDirectory\<close> have in common.\<close>

lemma entry_added:
  assumes ok: "directory_ok d" and run: "take_entry v n s (drop 2 d) = (True, r)" and s: "0 \<le> s" "c_range s"
    and new: "directory_map d (name_key n) = None"
  shows "directory_ok (take 2 d @ r)" and "directory_map (take 2 d @ r) = (directory_map d)(name_key n \<mapsto> s)"
    and "length (take 2 d @ r) = length d" and "take 2 (take 2 d @ r) = take 2 d"
proof -
  obtain a e b where d: "drop 2 d = a @ e # b" and e: "\<not> in_use e" and
    r: "r = a @ (set_is_dir v (set_in_use True e))
      \<lparr>entry_name := strncpy (entry_name e) n FileNameMaxLen, entry_sector := s\<rparr> # b"
    using take_entry_done [OF run] by blast
  define e' where "e' = (set_is_dir v (set_in_use True e))
      \<lparr>entry_name := strncpy (entry_name e) n FileNameMaxLen, entry_sector := s\<rparr>"
  define A where "A = take 2 d @ a"
  have split: "d = A @ e # b" using d append_take_drop_id [of 2 d] by (simp add: A_def)
  have new_d: "take 2 d @ r = A @ e' # b" by (simp add: r e'_def A_def)
  have len2: "2 \<le> length d" using ok by (simp add: directory_ok_def)
  have e_ok: "length (entry_name e) = 10"
    using ok split by (metis directory_ok_def entry_ok_def in_set_conv_decomp)
  have e': "in_use e'" "name_key (entry_name e') = name_key n" "entry_sector e' = s" "entry_ok e'"
    using name_key_strncpy [OF e_ok] length_strncpy [OF e_ok] s(2) by (simp_all add: e'_def entry_ok_def)
  have fresh: "name_key n \<notin> set (List.map (\<lambda>e. name_key (entry_name e)) (filter in_use (A @ b)))"
    using new directory_map_none_iff [of d] e unfolding split by simp
  have "directory_map (A @ e' # b) = (directory_map (A @ b))(name_key n \<mapsto> s)"
    using directory_map_middle [OF e'(1), of A b] fresh by (simp add: e')
  also have "directory_map (A @ b) = directory_map d"
    using directory_map_free [OF e, of A b] split by simp
  finally show "directory_map (take 2 d @ r) = (directory_map d)(name_key n \<mapsto> s)" unfolding new_d .
  show "length (take 2 d @ r) = length d" using arg_cong [OF split, of length] unfolding new_d by simp
  show t2: "take 2 (take 2 d @ r) = take 2 d" using len2 by simp
  have heads: "(take 2 d @ r) ! 0 = d ! 0" "(take 2 d @ r) ! 1 = d ! 1"
    using len2 by (simp_all add: nth_append)
  have set_eq: "set (take 2 d @ r) \<subseteq> insert e' (set d)"
    using arg_cong [OF split, of set] unfolding new_d by auto
  have "distinct (List.map (\<lambda>e. name_key (entry_name e)) (filter in_use (A @ e' # b)))"
  proof -
    have "distinct (List.map (\<lambda>e. name_key (entry_name e)) (filter in_use (A @ b)))"
      using ok split e unfolding directory_ok_def by (metis filter.simps(2) filter_append)
    then show ?thesis using fresh e'(1,2) by auto
  qed
  then show "directory_ok (take 2 d @ r)"
    using ok heads set_eq e' s(1) \<open>length (take 2 d @ r) = length d\<close> unfolding directory_ok_def new_d by auto
qed

lemma Add_done:
  assumes "directory_ok d" and "Add n s d = (True, d')" and "s \<in> disk_sectors"
  shows "directory_ok d' \<and> directory_map d (name_key n) = None \<and> directory_map d' = (directory_map d)(name_key n \<mapsto> s)"
    and "length d' = length d" and "take 2 d' = take 2 d"
proof -
  have "FindIndex n d = - 1" using assms(2) by (auto simp: Add_def split: if_splits)
  then have none: "directory_map d (name_key n) = None" by (cases rule: FindIndex_cases [of n d]) auto
  obtain r where r: "take_entry False n s (drop 2 d) = (True, r)" "d' = take 2 d @ r"
    using assms(2) by (auto simp: Add_def Let_def split: if_splits prod.splits)
  have s: "0 \<le> s" "c_range s" using assms(3) c_range_sector by auto
  note e = entry_added [OF assms(1) r(1) s none]
  show "directory_ok d' \<and> directory_map d (name_key n) = None \<and> directory_map d' = (directory_map d)(name_key n \<mapsto> s)"
    "length d' = length d" "take 2 d' = take 2 d"
    using e none unfolding r(2) by simp_all
qed

lemma Add_refused: "Add n s d = (False, d') \<Longrightarrow> d' = d"
  by (auto simp: Add_def Let_def split: if_splits prod.splits dest!: take_entry_refused)

lemma AddDirectory_done:
  assumes "directory_ok d" and "AddDirectory n s d = (True, d')" and "s \<in> disk_sectors"
    and "directory_map d (name_key n) = None"
  shows "directory_ok d'" and "directory_map d' = (directory_map d)(name_key n \<mapsto> s)"
    and "length d' = length d" and "take 2 d' = take 2 d"
proof -
  obtain r where r: "take_entry True n s (drop 2 d) = (True, r)" "d' = take 2 d @ r"
    using assms(2) by (auto simp: AddDirectory_def Let_def split: prod.splits)
  have s: "0 \<le> s" "c_range s" using assms(3) c_range_sector by auto
  note e = entry_added [OF assms(1) r(1) s assms(4)]
  show "directory_ok d'" "directory_map d' = (directory_map d)(name_key n \<mapsto> s)" "length d' = length d"
    "take 2 d' = take 2 d"
    using e unfolding r(2) by simp_all
qed

text \<open>Taking an entry in the middle out of use.\<close>

lemma entry_removed:
  assumes ok: "directory_ok d" and d: "d = a @ e # b" and e: "in_use e"
  shows "directory_map (a @ set_in_use False e # b) = (directory_map d)(name_key (entry_name e) := None)"
    and "2 \<le> length a \<Longrightarrow> directory_ok (a @ set_in_use False e # b)"
proof -
  have fresh: "name_key (entry_name e) \<notin> set (List.map (\<lambda>e. name_key (entry_name e)) (filter in_use (a @ b)))"
    and dist: "distinct (List.map (\<lambda>e. name_key (entry_name e)) (filter in_use (a @ b)))"
    using ok e unfolding d directory_ok_def by auto
  have "directory_map d = (directory_map (a @ b))(name_key (entry_name e) \<mapsto> entry_sector e)"
  proof -
    have "name_key (entry_name e) \<notin> set (List.map (\<lambda>e. name_key (entry_name e)) (filter in_use a))"
      using fresh by auto
    from directory_map_middle [OF e this, of b] show ?thesis by (simp only: d)
  qed
  moreover have "directory_map (a @ b) (name_key (entry_name e)) = None"
    using fresh directory_map_none_iff [of "a @ b"] by blast
  ultimately show "directory_map (a @ set_in_use False e # b) = (directory_map d)(name_key (entry_name e) := None)"
    using directory_map_free [of "set_in_use False e" a b] by (simp add: fun_upd_idem)
  assume "2 \<le> length a"
  then have "(a @ set_in_use False e # b) ! 0 = d ! 0" "(a @ set_in_use False e # b) ! 1 = d ! 1"
    unfolding d by (cases a; cases "tl a"; simp add: nth_append)+
  moreover have "entry_ok (set_in_use False e)" using ok unfolding d directory_ok_def by (simp add: entry_ok_def)
  ultimately show "directory_ok (a @ set_in_use False e # b)"
    using ok dist unfolding directory_ok_def d by auto
qed

lemma Directory_Remove_done:
  assumes ok: "directory_ok d" and n: "name_key n \<notin> {[46], [46, 46]}" and run: "Directory_Remove n d = (b, d')"
  shows "directory_ok d' \<and> b = (directory_map d (name_key n) \<noteq> None) \<and>
    directory_map d' = (directory_map d)(name_key n := None)"
    and "length d' = length d" and "take 2 d' = take 2 d"
proof -
  have "(directory_ok d' \<and> b = (directory_map d (name_key n) \<noteq> None) \<and>
    directory_map d' = (directory_map d)(name_key n := None)) \<and> length d' = length d \<and> take 2 d' = take 2 d"
  proof (cases rule: FindIndex_cases [of n d])
    case 1
    then show ?thesis using run ok by (auto simp: Directory_Remove_def fun_upd_idem_iff)
  next
    case (2 a e c)
    have d': "d' = a @ set_in_use False e # c" "b"
      using run 2(1,2) by (auto simp: Directory_Remove_def)
    have "length a \<noteq> 0" "length a \<noteq> 1"
      using n ok 2(4) unfolding directory_ok_def 2(1) by (auto simp: nth_append)
    then have len: "2 \<le> length a" by linarith
    show ?thesis
      using entry_removed [OF ok 2(1,3)] len 2(4,5) d' by (auto simp: 2(1))
  qed
  then show "directory_ok d' \<and> b = (directory_map d (name_key n) \<noteq> None) \<and>
    directory_map d' = (directory_map d)(name_key n := None)" "length d' = length d" "take 2 d' = take 2 d"
    by blast+
qed

interpretation directory: name_table directory_ok name_key "{[46], [46, 46]}" disk_sectors directory_map Find Add
  Directory_Remove
  by unfold_locales (rule Find_map, erule (2) Add_done(1), erule Add_refused, erule (2) Directory_Remove_done(1))

section \<open>Directories on disk\<close>

text \<open>A directory written to a file that has room for it is read back as it was.\<close>

lemma directory_roundtrip:
  assumes u: "utility_ok u" and f: "direct_ok hdr" "whole_sectors st" and d: "\<forall>e \<in> set d. entry_ok e"
    and size: "int (length d * 16) \<le> numBytes hdr"
  shows "\<exists>st'. Directory_WriteBack u h hdr fresh d st = Inr st' \<and> whole_sectors st' \<and>
    (\<forall>x. x \<notin> set (direct_sectors hdr) \<longrightarrow> st' x = st x) \<and>
    (\<forall>d0. length d0 = length d \<longrightarrow> (\<forall>e \<in> set d0. entry_ok e) \<longrightarrow> Directory_FetchFrom u h hdr st' d0 = Inr d)"
proof -
  have wf: "direct_ok hdr \<and> whole_sectors st" using f by blast
  have "numSectors hdr \<le> 30" "numSectors hdr = (numBytes hdr + 127) div 128"
    using f(1) by (simp_all add: direct_ok_def sized_header_def header_counts)
  then have small: "numBytes hdr \<le> 3840" by linarith
  let ?n = "int (length d * 16)" and ?b = "table_bytes h d"
  have len: "length ?b = length d * 16" by (rule length_table_bytes [OF d])
  obtain st' where run: "WriteAt u h hdr fresh ?b ?n 0 0 st = Inr (int (min (nat ?n) (nat (numBytes hdr) - nat 0)), st')"
    "direct_ok hdr \<and> whole_sectors st'"
    "direct.content hdr st' = splice (nat 0) (take (min (nat ?n) (nat (numBytes hdr) - nat 0)) ?b) (direct.content hdr st)"
    "\<forall>x. x \<notin> set (direct_sectors hdr) \<longrightarrow> st' x = st x"
    using direct.WriteAt_splice [OF wf u, of 0 ?n ?b h fresh] len small size by auto
  have min: "min (nat ?n) (nat (numBytes hdr) - nat 0) = length d * 16" using size by simp
  have content: "direct.content hdr st' = splice 0 ?b (direct.content hdr st)"
    using run(3) len unfolding min by simp
  have "Directory_FetchFrom u h hdr st' d0 = Inr d"
    if d0: "length d0 = length d" "\<forall>e \<in> set d0. entry_ok e" for d0
  proof -
    have "take (length d * 16) (direct.content hdr st') = ?b"
      unfolding content using len by (simp add: splice_def)
    then have "ReadAt u h hdr ?n 0 0 st' = Inr (?n, ?b)"
      using direct.ReadAt_slice [OF run(2) u, of 0 ?n h] size small len by (simp add: nat_mult_distrib)
    moreover have "splice 0 ?b (table_bytes h d0) = ?b"
      using len length_table_bytes [OF d0(2), of h] d0(1) by (simp add: splice_def)
    ultimately show ?thesis
      using table_of_table_bytes [OF d, of h "[]"] d0(1)
      by (simp add: Directory_FetchFrom_def sizeof_DirectoryEntry_def)
  qed
  then show ?thesis
    using run by (intro exI [of _ st']) (auto simp: Directory_WriteBack_def sizeof_DirectoryEntry_def)
qed

end
