(* ===== verification/File_System.thy ===== *)
theory File_System
  imports Fs_Directory
begin

text \<open>
  The file system (\<^verbatim>\<open>filesys/filesys.cc\<close>): files and directories by name, over the free map and the
  directories kept in files. How \<^verbatim>\<open>BitMap\<close> reads and writes itself in a file is the kernel's;
  \<open>map_file_ok\<close> states it. All that \<^verbatim>\<open>new\<close> leaves uninitialised is in one record of parameters.
\<close>

section \<open>Parameters and state\<close>

record 'b map_file_ops =
  MapFetchFrom :: "openfile \<Rightarrow> store \<Rightarrow> 'b \<Rightarrow> 'b res"
  MapWriteBack :: "openfile \<Rightarrow> 'b \<Rightarrow> store \<Rightarrow> store res"

record 'b fs_env = "'b map_file_ops" +
  util :: utility
  fs_host :: host
  maps :: "'b bitmap_ops"
  fresh_header :: "nat \<Rightarrow> file_header"
  fresh_table :: directory
  fresh_buffer :: "nat \<Rightarrow> byte"

definition FreeMapSector :: int where "FreeMapSector = 0"
definition RootSector :: int where "RootSector = 1"
definition FreeMapFileSize :: int where "FreeMapFileSize = NumSectors div 8"
definition DirectoryFileSize :: int where
  "DirectoryFileSize = int (sizeof_DirectoryEntry * NumDirEntries)"

record file_system =
  freeMapFile :: openfile
  directoryFile :: openfile
  currentDir :: directory
  disk_store :: store

section \<open>Construction\<close>

definition set_sector :: "nat \<Rightarrow> int \<Rightarrow> directory \<Rightarrow> directory" where
  "set_sector i s d = d[i := (d ! i)\<lparr>entry_sector := s\<rparr>]"

definition FileSystem :: "'b fs_env \<Rightarrow> bool \<Rightarrow> store \<Rightarrow> file_system res" where
  "FileSystem env format st =
    (if format then
       (let freeMap = NewMap (maps env) NumSectors
        in and_then (Directory (fresh_table env)) (\<lambda>dir.
           let dir = set_sector 1 1 (set_sector 0 1 dir)
           in and_then (Mark (maps env) FreeMapSector freeMap) (\<lambda>freeMap.
           and_then (Mark (maps env) RootSector freeMap) (\<lambda>freeMap.
           and_then (AllocateDirectory (util env) (maps env) FreeMapFileSize (fresh_header env 0) freeMap)
             (\<lambda>(ok, mapHdr, freeMap). and_then (assert_that ok) (\<lambda>_.
           and_then (AllocateDirectory (util env) (maps env) DirectoryFileSize (fresh_header env 1) freeMap)
             (\<lambda>(ok, dirHdr, freeMap). and_then (assert_that ok) (\<lambda>_.
           and_then (WriteBack (fs_host env) FreeMapSector mapHdr st) (\<lambda>st.
           and_then (WriteBack (fs_host env) RootSector dirHdr st) (\<lambda>st.
           and_then (OpenFile (fs_host env) FreeMapSector st) (\<lambda>mapFile.
           and_then (OpenFile (fs_host env) RootSector st) (\<lambda>dirFile.
           and_then (MapWriteBack env mapFile freeMap st) (\<lambda>st.
           and_then (Directory_WriteBack (util env) (fs_host env) (file_hdr dirFile) (fresh_buffer env) dir st) (\<lambda>st.
           Inr \<lparr>freeMapFile = mapFile, directoryFile = dirFile, currentDir = dir, disk_store = st\<rparr>))))))))))))))
     else
       and_then (OpenFile (fs_host env) FreeMapSector st) (\<lambda>mapFile.
       and_then (OpenFile (fs_host env) RootSector st) (\<lambda>dirFile.
       and_then (Directory (fresh_table env)) (\<lambda>dir.
       and_then (Directory_FetchFrom (util env) (fs_host env) (file_hdr dirFile) st dir) (\<lambda>dir.
       Inr \<lparr>freeMapFile = mapFile, directoryFile = dirFile, currentDir = dir, disk_store = st\<rparr>)))))"

section \<open>Files\<close>

text \<open>\<open>new BitMap(NumSectors)\<close> filled from its file.\<close>

definition fetch_map :: "'b fs_env \<Rightarrow> file_system \<Rightarrow> 'b res" where
  "fetch_map env fs =
    MapFetchFrom env (freeMapFile fs) (disk_store fs) (NewMap (maps env) NumSectors)"

text \<open>The current directory written to its file.\<close>

definition write_current :: "'b fs_env \<Rightarrow> directory \<Rightarrow> store \<Rightarrow> store res" where
  "write_current env dir st =
    and_then (getSector dir) (\<lambda>cur.
    and_then (OpenFile (fs_host env) cur st) (\<lambda>f.
    Directory_WriteBack (util env) (fs_host env) (file_hdr f) (fresh_buffer env) dir st))"

definition Create :: "'b fs_env \<Rightarrow> byte list \<Rightarrow> int \<Rightarrow> file_system \<Rightarrow> (bool \<times> file_system) res" where
  "Create env name initialSize fs =
    (if Find name (currentDir fs) \<noteq> - 1 then Inr (False, fs)
     else
       and_then (fetch_map env fs) (\<lambda>freeMap.
       let (sector, freeMap) = FindBit (maps env) freeMap
       in if sector = - 1 then Inr (False, fs)
          else
            (let (ok, dir) = Add name sector (currentDir fs);
                 fs = fs\<lparr>currentDir := dir\<rparr>
             in if \<not> ok then Inr (False, fs)
                else
                  and_then (Allocate (util env) (fs_host env) (maps env) (\<lambda>j. fresh_header env (Suc j)) initialSize
                    (fresh_header env 0) freeMap (disk_store fs)) (\<lambda>(ok, hdr, freeMap, st).
                  if \<not> ok then Inr (False, fs\<lparr>disk_store := st\<rparr>)
                  else
                    and_then (WriteBack (fs_host env) sector hdr st) (\<lambda>st.
                    and_then (write_current env dir st) (\<lambda>st.
                    and_then (MapWriteBack env (freeMapFile fs) freeMap st) (\<lambda>st.
                    Inr (True, fs\<lparr>disk_store := st\<rparr>))))))))"

text \<open>The directory read from its file.\<close>

definition read_current :: "'b fs_env \<Rightarrow> file_system \<Rightarrow> directory res" where
  "read_current env fs =
    and_then (Directory (fresh_table env)) (\<lambda>dir.
    and_then (getSector (currentDir fs)) (\<lambda>cur.
    and_then (OpenFile (fs_host env) cur (disk_store fs)) (\<lambda>f.
    Directory_FetchFrom (util env) (fs_host env) (file_hdr f) (disk_store fs) dir)))"

definition Open :: "'b fs_env \<Rightarrow> byte list \<Rightarrow> file_system \<Rightarrow> openfile option res" where
  "Open env name fs =
    and_then (read_current env fs) (\<lambda>dir.
    let sector = Find name dir
    in if 0 \<le> sector
       then and_then (OpenFile (fs_host env) sector (disk_store fs)) (\<lambda>f. Inr (Some f))
       else Inr None)"

definition Remove :: "'b fs_env \<Rightarrow> byte list \<Rightarrow> file_system \<Rightarrow> (bool \<times> file_system) res" where
  "Remove env name fs =
    (let sector = Find name (currentDir fs)
     in if sector = - 1 then Inr (False, fs)
        else
          and_then (FetchFrom (fs_host env) sector (disk_store fs)) (\<lambda>fileHdr.
          and_then (fetch_map env fs) (\<lambda>freeMap.
          and_then (Deallocate (util env) (fs_host env) (maps env) fileHdr (disk_store fs) freeMap) (\<lambda>freeMap.
          and_then (Clear (maps env) sector freeMap) (\<lambda>freeMap.
          let dir = snd (Directory_Remove name (currentDir fs))
          in and_then (getSector dir) (\<lambda>cur.
             and_then (OpenFile (fs_host env) cur (disk_store fs)) (\<lambda>f.
             and_then (MapWriteBack env (freeMapFile fs) freeMap (disk_store fs)) (\<lambda>st.
             and_then (Directory_WriteBack (util env) (fs_host env) (file_hdr f) (fresh_buffer env) dir st) (\<lambda>st.
             Inr (True, fs\<lparr>currentDir := dir, disk_store := st\<rparr>))))))))))"

section \<open>Directories\<close>

definition CreateDirectory :: "'b fs_env \<Rightarrow> byte list \<Rightarrow> file_system \<Rightarrow> (int \<times> file_system) res" where
  "CreateDirectory env name fs =
    (if Find name (currentDir fs) \<noteq> - 1 then Inr (- 2, fs)
     else
       and_then (fetch_map env fs) (\<lambda>freeMap.
       let (sector, freeMap) = FindBit (maps env) freeMap
       in if sector = - 1 then Inr (- 1, fs)
          else
            (let (ok, dir) = AddDirectory name sector (currentDir fs);
                 fs = fs\<lparr>currentDir := dir\<rparr>
             in if \<not> ok then Inr (- 1, fs)
                else
                  and_then (AllocateDirectory (util env) (maps env) DirectoryFileSize (fresh_header env 0) freeMap)
                    (\<lambda>(ok, hdr, freeMap).
                  if \<not> ok then Inr (- 1, fs)
                  else
                    and_then (WriteBack (fs_host env) sector hdr (disk_store fs)) (\<lambda>st.
                    and_then (write_current env dir st) (\<lambda>st.
                    and_then (Directory (fresh_table env)) (\<lambda>newDir.
                    and_then (getSector dir) (\<lambda>cur.
                    let newDir = set_sector 1 cur (set_sector 0 sector newDir)
                    in and_then (OpenFile (fs_host env) sector st) (\<lambda>f.
                       and_then (Directory_WriteBack (util env) (fs_host env) (file_hdr f) (fresh_buffer env) newDir st) (\<lambda>st.
                       and_then (MapWriteBack env (freeMapFile fs) freeMap st) (\<lambda>st.
                       Inr (0, fs\<lparr>disk_store := st\<rparr>))))))))))))"

text \<open>The test for children is made on the current directory.\<close>

definition RemoveDirectory :: "'b fs_env \<Rightarrow> byte list \<Rightarrow> file_system \<Rightarrow> (int \<times> file_system) res" where
  "RemoveDirectory env name fs =
    (let index = FindIndex name (currentDir fs)
     in if index = - 1 then Inr (- 2, fs)
        else
          and_then (getTableAt index (currentDir fs)) (\<lambda>e.
          let sector = entry_sector e
          in and_then (FetchFrom (fs_host env) sector (disk_store fs)) (\<lambda>dirHdr.
             and_then (read_current env fs) (\<lambda>directory.
             and_then (isEmpty directory) (\<lambda>empty.
             if empty = 0 then Inr (- 1, fs)
             else
               and_then (fetch_map env fs) (\<lambda>freeMap.
               and_then (DeallocateDirectory (maps env) dirHdr freeMap) (\<lambda>freeMap.
               and_then (Clear (maps env) sector freeMap) (\<lambda>freeMap.
               and_then (getSector (currentDir fs)) (\<lambda>cur.
               and_then (OpenFile (fs_host env) cur (disk_store fs)) (\<lambda>f.
               and_then (setInUseOfIndex index False (currentDir fs)) (\<lambda>dir.
               and_then (MapWriteBack env (freeMapFile fs) freeMap (disk_store fs)) (\<lambda>st.
               and_then (Directory_WriteBack (util env) (fs_host env) (file_hdr f) (fresh_buffer env) dir st) (\<lambda>st.
               Inr (0, fs\<lparr>currentDir := dir, disk_store := st\<rparr>))))))))))))))"

definition ChangeDirectory :: "'b fs_env \<Rightarrow> byte list \<Rightarrow> file_system \<Rightarrow> (int \<times> file_system) res" where
  "ChangeDirectory env name fs =
    (let index = FindIndex name (currentDir fs)
     in if index = - 1 then Inr (- 1, fs)
        else
          and_then (getTableAt index (currentDir fs)) (\<lambda>e.
          and_then (OpenFile (fs_host env) (entry_sector e) (disk_store fs)) (\<lambda>f.
          and_then (Directory (fresh_table env)) (\<lambda>nextDir.
          and_then (Directory_FetchFrom (util env) (fs_host env) (file_hdr f) (disk_store fs) nextDir) (\<lambda>nextDir.
          Inr (0, fs\<lparr>currentDir := nextDir\<rparr>))))))"

end
