(* ===== verification/Fs_Volume.thy ===== *)
theory Fs_Volume
  imports File_System
begin

text \<open>
  A consistent volume: the free map and the current directory are stored in their files, whose
  sectors do not overlap and are marked as used. The operations of the file system keep it so.
\<close>

section \<open>What is stored\<close>

text \<open>The map with the used sectors \<open>marked\<close> is in the sectors of its file.\<close>

definition map_stored :: "'b fs_env \<Rightarrow> ('b \<Rightarrow> int set) \<Rightarrow> openfile \<Rightarrow> store \<Rightarrow> int set \<Rightarrow> bool" where
  "map_stored env bits f st marked \<longleftrightarrow>
     (\<forall>st'. (\<forall>x \<in> set (direct_sectors (file_hdr f)). st' x = st x) \<longrightarrow>
        (\<forall>b0. \<exists>b. MapFetchFrom env f st' b0 = Inr b \<and> bits b = marked))"

definition map_file_ok :: "'b fs_env \<Rightarrow> ('b \<Rightarrow> int set) \<Rightarrow> bool" where
  "map_file_ok env bits \<longleftrightarrow> (\<forall>f b st. direct_ok (file_hdr f) \<longrightarrow> numBytes (file_hdr f) = FreeMapFileSize \<longrightarrow>
     whole_sectors st \<longrightarrow>
     (\<exists>st'. MapWriteBack env f b st = Inr st' \<and> whole_sectors st' \<and>
        (\<forall>x. x \<notin> set (direct_sectors (file_hdr f)) \<longrightarrow> st' x = st x) \<and> map_stored env bits f st' (bits b)))"

definition env_ok :: "'b fs_env \<Rightarrow> ('b \<Rightarrow> int set) \<Rightarrow> bool" where
  "env_ok env bits \<longleftrightarrow> utility_ok (util env) \<and> bitmap_ok (maps env) bits \<and> map_file_ok env bits \<and>
     (\<forall>i. header_ok (fresh_header env i)) \<and> length (fresh_table env) = NumDirEntries \<and>
     (\<forall>e \<in> set (fresh_table env). entry_ok e)"

definition dir_stored :: "'b fs_env \<Rightarrow> file_header \<Rightarrow> store \<Rightarrow> directory \<Rightarrow> bool" where
  "dir_stored env dh st dir \<longleftrightarrow> (\<forall>d0. length d0 = NumDirEntries \<longrightarrow> (\<forall>e \<in> set d0. entry_ok e) \<longrightarrow>
     Directory_FetchFrom (util env) (fs_host env) dh st d0 = Inr dir)"

text \<open>The layout of a volume: the files of the map and of the directory whose header is in \<open>cur\<close>.\<close>

definition volume_layout :: "file_header \<Rightarrow> int \<Rightarrow> file_header \<Rightarrow> bool" where
  "volume_layout mh cur dh \<longleftrightarrow> direct_ok mh \<and> numBytes mh = FreeMapFileSize \<and>
     direct_ok dh \<and> numBytes dh = DirectoryFileSize \<and> cur \<in> disk_sectors \<and>
     cur \<notin> set (direct_sectors dh) \<union> set (direct_sectors mh) \<and>
     set (direct_sectors dh) \<inter> set (direct_sectors mh) = {}"

definition system_sectors :: "file_header \<Rightarrow> int \<Rightarrow> file_header \<Rightarrow> int set" where
  "system_sectors mh cur dh = insert cur (set (direct_sectors dh) \<union> set (direct_sectors mh))"

text \<open>The invariant of the file system; \<open>dh\<close> is the header of the current directory.\<close>

definition fs_ok :: "'b fs_env \<Rightarrow> ('b \<Rightarrow> int set) \<Rightarrow> int set \<Rightarrow> file_header \<Rightarrow> file_system \<Rightarrow> bool" where
  "fs_ok env bits marked dh fs \<longleftrightarrow>
     whole_sectors (disk_store fs) \<and> directory_ok (currentDir fs) \<and> length (currentDir fs) = NumDirEntries \<and>
     volume_layout (file_hdr (freeMapFile fs)) (entry_sector (currentDir fs ! 0)) dh \<and>
     system_sectors (file_hdr (freeMapFile fs)) (entry_sector (currentDir fs ! 0)) dh \<subseteq> marked \<and>
     FetchFrom (fs_host env) (entry_sector (currentDir fs ! 0)) (disk_store fs) = Inr dh \<and>
     dir_stored env dh (disk_store fs) (currentDir fs) \<and>
     map_stored env bits (freeMapFile fs) (disk_store fs) marked"

section \<open>Frames\<close>

lemma FetchFrom_frame: "st' n = st n \<Longrightarrow> FetchFrom h n st' = FetchFrom h n st"
  by (simp add: FetchFrom_def ReadSector_def)

lemma map_stored_frame:
  "map_stored env bits f st marked \<Longrightarrow> \<forall>x \<in> set (direct_sectors (file_hdr f)). st' x = st x \<Longrightarrow>
   map_stored env bits f st' marked"
  by (simp add: map_stored_def)

lemma direct_content_frame:
  assumes "direct_ok dh" and "\<forall>x \<in> set (direct_sectors dh). st' x = st x"
  shows "direct.content dh st' = direct.content dh st"
proof (rule nth_equalityI)
  fix p
  assume "p < length (direct.content dh st')"
  then have p: "p < nat (numBytes dh)" by simp
  have "length (direct_sectors dh) = nat (numSectors dh)" "numSectors dh = (numBytes dh + 127) div 128"
    using assms(1) by (auto simp: direct_ok_def direct_sectors_def sized_header_def header_ok_def header_counts)
  moreover have "int p div 128 < (numBytes dh + 127) div 128" using p by linarith
  ultimately have "p div 128 < length (direct_sectors dh)" by (simp add: zdiv_int)
  then have "direct_sectors dh ! (p div 128) \<in> set (direct_sectors dh)" by simp
  then show "direct.content dh st' ! p = direct.content dh st ! p"
    using p assms(2) by (simp add: direct.content_def nth_file_bytes SectorSize_def)
qed simp

lemma dir_stored_frame:
  assumes "utility_ok (util env)" and "dir_stored env dh st dir" and "direct_ok dh" and "whole_sectors st"
    and "whole_sectors st'" and "\<forall>x \<in> set (direct_sectors dh). st' x = st x"
  shows "dir_stored env dh st' dir"
proof -
  have "Directory_FetchFrom (util env) (fs_host env) dh st' d0 = Directory_FetchFrom (util env) (fs_host env) dh st d0"
    if "length d0 = NumDirEntries" for d0
  proof -
    have "direct_ok dh \<and> whole_sectors st" "direct_ok dh \<and> whole_sectors st'" using assms(3-5) by auto
    from direct.ReadAt_slice [OF this(1) assms(1), of 0 160] direct.ReadAt_slice [OF this(2) assms(1), of 0 160]
    show ?thesis
      using that direct_content_frame [OF assms(3,6)]
      by (simp add: Directory_FetchFrom_def sizeof_DirectoryEntry_def NumDirEntries_def)
  qed
  with assms(2) show ?thesis by (simp add: dir_stored_def)
qed

section \<open>The two writes of every change\<close>

lemma dir_write:
  assumes "utility_ok (util env)" and "direct_ok dh" and "numBytes dh = DirectoryFileSize" and "whole_sectors st"
    and "\<forall>e \<in> set dir. entry_ok e" and "length dir = NumDirEntries"
  obtains st' where "Directory_WriteBack (util env) (fs_host env) dh (fresh_buffer env) dir st = Inr st'"
    and "whole_sectors st'" and "\<forall>x. x \<notin> set (direct_sectors dh) \<longrightarrow> st' x = st x" and "dir_stored env dh st' dir"
  using directory_roundtrip [OF assms(1,2,4,5), of "fs_host env" "fresh_buffer env"] assms(3,6)
  by (auto simp: dir_stored_def DirectoryFileSize_def sizeof_DirectoryEntry_def)

lemma map_write:
  assumes "map_file_ok env bits" and "direct_ok (file_hdr f)" and "numBytes (file_hdr f) = FreeMapFileSize"
    and "whole_sectors st"
  obtains st' where "MapWriteBack env f b st = Inr st'" and "whole_sectors st'"
    and "\<forall>x. x \<notin> set (direct_sectors (file_hdr f)) \<longrightarrow> st' x = st x" and "map_stored env bits f st' (bits b)"
  using assms unfolding map_file_ok_def by blast

text \<open>Both, in the order of \<open>Create\<close>: the volume is consistent again.\<close>

lemma commit:
  assumes env: "env_ok env bits" and lay: "volume_layout (file_hdr mf) cur dh" and st: "whole_sectors st"
    and hdr: "FetchFrom (fs_host env) cur st = Inr dh"
    and dir: "\<forall>e \<in> set dir. entry_ok e" "length dir = NumDirEntries" "entry_sector (dir ! 0) = cur"
  obtains st1 st2 where "write_current env dir st = Inr st1" and "MapWriteBack env mf b st1 = Inr st2"
    and "whole_sectors st2" and "FetchFrom (fs_host env) cur st2 = Inr dh" and "dir_stored env dh st2 dir"
    and "map_stored env bits mf st2 (bits b)"
    and "\<forall>x. x \<notin> set (direct_sectors dh) \<union> set (direct_sectors (file_hdr mf)) \<longrightarrow> st2 x = st x"
proof -
  have u: "utility_ok (util env)" and m: "map_file_ok env bits" using env by (simp_all add: env_ok_def)
  have l: "direct_ok (file_hdr mf)" "numBytes (file_hdr mf) = FreeMapFileSize" "direct_ok dh"
    "numBytes dh = DirectoryFileSize" using lay by (simp_all add: volume_layout_def)
  obtain st1 where 1: "Directory_WriteBack (util env) (fs_host env) dh (fresh_buffer env) dir st = Inr st1"
    "whole_sectors st1" "\<forall>x. x \<notin> set (direct_sectors dh) \<longrightarrow> st1 x = st x" "dir_stored env dh st1 dir"
    by (rule dir_write [OF u l(3,4) st dir(1,2)])
  obtain st2 where 2: "MapWriteBack env mf b st1 = Inr st2" "whole_sectors st2"
    "\<forall>x. x \<notin> set (direct_sectors (file_hdr mf)) \<longrightarrow> st2 x = st1 x" "map_stored env bits mf st2 (bits b)"
    by (rule map_write [OF m l(1,2) 1(2)])
  have "getSector dir = Inr cur"
    using dir(2,3) by (simp add: getSector_def getTableAt_def NumDirEntries_def)
  then have "write_current env dir st = Inr st1"
    using hdr 1(1) by (simp add: write_current_def OpenFile_def)
  moreover have frame: "\<forall>x. x \<notin> set (direct_sectors dh) \<union> set (direct_sectors (file_hdr mf)) \<longrightarrow> st2 x = st x"
    using 1(3) 2(3) by simp
  moreover have "st2 cur = st cur" using lay frame unfolding volume_layout_def by blast
  then have "FetchFrom (fs_host env) cur st2 = Inr dh" using hdr FetchFrom_frame by metis
  moreover have "\<forall>x \<in> set (direct_sectors dh). st2 x = st1 x"
    using lay 2(3) unfolding volume_layout_def by blast
  then have "dir_stored env dh st2 dir" by (rule dir_stored_frame [OF u 1(4) l(3) 1(2) 2(2)])
  ultimately show thesis using that 2 by blast
qed

end
