(* ===== verification/Fs_Operations.thy ===== *)
theory Fs_Operations
  imports Fs_Volume
begin

text \<open>
  What the operations of the file system do to a consistent volume: which names they add and remove,
  which sectors they take and give back, and what they leave alone.
\<close>

section \<open>New directories\<close>

lemma strcpy_key:
  assumes "length dst = 10" and "length n \<le> 8" and "\<forall>c \<in> set n. c \<noteq> 0"
  shows "length (strcpy dst n) = 10" and "name_key (strcpy dst n) = n"
proof -
  have "cstring n = n" using assms(3) by (simp add: cstring_def takeWhile_eq_all_conv)
  then have s: "strcpy dst n = n @ [0] @ drop (Suc (length n)) dst"
    by (simp add: strcpy_def splice_def)
  have "cstring (n @ [0] @ r) = n @ cstring ([0] @ r)" for r
    unfolding cstring_def by (rule takeWhile_append2) (use assms(3) in blast)
  then have "cstring (strcpy dst n) = n" unfolding s by (simp add: cstring_def)
  then show "name_key (strcpy dst n) = n" using assms(2) by (simp add: name_key_def FileNameMaxLen_def)
  show "length (strcpy dst n) = 10" using assms(1,2) unfolding s by simp
qed

lemma in_use_flags [simp]: "in_use (e\<lparr>inUseAndIsDir := 3\<rparr>)" "\<not> in_use (e\<lparr>inUseAndIsDir := 0\<rparr>)"
  by (simp_all add: in_use_def)

definition has_room :: "directory \<Rightarrow> bool" where
  "has_room d \<longleftrightarrow> (\<exists>e \<in> set (drop 2 d). \<not> in_use e)"

text \<open>A new directory, once \<open>.\<close> and \<open>..\<close> are given their sectors.\<close>

definition fresh_directory :: "int \<Rightarrow> int \<Rightarrow> directory \<Rightarrow> bool" where
  "fresh_directory s t d \<longleftrightarrow> directory_ok d \<and> directory_map d = [[46] \<mapsto> s, [46, 46] \<mapsto> t] \<and>
     entry_sector (d ! 0) = s \<and> length d = NumDirEntries \<and> has_room d"

lemma Directory_new:
  assumes env: "env_ok env bits"
  obtains d where "Directory (fresh_table env) = Inr d" and "length d = NumDirEntries" and "\<forall>e \<in> set d. entry_ok e"
    and "\<forall>s \<in> disk_sectors. \<forall>t \<in> disk_sectors. fresh_directory s t (set_sector 1 t (set_sector 0 s d))"
proof -
  obtain e0 e1 es where f: "fresh_table env = e0 # e1 # es" and len: "length es = 8"
    using env by (auto simp: env_ok_def NumDirEntries_def length_Suc_conv eval_nat_numeral)
  have ok: "entry_ok e0" "entry_ok e1" "\<forall>e \<in> set es. entry_ok e"
    using env unfolding env_ok_def f by auto
  define a where "a = e0\<lparr>inUseAndIsDir := 3, entry_name := strcpy (entry_name e0) [46]\<rparr>"
  define b where "b = e1\<lparr>inUseAndIsDir := 3, entry_name := strcpy (entry_name e1) [46, 46]\<rparr>"
  define r where "r = List.map (\<lambda>e. e\<lparr>inUseAndIsDir := 0\<rparr>) es"
  have "Directory (fresh_table env) = Inr (a # b # r)"
    by (simp add: Directory_def f a_def b_def r_def)
  have names: "length (entry_name a) = 10" "name_key (entry_name a) = [46]"
    "length (entry_name b) = 10" "name_key (entry_name b) = [46, 46]"
    using strcpy_key [of "entry_name e0" "[46]"] strcpy_key [of "entry_name e1" "[46, 46]"] ok
    by (simp_all add: a_def b_def entry_ok_def)
  have uses: "in_use a" "in_use b" "filter in_use r = []"
    by (simp_all add: a_def b_def r_def in_use_def filter_empty_conv)
  have entries: "entry_ok a" "entry_ok b" "\<forall>e \<in> set r. entry_ok e"
    using ok names by (auto simp: entry_ok_def a_def b_def r_def)
  have sec: "set_sector 1 t (set_sector 0 s (a # b # r)) = a\<lparr>entry_sector := s\<rparr> # b\<lparr>entry_sector := t\<rparr> # r" for s t
    by (simp add: set_sector_def)
  have no_use: "\<not> in_use e" if "e \<in> set r" for e using uses(3) that by (auto simp: filter_empty_conv)
  show thesis
  proof (rule that [of "a # b # r"])
    show "Directory (fresh_table env) = Inr (a # b # r)" by fact
    show "length (a # b # r) = NumDirEntries" using len by (simp add: r_def NumDirEntries_def)
    show "\<forall>e \<in> set (a # b # r). entry_ok e" using entries by simp
    have "r \<noteq> []" using len by (auto simp: r_def)
    then have room: "\<exists>e \<in> set r. \<not> in_use e" using no_use by (cases r) auto
    show "\<forall>s \<in> disk_sectors. \<forall>t \<in> disk_sectors. fresh_directory s t (set_sector 1 t (set_sector 0 s (a # b # r)))"
      unfolding sec using names uses entries no_use c_range_sector len
      by (auto simp: fresh_directory_def has_room_def directory_ok_def directory_map_def entry_ok_def
          NumDirEntries_def r_def)
  qed
qed

section \<open>Reading the volume\<close>

lemma fs_ok_map:
  assumes "fs_ok env bits marked dh fs"
  obtains b where "fetch_map env fs = Inr b" and "bits b = marked"
  using assms unfolding fs_ok_def map_stored_def fetch_map_def by blast

lemma fs_ok_getSector: "fs_ok env bits marked dh fs \<Longrightarrow> getSector (currentDir fs) = Inr (entry_sector (currentDir fs ! 0))"
  by (simp add: fs_ok_def getSector_def getTableAt_def NumDirEntries_def)

lemma read_current_ok:
  assumes "env_ok env bits" and "fs_ok env bits marked dh fs"
  shows "read_current env fs = Inr (currentDir fs)"
proof -
  obtain d where "Directory (fresh_table env) = Inr d" "length d = NumDirEntries" "\<forall>e \<in> set d. entry_ok e"
    by (rule Directory_new [OF assms(1)])
  then show ?thesis
    using assms(2) fs_ok_getSector [OF assms(2)]
    by (simp add: read_current_def fs_ok_def OpenFile_def dir_stored_def)
qed

text \<open>\<open>Open\<close> finds exactly the names of the directory.\<close>

lemma Open_ok:
  assumes "env_ok env bits" and "fs_ok env bits marked dh fs"
  shows "Open env n fs = (case directory_map (currentDir fs) (name_key n) of None \<Rightarrow> Inr None
    | Some s \<Rightarrow> and_then (OpenFile (fs_host env) s (disk_store fs)) (\<lambda>f. Inr (Some f)))"
proof -
  have "0 \<le> s" if "directory_map (currentDir fs) (name_key n) = Some s" for s
  proof -
    have "s \<in> entry_sector ` {e \<in> set (currentDir fs). in_use e}"
      using map_of_SomeD [OF that [unfolded directory_map_def]] by auto
    then show ?thesis using assms(2) by (auto simp: fs_ok_def directory_ok_def)
  qed
  then show ?thesis
    using read_current_ok [OF assms]
    by (auto simp: Open_def Let_def directory.find_abs Find_map split: option.splits)
qed

section \<open>Files on the volume\<close>

definition file_at :: "'b fs_env \<Rightarrow> file_system \<Rightarrow> int \<Rightarrow> file_header \<Rightarrow> bool" where
  "file_at env fs s hdr \<longleftrightarrow> FetchFrom (fs_host env) s (disk_store fs) = Inr hdr \<and>
     indirect_ok (fs_host env) hdr (disk_store fs) \<and>
     s \<notin> set (table_sectors hdr @ indirect_sectors (fs_host env) hdr (disk_store fs))"

definition file_area :: "'b fs_env \<Rightarrow> file_system \<Rightarrow> int \<Rightarrow> file_header \<Rightarrow> int set" where
  "file_area env fs s hdr = insert s (set (table_sectors hdr @ indirect_sectors (fs_host env) hdr (disk_store fs)))"

lemma indirect_frame:
  assumes "indirect_ok h hdr st" and "\<forall>x \<in> set (table_sectors hdr). st' x = st x"
  shows "indirect_sectors h hdr st' = indirect_sectors h hdr st" and "indirect_ok h hdr st'"
proof -
  have "table_entry h hdr st' k = table_entry h hdr st k" if "k < nat (numSectors hdr)" for k
    using indirect_lookup(2) [OF assms(1) that] assms(2) by (simp add: table_entry_def)
  then show s: "indirect_sectors h hdr st' = indirect_sectors h hdr st" by (simp add: indirect_sectors_def)
  show "indirect_ok h hdr st'" using assms(1) unfolding indirect_ok_def s .
qed

text \<open>A file none of whose sectors changes is the same file with the same bytes.\<close>

lemma file_frame:
  assumes "file_at env fs s hdr" and "\<forall>x \<in> file_area env fs s hdr. disk_store fs' x = disk_store fs x"
  shows "file_at env fs' s hdr" and "file_area env fs' s hdr = file_area env fs s hdr"
    and "indirect.content (fs_host env) hdr (disk_store fs') = indirect.content (fs_host env) hdr (disk_store fs)"
proof -
  have f: "indirect_ok (fs_host env) hdr (disk_store fs)" "FetchFrom (fs_host env) s (disk_store fs) = Inr hdr"
    "s \<notin> set (table_sectors hdr @ indirect_sectors (fs_host env) hdr (disk_store fs))"
    using assms(1) by (simp_all add: file_at_def)
  have same: "\<forall>x \<in> set (table_sectors hdr). disk_store fs' x = disk_store fs x" "disk_store fs' s = disk_store fs s"
    "\<forall>x \<in> set (indirect_sectors (fs_host env) hdr (disk_store fs)). disk_store fs' x = disk_store fs x"
    using assms(2) by (simp_all add: file_area_def)
  note i = indirect_frame [OF f(1) same(1)]
  show "file_at env fs' s hdr" using f(2,3) i FetchFrom_frame [where st' = "disk_store fs'" and n = s and st = "disk_store fs"] same(2)
    by (simp add: file_at_def)
  show "file_area env fs' s hdr = file_area env fs s hdr" by (simp add: file_area_def i(1))
  show "indirect.content (fs_host env) hdr (disk_store fs') = indirect.content (fs_host env) hdr (disk_store fs)"
  proof (rule nth_equalityI)
    fix p
    assume "p < length (indirect.content (fs_host env) hdr (disk_store fs'))"
    then have p: "p < nat (numBytes hdr)" by simp
    have "numSectors hdr = (numBytes hdr + 127) div 128"
      using f(1) by (simp add: indirect_ok_def sized_header_def)
    moreover have "int p div 128 < (numBytes hdr + 127) div 128" using p by linarith
    ultimately have "p div 128 < length (indirect_sectors (fs_host env) hdr (disk_store fs))"
      by (simp add: indirect_sectors_def zdiv_int zless_nat_eq_int_zless)
    then have "indirect_sectors (fs_host env) hdr (disk_store fs) ! (p div 128) \<in>
        set (indirect_sectors (fs_host env) hdr (disk_store fs))" by simp
    then show "indirect.content (fs_host env) hdr (disk_store fs') ! p =
        indirect.content (fs_host env) hdr (disk_store fs) ! p"
      using p same(3) by (simp add: indirect.content_def nth_file_bytes SectorSize_def i(1))
  qed simp
qed

section \<open>Creation\<close>

lemma take_entry_finds: "\<exists>e \<in> set d. \<not> in_use e \<Longrightarrow> \<exists>r. take_entry v n s d = (True, r)"
  by (induction v n s d rule: take_entry.induct) (auto simp: Let_def split: prod.splits)

lemma Add_succeeds:
  assumes "has_room d" and "directory_map d (name_key n) = None"
  obtains d' where "Add n s d = (True, d')"
proof -
  have "FindIndex n d = - 1" using assms(2) by (cases rule: FindIndex_cases [of n d]) auto
  then show thesis
    using that take_entry_finds [of "drop 2 d" False n s] assms(1)
    by (auto simp: Add_def has_room_def Let_def)
qed

text \<open>The sectors a file of \<open>n\<close> bytes takes: its header, its table and its data.\<close>

definition sectors_needed :: "int \<Rightarrow> nat" where
  "sectors_needed n = Suc ((nat ((n + 127) div 128) + 31) div 32 + nat ((n + 127) div 128))"

lemma Create_ok:
  assumes env: "env_ok env bits" and ok: "fs_ok env bits marked dh fs"
    and new: "directory_map (currentDir fs) (name_key n) = None" and room: "has_room (currentDir fs)"
    and size: "0 \<le> sz" "sz \<le> 960 * 128" and free: "sectors_needed sz \<le> card (disk_sectors - marked)"
  shows "\<exists>fs' s hdr. Create env n sz fs = Inr (True, fs') \<and> file_at env fs' s hdr \<and> numBytes hdr = sz \<and>
    file_area env fs' s hdr \<subseteq> disk_sectors - marked \<and>
    fs_ok env bits (marked \<union> file_area env fs' s hdr) dh fs' \<and>
    directory_map (currentDir fs') = (directory_map (currentDir fs))(name_key n \<mapsto> s) \<and>
    freeMapFile fs' = freeMapFile fs \<and> entry_sector (currentDir fs' ! 0) = entry_sector (currentDir fs ! 0) \<and>
    (\<forall>x \<in> marked - set (direct_sectors dh) - set (direct_sectors (file_hdr (freeMapFile fs))).
       disk_store fs' x = disk_store fs x)"
proof -
  let ?st = "disk_store fs" and ?dir = "currentDir fs" and ?mf = "freeMapFile fs" and ?h = "fs_host env"
  define cur where "cur = entry_sector (?dir ! 0)"
  have u: "utility_ok (util env)" and B: "bitmap_ok (maps env) bits" and fresh: "\<And>i. header_ok (fresh_header env i)"
    using env by (simp_all add: env_ok_def)
  have inv: "whole_sectors ?st" "directory_ok ?dir" "length ?dir = NumDirEntries" "volume_layout (file_hdr ?mf) cur dh"
    "system_sectors (file_hdr ?mf) cur dh \<subseteq> marked" "FetchFrom ?h cur ?st = Inr dh"
    using ok by (simp_all add: fs_ok_def cur_def)
  obtain b0 where b0: "fetch_map env fs = Inr b0" "bits b0 = marked" by (rule fs_ok_map [OF ok])
  obtain s b1 where fb: "FindBit (maps env) b0 = (s, b1)" by fastforce
  have "0 < card (free_sectors bits b0)" using free b0(2) by (simp add: sectors_needed_def)
  then have "free_sectors bits b0 \<noteq> {}" unfolding card_gt_0_iff by blast
  note s = bitmap_find [OF B fb this]
  have s': "s \<in> disk_sectors" "s \<notin> marked" using s(1) b0(2) by auto
  obtain dir where add: "Add n s ?dir = (True, dir)" by (rule Add_succeeds [OF room new])
  note dir = Add_done [OF inv(2) add s'(1)]
  have "(nat ((sz + 127) div 128) + 31) div 32 + nat ((sz + 127) div 128) \<le> card (free_sectors bits b1)"
    using free s(3) b0(2) by (simp add: sectors_needed_def)
  from Allocate_ok [where h = ?h and fresh = "\<lambda>j. fresh_header env (Suc j)" and st = ?st, OF B u fresh [of 0] fresh size this]
  obtain hdr b2 st1 where al: "Allocate (util env) ?h (maps env) (\<lambda>j. fresh_header env (Suc j)) sz
      (fresh_header env 0) b1 ?st = Inr (True, hdr, b2, st1)"
    and a: "indirect_ok ?h hdr st1" "numBytes hdr = sz"
      "set (table_sectors hdr @ indirect_sectors ?h hdr st1) \<subseteq> free_sectors bits b1"
      "bits b2 = bits b1 \<union> set (table_sectors hdr @ indirect_sectors ?h hdr st1)"
      "\<forall>x. x \<notin> set (table_sectors hdr) \<longrightarrow> st1 x = ?st x"
      "\<forall>x \<in> set (table_sectors hdr). length (st1 x) = SectorSize" by (elim exE conjE)
  have hdr_ok: "header_ok hdr" using a(1) by (simp add: indirect_ok_def sized_header_def)
  let ?area = "insert s (set (table_sectors hdr @ indirect_sectors ?h hdr st1))"
  have free_area: "?area \<subseteq> disk_sectors - marked" "s \<notin> set (table_sectors hdr)"
    "s \<notin> set (table_sectors hdr @ indirect_sectors ?h hdr st1)" using s' a(3) s(2) b0(2) by auto
  have b2: "bits b2 = marked \<union> ?area" using a(4) s(2) b0(2) by auto
  define st2 where "st2 = st1(s := header_bytes ?h hdr)"
  have wb: "WriteBack ?h s hdr st1 = Inr st2" unfolding st2_def by (rule WriteBack_header [OF hdr_ok s'(1)])
  have st2_frame: "st2 x = ?st x" if "x \<notin> ?area" for x using that a(5) by (simp add: st2_def)
  have "whole_sectors st1" unfolding whole_sectors_def
  proof
    fix x
    assume "x \<in> disk_sectors"
    then show "length (st1 x) = SectorSize"
      using a(5,6) inv(1) by (cases "x \<in> set (table_sectors hdr)") (simp_all add: whole_sectors_def)
  qed
  then have whole2: "whole_sectors st2"
    unfolding st2_def by (rule whole_sectors_update) (rule length_header_bytes [OF hdr_ok])
  have sys: "system_sectors (file_hdr ?mf) cur dh \<inter> ?area = {}" using inv(5) free_area(1) by blast
  then have "st2 cur = ?st cur" using st2_frame by (simp add: system_sectors_def)
  then have cur2: "FetchFrom ?h cur st2 = Inr dh" using inv(6) FetchFrom_frame by metis
  have entries: "\<forall>e \<in> set dir. entry_ok e" "length dir = NumDirEntries"
    using dir(1,2) inv(3) by (simp_all add: directory_ok_def)
  have cur': "entry_sector (dir ! 0) = cur"
    using dir(3) inv(3) nth_take [of 0 2 dir] nth_take [of 0 2 ?dir] by (simp add: cur_def)
  obtain st3 st4 where c: "write_current env dir st2 = Inr st3" "MapWriteBack env ?mf b2 st3 = Inr st4"
    "whole_sectors st4" "FetchFrom ?h cur st4 = Inr dh" "dir_stored env dh st4 dir"
    "map_stored env bits ?mf st4 (bits b2)"
    "\<forall>x. x \<notin> set (direct_sectors dh) \<union> set (direct_sectors (file_hdr ?mf)) \<longrightarrow> st4 x = st2 x"
    by (rule commit [OF env inv(4) whole2 cur2 entries cur'])
  define fs' where "fs' = fs\<lparr>currentDir := dir, disk_store := st4\<rparr>"
  have run: "Create env n sz fs = Inr (True, fs')"
  proof -
    have "Find n ?dir = - 1" using new by (simp add: Find_map)
    moreover have "s \<noteq> - 1" using s'(1) by auto
    ultimately show ?thesis
      using add al wb c(1,2) by (simp add: Create_def b0(1) fb fs'_def)
  qed
  have area4: "st4 x = st2 x" if "x \<in> ?area" for x
    using that sys c(7) by (auto simp: system_sectors_def)
  have table4: "\<forall>x \<in> set (table_sectors hdr). st4 x = st1 x"
    using area4 free_area(2) by (auto simp: st2_def)
  note i = indirect_frame [OF a(1) table4]
  have "st4 s = header_bytes ?h hdr" using area4 [of s] by (simp add: st2_def)
  then have fetch: "FetchFrom ?h s st4 = Inr hdr" by (rule FetchFrom_written [OF hdr_ok s'(1)])
  have at: "file_at env fs' s hdr" using fetch i free_area(3) by (simp add: file_at_def fs'_def)
  have area: "file_area env fs' s hdr = ?area" by (simp add: file_area_def fs'_def i(1))
  have "fs_ok env bits (marked \<union> ?area) dh fs'"
    using dir(1,2) inv(3,4,5) c(3-6) cur' b2 by (auto simp: fs_ok_def fs'_def)
  moreover have "disk_store fs' x = ?st x"
    if "x \<in> marked - set (direct_sectors dh) - set (direct_sectors (file_hdr ?mf))" for x
  proof -
    have "x \<notin> ?area" using that free_area(1) by blast
    then show ?thesis using that c(7) st2_frame by (simp add: fs'_def)
  qed
  ultimately show ?thesis
    using run at a(2) free_area(1) dir(1) cur' unfolding area [symmetric]
    by (intro exI [of _ fs'] exI [of _ s] exI [of _ hdr] conjI ballI) (simp_all add: fs'_def cur_def)
qed

section \<open>Removal\<close>

text \<open>
  The name goes, and the sectors of the header and of the table are given back; those of the data
  stay marked, since the inner loop of \<open>Deallocate\<close> never runs.
\<close>

lemma Remove_ok:
  assumes env: "env_ok env bits" and ok: "fs_ok env bits marked dh fs"
    and n: "directory_map (currentDir fs) (name_key n) = Some s" "name_key n \<notin> {[46], [46, 46]}"
    and file_at: "file_at env fs s hdr" and s: "s \<in> disk_sectors"
    and own: "insert s (set (table_sectors hdr)) \<inter>
      system_sectors (file_hdr (freeMapFile fs)) (entry_sector (currentDir fs ! 0)) dh = {}"
  shows "\<exists>fs'. Remove env n fs = Inr (True, fs') \<and>
    fs_ok env bits (marked - insert s (set (table_sectors hdr))) dh fs' \<and>
    directory_map (currentDir fs') = (directory_map (currentDir fs))(name_key n := None) \<and>
    (\<forall>x. x \<notin> set (direct_sectors dh) \<union> set (direct_sectors (file_hdr (freeMapFile fs))) \<longrightarrow>
       disk_store fs' x = disk_store fs x)"
proof -
  let ?st = "disk_store fs" and ?dir = "currentDir fs" and ?mf = "freeMapFile fs" and ?h = "fs_host env"
  define cur where "cur = entry_sector (?dir ! 0)"
  have u: "utility_ok (util env)" and B: "bitmap_ok (maps env) bits" and m: "map_file_ok env bits"
    using env by (simp_all add: env_ok_def)
  have inv: "whole_sectors ?st" "directory_ok ?dir" "length ?dir = NumDirEntries" "volume_layout (file_hdr ?mf) cur dh"
    "system_sectors (file_hdr ?mf) cur dh \<subseteq> marked" "FetchFrom ?h cur ?st = Inr dh"
    using ok by (simp_all add: fs_ok_def cur_def)
  have l: "direct_ok (file_hdr ?mf)" "numBytes (file_hdr ?mf) = FreeMapFileSize" "direct_ok dh"
    "numBytes dh = DirectoryFileSize" using inv(4) by (simp_all add: volume_layout_def)
  obtain b0 where b0: "fetch_map env fs = Inr b0" "bits b0 = marked" by (rule fs_ok_map [OF ok])
  have f: "FetchFrom ?h s ?st = Inr hdr" "indirect_ok ?h hdr ?st" using file_at by (simp_all add: file_at_def)
  obtain b1 where b1: "Deallocate (util env) ?h (maps env) hdr ?st b0 = Inr b1"
    "bits b1 = marked - set (table_sectors hdr)"
    using Deallocate_ok [OF B u f(2)] b0(2) by blast
  obtain b2 where b2: "Clear (maps env) s b1 = Inr b2" "bits b2 = bits b1 - {s}" by (rule bitmap_Clear [OF B s])
  obtain ok' dir where rm: "Directory_Remove n ?dir = (ok', dir)" by fastforce
  note dir = Directory_Remove_done [OF inv(2) n(2) rm]
  have entries: "\<forall>e \<in> set dir. entry_ok e" "length dir = NumDirEntries"
    using dir(1,2) inv(3) by (simp_all add: directory_ok_def)
  have cur': "entry_sector (dir ! 0) = cur"
    using dir(3) inv(3) nth_take [of 0 2 dir] nth_take [of 0 2 ?dir] by (simp add: cur_def)
  then have get: "getSector dir = Inr cur"
    using entries(2) by (simp add: getSector_def getTableAt_def NumDirEntries_def)
  obtain st1 where 1: "MapWriteBack env ?mf b2 ?st = Inr st1" "whole_sectors st1"
    "\<forall>x. x \<notin> set (direct_sectors (file_hdr ?mf)) \<longrightarrow> st1 x = ?st x" "map_stored env bits ?mf st1 (bits b2)"
    by (rule map_write [OF m l(1,2) inv(1)])
  obtain st2 where 2: "Directory_WriteBack (util env) ?h dh (fresh_buffer env) dir st1 = Inr st2"
    "whole_sectors st2" "\<forall>x. x \<notin> set (direct_sectors dh) \<longrightarrow> st2 x = st1 x" "dir_stored env dh st2 dir"
    by (rule dir_write [OF u l(3,4) 1(2) entries])
  define fs' where "fs' = fs\<lparr>currentDir := dir, disk_store := st2\<rparr>"
  have "Find n ?dir = s" using n(1) by (simp add: Find_map)
  moreover have "s \<noteq> - 1" using s by auto
  ultimately have run: "Remove env n fs = Inr (True, fs')"
    using f(1) b0(1) b1(1) b2(1) rm get inv(6) 1(1) 2(1) by (simp add: Remove_def fs'_def OpenFile_def)
  have frame: "\<forall>x. x \<notin> set (direct_sectors dh) \<union> set (direct_sectors (file_hdr ?mf)) \<longrightarrow> st2 x = ?st x"
    using 1(3) 2(3) by simp
  have "st2 cur = ?st cur" using inv(4) frame unfolding volume_layout_def by blast
  then have "FetchFrom ?h cur st2 = Inr dh" using inv(6) FetchFrom_frame by metis
  moreover have "map_stored env bits ?mf st2 (bits b2)"
    by (rule map_stored_frame [OF 1(4)]) (use inv(4) 2(3) in \<open>auto simp: volume_layout_def\<close>)
  moreover have "bits b2 = marked - insert s (set (table_sectors hdr))" using b1(2) b2(2) by auto
  ultimately have "fs_ok env bits (marked - insert s (set (table_sectors hdr))) dh fs'"
    using dir(1) entries(2) inv(4,5) own 2(2,4) cur' by (auto simp: fs_ok_def fs'_def cur_def [symmetric])
  then show ?thesis using run dir(1) frame by (intro exI [of _ fs']) (simp add: fs'_def)
qed

section \<open>Formatting\<close>

lemma card_free_initial:
  assumes "finite U" and "card U \<le> 10"
  shows "1000 \<le> card (disk_sectors - U)"
proof -
  have "card disk_sectors - card U \<le> card (disk_sectors - U)" using assms(1) by (rule diff_card_le_card_Diff)
  then show ?thesis using assms(2) by (simp add: NumSectors_def SectorsPerTrack_def NumTracks_def)
qed

text \<open>Formatting a disk makes a consistent volume with an empty root directory.\<close>

lemma format_ok:
  assumes env: "env_ok env bits" and st: "whole_sectors st"
  shows "\<exists>fs marked. FileSystem env True st = Inr fs \<and> fs_ok env bits marked (file_hdr (directoryFile fs)) fs \<and>
    marked = {FreeMapSector, RootSector} \<union> set (direct_sectors (file_hdr (freeMapFile fs))) \<union>
      set (direct_sectors (file_hdr (directoryFile fs))) \<and>
    directory_map (currentDir fs) = [[46] \<mapsto> RootSector, [46, 46] \<mapsto> RootSector] \<and>
    has_room (currentDir fs) \<and> FileSystem env False (disk_store fs) = Inr fs"
proof -
  let ?h = "fs_host env" and ?B = "maps env"
  have u: "utility_ok (util env)" and B: "bitmap_ok ?B bits" and fresh: "\<And>i. header_ok (fresh_header env i)"
    using env by (simp_all add: env_ok_def)
  have sec: "FreeMapSector \<in> disk_sectors" "RootSector \<in> disk_sectors"
    by (simp_all add: FreeMapSector_def RootSector_def NumSectors_def SectorsPerTrack_def NumTracks_def)
  have sizes: "FreeMapFileSize = 128" "DirectoryFileSize = 160"
    by (simp_all add: FreeMapFileSize_def DirectoryFileSize_def NumSectors_def SectorsPerTrack_def NumTracks_def
        sizeof_DirectoryEntry_def NumDirEntries_def)
  obtain d0 where d0: "Directory (fresh_table env) = Inr d0" "length d0 = NumDirEntries" "\<forall>e \<in> set d0. entry_ok e"
    "\<forall>s \<in> disk_sectors. \<forall>t \<in> disk_sectors. fresh_directory s t (set_sector 1 t (set_sector 0 s d0))"
    by (rule Directory_new [OF env])
  define dir where "dir = set_sector 1 1 (set_sector 0 1 d0)"
  have dir: "directory_ok dir" "directory_map dir = [[46] \<mapsto> RootSector, [46, 46] \<mapsto> RootSector]"
    "entry_sector (dir ! 0) = RootSector" "length dir = NumDirEntries" "has_room dir"
    using d0(4) [THEN bspec, OF sec(2), THEN bspec, OF sec(2)] by (simp_all add: dir_def RootSector_def fresh_directory_def)
  have "bits (NewMap ?B NumSectors) = {}" using B by (simp add: bitmap_ok_def)
  then obtain b1 where b1: "Mark ?B FreeMapSector (NewMap ?B NumSectors) = Inr b1" "bits b1 = {FreeMapSector}"
    using bitmap_Mark [OF B sec(1), of "NewMap ?B NumSectors"] by metis
  obtain b2 where b2: "Mark ?B RootSector b1 = Inr b2" "bits b2 = {FreeMapSector, RootSector}"
    using bitmap_Mark [OF B sec(2), of b1] b1(2) by (metis insert_commute)
  have "1000 \<le> card (free_sectors bits b2)" unfolding b2(2) by (rule card_free_initial) (auto simp: card_insert_if)
  then obtain mh b3 where b3: "AllocateDirectory (util env) ?B 128 (fresh_header env 0) b2 = Inr (True, mh, b3)"
    "direct_ok mh" "numBytes mh = 128" "set (direct_sectors mh) \<subseteq> free_sectors bits b2"
    "bits b3 = bits b2 \<union> set (direct_sectors mh)"
    using AllocateDirectory_ok [OF B u fresh [of 0], of 128 b2] by auto
  have one: "length (direct_sectors mh) = 1"
    using b3(2,3) by (auto simp: direct_ok_def direct_sectors_def sized_header_def header_ok_def header_counts)
  have "card (set (direct_sectors mh)) \<le> 1" using card_length [of "direct_sectors mh"] one by simp
  moreover have "card (bits b2) \<le> 2" unfolding b2(2) by (auto simp: card_insert_if)
  ultimately have "card (bits b3) \<le> 10" unfolding b3(5) using card_Un_le [of "bits b2" "set (direct_sectors mh)"] by linarith
  then have "1000 \<le> card (free_sectors bits b3)"
    by (intro card_free_initial) (auto simp: b3(5) b2(2))
  then obtain rh b4 where b4: "AllocateDirectory (util env) ?B 160 (fresh_header env 1) b3 = Inr (True, rh, b4)"
    "direct_ok rh" "numBytes rh = 160" "set (direct_sectors rh) \<subseteq> free_sectors bits b3"
    "bits b4 = bits b3 \<union> set (direct_sectors rh)"
    using AllocateDirectory_ok [OF B u fresh [of 1], of 160 b3] by auto
  have hdrs: "header_ok mh" "header_ok rh" using b3(2) b4(2) by (simp_all add: direct_ok_def sized_header_def)
  define st1 where "st1 = st(FreeMapSector := header_bytes ?h mh)"
  define st2 where "st2 = st1(RootSector := header_bytes ?h rh)"
  have w: "WriteBack ?h FreeMapSector mh st = Inr st1" "WriteBack ?h RootSector rh st1 = Inr st2"
    unfolding st1_def st2_def by (rule WriteBack_header; fact hdrs sec)+
  have st2: "whole_sectors st2"
    unfolding st1_def st2_def using st hdrs length_header_bytes by (intro whole_sectors_update) auto
  have "st2 FreeMapSector = header_bytes ?h mh" "st2 RootSector = header_bytes ?h rh"
    by (simp_all add: st1_def st2_def FreeMapSector_def RootSector_def)
  note fetch = FetchFrom_written [where st = st2, OF hdrs(1) sec(1) this(1)] FetchFrom_written [where st = st2, OF hdrs(2) sec(2) this(2)]
  define mf where "mf = \<lparr>file_hdr = mh, seekPosition = 0\<rparr>"
  have lay: "volume_layout mh RootSector rh"
    using b3 b4 b2(2) sec sizes unfolding volume_layout_def by auto
  have m: "map_file_ok env bits" using env by (simp add: env_ok_def)
  obtain st3 where 3: "MapWriteBack env mf b4 st2 = Inr st3" "whole_sectors st3"
    "\<forall>x. x \<notin> set (direct_sectors mh) \<longrightarrow> st3 x = st2 x" "map_stored env bits mf st3 (bits b4)"
    using map_write [OF m, of mf st2 b4] b3(2,3) sizes st2 by (auto simp: mf_def)
  have entries: "\<forall>e \<in> set dir. entry_ok e" using dir(1) by (simp add: directory_ok_def)
  obtain st4 where 4: "Directory_WriteBack (util env) ?h rh (fresh_buffer env) dir st3 = Inr st4"
    "whole_sectors st4" "\<forall>x. x \<notin> set (direct_sectors rh) \<longrightarrow> st4 x = st3 x" "dir_stored env rh st4 dir"
    using dir_write [OF u b4(2) _ 3(2) entries dir(4)] b4(3) sizes by metis
  define fs where "fs = \<lparr>freeMapFile = mf, directoryFile = \<lparr>file_hdr = rh, seekPosition = 0\<rparr>,
    currentDir = dir, disk_store = st4\<rparr>"
  have run: "FileSystem env True st = Inr fs"
    using b1(1) b2(1) b3(1) b4(1) w fetch 3(1) 4(1) d0(1)
    by (simp add: FileSystem_def sizes OpenFile_def fs_def mf_def dir_def)
  have root: "st4 RootSector = st2 RootSector" using 3(3) 4(3) lay by (auto simp: volume_layout_def)
  have root_fetch: "FetchFrom ?h RootSector st4 = Inr rh" using fetch(2) FetchFrom_frame root by metis
  have map_sector: "FreeMapSector \<notin> set (direct_sectors mh) \<union> set (direct_sectors rh)" using b3(4,5) b4(4) b2(2) by auto
  have "map_stored env bits mf st4 (bits b4)"
    by (rule map_stored_frame [OF 3(4)]) (use lay 4(3) in \<open>auto simp: volume_layout_def mf_def\<close>)
  moreover have used_set: "bits b4 = {FreeMapSector, RootSector} \<union> set (direct_sectors mh) \<union> set (direct_sectors rh)"
    using b4(5) b3(5) b2(2) by auto
  ultimately have "fs_ok env bits (bits b4) rh fs"
    using dir 4 lay root_fetch by (auto simp: fs_ok_def fs_def mf_def system_sectors_def)
  moreover have "st4 FreeMapSector = st2 FreeMapSector" using 3(3) 4(3) lay map_sector by (auto simp: volume_layout_def)
  then have "FetchFrom ?h FreeMapSector st4 = Inr mh" using fetch(1) FetchFrom_frame by metis
  then have "FileSystem env False (disk_store fs) = Inr fs"
    using d0(1-3) 4(4) root_fetch by (simp add: FileSystem_def OpenFile_def fs_def mf_def dir_stored_def)
  ultimately show ?thesis
    using run dir(2,5) used_set by (intro exI [of _ fs] exI [of _ "bits b4"]) (simp add: fs_def mf_def)
qed

end
