(* ===== verification/Fs_Sample.thy ===== *)
theory Fs_Sample
  imports Fs_Operations Mips_Properties
begin

text \<open>
  A kernel for the file system: the bit map is the set of its marked bits, stored in its file one bit
  per sector. It shows that what the file system asks of \<^verbatim>\<open>BitMap\<close> and \<^verbatim>\<open>utility.h\<close> can be met, and
  the witnesses run on it.
\<close>

section \<open>The bit map\<close>

definition sample_bits :: "int set \<Rightarrow> int set" where
  "sample_bits b = b \<inter> disk_sectors"

definition sample_find :: "int set \<Rightarrow> int \<times> int set" where
  "sample_find b = (case filter (\<lambda>n. n \<notin> b) [0..NumSectors - 1] of [] \<Rightarrow> (- 1, b) | n # _ \<Rightarrow> (n, insert n b))"

definition sample_map :: "int set bitmap_ops" where
  "sample_map = \<lparr>NewMap = (\<lambda>_. {}), NumClear = (\<lambda>b. int (card (disk_sectors - b))), FindBit = sample_find,
     Mark = (\<lambda>n b. Inr (insert n b)), Clear = (\<lambda>n b. Inr (b - {n})), Test = (\<lambda>n b. Inr (n \<in> b))\<rparr>"

lemma sample_find_ok:
  assumes "sample_find b = (n, b')"
  shows "if disk_sectors \<subseteq> sample_bits b then n = - 1 \<and> sample_bits b' = sample_bits b
    else n \<in> disk_sectors \<and> n \<notin> sample_bits b \<and> sample_bits b' = insert n (sample_bits b)"
proof (cases "filter (\<lambda>n. n \<notin> b) [0..NumSectors - 1]")
  case Nil
  then have "disk_sectors \<subseteq> b" by (auto simp: filter_empty_conv)
  then show ?thesis using assms Nil by (auto simp: sample_find_def sample_bits_def)
next
  case (Cons m ms)
  then have "m \<in> set (filter (\<lambda>n. n \<notin> b) [0..NumSectors - 1])" by simp
  then have "m \<in> disk_sectors" "m \<notin> b" by auto
  then show ?thesis using assms Cons by (auto simp: sample_find_def sample_bits_def)
qed

lemma sample_map_ok: "bitmap_ok sample_map sample_bits"
proof -
  have "disk_sectors - sample_bits b = disk_sectors - b" for b by (auto simp: sample_bits_def)
  then have 1: "sample_bits (NewMap sample_map NumSectors) = {}"
    "NumClear sample_map b = int (card (disk_sectors - sample_bits b))" for b
    by (simp_all add: sample_map_def) (simp add: sample_bits_def)
  have 2: "FindBit sample_map = sample_find" by (simp add: sample_map_def)
  have 3: "(\<exists>b'. Mark sample_map n b = Inr b' \<and> sample_bits b' = insert n (sample_bits b)) \<and>
      (\<exists>b'. Clear sample_map n b = Inr b' \<and> sample_bits b' = sample_bits b - {n}) \<and>
      Test sample_map n b = Inr (n \<in> sample_bits b)" if "n \<in> disk_sectors" for n b
    using that by (auto simp: sample_map_def sample_bits_def)
  show ?thesis unfolding bitmap_ok_def 2 using 1 sample_find_ok 3 by (intro conjI allI ballI impI) blast+
qed

section \<open>The map in its file\<close>

definition map_byte :: "int set \<Rightarrow> nat \<Rightarrow> byte" where
  "map_byte b i = horner_sum of_bool 2 (List.map (\<lambda>j. int (8 * i + j) \<in> b) [0..<8])"

definition map_bytes :: "int set \<Rightarrow> byte list" where
  "map_bytes b = List.map (map_byte b) [0..<128]"

definition map_of_bytes :: "byte list \<Rightarrow> int set" where
  "map_of_bytes bs = {n \<in> disk_sectors. bit (bs ! (nat n div 8)) (nat n mod 8)}"

lemma map_of_map_bytes: "map_of_bytes (map_bytes b) = sample_bits b"
proof -
  have "bit (map_bytes b ! (nat n div 8)) (nat n mod 8) \<longleftrightarrow> n \<in> b" if "n \<in> disk_sectors" for n
  proof -
    have "nat n div 8 < 128"
      using that by (auto simp: NumSectors_def SectorsPerTrack_def NumTracks_def div_less_iff_less_mult)
    moreover have "int (8 * (nat n div 8) + nat n mod 8) = n" using that by (simp only: mult_div_mod_eq) simp
    ultimately show ?thesis
      by (simp add: map_bytes_def map_byte_def bit_horner_sum_bit_word_iff del: of_nat_add)
  qed
  then show ?thesis by (auto simp: map_of_bytes_def sample_bits_def)
qed

text \<open>The rest of the environment: what \<^verbatim>\<open>new\<close> leaves in memory is zero.\<close>

definition zero_header :: file_header where
  "zero_header = \<lparr>numBytes = 0, numSectors = 0, dataSectors = replicate NumDirect 0\<rparr>"

definition zero_entry :: directory_entry where
  "zero_entry = \<lparr>entry_name = replicate 10 0, inUseAndIsDir = 0, entry_pad = 0, entry_sector = 0\<rparr>"

definition sample_util :: utility where
  "sample_util = \<lparr>divRoundUp = (\<lambda>n s. (n + s - 1) div s), divRoundDown = (\<lambda>n s. n div s)\<rparr>"

definition sample_env :: "int set fs_env" where
  "sample_env = \<lparr>MapFetchFrom = (\<lambda>f st _. and_then (ReadSector (dataSectors (file_hdr f) ! 0) st) (\<lambda>bs. Inr (map_of_bytes bs))),
     MapWriteBack = (\<lambda>f b st. WriteSector (dataSectors (file_hdr f) ! 0) (map_bytes b) st),
     util = sample_util, fs_host = sample_host, maps = sample_map, fresh_header = (\<lambda>_. zero_header),
     fresh_table = replicate NumDirEntries zero_entry, fresh_buffer = (\<lambda>_. 0)\<rparr>"

lemma utility_sample: "utility_ok sample_util"
  by (simp add: utility_ok_def sample_util_def)

lemma map_file_sample: "map_file_ok sample_env sample_bits"
  unfolding map_file_ok_def
proof (intro allI impI)
  fix f :: openfile and b :: "int set" and st :: store
  assume f: "direct_ok (file_hdr f)" "numBytes (file_hdr f) = FreeMapFileSize" and st: "whole_sectors st"
  define s where "s = dataSectors (file_hdr f) ! 0"
  have "numSectors (file_hdr f) = 1" "length (dataSectors (file_hdr f)) = 30"
    using f by (auto simp: direct_ok_def sized_header_def header_ok_def header_counts FreeMapFileSize_def NumSectors_def
        SectorsPerTrack_def NumTracks_def)
  then have d: "direct_sectors (file_hdr f) = [s]" by (cases "dataSectors (file_hdr f)") (simp_all add: direct_sectors_def s_def)
  have s: "s \<in> disk_sectors" using f(1) by (simp add: direct_ok_def d)
  have len: "length (map_bytes b) = SectorSize" by (simp add: map_bytes_def SectorSize_def)
  have "MapWriteBack sample_env f b st = Inr (st(s := map_bytes b))"
    using s len by (simp add: sample_env_def WriteSector_def s_def)
  moreover have "map_stored sample_env sample_bits f (st(s := map_bytes b)) (sample_bits b)"
    using s by (auto simp: map_stored_def d sample_env_def ReadSector_def map_of_map_bytes sample_bits_def
        simp flip: s_def)
  moreover have "whole_sectors (st(s := map_bytes b))" using st len by (rule whole_sectors_update)
  ultimately show "\<exists>st'. MapWriteBack sample_env f b st = Inr st' \<and> whole_sectors st' \<and>
      (\<forall>x. x \<notin> set (direct_sectors (file_hdr f)) \<longrightarrow> st' x = st x) \<and> map_stored sample_env sample_bits f st' (sample_bits b)"
    by (simp add: d)
qed

lemma zero_header_ok: "header_ok zero_header"
  by (auto simp: header_ok_def zero_header_def header_words_def c_range_def)

lemma sample_env_ok: "env_ok sample_env sample_bits"
proof -
  have "entry_ok zero_entry" by (simp add: entry_ok_def zero_entry_def c_range_def)
  then show ?thesis
    using map_file_sample utility_sample sample_map_ok zero_header_ok
    by (simp add: env_ok_def) (simp add: sample_env_def)
qed

section \<open>A blank disk\<close>

definition blank_disk :: store where
  "blank_disk n = replicate SectorSize 0"

lemma blank_disk_whole: "whole_sectors blank_disk"
  by (simp add: whole_sectors_def blank_disk_def)

end
