(* ===== verification/Fs_Subdirectories.thy ===== *)
theory Fs_Subdirectories
  imports Fs_Operations
begin

text \<open>
  Directories inside directories: creation, moving down into the new one and up again, and why a
  directory is never removed.
\<close>

lemma DirectoryFileSize_eq: "DirectoryFileSize = 160"
  by (simp add: DirectoryFileSize_def sizeof_DirectoryEntry_def NumDirEntries_def)

lemma AddDirectory_succeeds:
  assumes "has_room d"
  obtains d' where "AddDirectory n s d = (True, d')"
  using take_entry_finds [of "drop 2 d" True n s] assms by (auto simp: AddDirectory_def has_room_def Let_def)

text \<open>A name found in the directory is the entry at its index.\<close>

lemma getTableAt_found:
  assumes "directory_map d (name_key n) = Some s"
  obtains e where "FindIndex n d \<noteq> - 1" and "getTableAt (FindIndex n d) d = Inr e" and "entry_sector e = s"
proof (cases rule: FindIndex_cases [of n d])
  case 1
  with assms show ?thesis by simp
next
  case (2 a e b)
  then show ?thesis using assms that [of e] by (simp add: getTableAt_def)
qed

section \<open>Changing the directory\<close>

lemma ChangeDirectory_ok:
  assumes env: "env_ok env bits" and n: "directory_map (currentDir fs) (name_key n) = Some s"
    and hdr: "FetchFrom (fs_host env) s (disk_store fs) = Inr dh" "dir_stored env dh (disk_store fs) dir"
  shows "ChangeDirectory env n fs = Inr (0, fs\<lparr>currentDir := dir\<rparr>)"
proof -
  obtain e where e: "FindIndex n (currentDir fs) \<noteq> - 1" "getTableAt (FindIndex n (currentDir fs)) (currentDir fs) = Inr e"
    "entry_sector e = s" by (rule getTableAt_found [OF n])
  obtain d where d: "Directory (fresh_table env) = Inr d" "length d = NumDirEntries" "\<forall>e \<in> set d. entry_ok e"
    by (rule Directory_new [OF env])
  then have "Directory_FetchFrom (util env) (fs_host env) dh (disk_store fs) d = Inr dir"
    using hdr(2) unfolding dir_stored_def by blast
  then show ?thesis using e d(1) hdr(1) by (simp add: ChangeDirectory_def Let_def OpenFile_def)
qed

text \<open>The directory entered is consistent when it lies on sectors of its own.\<close>

lemma fs_ok_change:
  assumes "fs_ok env bits marked dh fs" and "fresh_directory s t dir" and "FetchFrom (fs_host env) s (disk_store fs) = Inr dh'"
    and "dir_stored env dh' (disk_store fs) dir" and "volume_layout (file_hdr (freeMapFile fs)) s dh'"
    and "system_sectors (file_hdr (freeMapFile fs)) s dh' \<subseteq> marked"
  shows "fs_ok env bits marked dh' (fs\<lparr>currentDir := dir\<rparr>)"
  using assms by (simp add: fs_ok_def fresh_directory_def)

section \<open>Removing a directory\<close>

text \<open>The test for emptiness looks at the directory that contains the one to be removed.\<close>

lemma isEmpty_occupied:
  assumes "directory_ok d" and "directory_map d (name_key n) = Some s" and "name_key n \<notin> {[46], [46, 46]}"
    and "length d = NumDirEntries"
  shows "isEmpty d = Inr 0"
proof (cases rule: FindIndex_cases [of n d])
  case 1
  with assms(2) show ?thesis by simp
next
  case (2 a e b)
  have "length a \<noteq> 0" "length a \<noteq> 1"
    using assms(1,3) 2(4) unfolding directory_ok_def 2(1) by (auto simp: nth_append)
  then have "2 \<le> length a" by linarith
  then have "e \<in> set (drop 2 d)" by (simp add: 2(1))
  then show ?thesis using 2(3) assms(4) by (auto simp: isEmpty_def)
qed

lemma RemoveDirectory_refuses:
  assumes env: "env_ok env bits" and ok: "fs_ok env bits marked dh fs"
    and n: "directory_map (currentDir fs) (name_key n) = Some s" "name_key n \<notin> {[46], [46, 46]}"
    and hdr: "FetchFrom (fs_host env) s (disk_store fs) = Inr hdr"
  shows "RemoveDirectory env n fs = Inr (- 1, fs)"
proof -
  have "isEmpty (currentDir fs) = Inr 0"
    by (rule isEmpty_occupied [OF _ n]) (use ok in \<open>simp_all add: fs_ok_def\<close>)
  moreover obtain e where "FindIndex n (currentDir fs) \<noteq> - 1"
    "getTableAt (FindIndex n (currentDir fs)) (currentDir fs) = Inr e" "entry_sector e = s" by (rule getTableAt_found [OF n(1)])
  ultimately show ?thesis using hdr read_current_ok [OF env ok] by (simp add: RemoveDirectory_def Let_def)
qed

section \<open>Creating a directory\<close>

lemma CreateDirectory_ok:
  assumes env: "env_ok env bits" and ok: "fs_ok env bits marked dh fs"
    and new: "directory_map (currentDir fs) (name_key n) = None" and room: "has_room (currentDir fs)"
    and free: "3 \<le> card (disk_sectors - marked)"
  defines "cur \<equiv> entry_sector (currentDir fs ! 0)"
  shows "\<exists>fs' s hdr dir. CreateDirectory env n fs = Inr (0, fs') \<and>
    fs_ok env bits (marked \<union> insert s (set (direct_sectors hdr))) dh fs' \<and>
    insert s (set (direct_sectors hdr)) \<subseteq> disk_sectors - marked \<and>
    directory_map (currentDir fs') = (directory_map (currentDir fs))(name_key n \<mapsto> s) \<and>
    freeMapFile fs' = freeMapFile fs \<and> entry_sector (currentDir fs' ! 0) = cur \<and>
    FetchFrom (fs_host env) s (disk_store fs') = Inr hdr \<and> dir_stored env hdr (disk_store fs') dir \<and>
    fresh_directory s cur dir \<and> volume_layout (file_hdr (freeMapFile fs')) s hdr \<and>
    (\<forall>x \<in> marked - set (direct_sectors dh) - set (direct_sectors (file_hdr (freeMapFile fs))).
       disk_store fs' x = disk_store fs x)"
proof -
  let ?st = "disk_store fs" and ?dir = "currentDir fs" and ?mf = "freeMapFile fs" and ?h = "fs_host env"
  have u: "utility_ok (util env)" and B: "bitmap_ok (maps env) bits" and m: "map_file_ok env bits"
    and fresh: "\<And>i. header_ok (fresh_header env i)" using env by (simp_all add: env_ok_def)
  have inv: "whole_sectors ?st" "directory_ok ?dir" "length ?dir = NumDirEntries" "volume_layout (file_hdr ?mf) cur dh"
    "system_sectors (file_hdr ?mf) cur dh \<subseteq> marked" "FetchFrom ?h cur ?st = Inr dh"
    using ok by (simp_all add: fs_ok_def cur_def)
  have l: "direct_ok (file_hdr ?mf)" "numBytes (file_hdr ?mf) = FreeMapFileSize" "direct_ok dh"
    "numBytes dh = DirectoryFileSize" "cur \<in> disk_sectors" using inv(4) by (simp_all add: volume_layout_def)
  obtain b0 where b0: "fetch_map env fs = Inr b0" "bits b0 = marked" by (rule fs_ok_map [OF ok])
  obtain s b1 where fb: "FindBit (maps env) b0 = (s, b1)" by fastforce
  have "0 < card (free_sectors bits b0)" using free b0(2) by simp
  then have "free_sectors bits b0 \<noteq> {}" unfolding card_gt_0_iff by blast
  note s = bitmap_find [OF B fb this]
  have s': "s \<in> disk_sectors" "s \<notin> marked" using s(1) b0(2) by auto
  obtain dir where add: "AddDirectory n s ?dir = (True, dir)" by (rule AddDirectory_succeeds [OF room])
  note dir = AddDirectory_done [OF inv(2) add s'(1) new]
  have "(DirectoryFileSize + 127) div 128 \<le> int (card (free_sectors bits b1))"
    using free s(3) b0(2) by (simp add: DirectoryFileSize_eq)
  from AllocateDirectory_ok [OF B u fresh [of 0] _ _ this]
  obtain hdr b2 where al: "AllocateDirectory (util env) (maps env) DirectoryFileSize (fresh_header env 0) b1 = Inr (True, hdr, b2)"
    "direct_ok hdr" "numBytes hdr = DirectoryFileSize" "set (direct_sectors hdr) \<subseteq> free_sectors bits b1"
    "bits b2 = bits b1 \<union> set (direct_sectors hdr)" by (auto simp: DirectoryFileSize_eq)
  let ?area = "insert s (set (direct_sectors hdr))"
  have area: "?area \<subseteq> disk_sectors - marked" "s \<notin> set (direct_sectors hdr)" using s' al(4) s(2) b0(2) by auto
  have b2: "bits b2 = marked \<union> ?area" using al(5) s(2) b0(2) by auto
  have hdr_ok: "header_ok hdr" using al(2) by (simp add: direct_ok_def sized_header_def)
  define st1 where "st1 = ?st(s := header_bytes ?h hdr)"
  have 1: "WriteBack ?h s hdr ?st = Inr st1" unfolding st1_def by (rule WriteBack_header [OF hdr_ok s'(1)])
  have whole1: "whole_sectors st1" unfolding st1_def by (rule whole_sectors_update [OF inv(1) length_header_bytes [OF hdr_ok]])
  have sys: "system_sectors (file_hdr ?mf) cur dh \<inter> ?area = {}" using inv(5) area(1) by blast
  then have apart: "s \<notin> set (direct_sectors dh) \<union> set (direct_sectors (file_hdr ?mf))" "cur \<noteq> s" "cur \<notin> set (direct_sectors hdr)"
    "set (direct_sectors hdr) \<inter> (set (direct_sectors dh) \<union> set (direct_sectors (file_hdr ?mf))) = {}"
    by (auto simp: system_sectors_def)
  have cur_apart: "cur \<notin> set (direct_sectors dh) \<union> set (direct_sectors (file_hdr ?mf))"
    "set (direct_sectors dh) \<inter> set (direct_sectors (file_hdr ?mf)) = {}" using inv(4) by (simp_all add: volume_layout_def)
  have entries: "\<forall>e \<in> set dir. entry_ok e" "length dir = NumDirEntries"
    using dir(1,3) inv(3) by (simp_all add: directory_ok_def)
  have cur': "entry_sector (dir ! 0) = cur"
    using dir(4) inv(3) nth_take [of 0 2 dir] nth_take [of 0 2 ?dir] by (simp add: cur_def)
  then have get: "getSector dir = Inr cur" using entries(2) by (simp add: getSector_def getTableAt_def NumDirEntries_def)
  have fetch1: "FetchFrom ?h cur st1 = Inr dh" using inv(6) apart(2) FetchFrom_frame [of st1 cur ?st] by (simp add: st1_def)
  obtain st2 where 2: "Directory_WriteBack (util env) ?h dh (fresh_buffer env) dir st1 = Inr st2"
    "whole_sectors st2" "\<forall>x. x \<notin> set (direct_sectors dh) \<longrightarrow> st2 x = st1 x" "dir_stored env dh st2 dir"
    by (rule dir_write [OF u l(3,4) whole1 entries])
  have cur_write: "write_current env dir st1 = Inr st2" using get fetch1 2(1) by (simp add: write_current_def OpenFile_def)
  obtain d0 where d0: "Directory (fresh_table env) = Inr d0"
    "\<forall>s \<in> disk_sectors. \<forall>t \<in> disk_sectors. fresh_directory s t (set_sector 1 t (set_sector 0 s d0))"
    by (rule Directory_new [OF env])
  define newDir where "newDir = set_sector 1 cur (set_sector 0 s d0)"
  have new_dir: "fresh_directory s cur newDir" using d0(2) s'(1) l(5) unfolding newDir_def by blast
  then have new_entries: "\<forall>e \<in> set newDir. entry_ok e" "length newDir = NumDirEntries"
    by (simp_all add: fresh_directory_def directory_ok_def)
  have "st2 s = header_bytes ?h hdr" using 2(3) apart(1) by (simp add: st1_def)
  note fetch2 = FetchFrom_written [where st = st2, OF hdr_ok s'(1) this]
  obtain st3 where 3: "Directory_WriteBack (util env) ?h hdr (fresh_buffer env) newDir st2 = Inr st3"
    "whole_sectors st3" "\<forall>x. x \<notin> set (direct_sectors hdr) \<longrightarrow> st3 x = st2 x" "dir_stored env hdr st3 newDir"
    by (rule dir_write [OF u al(2,3) 2(2) new_entries])
  obtain st4 where 4: "MapWriteBack env ?mf b2 st3 = Inr st4" "whole_sectors st4"
    "\<forall>x. x \<notin> set (direct_sectors (file_hdr ?mf)) \<longrightarrow> st4 x = st3 x" "map_stored env bits ?mf st4 (bits b2)"
    by (rule map_write [OF m l(1,2) 3(2)])
  define fs' where "fs' = fs\<lparr>currentDir := dir, disk_store := st4\<rparr>"
  have run: "CreateDirectory env n fs = Inr (0, fs')"
  proof -
    have "Find n ?dir = - 1" using new by (simp add: Find_map)
    moreover have "s \<noteq> - 1" using s'(1) by auto
    moreover have "set_sector (Suc 0) cur (set_sector 0 s d0) = newDir" by (simp add: newDir_def)
    ultimately show ?thesis
      using add al(1) 1 cur_write d0(1) get fetch2 3(1) 4(1)
      by (simp add: CreateDirectory_def b0(1) fb OpenFile_def fs'_def)
  qed
  have "st4 s = st2 s" using 3(3) 4(3) apart(1) area(2) by simp
  then have fetch4: "FetchFrom ?h s st4 = Inr hdr" using fetch2 FetchFrom_frame by metis
  have "st4 cur = st1 cur" using 2(3) 3(3) 4(3) cur_apart(1) apart(3) by simp
  then have cur4: "FetchFrom ?h cur st4 = Inr dh" using fetch1 FetchFrom_frame by metis
  have "\<forall>x \<in> set (direct_sectors dh). st4 x = st2 x" using 3(3) 4(3) cur_apart(2) apart(4) by (metis IntI UnCI empty_iff)
  note stored = dir_stored_frame [OF u 2(4) l(3) 2(2) 4(2) this]
  have "\<forall>x \<in> set (direct_sectors hdr). st4 x = st3 x" using 4(3) apart(4) by blast
  note new_stored = dir_stored_frame [OF u 3(4) al(2) 3(2) 4(2) this]
  have "fs_ok env bits (marked \<union> ?area) dh fs'"
    using dir(1) entries(2) inv(4,5) cur4 stored 4(2,4) cur' b2 by (auto simp: fs_ok_def fs'_def)
  moreover have "volume_layout (file_hdr ?mf) s hdr"
    using l(1,2) al(2,3) s'(1) apart area(2) by (auto simp: volume_layout_def)
  moreover have "st4 x = ?st x" if "x \<in> marked - set (direct_sectors dh) - set (direct_sectors (file_hdr ?mf))" for x
  proof -
    have "x \<noteq> s" "x \<notin> set (direct_sectors hdr)" using that area(1) by auto
    then show ?thesis using that 2(3) 3(3) 4(3) by (simp add: st1_def)
  qed
  ultimately show ?thesis
    using run area(1) dir(2) cur' fetch4 new_stored new_dir
    by (intro exI [of _ fs'] exI [of _ s] exI [of _ hdr] exI [of _ newDir] conjI ballI) (simp_all add: fs'_def)
qed

end
