(* ===== verification/Fs_Properties.thy ===== *)
theory Fs_Properties
  imports Fs_Sample Fs_Subdirectories Interrupt_Properties
begin

text \<open>
  The claims about the file system: files, allocation, directories, and the operations on a
  whole volume.
\<close>

section \<open>Files\<close>

text \<open>The sectors of a file in the order of its bytes, in either mode, and when a file is well formed.\<close>

definition file_sectors :: "host \<Rightarrow> bool \<Rightarrow> file_header \<Rightarrow> store \<Rightarrow> int list" where
  "file_sectors h table hdr st = (if table then indirect_sectors h hdr st else direct_sectors hdr)"

definition file_ok :: "host \<Rightarrow> bool \<Rightarrow> file_header \<Rightarrow> store \<Rightarrow> bool" where
  "file_ok h table hdr st \<longleftrightarrow> (if table then indirect_ok h hdr st else direct_ok hdr) \<and> whole_sectors st"

definition file_content :: "host \<Rightarrow> bool \<Rightarrow> file_header \<Rightarrow> store \<Rightarrow> byte list" where
  "file_content h table hdr st = file_bytes (file_sectors h table hdr st) (nat (numBytes hdr)) st"

lemma file_content_table: "file_content h True hdr st = indirect.content h hdr st"
  by (simp add: file_content_def file_sectors_def indirect.content_def)

lemma file_small: "file_ok h table hdr st \<Longrightarrow> numBytes hdr \<le> 960 * 128"
  by (cases table) (auto simp: file_ok_def direct_ok_def indirect_ok_def sized_header_def header_counts)

text \<open>
  C22. An open file is an array of bytes of fixed length, whether its header names its sectors
  itself (mode 0) or through a table (mode 1). A write at any position, aligned or not, changes
  exactly the bytes of the request that lie inside the file, reports how many they are, touches no
  sector of any other file, and a read returns the bytes of its range, clipped in the same way.
\<close>

theorem file_write_then_read:
  assumes f: "file_ok h table hdr st" and u: "utility_ok u"
    and w: "0 \<le> p" "p + n < 2 ^ 31" "- (2 ^ 31) \<le> n" "n \<le> int (length src)"
    and r: "0 \<le> q" "q + m < 2 ^ 31" "- (2 ^ 31) \<le> m"
  defines "k \<equiv> min (nat n) (nat (numBytes hdr) - nat p)"
  shows "\<exists>st'. WriteAt u h hdr fresh src n p (of_bool table) st = Inr (int k, st') \<and> file_ok h table hdr st' \<and>
    file_content h table hdr st' = splice (nat p) (take k src) (file_content h table hdr st) \<and>
    (\<forall>x. x \<notin> set (file_sectors h table hdr st) \<longrightarrow> st' x = st x) \<and>
    (let range = take (nat m) (drop (nat q) (file_content h table hdr st'))
     in ReadAt u h hdr m q (of_bool table) st' = Inr (int (length range), range))"
proof -
  have small: "numBytes hdr + 128 < 2 ^ 31" using file_small [OF f] by simp
  show ?thesis
  proof (cases table)
    case True
    with f have "indirect_ok h hdr st \<and> whole_sectors st" by (simp add: file_ok_def)
    from indirect.WriteAt_splice [OF this u w(1-4) small, of fresh, folded k_def] obtain st' where
      "WriteAt u h hdr fresh src n p 1 st = Inr (int k, st')" and i: "indirect_ok h hdr st' \<and> whole_sectors st'"
      "indirect_sectors h hdr st' = indirect_sectors h hdr st"
      "indirect.content h hdr st' = splice (nat p) (take k src) (indirect.content h hdr st)"
      "\<forall>x. x \<notin> set (indirect_sectors h hdr st) \<longrightarrow> st' x = st x" by blast
    moreover note indirect.ReadAt_slice [OF i(1) u r]
    ultimately show ?thesis
      using True by (intro exI [of _ st']) (simp add: file_ok_def file_sectors_def file_content_def indirect.content_def Let_def)
  next
    case False
    with f have "direct_ok hdr \<and> whole_sectors st" by (simp add: file_ok_def)
    from direct.WriteAt_splice [OF this u w(1-4) small, of h fresh, folded k_def] obtain st' where
      "WriteAt u h hdr fresh src n p 0 st = Inr (int k, st')" and i: "direct_ok hdr \<and> whole_sectors st'"
      "direct.content hdr st' = splice (nat p) (take k src) (direct.content hdr st)"
      "\<forall>x. x \<notin> set (direct_sectors hdr) \<longrightarrow> st' x = st x" by blast
    moreover note direct.ReadAt_slice [OF i(1) u r, of h]
    ultimately show ?thesis
      using False by (intro exI [of _ st']) (simp add: file_ok_def file_sectors_def file_content_def direct.content_def Let_def)
  qed
qed

text \<open>A file of 200 bytes in sectors 6 and 7, named by the table in sector 5.\<close>

definition sample_header :: file_header where
  "sample_header = \<lparr>numBytes = 200, numSectors = 2, dataSectors = 5 # replicate 29 0\<rparr>"

definition sample_table :: file_header where
  "sample_table = \<lparr>numBytes = 6, numSectors = 7, dataSectors = replicate 30 0\<rparr>"

definition sample_store :: store where
  "sample_store = blank_disk(5 := header_bytes sample_host sample_table)"

lemma sample_table_ok: "header_ok sample_table"
  by (auto simp: header_ok_def sample_table_def header_words_def header_counts c_range_def)

lemma sample_sectors: "indirect_sectors sample_host sample_header sample_store = [6, 7]"
proof -
  have e: "table_entry sample_host sample_header sample_store k = header_words sample_table ! k" if "k < 32" for k
    using that header_of_header_bytes [OF sample_table_ok] by (simp add: table_entry_def sample_header_def sample_store_def)
  have "nat (numSectors sample_header) = Suc (Suc 0)" by (simp add: sample_header_def)
  then show ?thesis using e [of 0] e [of 1] by (simp add: indirect_sectors_def) (simp add: header_words_def sample_table_def)
qed

lemma sample_file_ok: "file_ok sample_host True sample_header sample_store"
proof -
  have "header_ok sample_header"
    by (auto simp: header_ok_def sample_header_def header_words_def header_counts c_range_def)
  moreover have "table_sectors sample_header = [5]"
    by (simp add: table_sectors_def table_length_def sample_header_def)
  moreover have "whole_sectors sample_store"
    unfolding sample_store_def by (rule whole_sectors_update [OF blank_disk_whole length_header_bytes [OF sample_table_ok]])
  ultimately show ?thesis
    by (simp add: file_ok_def indirect_ok_def sample_sectors sized_header_def)
      (simp add: sample_header_def NumSectors_def SectorsPerTrack_def NumTracks_def)
qed

lemma sample_content: "file_content sample_host True sample_header sample_store = replicate 200 0"
proof (rule nth_equalityI)
  have n: "numBytes sample_header = 200" by (simp add: sample_header_def)
  have st: "sample_store 6 = replicate 128 0" "sample_store 7 = replicate 128 0"
    by (simp_all add: sample_store_def blank_disk_def SectorSize_def)
  show "length (file_content sample_host True sample_header sample_store) = length (replicate 200 (0 :: byte))"
    by (simp add: file_content_def n)
  fix p
  assume "p < length (file_content sample_host True sample_header sample_store)"
  then have p: "p < 200" by (simp add: file_content_def n)
  then have "p div 128 = 0 \<or> p div 128 = 1" by arith
  then show "file_content sample_host True sample_header sample_store ! p = replicate 200 0 ! p"
    using p by (auto simp: file_content_def file_sectors_def sample_sectors nth_file_bytes n st SectorSize_def)
qed

lemma file_write_then_read_witness:
  "\<exists>st'. WriteAt sample_util sample_host sample_header (\<lambda>_. 0) [1, 2, 3] 3 127 1 sample_store = Inr (3, st') \<and>
    ReadAt sample_util sample_host sample_header 5 126 1 st' = Inr (5, [0, 1, 2, 3, 0])"
proof -
  have "take 5 (drop 126 (splice 127 [1, 2, 3] (replicate 200 (0 :: byte)))) = [0, 1, 2, 3, 0]"
    by (simp add: splice_def)
  with file_write_then_read [OF sample_file_ok utility_sample, where p = 127 and n = 3 and src = "[1, 2, 3]" and
      q = 126 and m = 5 and fresh = "\<lambda>_. 0"]
  show ?thesis unfolding sample_content by (auto simp: sample_header_def)
qed

section \<open>Allocation\<close>

text \<open>
  C23. \<open>Allocate\<close> makes a file. When enough sectors are free it records the size, takes
  sectors that were free, each once, for the table and the data, marks exactly those, writes only
  the sectors of the table, and the header it leaves names the whole file. When fewer sectors are
  free than the data takes, it refuses and nothing changes.
\<close>

theorem Allocate_takes_free_sectors:
  assumes "bitmap_ok B bits" and "utility_ok u" and "header_ok hdr" and "\<And>i. header_ok (fresh i)"
    and "0 \<le> fileSize" and "fileSize \<le> 960 * 128"
  defines "n \<equiv> nat ((fileSize + 127) div 128)"
  shows "(card (free_sectors bits b) < n \<longrightarrow> (\<exists>hdr'. Allocate u h B fresh fileSize hdr b st = Inr (False, hdr', b, st))) \<and>
    ((n + 31) div 32 + n \<le> card (free_sectors bits b) \<longrightarrow>
      (\<exists>hdr' b' st'. Allocate u h B fresh fileSize hdr b st = Inr (True, hdr', b', st') \<and>
        numBytes hdr' = fileSize \<and> indirect_ok h hdr' st' \<and>
        distinct (table_sectors hdr' @ indirect_sectors h hdr' st') \<and>
        set (table_sectors hdr' @ indirect_sectors h hdr' st') \<subseteq> free_sectors bits b \<and>
        bits b' = bits b \<union> set (table_sectors hdr' @ indirect_sectors h hdr' st') \<and>
        (\<forall>x. x \<notin> set (table_sectors hdr') \<longrightarrow> st' x = st x)))"
proof (intro conjI impI)
  assume "card (free_sectors bits b) < n"
  then show "\<exists>hdr'. Allocate u h B fresh fileSize hdr b st = Inr (False, hdr', b, st)"
    using assms(5) by (simp add: Allocate_def utility_up [OF assms(2,5)] bitmap_NumClear [OF assms(1)] n_def Let_def
        zless_nat_eq_int_zless)
next
  assume "(n + 31) div 32 + n \<le> card (free_sectors bits b)"
  from Allocate_ok [where h = h and st = st and fresh = fresh, OF assms(1-6) this [unfolded n_def]] obtain hdr' b' st' where
    "Allocate u h B fresh fileSize hdr b st = Inr (True, hdr', b', st')" "indirect_ok h hdr' st'"
    "numBytes hdr' = fileSize" "set (table_sectors hdr' @ indirect_sectors h hdr' st') \<subseteq> free_sectors bits b"
    "bits b' = bits b \<union> set (table_sectors hdr' @ indirect_sectors h hdr' st')"
    "\<forall>x. x \<notin> set (table_sectors hdr') \<longrightarrow> st' x = st x" by (elim exE conjE)
  then show "\<exists>hdr' b' st'. Allocate u h B fresh fileSize hdr b st = Inr (True, hdr', b', st') \<and>
        numBytes hdr' = fileSize \<and> indirect_ok h hdr' st' \<and>
        distinct (table_sectors hdr' @ indirect_sectors h hdr' st') \<and>
        set (table_sectors hdr' @ indirect_sectors h hdr' st') \<subseteq> free_sectors bits b \<and>
        bits b' = bits b \<union> set (table_sectors hdr' @ indirect_sectors h hdr' st') \<and>
        (\<forall>x. x \<notin> set (table_sectors hdr') \<longrightarrow> st' x = st x)"
    unfolding indirect_ok_def by (intro exI [of _ hdr'] exI [of _ b'] exI [of _ st'] conjI) (elim conjE, assumption)+
qed

lemma Allocate_takes_free_sectors_witness:
  "\<exists>hdr b' st'. Allocate sample_util sample_host sample_map (\<lambda>_. zero_header) 200 zero_header {0, 1} blank_disk =
      Inr (True, hdr, b', st') \<and> 0 \<notin> set (indirect_sectors sample_host hdr st')"
proof -
  have "sample_bits {0, 1} = {0, 1}" by (auto simp: sample_bits_def NumSectors_def SectorsPerTrack_def NumTracks_def)
  moreover have "4 \<le> card (free_sectors (\<lambda>b. b) {0, 1})"
    using card_free_initial [of "{0, 1}"] by (auto simp: card_insert_if)
  ultimately show ?thesis
    using Allocate_takes_free_sectors [OF sample_map_ok utility_sample zero_header_ok zero_header_ok, of 200 "{0, 1}" sample_host blank_disk]
    by auto
qed

text \<open>
  Removing a file gives back the sectors of its table only. \<open>Deallocate\<close> succeeds on every
  well-formed file, clears exactly the bits of the table, and leaves every data sector marked: its
  loop over a table tests \<^verbatim>\<open>i != 0\<close> with \<open>i = 0\<close>.
\<close>

lemma Deallocate_keeps_data:
  assumes "bitmap_ok B bits" and "utility_ok u" and "indirect_ok h hdr st"
    and "set (indirect_sectors h hdr st) \<subseteq> bits b"
  shows "\<exists>b'. Deallocate u h B hdr st b = Inr b' \<and> bits b' = bits b - set (table_sectors hdr) \<and>
    set (indirect_sectors h hdr st) \<subseteq> bits b'"
  using Deallocate_ok [OF assms(1-3), of b] assms(3,4) by (fastforce simp: indirect_ok_def)

text \<open>
  C24. The check for free space counts the data sectors but not the table. With a single sector
  free, \<open>Allocate\<close> gives it to the table, reports success, and records -1 as the data sector; any
  read of the file then fails an assertion.
\<close>

theorem Allocate_forgets_table:
  assumes B: "bitmap_ok B bits" and u: "utility_ok u" and hdr: "header_ok hdr" and fresh: "header_ok (fresh 0)"
    and free: "free_sectors bits b = {x}" and size: "0 < fileSize" "fileSize \<le> 128"
  shows "\<exists>hdr' b' st'. Allocate u h B fresh fileSize hdr b st = Inr (True, hdr', b', st') \<and>
    table_sectors hdr' = [x] \<and> indirect_sectors h hdr' st' = [- 1] \<and>
    ReadAt u h hdr' 1 0 1 st' = Inl AssertionFailed"
proof -
  have n: "(fileSize + 127) div 128 = 1" using size by auto
  obtain b1 where 1: "FindBit B b = (x, b1)" "free_sectors bits b1 = {}"
  proof (cases "FindBit B b")
    case (Pair y b1)
    then have "y \<in> free_sectors bits b" "bits b1 = insert y (bits b)" using bitmap_find [OF B Pair] free by auto
    then show thesis using that Pair free by auto
  qed
  obtain b2 where 2: "FindBit B b1 = (- 1, b2)"
    using bitmap_full [OF B _ 1(2)] by (cases "FindBit B b1") auto
  have x: "x \<in> disk_sectors" using free by auto
  have len: "length (dataSectors hdr) = 30" using hdr by (simp add: header_ok_def header_counts)
  let ?t = "fill_header [- 1] (fresh 0)"
  have t: "header_ok ?t" by (rule fill_header_ok [OF fresh]) (simp_all add: c_range_def)
  let ?hdr = "hdr\<lparr>numBytes := fileSize, numSectors := 1, dataSectors := (dataSectors hdr)[0 := x]\<rparr>"
  have run: "Allocate u h B fresh fileSize hdr b st = Inr (True, ?hdr, b2, st(x := header_bytes h ?t))"
  proof -
    have "table_size u 1 = Suc 0" using table_size_eq [OF u, of 1] by simp
    moreover have "find_many B (nat (min 1 (int IntsPerSector))) b1 = ([- 1], b2)"
      using 2 by (simp add: header_counts)
    moreover have "divRoundUp u fileSize (int SectorSize) = 1" using utility_up [OF u] size n by simp
    moreover have "NumClear B b = 1" by (simp add: bitmap_NumClear [OF B] free)
    ultimately show ?thesis using 1(1) WriteBack_header [OF t x] by (simp add: Allocate_def header_counts)
  qed
  have fetch: "FetchFrom h x (st(x := header_bytes h ?t)) = Inr ?t" by (rule FetchFrom_written [OF t x]) simp
  have w: "header_words ?t ! 0 = - 1" using fill_header_words [OF fresh, of "[- 1]"] by simp
  have "table_sectors ?hdr = [x]" using len by (cases "dataSectors hdr") (simp_all add: table_sectors_def table_length_def)
  moreover have "indirect_sectors h ?hdr (st(x := header_bytes h ?t)) = [- 1]"
    using w len header_of_header_bytes [OF t, of h] by (cases "dataSectors hdr") (simp_all add: indirect_sectors_def table_entry_def)
  moreover have "ReadAt u h ?hdr 1 0 1 (st(x := header_bytes h ?t)) = Inl AssertionFailed"
    using size fetch w len
    by (cases "dataSectors hdr")
      (simp_all add: ReadAt_def FileLength_def clip_def narrow_small utility_down [OF u] ByteToSector_def header_counts
        ReadSector_def eval_nat_numeral)
  ultimately show ?thesis using run by blast
qed

lemma Allocate_forgets_table_witness:
  "\<exists>hdr b' st'. Allocate sample_util sample_host sample_map (\<lambda>_. zero_header) 100 zero_header (disk_sectors - {9}) blank_disk =
      Inr (True, hdr, b', st') \<and> ReadAt sample_util sample_host hdr 1 0 1 st' = Inl AssertionFailed"
proof -
  have "free_sectors sample_bits (disk_sectors - {9}) = {9}"
    by (auto simp: sample_bits_def NumSectors_def SectorsPerTrack_def NumTracks_def)
  from Allocate_forgets_table [OF sample_map_ok utility_sample zero_header_ok zero_header_ok this, of 100]
  show ?thesis by fastforce
qed

section \<open>Directories\<close>

lemma directory_map_sector:
  assumes "directory_ok d" and "directory_map d k = Some s"
  shows "0 \<le> s"
proof -
  have "s \<in> entry_sector ` {e \<in> set d. in_use e}"
    using map_of_SomeD [OF assms(2) [unfolded directory_map_def]] by auto
  then show ?thesis using assms(1) by (auto simp: directory_ok_def)
qed

text \<open>
  C25. A directory is a finite map from names, of which nine characters count, to sectors:
  \<open>Find\<close> looks a name up, \<open>Add\<close> and \<open>Directory_Remove\<close> insert and delete one and leave all others,
  an existing name is refused, and \<open>Add\<close> then \<open>Directory_Remove\<close> restores the map. The entries of the
  directory itself and of its parent stay.
\<close>

theorem directory_is_map:
  assumes "directory_ok d" and "s \<in> disk_sectors" and "name_key n \<notin> {[46], [46, 46]}"
  shows "Find n d = (case directory_map d (name_key n) of None \<Rightarrow> - 1 | Some s \<Rightarrow> s) \<and>
    (case Add n s d of (added, d') \<Rightarrow>
       (if added
        then directory_ok d' \<and> Find n d = - 1 \<and> (\<forall>m. Find m d' = (if name_key m = name_key n then s else Find m d)) \<and>
          (case Directory_Remove n d' of (removed, d'') \<Rightarrow> removed \<and> directory_map d'' = directory_map d)
        else d' = d)) \<and>
    (case Directory_Remove n d of (removed, d') \<Rightarrow>
       directory_ok d' \<and> removed = (Find n d \<noteq> - 1) \<and>
       (\<forall>m. Find m d' = (if name_key m = name_key n then - 1 else Find m d)))"
proof (intro conjI)
  show "Find n d = (case directory_map d (name_key n) of None \<Rightarrow> - 1 | Some s \<Rightarrow> s)"
    by (rule directory.find_abs [OF assms(1)])
  obtain added d' where a: "Add n s d = (added, d')" by fastforce
  obtain b d'' where r: "Directory_Remove n d' = (b, d'')" by fastforce
  show "case Add n s d of (added, d') \<Rightarrow>
       (if added
        then directory_ok d' \<and> Find n d = - 1 \<and> (\<forall>m. Find m d' = (if name_key m = name_key n then s else Find m d)) \<and>
          (case Directory_Remove n d' of (removed, d'') \<Rightarrow> removed \<and> directory_map d'' = directory_map d)
        else d' = d)"
  proof (cases added)
    case True
    have add: "Add n s d = (True, d')" using a True by simp
    show ?thesis
      using True add r directory.add_done [OF assms(1) add assms(2)] directory.find_added [OF assms(1) add assms(2)]
        directory.remove_added [OF assms(1) add assms(2,3) r] by simp
  next
    case False
    then show ?thesis using a directory.add_refused by simp
  qed
  obtain b1 d1 where r1: "Directory_Remove n d = (b1, d1)" by fastforce
  have "Find n d \<noteq> - 1 \<longleftrightarrow> directory_map d (name_key n) \<noteq> None"
    using directory.find_abs [OF assms(1), of n] directory_map_sector [OF assms(1)] by (fastforce split: option.splits)
  then show "case Directory_Remove n d of (removed, d') \<Rightarrow>
       directory_ok d' \<and> removed = (Find n d \<noteq> - 1) \<and>
       (\<forall>m. Find m d' = (if name_key m = name_key n then - 1 else Find m d))"
    using r1 directory.remove_done [OF assms(1,3) r1] directory.find_removed [OF assms(1,3) r1] by simp
qed

lemma directory_is_map_witness:
  "\<exists>d d'. Directory (fresh_table sample_env) = Inr d \<and>
    Add [97] 7 (set_sector 1 1 (set_sector 0 1 d)) = (True, d') \<and> Find [97] d' = 7 \<and> Find [98] d' = - 1 \<and>
    fst (Directory_Remove [97] d')"
proof -
  have sec: "1 \<in> disk_sectors" "7 \<in> disk_sectors" by (simp_all add: NumSectors_def SectorsPerTrack_def NumTracks_def)
  have name: "name_key [97] = [97]" "name_key [98] = [98]" by (simp_all add: name_key_def cstring_def FileNameMaxLen_def)
  obtain d where d: "Directory (fresh_table sample_env) = Inr d"
    "\<forall>s \<in> disk_sectors. \<forall>t \<in> disk_sectors. fresh_directory s t (set_sector 1 t (set_sector 0 s d))"
    by (rule Directory_new [OF sample_env_ok])
  let ?d = "set_sector 1 1 (set_sector 0 1 d)"
  have f: "fresh_directory 1 1 ?d" using d(2) sec(1) by blast
  then obtain d' where add: "Add [97] 7 ?d = (True, d')"
    using Add_succeeds [of ?d "[97]" 7] name by (auto simp: fresh_directory_def)
  have "directory_ok ?d" "Find [98] ?d = - 1" using f name by (simp_all add: fresh_directory_def Find_map)
  then show ?thesis
    using directory_is_map [of ?d 7 "[97]"] sec(2) name add d(1) by (auto split: prod.splits)
qed

section \<open>Volumes\<close>

text \<open>
  C26. Formatting makes a consistent file system. From any disk of whole sectors it succeeds: the
  free map and the root directory are stored in files of their own, exactly the sectors of these
  files and of their headers are marked, and the root directory is its own parent and otherwise
  empty. Mounting the disk afterwards gives the same file system.
\<close>

theorem format_makes_volume:
  assumes "env_ok env bits" and "whole_sectors st"
  shows "\<exists>fs marked. FileSystem env True st = Inr fs \<and>
    fs_ok env bits marked (file_hdr (directoryFile fs)) fs \<and>
    marked = {FreeMapSector, RootSector} \<union> set (direct_sectors (file_hdr (freeMapFile fs))) \<union>
      set (direct_sectors (file_hdr (directoryFile fs))) \<and>
    directory_map (currentDir fs) = [[46] \<mapsto> RootSector, [46, 46] \<mapsto> RootSector] \<and>
    FileSystem env False (disk_store fs) = Inr fs"
proof -
  obtain fs marked where f: "FileSystem env True st = Inr fs"
    "fs_ok env bits marked (file_hdr (directoryFile fs)) fs"
    "marked = {FreeMapSector, RootSector} \<union> set (direct_sectors (file_hdr (freeMapFile fs))) \<union>
      set (direct_sectors (file_hdr (directoryFile fs)))"
    "directory_map (currentDir fs) = [[46] \<mapsto> RootSector, [46, 46] \<mapsto> RootSector]"
    "FileSystem env False (disk_store fs) = Inr fs"
    using format_ok [OF assms] by blast
  then show ?thesis by blast
qed

lemma format_makes_volume_witness:
  "\<exists>fs. FileSystem sample_env True blank_disk = Inr fs \<and> FileSystem sample_env False (disk_store fs) = Inr fs \<and>
    Find [46] (currentDir fs) = 1"
proof -
  obtain fs marked where "FileSystem sample_env True blank_disk = Inr fs" "FileSystem sample_env False (disk_store fs) = Inr fs"
    "fs_ok sample_env sample_bits marked (file_hdr (directoryFile fs)) fs"
    "directory_map (currentDir fs) = [[46] \<mapsto> RootSector, [46, 46] \<mapsto> RootSector]"
    using format_makes_volume [OF sample_env_ok blank_disk_whole] by blast
  moreover have "name_key [46] = [46]" by (simp add: name_key_def cstring_def FileNameMaxLen_def)
  ultimately show ?thesis by (auto simp: fs_ok_def Find_map RootSector_def)
qed

text \<open>
  C27. A file created can be opened, and nothing else changes. In a consistent volume with a free
  entry in the directory and room on the disk, \<open>Create\<close> of a new name succeeds and keeps the volume
  consistent; \<open>Open\<close> of that name then gives a well-formed file of the requested length, on
  sectors that were free; every other name is found as before, and every other file keeps its
  header and its bytes.
\<close>

theorem Create_then_Open:
  assumes env: "env_ok env bits" and ok: "fs_ok env bits marked dh fs"
    and new: "Find n (currentDir fs) = - 1" and room: "has_room (currentDir fs)"
    and size: "0 \<le> sz" "sz \<le> 960 * 128" and free: "sectors_needed sz \<le> card (disk_sectors - marked)"
  shows "\<exists>fs' s hdr. Create env n sz fs = Inr (True, fs') \<and>
    Open env n fs' = Inr (Some \<lparr>file_hdr = hdr, seekPosition = 0\<rparr>) \<and> FileLength hdr = sz \<and>
    file_ok (fs_host env) True hdr (disk_store fs') \<and>
    file_area env fs' s hdr \<subseteq> disk_sectors - marked \<and>
    fs_ok env bits (marked \<union> file_area env fs' s hdr) dh fs' \<and>
    (\<forall>m. name_key m \<noteq> name_key n \<longrightarrow> Find m (currentDir fs') = Find m (currentDir fs)) \<and>
    (\<forall>s2 hdr2. file_at env fs s2 hdr2 \<longrightarrow>
       file_area env fs s2 hdr2 \<subseteq>
         marked - system_sectors (file_hdr (freeMapFile fs)) (entry_sector (currentDir fs ! 0)) dh \<longrightarrow>
       file_at env fs' s2 hdr2 \<and>
       file_content (fs_host env) True hdr2 (disk_store fs') = file_content (fs_host env) True hdr2 (disk_store fs))"
proof -
  have dok: "directory_ok (currentDir fs)" using ok by (simp add: fs_ok_def)
  have "directory_map (currentDir fs) (name_key n) = None"
    using new Find_map [of n] directory_map_sector [OF dok] by (fastforce split: option.splits)
  from Create_ok [OF env ok this room size free] obtain fs' s hdr where
    c: "Create env n sz fs = Inr (True, fs')" "file_at env fs' s hdr" "numBytes hdr = sz"
    "file_area env fs' s hdr \<subseteq> disk_sectors - marked" "fs_ok env bits (marked \<union> file_area env fs' s hdr) dh fs'"
    "directory_map (currentDir fs') = (directory_map (currentDir fs))(name_key n \<mapsto> s)"
    "\<forall>x \<in> marked - set (direct_sectors dh) - set (direct_sectors (file_hdr (freeMapFile fs))).
       disk_store fs' x = disk_store fs x" by blast
  have dok': "directory_ok (currentDir fs')" and whole: "whole_sectors (disk_store fs')"
    using c(5) by (simp_all add: fs_ok_def)
  have "Open env n fs' = Inr (Some \<lparr>file_hdr = hdr, seekPosition = 0\<rparr>)"
    using c(2,6) Open_ok [OF env c(5), of n] by (simp add: file_at_def OpenFile_def)
  moreover have "file_ok (fs_host env) True hdr (disk_store fs')"
    using c(2) whole by (simp add: file_at_def file_ok_def)
  moreover have "Find m (currentDir fs') = Find m (currentDir fs)" if "name_key m \<noteq> name_key n" for m
    using that c(6) by (simp add: Find_map Find_map)
  moreover have "file_at env fs' s2 hdr2 \<and>
      file_content (fs_host env) True hdr2 (disk_store fs') = file_content (fs_host env) True hdr2 (disk_store fs)"
    if "file_at env fs s2 hdr2" "file_area env fs s2 hdr2 \<subseteq>
         marked - system_sectors (file_hdr (freeMapFile fs)) (entry_sector (currentDir fs ! 0)) dh" for s2 hdr2
  proof -
    have "\<forall>x \<in> file_area env fs s2 hdr2. disk_store fs' x = disk_store fs x"
      using c(7) that(2) unfolding system_sectors_def by blast
    from file_frame [OF that(1) this] show ?thesis by (simp add: file_content_table)
  qed
  ultimately show ?thesis using c(1,3,4,5) unfolding FileLength_def by blast
qed

text \<open>The sample volume: a blank disk, formatted.\<close>

lemma sample_volume:
  obtains fs marked dh where "FileSystem sample_env True blank_disk = Inr fs" and "fs_ok sample_env sample_bits marked dh fs"
    and "directory_map (currentDir fs) = [[46] \<mapsto> RootSector, [46, 46] \<mapsto> RootSector]" and "has_room (currentDir fs)"
    and "1000 \<le> card (disk_sectors - marked)"
proof -
  obtain fs marked where f: "FileSystem sample_env True blank_disk = Inr fs"
    "fs_ok sample_env sample_bits marked (file_hdr (directoryFile fs)) fs"
    "marked = {FreeMapSector, RootSector} \<union> set (direct_sectors (file_hdr (freeMapFile fs))) \<union>
      set (direct_sectors (file_hdr (directoryFile fs)))"
    "directory_map (currentDir fs) = [[46] \<mapsto> RootSector, [46, 46] \<mapsto> RootSector]" "has_room (currentDir fs)"
    using format_ok [OF sample_env_ok blank_disk_whole] by (elim exE conjE)
  have "length (direct_sectors (file_hdr (freeMapFile fs))) \<le> 1" "length (direct_sectors (file_hdr (directoryFile fs))) \<le> 2"
    using f(2) by (auto simp: fs_ok_def volume_layout_def direct_ok_def direct_sectors_def sized_header_def FreeMapFileSize_def
        DirectoryFileSize_def NumSectors_def SectorsPerTrack_def NumTracks_def sizeof_DirectoryEntry_def NumDirEntries_def)
  then have "length ([FreeMapSector, RootSector] @ direct_sectors (file_hdr (freeMapFile fs)) @
      direct_sectors (file_hdr (directoryFile fs))) \<le> 10" by simp
  moreover have "marked = set ([FreeMapSector, RootSector] @ direct_sectors (file_hdr (freeMapFile fs)) @
      direct_sectors (file_hdr (directoryFile fs)))" using f(3) by auto
  ultimately have "card marked \<le> 10" "finite marked" by (metis card_length le_trans) (simp add: f(3))
  then have "1000 \<le> card (disk_sectors - marked)" by (intro card_free_initial)
  with that f show thesis by blast
qed

lemma sample_name: "name_key [97] = [97]"
  by (simp add: name_key_def cstring_def FileNameMaxLen_def)

lemma sectors_needed_200: "sectors_needed 200 = 4"
  by (simp add: sectors_needed_def)

lemma Create_then_Open_witness:
  "\<exists>fs fs' f. FileSystem sample_env True blank_disk = Inr fs \<and> Create sample_env [97] 200 fs = Inr (True, fs') \<and>
    Open sample_env [97] fs' = Inr (Some f) \<and> OpenFile_Length f = 200"
proof -
  obtain fs marked dh where f: "FileSystem sample_env True blank_disk = Inr fs" "fs_ok sample_env sample_bits marked dh fs"
    "directory_map (currentDir fs) = [[46] \<mapsto> RootSector, [46, 46] \<mapsto> RootSector]" "has_room (currentDir fs)"
    "1000 \<le> card (disk_sectors - marked)" by (rule sample_volume)
  have "Find [97] (currentDir fs) = - 1" using f(2,3) sample_name by (simp add: Find_map fs_ok_def)
  from Create_then_Open [OF sample_env_ok f(2) this f(4), of 200] f(1,5)
  show ?thesis by (auto simp: sectors_needed_200 OpenFile_Length_def)
qed

text \<open>
  C28. Removing a file of the current directory succeeds, keeps the volume consistent, and takes the
  name away; \<open>Open\<close> no longer finds it and every other name is found as before. The sectors of its
  header and its table are free again; its data sectors are not.
\<close>

theorem Remove_forgets_name:
  assumes env: "env_ok env bits" and ok: "fs_ok env bits marked dh fs"
    and n: "Find n (currentDir fs) = s" "s \<in> disk_sectors" "name_key n \<notin> {[46], [46, 46]}"
    and f: "file_at env fs s hdr" "file_area env fs s hdr \<subseteq>
      marked - system_sectors (file_hdr (freeMapFile fs)) (entry_sector (currentDir fs ! 0)) dh"
  shows "\<exists>fs' marked'. Remove env n fs = Inr (True, fs') \<and> fs_ok env bits marked' dh fs' \<and>
    Open env n fs' = Inr None \<and>
    (\<forall>m. name_key m \<noteq> name_key n \<longrightarrow> Find m (currentDir fs') = Find m (currentDir fs)) \<and>
    marked' = marked - insert s (set (table_sectors hdr)) \<and>
    set (indirect_sectors (fs_host env) hdr (disk_store fs)) \<subseteq> marked'"
proof -
  have dok: "directory_ok (currentDir fs)" using ok by (simp add: fs_ok_def)
  have "directory_map (currentDir fs) (name_key n) = Some s"
    using n(1,2) Find_map [of n] by (auto split: option.splits)
  moreover have "insert s (set (table_sectors hdr)) \<inter>
      system_sectors (file_hdr (freeMapFile fs)) (entry_sector (currentDir fs ! 0)) dh = {}"
    using f(2) by (auto simp: file_area_def)
  ultimately obtain fs' where r: "Remove env n fs = Inr (True, fs')"
    "fs_ok env bits (marked - insert s (set (table_sectors hdr))) dh fs'"
    "directory_map (currentDir fs') = (directory_map (currentDir fs))(name_key n := None)"
    using Remove_ok [OF env ok _ n(3) f(1) n(2)] by blast
  have dok': "directory_ok (currentDir fs')" using r(2) by (simp add: fs_ok_def)
  have "Open env n fs' = Inr None" using r(3) Open_ok [OF env r(2), of n] by simp
  moreover have "Find m (currentDir fs') = Find m (currentDir fs)" if "name_key m \<noteq> name_key n" for m
    using that r(3) by (simp add: Find_map Find_map)
  moreover have "set (indirect_sectors (fs_host env) hdr (disk_store fs)) \<subseteq> marked - insert s (set (table_sectors hdr))"
    using f by (auto simp: file_area_def file_at_def indirect_ok_def)
  ultimately show ?thesis using r(1,2) by blast
qed

lemma Remove_forgets_name_witness:
  "\<exists>fs fs' fs''. FileSystem sample_env True blank_disk = Inr fs \<and> Create sample_env [97] 200 fs = Inr (True, fs') \<and>
    Remove sample_env [97] fs' = Inr (True, fs'') \<and> Open sample_env [97] fs'' = Inr None"
proof -
  obtain fs marked dh where f: "FileSystem sample_env True blank_disk = Inr fs" "fs_ok sample_env sample_bits marked dh fs"
    "directory_map (currentDir fs) = [[46] \<mapsto> RootSector, [46, 46] \<mapsto> RootSector]" "has_room (currentDir fs)"
    "1000 \<le> card (disk_sectors - marked)" by (rule sample_volume)
  have "directory_map (currentDir fs) (name_key [97]) = None" using f(3) sample_name by simp
  from Create_ok [OF sample_env_ok f(2) this f(4), of 200] f(5) obtain fs' s hdr where
    c: "Create sample_env [97] 200 fs = Inr (True, fs')" "file_at sample_env fs' s hdr"
    "file_area sample_env fs' s hdr \<subseteq> disk_sectors - marked"
    "fs_ok sample_env sample_bits (marked \<union> file_area sample_env fs' s hdr) dh fs'"
    "directory_map (currentDir fs') = (directory_map (currentDir fs))(name_key [97] \<mapsto> s)"
    "freeMapFile fs' = freeMapFile fs" "entry_sector (currentDir fs' ! 0) = entry_sector (currentDir fs ! 0)"
    by (simp add: sectors_needed_200) blast
  have "s \<in> file_area sample_env fs' s hdr" by (simp add: file_area_def)
  then have s: "s \<in> disk_sectors" using c(3) by blast
  have "Find [97] (currentDir fs') = s" using c(4,5) by (simp add: Find_map fs_ok_def)
  moreover have "file_area sample_env fs' s hdr \<subseteq> marked \<union> file_area sample_env fs' s hdr -
      system_sectors (file_hdr (freeMapFile fs')) (entry_sector (currentDir fs' ! 0)) dh"
    using f(2) c(3) unfolding fs_ok_def c(6,7) by blast
  moreover have "name_key [97] \<notin> {[46], [46, 46]}" by (simp add: sample_name)
  ultimately show ?thesis using Remove_forgets_name [OF sample_env_ok c(4) _ s _ c(2)] f(1) c(1) by blast
qed

section \<open>Directories inside directories\<close>

lemma directory_map_self:
  assumes "directory_ok d"
  shows "directory_map d [46] = Some (entry_sector (d ! 0))" and "directory_map d [46, 46] \<noteq> None"
proof -
  obtain a b r where d: "d = a # b # r"
    using assms unfolding directory_ok_def by (metis Suc_le_length_iff numeral_2_eq_2)
  show "directory_map d [46] = Some (entry_sector (d ! 0))" "directory_map d [46, 46] \<noteq> None"
    using assms by (simp_all add: d directory_ok_def directory_map_def)
qed

lemma directory_map_own:
  assumes "directory_ok d" and "directory_map d (name_key n) = None"
  shows "name_key n \<notin> {[46], [46, 46]}"
  using assms(2) directory_map_self [OF assms(1)] by auto

text \<open>
  C29. A directory can be created, entered and left, but not removed. In a consistent volume with a
  free entry and three free sectors, \<open>CreateDirectory\<close> of a new name succeeds on sectors that were
  free, and keeps the volume, the other names and the files. \<open>ChangeDirectory\<close> then enters a
  directory that is consistent and holds only itself and its parent, and from there
  \<^verbatim>\<open>..\<close> leads back to the same state. \<open>RemoveDirectory\<close> reports that the directory is not empty, for
  it looks at the directory around it, which is not.
\<close>

theorem subdirectory_enter_leave:
  assumes env: "env_ok env bits" and ok: "fs_ok env bits marked dh fs"
    and new: "Find n (currentDir fs) = - 1" and room: "has_room (currentDir fs)"
    and free: "3 \<le> card (disk_sectors - marked)"
  shows "\<exists>fs1 fs2 s hdr. CreateDirectory env n fs = Inr (0, fs1) \<and>
    insert s (set (direct_sectors hdr)) \<subseteq> disk_sectors - marked \<and>
    fs_ok env bits (marked \<union> insert s (set (direct_sectors hdr))) dh fs1 \<and>
    (\<forall>m. Find m (currentDir fs1) = (if name_key m = name_key n then s else Find m (currentDir fs))) \<and>
    (\<forall>s2 hdr2. file_at env fs s2 hdr2 \<longrightarrow>
       file_area env fs s2 hdr2 \<subseteq>
         marked - system_sectors (file_hdr (freeMapFile fs)) (entry_sector (currentDir fs ! 0)) dh \<longrightarrow>
       file_at env fs1 s2 hdr2 \<and>
       file_content (fs_host env) True hdr2 (disk_store fs1) = file_content (fs_host env) True hdr2 (disk_store fs)) \<and>
    ChangeDirectory env n fs1 = Inr (0, fs2) \<and>
    fs_ok env bits (marked \<union> insert s (set (direct_sectors hdr))) hdr fs2 \<and>
    directory_map (currentDir fs2) = [[46] \<mapsto> s, [46, 46] \<mapsto> entry_sector (currentDir fs ! 0)] \<and>
    ChangeDirectory env [46, 46] fs2 = Inr (0, fs1) \<and>
    RemoveDirectory env n fs1 = Inr (- 1, fs1)"
proof -
  let ?cur = "entry_sector (currentDir fs ! 0)"
  have dok: "directory_ok (currentDir fs)" using ok by (simp add: fs_ok_def)
  have none: "directory_map (currentDir fs) (name_key n) = None"
    using new Find_map [of n] directory_map_sector [OF dok] by (fastforce split: option.splits)
  note own = directory_map_own [OF dok none]
  from CreateDirectory_ok [OF env ok none room free] obtain fs1 s hdr dir where
    c: "CreateDirectory env n fs = Inr (0, fs1)" "fs_ok env bits (marked \<union> insert s (set (direct_sectors hdr))) dh fs1"
    "insert s (set (direct_sectors hdr)) \<subseteq> disk_sectors - marked"
    "directory_map (currentDir fs1) = (directory_map (currentDir fs))(name_key n \<mapsto> s)"
    "freeMapFile fs1 = freeMapFile fs" "entry_sector (currentDir fs1 ! 0) = ?cur"
    "FetchFrom (fs_host env) s (disk_store fs1) = Inr hdr" "dir_stored env hdr (disk_store fs1) dir"
    "fresh_directory s ?cur dir" "volume_layout (file_hdr (freeMapFile fs1)) s hdr"
    "\<forall>x \<in> marked - set (direct_sectors dh) - set (direct_sectors (file_hdr (freeMapFile fs))).
       disk_store fs1 x = disk_store fs x" by (elim exE conjE)
  define fs2 where "fs2 = fs1\<lparr>currentDir := dir\<rparr>"
  have n1: "directory_map (currentDir fs1) (name_key n) = Some s" using c(4) by simp
  have "ChangeDirectory env n fs1 = Inr (0, fs2)"
    unfolding fs2_def by (rule ChangeDirectory_ok [OF env n1 c(7,8)])
  moreover have "fs_ok env bits (marked \<union> insert s (set (direct_sectors hdr))) hdr fs2"
    unfolding fs2_def
    by (rule fs_ok_change [OF c(2,9,7,8,10)]) (use c(2) in \<open>auto simp: fs_ok_def system_sectors_def\<close>)
  moreover have map2: "directory_map (currentDir fs2) = [[46] \<mapsto> s, [46, 46] \<mapsto> ?cur]"
    using c(9) by (simp add: fresh_directory_def fs2_def)
  moreover have "ChangeDirectory env [46, 46] fs2 = Inr (0, fs1)"
  proof -
    have "directory_map (currentDir fs2) (name_key [46, 46]) = Some ?cur"
      using map2 by (simp add: name_key_def cstring_def FileNameMaxLen_def)
    moreover have "FetchFrom (fs_host env) ?cur (disk_store fs2) = Inr dh" "dir_stored env dh (disk_store fs2) (currentDir fs1)"
      using c(2,6) by (simp_all add: fs_ok_def fs2_def)
    ultimately show ?thesis using ChangeDirectory_ok [OF env, of fs2 "[46, 46]"] by (simp add: fs2_def)
  qed
  moreover have "RemoveDirectory env n fs1 = Inr (- 1, fs1)" by (rule RemoveDirectory_refuses [OF env c(2) n1 own c(7)])
  moreover have "Find m (currentDir fs1) = (if name_key m = name_key n then s else Find m (currentDir fs))" for m
    using c(4) by (simp add: Find_map)
  moreover have "file_at env fs1 s2 hdr2 \<and>
      file_content (fs_host env) True hdr2 (disk_store fs1) = file_content (fs_host env) True hdr2 (disk_store fs)"
    if "file_at env fs s2 hdr2" "file_area env fs s2 hdr2 \<subseteq> marked - system_sectors (file_hdr (freeMapFile fs)) ?cur dh" for s2 hdr2
  proof -
    have "\<forall>x \<in> file_area env fs s2 hdr2. disk_store fs1 x = disk_store fs x"
      using c(11) that(2) unfolding system_sectors_def by blast
    from file_frame [OF that(1) this] show ?thesis by (simp add: file_content_table)
  qed
  ultimately show ?thesis
    using c(1-3) by (intro exI [of _ fs1] exI [of _ fs2] exI [of _ s] exI [of _ hdr]) simp
qed

lemma subdirectory_enter_leave_witness:
  "\<exists>fs fs1 fs2. FileSystem sample_env True blank_disk = Inr fs \<and> CreateDirectory sample_env [97] fs = Inr (0, fs1) \<and>
    ChangeDirectory sample_env [97] fs1 = Inr (0, fs2) \<and> Find [46, 46] (currentDir fs2) = 1 \<and>
    ChangeDirectory sample_env [46, 46] fs2 = Inr (0, fs1) \<and> RemoveDirectory sample_env [97] fs1 = Inr (- 1, fs1)"
proof -
  obtain fs marked dh where f: "FileSystem sample_env True blank_disk = Inr fs" "fs_ok sample_env sample_bits marked dh fs"
    "directory_map (currentDir fs) = [[46] \<mapsto> RootSector, [46, 46] \<mapsto> RootSector]" "has_room (currentDir fs)"
    "1000 \<le> card (disk_sectors - marked)" by (rule sample_volume)
  have new: "Find [97] (currentDir fs) = - 1" using f(2,3) sample_name by (simp add: Find_map fs_ok_def)
  have dok: "directory_ok (currentDir fs)" using f(2) by (simp add: fs_ok_def)
  have "directory_map (currentDir fs) [46] = Some (entry_sector (currentDir fs ! 0))"
    using dok by (rule directory_map_self)
  then have "entry_sector (currentDir fs ! 0) = 1" using f(3) by (simp add: RootSector_def)
  moreover have "name_key [46, 46] = [46, 46]" by (simp add: name_key_def cstring_def FileNameMaxLen_def)
  moreover have "3 \<le> card (disk_sectors - marked)" using f(5) by linarith
  ultimately show ?thesis
    using subdirectory_enter_leave [OF sample_env_ok f(2) new f(4)] f(1) by (auto simp: Find_map)
qed

end
