(* ===== verification/Fs_Programs.thy ===== *)
theory Fs_Programs
  imports Fs_Subdirectories
begin

text \<open>
  The programs that use the file system (\<^verbatim>\<open>filesys/fstest.cc\<close>): a UNIX file is copied onto the volume
  past the open file, a file is printed in pieces, and a large file is written, read and removed. A
  UNIX file is its contents, or \<open>None\<close> where it cannot be opened; messages and statistics are not
  modelled.
\<close>

section \<open>The programs\<close>

definition TransferSize :: int where "TransferSize = 10"

definition bytes_of :: "string \<Rightarrow> byte list" where
  "bytes_of s = List.map of_char s"

text \<open>The header that \<open>Copy\<close> reads from entry \<open>j\<close> of the table, as the array of words it is used as.\<close>

definition fetch_table :: "host \<Rightarrow> file_header \<Rightarrow> nat \<Rightarrow> store \<Rightarrow> file_header res" where
  "fetch_table h hdr j st =
    (if j < NumDirect then FetchFrom h (dataSectors hdr ! j) st else Inl OutOfBounds)"

text \<open>
  The loop of \<open>Copy\<close>: \<open>data\<close> is what is still to be read of the UNIX file, \<open>i\<close> the place in the sector
  \<open>j\<close> of the table.
\<close>

function copy_sectors ::
  "host \<Rightarrow> file_header \<Rightarrow> nat \<Rightarrow> nat \<Rightarrow> file_header \<Rightarrow> byte list \<Rightarrow> byte list \<Rightarrow> store \<Rightarrow> store res" where
  "copy_sectors h hdr j i hdrReader buffer data st =
    (if data = [] then Inr st
     else
       (let buffer = splice 0 (take SectorSize data) buffer
        in and_then (WriteSector (header_words hdrReader ! i) buffer st) (\<lambda>st.
           if i + 1 = IntsPerSector
           then and_then (fetch_table h hdr (j + 1) st) (\<lambda>hdrReader.
                copy_sectors h hdr (j + 1) 0 hdrReader buffer (drop SectorSize data) st)
           else copy_sectors h hdr j (i + 1) hdrReader buffer (drop SectorSize data) st)))"
  by pat_completeness auto
termination
  by (relation "measure (\<lambda>(h, hdr, j, i, hdrReader, buffer, data, st). length data)") (auto simp: SectorSize_def)

definition Copy :: "'b fs_env \<Rightarrow> byte list option \<Rightarrow> byte list \<Rightarrow> file_system \<Rightarrow> file_system res" where
  "Copy env from_file to_name fs =
    (case from_file of None \<Rightarrow> Inr fs
     | Some data \<Rightarrow>
         and_then (Create env to_name (narrow (int (length data))) fs) (\<lambda>(ok, fs).
         if \<not> ok then Inr fs
         else
           and_then (Open env to_name fs) (\<lambda>f.
           case f of None \<Rightarrow> Inl AssertionFailed
           | Some f \<Rightarrow>
               and_then (fetch_table (fs_host env) (file_hdr f) 0 (disk_store fs)) (\<lambda>hdrReader.
               and_then (copy_sectors (fs_host env) (file_hdr f) 0 0 hdrReader
                 (List.map (fresh_buffer env) [0..<SectorSize]) data (disk_store fs)) (\<lambda>st.
               Inr (fs\<lparr>disk_store := st\<rparr>))))))"

text \<open>\<open>Print\<close> returns the bytes it prints, or \<open>None\<close> where the file cannot be opened.\<close>

lemma OpenFile_Read_advances:
  assumes "OpenFile_Read u h n f st = Inr (amount, bs, f')" and "0 < amount"
  shows "file_hdr f' = file_hdr f \<and> seekPosition f < numBytes (file_hdr f) \<and> seekPosition f < seekPosition f'"
  using assms by (auto simp: OpenFile_Read_def ReadAt_def FileLength_def Let_def run_simps split: if_splits)

function print_loop :: "utility \<Rightarrow> host \<Rightarrow> openfile \<Rightarrow> store \<Rightarrow> byte list res" where
  "print_loop u h f st =
    and_then (OpenFile_Read u h TransferSize f st) (\<lambda>(amountRead, buffer, f).
    if 0 < amountRead then and_then (print_loop u h f st) (\<lambda>rest. Inr (buffer @ rest)) else Inr [])"
  by pat_completeness auto
termination
  by (relation "measure (\<lambda>(u, h, f, st). nat (numBytes (file_hdr f) - seekPosition f))")
    (auto dest: OpenFile_Read_advances)

definition Print :: "'b fs_env \<Rightarrow> byte list \<Rightarrow> file_system \<Rightarrow> byte list option res" where
  "Print env name fs =
    and_then (Open env name fs) (\<lambda>f.
    case f of None \<Rightarrow> Inr None
    | Some f \<Rightarrow> and_then (print_loop (util env) (fs_host env) f (disk_store fs)) (\<lambda>bs. Inr (Some bs)))"

section \<open>The performance test\<close>

definition FileName :: "byte list" where "FileName = bytes_of ''TestFile''"
definition Contents :: "byte list" where "Contents = bytes_of ''1234567890''"
definition ContentSize :: nat where "ContentSize = length Contents"
definition FileSize :: int where "FileSize = int (ContentSize * 12000)"

text \<open>The loops, of \<open>FileSize / ContentSize\<close> iterations; the result says whether all were made.\<close>

primrec write_pieces :: "'b fs_env \<Rightarrow> nat \<Rightarrow> openfile \<Rightarrow> store \<Rightarrow> (bool \<times> store) res" where
  "write_pieces env 0 f st = Inr (True, st)"
| "write_pieces env (Suc n) f st =
    and_then (OpenFile_Write (util env) (fs_host env) (fresh_buffer env) Contents (int ContentSize) f st)
      (\<lambda>(amount, f, st). if amount < 10 then Inr (False, st) else write_pieces env n f st)"

primrec read_pieces :: "'b fs_env \<Rightarrow> nat \<Rightarrow> openfile \<Rightarrow> store \<Rightarrow> bool res" where
  "read_pieces env 0 f st = Inr True"
| "read_pieces env (Suc n) f st =
    and_then (OpenFile_Read (util env) (fs_host env) (int ContentSize) f st)
      (\<lambda>(amount, buffer, f). if amount < 10 \<or> buffer \<noteq> Contents then Inr False else read_pieces env n f st)"

definition FileWrite :: "'b fs_env \<Rightarrow> file_system \<Rightarrow> (bool \<times> file_system) res" where
  "FileWrite env fs =
    and_then (Create env FileName FileSize fs) (\<lambda>(ok, fs).
    if \<not> ok then Inr (False, fs)
    else
      and_then (Open env FileName fs) (\<lambda>f.
      case f of None \<Rightarrow> Inr (False, fs)
      | Some f \<Rightarrow> and_then (write_pieces env (nat FileSize div ContentSize) f (disk_store fs)) (\<lambda>(ok, st).
          Inr (ok, fs\<lparr>disk_store := st\<rparr>))))"

definition FileRead :: "'b fs_env \<Rightarrow> file_system \<Rightarrow> bool res" where
  "FileRead env fs =
    and_then (Open env FileName fs) (\<lambda>f.
    case f of None \<Rightarrow> Inr False
    | Some f \<Rightarrow> read_pieces env (nat FileSize div ContentSize) f (disk_store fs))"

text \<open>The three results are those of writing, of reading and of removing the file.\<close>

definition PerformanceTest :: "'b fs_env \<Rightarrow> file_system \<Rightarrow> ((bool \<times> bool \<times> bool) \<times> file_system) res" where
  "PerformanceTest env fs =
    and_then (FileWrite env fs) (\<lambda>(written, fs).
    and_then (FileRead env fs) (\<lambda>read.
    and_then (Remove env FileName fs) (\<lambda>(removed, fs).
    Inr ((written, read, removed), fs))))"

section \<open>The scripts\<close>

text \<open>The result of a directory operation is not used but for the messages.\<close>

definition Test1 :: "'b fs_env \<Rightarrow> byte list option \<Rightarrow> file_system \<Rightarrow> file_system res" where
  "Test1 env small fs =
    and_then (CreateDirectory env (bytes_of ''dir1'') fs) (\<lambda>(_, fs).
    and_then (ChangeDirectory env (bytes_of ''dir1'') fs) (\<lambda>(_, fs).
    and_then (CreateDirectory env (bytes_of ''dir2'') fs) (\<lambda>(_, fs).
    and_then (Copy env small (bytes_of ''small1'') fs) (\<lambda>fs.
    and_then (Remove env (bytes_of ''small1'') fs) (\<lambda>(removed, fs).
    if \<not> removed then Inr fs
    else and_then (RemoveDirectory env (bytes_of ''dir2'') fs) (\<lambda>(_, fs). Inr fs))))))"

definition opened :: "openfile option \<Rightarrow> openfile res" where
  "opened f = (case f of None \<Rightarrow> Inl NullPointer | Some f \<Rightarrow> Inr f)"

text \<open>The script prints both files; the arrays end with the terminating zero of the literals.\<close>

definition Test2 ::
  "'b fs_env \<Rightarrow> byte list option \<Rightarrow> byte list option \<Rightarrow> file_system \<Rightarrow>
   (byte list option \<times> byte list option \<times> file_system) res" where
  "Test2 env small medium fs =
    (let put = (\<lambda>bs n f st. OpenFile_Write (util env) (fs_host env) (fresh_buffer env) (bytes_of bs @ [0]) n f st)
     in and_then (Copy env small (bytes_of ''small1'') fs) (\<lambda>fs.
        and_then (Copy env medium (bytes_of ''med1'') fs) (\<lambda>fs.
        and_then (Open env (bytes_of ''med1'') fs) (\<lambda>opens1.
        and_then (Open env (bytes_of ''small1'') fs) (\<lambda>opens2.
        and_then (Open env (bytes_of ''med1'') fs) (\<lambda>opens3.
        and_then (opened opens1) (\<lambda>opens1.
        and_then (put ''medmedmed'' TransferSize opens1 (disk_store fs)) (\<lambda>(_, opens1, st).
        and_then (opened opens2) (\<lambda>opens2.
        and_then (put ''medmedmed'' TransferSize opens2 st) (\<lambda>(_, opens2, st).
        and_then (opened opens3) (\<lambda>opens3.
        and_then (put ''abcde'' 6 opens3 st) (\<lambda>(_, opens3, st).
        and_then (put ''012345678'' TransferSize opens1 st) (\<lambda>(_, opens1, st).
        let fs = fs\<lparr>disk_store := st\<rparr>
        in and_then (Print env (bytes_of ''med1'') fs) (\<lambda>med.
           and_then (Print env (bytes_of ''small1'') fs) (\<lambda>small.
           Inr (med, small, fs))))))))))))))))"

definition Test3 :: "'b fs_env \<Rightarrow> file_system \<Rightarrow> file_system res" where
  "Test3 env fs = and_then (Create env (bytes_of ''AFILE'') 0 fs) (\<lambda>(_, fs). Inr fs)"


declare copy_sectors.simps [simp del] print_loop.simps [simp del]

section \<open>Copying\<close>

lemma fetch_table_ok:
  assumes "indirect_ok h hdr st" and "k < nat (numSectors hdr)"
  shows "fetch_table h hdr (k div 32) st = Inr (header_of_bytes h (st (dataSectors hdr ! (k div 32))))"
proof -
  have "dataSectors hdr ! (k div 32) \<in> disk_sectors"
    using indirect_lookup(2) [OF assms] assms(1) by (auto simp: indirect_ok_def)
  moreover have "k div 32 < 30"
    using assms by (auto simp: indirect_ok_def div_less_iff_less_mult)
  ultimately show ?thesis by (simp add: fetch_table_def header_counts FetchFrom_def ReadSector_def)
qed

text \<open>The sector the loop writes next is the one of its place in the file.\<close>

lemma indirect_sectors_nth:
  "k < nat (numSectors hdr) \<Longrightarrow> indirect_sectors h hdr st ! k =
    header_words (header_of_bytes h (st (dataSectors hdr ! (k div 32)))) ! (k mod 32)"
  by (simp add: indirect_sectors_def table_entry_def)

lemma copy_sectors_ok:
  assumes "indirect_ok h hdr st \<and> whole_sectors st" and "length buffer = 128"
    and "k + (length data + 127) div 128 = nat (numSectors hdr)" and "nat (numSectors hdr) mod 32 \<noteq> 0"
    and "T = header_of_bytes h (st (dataSectors hdr ! (k div 32)))"
  shows "\<exists>st'. copy_sectors h hdr (k div 32) (k mod 32) T buffer data st = Inr st' \<and>
    (indirect_ok h hdr st' \<and> whole_sectors st') \<and> indirect_sectors h hdr st' = indirect_sectors h hdr st \<and>
    (\<forall>x. x \<notin> set (drop k (indirect_sectors h hdr st)) \<longrightarrow> st' x = st x) \<and>
    (\<forall>p < length data. st' (indirect_sectors h hdr st ! (k + p div 128)) ! (p mod 128) = data ! p)"
  using assms
proof (induction "length data" arbitrary: data k buffer T st rule: less_induct)
  case less
  let ?ws = "indirect_sectors h hdr st" and ?n = "nat (numSectors hdr)"
  have len: "length ?ws = ?n" by (simp add: indirect_sectors_def)
  show ?case
  proof (cases "data = []")
    case True
    then show ?thesis using less.prems(1) by (simp add: copy_sectors.simps [of h hdr "k div 32"])
  next
    case False
    define d where "d = splice 0 (take 128 data) buffer"
    let ?rest = "drop 128 data" and ?s = "?ws ! k"
    have "1 \<le> length data" using False by (cases data) auto
    then have k: "k < ?n" and rest: "Suc k + (length ?rest + 127) div 128 = ?n"
      using less.prems(3) by (auto simp: le_div_geq)
    have ld: "length d = SectorSize" using less.prems(2) by (simp add: d_def SectorSize_def)
    have s: "?s \<in> disk_sectors" "?s \<notin> set (table_sectors hdr)"
      using indirect.sector_in_disk [OF less.prems(1), of k] k len by simp_all
    define st1 where "st1 = st(?s := d)"
    have st1: "indirect_ok h hdr st1 \<and> whole_sectors st1" "indirect_sectors h hdr st1 = ?ws"
      using indirect.stable [OF less.prems(1) s(2) ld] by (simp_all add: st1_def)
    have put: "WriteSector ?s d st = Inr st1" using s(1) ld by (simp add: WriteSector_def st1_def)
    have next_T: "st1 (dataSectors hdr ! (k div 32)) = st (dataSectors hdr ! (k div 32))"
      using indirect_lookup(2) [OF _ k, of h st] less.prems(1) s(2) by (auto simp: st1_def)
    let ?T = "header_of_bytes h (st1 (dataSectors hdr ! (Suc k div 32)))"
    have "length ?rest < length data" using False by (cases data) auto
    from less.hyps [OF this st1(1) _ rest less.prems(4) refl, of d] ld obtain st' where
      run: "copy_sectors h hdr (Suc k div 32) (Suc k mod 32) ?T d ?rest st1 = Inr st'"
      and wf: "indirect_ok h hdr st' \<and> whole_sectors st'" "indirect_sectors h hdr st' = ?ws"
      and frame: "\<forall>x. x \<notin> set (drop (Suc k) ?ws) \<longrightarrow> st' x = st1 x"
      and bytes: "\<forall>p < length ?rest. st' (?ws ! (Suc k + p div 128)) ! (p mod 128) = ?rest ! p"
      unfolding st1(2) by (auto simp: SectorSize_def)
    have T: "header_words T ! (k mod 32) = ?s" unfolding less.prems(5) by (rule indirect_sectors_nth [OF k, symmetric])
    have "copy_sectors h hdr (k div 32) (k mod 32) T buffer data st =
        copy_sectors h hdr (Suc k div 32) (Suc k mod 32) ?T d ?rest st1"
    proof (cases "Suc (k mod 32) = 32")
      case True
      then have d: "Suc k div 32 = Suc (k div 32)" "Suc k mod 32 = 0" by (simp_all add: div_Suc mod_Suc)
      have "Suc k \<noteq> ?n" using d(2) less.prems(4) by metis
      then have "fetch_table h hdr (Suc k div 32) st1 = Inr ?T" using k st1(1) by (intro fetch_table_ok) auto
      then show ?thesis
        using True False d put T
        by (simp add: copy_sectors.simps [of h hdr "k div 32"] d_def SectorSize_def header_counts)
    next
      case other: False
      then have d: "Suc k div 32 = k div 32" "Suc k mod 32 = Suc (k mod 32)" by (simp_all add: div_Suc mod_Suc)
      then show ?thesis
        using other False put T next_T less.prems(5)
        by (simp add: copy_sectors.simps [of h hdr "k div 32"] d_def SectorSize_def header_counts)
    qed
    moreover have split: "drop k ?ws = ?s # drop (Suc k) ?ws" using k len by (simp add: Cons_nth_drop_Suc)
    moreover have "st' x = st x" if "x \<notin> set (drop k ?ws)" for x
      using that frame by (simp add: split st1_def)
    moreover have "st' (?ws ! (k + p div 128)) ! (p mod 128) = data ! p" if p: "p < length data" for p
    proof (cases "p < 128")
      case True
      have "distinct (drop k ?ws)" using less.prems(1) by (simp add: indirect_ok_def)
      then have "st' ?s = d" using frame by (simp add: split st1_def)
      moreover have "d ! p = data ! p"
        using True p less.prems(2) nth_splice [of 0 "take 128 data" buffer p] by (simp add: d_def)
      ultimately show ?thesis using True by simp
    next
      case past: False
      then have "k + p div 128 = Suc k + (p - 128) div 128" "p mod 128 = (p - 128) mod 128"
        by (simp_all add: le_div_geq le_mod_geq)
      then show ?thesis using bytes [rule_format, of "p - 128"] past p by simp
    qed
    ultimately show ?thesis using run wf by (intro exI [of _ st']) simp
  qed
qed

lemma file_content_eq:
  assumes "nat (numBytes hdr) = length data"
    and "\<forall>p < length data. st (indirect_sectors h hdr st ! (p div 128)) ! (p mod 128) = data ! p"
  shows "indirect.content h hdr st = data"
  by (rule nth_equalityI) (use assms in \<open>simp_all add: indirect.content_def nth_file_bytes SectorSize_def\<close>)

text \<open>The volume does not depend on the data sectors of files.\<close>

lemma fs_ok_frame:
  assumes env: "env_ok env bits" and ok: "fs_ok env bits marked dh fs" and st: "whole_sectors st"
    and same: "\<forall>x \<in> system_sectors (file_hdr (freeMapFile fs)) (entry_sector (currentDir fs ! 0)) dh. st x = disk_store fs x"
  shows "fs_ok env bits marked dh (fs\<lparr>disk_store := st\<rparr>)"
proof -
  let ?cur = "entry_sector (currentDir fs ! 0)"
  have u: "utility_ok (util env)" using env by (simp add: env_ok_def)
  have inv: "FetchFrom (fs_host env) ?cur (disk_store fs) = Inr dh" "dir_stored env dh (disk_store fs) (currentDir fs)"
    "map_stored env bits (freeMapFile fs) (disk_store fs) marked" "direct_ok dh" "whole_sectors (disk_store fs)"
    using ok by (simp_all add: fs_ok_def volume_layout_def)
  have "FetchFrom (fs_host env) ?cur st = Inr dh"
    using inv(1) FetchFrom_frame [where st' = st and n = ?cur and st = "disk_store fs"] same by (simp add: system_sectors_def)
  moreover have "dir_stored env dh st (currentDir fs)"
    by (rule dir_stored_frame [OF u inv(2,4,5) st]) (use same in \<open>simp add: system_sectors_def\<close>)
  moreover have "map_stored env bits (freeMapFile fs) st marked"
    by (rule map_stored_frame [OF inv(3)]) (use same in \<open>simp add: system_sectors_def\<close>)
  ultimately show ?thesis using ok st by (simp add: fs_ok_def)
qed

lemma Open_file_at:
  assumes "env_ok env bits" and "fs_ok env bits marked dh fs" and "directory_map (currentDir fs) (name_key n) = Some s"
    and "file_at env fs s hdr"
  shows "Open env n fs = Inr (Some \<lparr>file_hdr = hdr, seekPosition = 0\<rparr>)"
  using assms(3,4) Open_ok [OF assms(1,2), of n] by (simp add: file_at_def OpenFile_def)

text \<open>Writes to the data sectors of a file leave it in its place and the volume consistent.\<close>

lemma data_written:
  assumes env: "env_ok env bits" and ok: "fs_ok env bits marked dh fs" and f: "file_at env fs s hdr"
    and own: "file_area env fs s hdr \<inter>
      system_sectors (file_hdr (freeMapFile fs)) (entry_sector (currentDir fs ! 0)) dh = {}"
    and st: "indirect_ok (fs_host env) hdr st" "whole_sectors st"
      "indirect_sectors (fs_host env) hdr st = indirect_sectors (fs_host env) hdr (disk_store fs)"
    and frame: "\<forall>x. x \<notin> set (indirect_sectors (fs_host env) hdr (disk_store fs)) \<longrightarrow> st x = disk_store fs x"
  shows "file_at env (fs\<lparr>disk_store := st\<rparr>) s hdr"
    and "file_area env (fs\<lparr>disk_store := st\<rparr>) s hdr = file_area env fs s hdr"
    and "fs_ok env bits marked dh (fs\<lparr>disk_store := st\<rparr>)"
proof -
  have "s \<notin> set (indirect_sectors (fs_host env) hdr (disk_store fs))" using f by (simp add: file_at_def)
  then show "file_at env (fs\<lparr>disk_store := st\<rparr>) s hdr"
    using f st frame FetchFrom_frame [where st' = st and n = s and st = "disk_store fs"] by (simp add: file_at_def)
  show "file_area env (fs\<lparr>disk_store := st\<rparr>) s hdr = file_area env fs s hdr" by (simp add: file_area_def st(3))
  show "fs_ok env bits marked dh (fs\<lparr>disk_store := st\<rparr>)"
    by (rule fs_ok_frame [OF env ok st(2)]) (use own frame in \<open>auto simp: file_area_def\<close>)
qed

lemma narrow_length: "length data \<le> 960 * 128 \<Longrightarrow> narrow (int (length data)) = int (length data)"
  by (rule narrow_small) auto

lemma Copy_ok:
  assumes env: "env_ok env bits" and ok: "fs_ok env bits marked dh fs"
    and new: "directory_map (currentDir fs) (name_key n) = None" and room: "has_room (currentDir fs)"
    and size: "length data \<le> 960 * 128" "(length data + 127) div 128 mod 32 \<noteq> 0"
    and free: "sectors_needed (int (length data)) \<le> card (disk_sectors - marked)"
  shows "\<exists>fs' s hdr. Copy env (Some data) n fs = Inr fs' \<and> file_at env fs' s hdr \<and>
    indirect.content (fs_host env) hdr (disk_store fs') = data \<and> numBytes hdr = int (length data) \<and>
    file_area env fs' s hdr \<subseteq> disk_sectors - marked \<and>
    fs_ok env bits (marked \<union> file_area env fs' s hdr) dh fs' \<and>
    directory_map (currentDir fs') = (directory_map (currentDir fs))(name_key n \<mapsto> s) \<and>
    (\<forall>x \<in> marked - set (direct_sectors dh) - set (direct_sectors (file_hdr (freeMapFile fs))).
       disk_store fs' x = disk_store fs x)"
proof -
  let ?h = "fs_host env"
  have "0 \<le> int (length data)" "int (length data) \<le> 960 * 128" using size(1) by simp_all
  from Create_ok [OF env ok new room this free] obtain fs1 s hdr where
    c: "Create env n (int (length data)) fs = Inr (True, fs1)" "file_at env fs1 s hdr" "numBytes hdr = int (length data)"
    "file_area env fs1 s hdr \<subseteq> disk_sectors - marked" "fs_ok env bits (marked \<union> file_area env fs1 s hdr) dh fs1"
    "directory_map (currentDir fs1) = (directory_map (currentDir fs))(name_key n \<mapsto> s)"
    "freeMapFile fs1 = freeMapFile fs" "entry_sector (currentDir fs1 ! 0) = entry_sector (currentDir fs ! 0)"
    "\<forall>x \<in> marked - set (direct_sectors dh) - set (direct_sectors (file_hdr (freeMapFile fs))).
       disk_store fs1 x = disk_store fs x" by (elim exE conjE)
  let ?st = "disk_store fs1" and ?ws = "indirect_sectors ?h hdr (disk_store fs1)"
  have n: "nat (numSectors hdr) = (length data + 127) div 128"
    using c(2,3) by (simp add: file_at_def indirect_ok_def sized_header_def nat_div_distrib nat_add_distrib)
  have wf: "indirect_ok ?h hdr ?st \<and> whole_sectors ?st" using c(2,5) by (simp add: file_at_def fs_ok_def)
  have open_n: "Open env n fs1 = Inr (Some \<lparr>file_hdr = hdr, seekPosition = 0\<rparr>)"
    by (rule Open_file_at [OF env c(5) _ c(2)]) (simp add: c(6))
  have pos: "0 < nat (numSectors hdr)" using size(2) unfolding n by (intro gr0I) simp
  have buf: "length (List.map (fresh_buffer env) [0..<SectorSize]) = 128" by (simp add: SectorSize_def)
  obtain st' where st': "copy_sectors ?h hdr 0 0 (header_of_bytes ?h (?st (dataSectors hdr ! 0)))
      (List.map (fresh_buffer env) [0..<SectorSize]) data ?st = Inr st'"
    "indirect_ok ?h hdr st'" "whole_sectors st'" "indirect_sectors ?h hdr st' = ?ws"
    "\<forall>x. x \<notin> set ?ws \<longrightarrow> st' x = ?st x" "\<forall>p < length data. st' (?ws ! (p div 128)) ! (p mod 128) = data ! p"
    using copy_sectors_ok [OF wf buf, of 0 data] n size(2) by auto
  define fs' where "fs' = fs1\<lparr>disk_store := st'\<rparr>"
  have run: "Copy env (Some data) n fs = Inr fs'"
    using c(1) open_n fetch_table_ok [OF conjunct1 [OF wf] pos] st'(1)
    by (simp add: Copy_def narrow_length [OF size(1)] fs'_def)
  have data_area: "set ?ws \<subseteq> file_area env fs1 s hdr" by (auto simp: file_area_def)
  have own: "file_area env fs1 s hdr \<inter> system_sectors (file_hdr (freeMapFile fs1)) (entry_sector (currentDir fs1 ! 0)) dh = {}"
    using c(4,7,8) ok unfolding fs_ok_def by auto
  note w = data_written [OF env c(5,2) own st'(2-5), folded fs'_def]
  have "fs_ok env bits (marked \<union> file_area env fs' s hdr) dh fs'" using w(2,3) by simp
  moreover have "st' x = disk_store fs x"
    if "x \<in> marked - set (direct_sectors dh) - set (direct_sectors (file_hdr (freeMapFile fs)))" for x
  proof -
    have "x \<notin> set ?ws" using that c(4) data_area by blast
    then show ?thesis using that st'(5) c(9) by simp
  qed
  moreover have "indirect.content ?h hdr st' = data"
    by (rule file_content_eq) (use c(3) st'(4,6) in simp_all)
  ultimately show ?thesis
    using run w(1,2) c(3,4,6)
    by (intro exI [of _ fs'] exI [of _ s] exI [of _ hdr] conjI ballI) (simp_all add: fs'_def)
qed

section \<open>Printing\<close>

lemma OpenFile_Read_slice:
  assumes "indirect_ok h hdr st \<and> whole_sectors st" and "utility_ok u" and "int p + n < 2 ^ 31" and "0 \<le> n"
  defines "bs \<equiv> take (nat n) (drop p (indirect.content h hdr st))"
  shows "OpenFile_Read u h n \<lparr>file_hdr = hdr, seekPosition = int p\<rparr> st =
    Inr (int (length bs), bs, \<lparr>file_hdr = hdr, seekPosition = int (p + length bs)\<rparr>)"
  using indirect.ReadAt_slice [OF assms(1,2), of "int p" n] assms(3,4) by (simp add: OpenFile_Read_def bs_def)

lemma print_loop_ok:
  assumes w: "indirect_ok h hdr st \<and> whole_sectors st" and u: "utility_ok u" and small: "numBytes hdr \<le> 960 * 128"
  shows "p \<le> nat (numBytes hdr) \<Longrightarrow>
    print_loop u h \<lparr>file_hdr = hdr, seekPosition = int p\<rparr> st = Inr (drop p (indirect.content h hdr st))"
proof (induction "nat (numBytes hdr) - p" arbitrary: p rule: less_induct)
  case less
  let ?c = "indirect.content h hdr st"
  have "int p + TransferSize < 2 ^ 31" using less.prems small by (auto simp: TransferSize_def)
  note r = OpenFile_Read_slice [OF w u this]
  show ?case
  proof (cases "p = nat (numBytes hdr)")
    case True
    then show ?thesis using r by (simp add: print_loop.simps [of u h] TransferSize_def)
  next
    case False
    let ?m = "length (take 10 (drop p ?c))"
    have m: "0 < ?m" "p + ?m \<le> nat (numBytes hdr)" using False less.prems by auto
    then have "print_loop u h \<lparr>file_hdr = hdr, seekPosition = int (p + ?m)\<rparr> st = Inr (drop (p + ?m) ?c)"
      by (intro less.hyps) linarith+
    moreover have "take 10 (drop p ?c) @ drop (p + ?m) ?c = drop p ?c"
      using append_take_drop_id [of 10 "drop p ?c"] by (cases "nat (numBytes hdr) - p \<le> 10") (simp_all add: add.commute)
    ultimately show ?thesis
      using r m(1) by (subst print_loop.simps) (simp add: TransferSize_def del: length_take length_drop)
  qed
qed

lemma Print_ok:
  assumes env: "env_ok env bits" and ok: "fs_ok env bits marked dh fs"
    and n: "directory_map (currentDir fs) (name_key n) = Some s" and f: "file_at env fs s hdr"
  shows "Print env n fs = Inr (Some (indirect.content (fs_host env) hdr (disk_store fs)))"
proof -
  have w: "indirect_ok (fs_host env) hdr (disk_store fs) \<and> whole_sectors (disk_store fs)"
    using f ok by (simp add: file_at_def fs_ok_def)
  then have "numBytes hdr \<le> 960 * 128" by (auto simp: indirect_ok_def sized_header_def)
  from print_loop_ok [OF w _ this, of "util env" 0] show ?thesis
    using env Open_file_at [OF env ok n f] by (simp add: Print_def env_ok_def)
qed

section \<open>Writing and reading in pieces\<close>

lemma length_Contents: "length Contents = 10" "ContentSize = 10" "nat FileSize = 120000" "FileSize = 120000"
  by (simp_all add: ContentSize_def Contents_def bytes_of_def FileSize_def)

definition pieces :: "nat \<Rightarrow> byte list" where
  "pieces n = concat (replicate n Contents)"

lemma length_pieces [simp]: "length (pieces n) = 10 * n"
  by (induction n) (simp_all add: pieces_def length_Contents)

lemma drop_pieces: "drop (10 * j) (pieces (j + n)) = pieces n"
  by (induction j) (simp_all add: pieces_def length_Contents)

lemma write_pieces_ok:
  assumes u: "utility_ok (util env)" and small: "numBytes hdr \<le> 960 * 128"
  shows "indirect_ok (fs_host env) hdr st \<and> whole_sectors st \<Longrightarrow> 10 * (j + n) \<le> nat (numBytes hdr) \<Longrightarrow>
    \<exists>st'. write_pieces env n \<lparr>file_hdr = hdr, seekPosition = int (10 * j)\<rparr> st = Inr (True, st') \<and>
      (indirect_ok (fs_host env) hdr st' \<and> whole_sectors st') \<and>
      indirect_sectors (fs_host env) hdr st' = indirect_sectors (fs_host env) hdr st \<and>
      indirect.content (fs_host env) hdr st' =
        take (10 * j) (indirect.content (fs_host env) hdr st) @ pieces n @ drop (10 * (j + n)) (indirect.content (fs_host env) hdr st) \<and>
      (\<forall>x. x \<notin> set (indirect_sectors (fs_host env) hdr st) \<longrightarrow> st' x = st x)"
proof (induction n arbitrary: j st)
  case 0
  then show ?case by (intro exI [of _ st]) (simp add: pieces_def)
next
  case (Suc n)
  let ?h = "fs_host env"
  let ?c = "indirect.content ?h hdr"
  have p: "0 \<le> int (10 * j)" "int (10 * j) + 10 < 2 ^ 31" "- (2 ^ 31) \<le> (10 :: int)" "(10 :: int) \<le> int (length Contents)"
    "numBytes hdr + 128 < 2 ^ 31" using Suc.prems(2) small by (auto simp: length_Contents)
  have k: "min (nat 10) (nat (numBytes hdr) - nat (int (10 * j))) = 10" using Suc.prems(2) by simp
  from indirect.WriteAt_splice [OF Suc.prems(1) u p, of "fresh_buffer env", unfolded k] obtain st1 where
    w: "WriteAt (util env) ?h hdr (fresh_buffer env) Contents 10 (int (10 * j)) 1 st = Inr (10, st1)"
    "indirect_ok ?h hdr st1 \<and> whole_sectors st1" "indirect_sectors ?h hdr st1 = indirect_sectors ?h hdr st"
    "?c st1 = splice (10 * j) Contents (?c st)" "\<forall>x. x \<notin> set (indirect_sectors ?h hdr st) \<longrightarrow> st1 x = st x"
    by (auto simp: length_Contents nat_mult_distrib)
  have "10 * (Suc j + n) \<le> nat (numBytes hdr)" using Suc.prems(2) by simp
  from Suc.IH [OF w(2) this] obtain st' where
    r: "write_pieces env n \<lparr>file_hdr = hdr, seekPosition = int (10 * Suc j)\<rparr> st1 = Inr (True, st')"
    "indirect_ok ?h hdr st'" "whole_sectors st'" "indirect_sectors ?h hdr st' = indirect_sectors ?h hdr st1"
    "?c st' = take (10 * Suc j) (?c st1) @ pieces n @ drop (10 * (Suc j + n)) (?c st1)"
    "\<forall>x. x \<notin> set (indirect_sectors ?h hdr st1) \<longrightarrow> st' x = st1 x" by (elim exE conjE)
  have "write_pieces env (Suc n) \<lparr>file_hdr = hdr, seekPosition = int (10 * j)\<rparr> st = Inr (True, st')"
    using w(1) r(1) by (simp add: OpenFile_Write_def length_Contents add.commute)
  moreover have "?c st' = take (10 * j) (?c st) @ pieces (Suc n) @ drop (10 * (j + Suc n)) (?c st)"
  proof -
    have "length (?c st) = nat (numBytes hdr)" by simp
    then have "take (10 * Suc j) (?c st1) = take (10 * j) (?c st) @ Contents"
      "drop (10 * (Suc j + n)) (?c st1) = drop (10 * (j + Suc n)) (?c st)"
      using Suc.prems(2) unfolding w(4) by (simp_all add: splice_def length_Contents algebra_simps)
    then show ?thesis unfolding r(5) by (simp add: pieces_def)
  qed
  ultimately show ?case using r(2-4,6) w(3,5) by (intro exI [of _ st']) simp
qed

lemma read_pieces_ok:
  assumes u: "utility_ok (util env)" and small: "numBytes hdr \<le> 960 * 128"
    and w: "indirect_ok (fs_host env) hdr st \<and> whole_sectors st"
    and content: "indirect.content (fs_host env) hdr st = pieces N"
  shows "j + n \<le> N \<Longrightarrow> read_pieces env n \<lparr>file_hdr = hdr, seekPosition = int (10 * j)\<rparr> st = Inr True"
proof (induction n arbitrary: j)
  case (Suc n)
  have "10 * N = nat (numBytes hdr)" using arg_cong [OF content, of length] by simp
  then have "int (10 * j) + 10 < 2 ^ 31" using Suc.prems small by auto
  note r = OpenFile_Read_slice [OF w u this]
  have "j < N" using Suc.prems by simp
  then obtain i where N: "N = j + Suc i" using less_imp_Suc_add by auto
  have "take 10 (drop (10 * j) (pieces N)) = Contents"
    unfolding N drop_pieces by (simp add: pieces_def length_Contents)
  moreover have "read_pieces env n \<lparr>file_hdr = hdr, seekPosition = int (10 * Suc j)\<rparr> st = Inr True"
    by (rule Suc.IH) (use Suc.prems in simp)
  ultimately show ?case using r by (simp add: content length_Contents add.commute)
qed simp

section \<open>The performance test as a whole\<close>

lemma FileWrite_ok:
  assumes env: "env_ok env bits" and ok: "fs_ok env bits marked dh fs"
    and new: "directory_map (currentDir fs) (name_key FileName) = None" and room: "has_room (currentDir fs)"
    and free: "sectors_needed FileSize \<le> card (disk_sectors - marked)"
  shows "\<exists>fs' s hdr. FileWrite env fs = Inr (True, fs') \<and> file_at env fs' s hdr \<and>
    indirect.content (fs_host env) hdr (disk_store fs') = pieces 12000 \<and> numBytes hdr = FileSize \<and>
    file_area env fs' s hdr \<subseteq> disk_sectors - marked \<and>
    fs_ok env bits (marked \<union> file_area env fs' s hdr) dh fs' \<and>
    directory_map (currentDir fs') = (directory_map (currentDir fs))(name_key FileName \<mapsto> s) \<and>
    freeMapFile fs' = freeMapFile fs \<and> entry_sector (currentDir fs' ! 0) = entry_sector (currentDir fs ! 0)"
proof -
  let ?h = "fs_host env"
  have u: "utility_ok (util env)" using env by (simp add: env_ok_def)
  have "0 \<le> FileSize" "FileSize \<le> 960 * 128" by (simp_all add: length_Contents)
  from Create_ok [OF env ok new room this free] obtain fs1 s hdr where
    c: "Create env FileName FileSize fs = Inr (True, fs1)" "file_at env fs1 s hdr" "numBytes hdr = FileSize"
    "file_area env fs1 s hdr \<subseteq> disk_sectors - marked" "fs_ok env bits (marked \<union> file_area env fs1 s hdr) dh fs1"
    "directory_map (currentDir fs1) = (directory_map (currentDir fs))(name_key FileName \<mapsto> s)"
    "freeMapFile fs1 = freeMapFile fs" "entry_sector (currentDir fs1 ! 0) = entry_sector (currentDir fs ! 0)"
    by (elim exE conjE)
  have size: "numBytes hdr \<le> 960 * 128" "10 * (0 + 12000) \<le> nat (numBytes hdr)" by (simp_all add: c(3) length_Contents)
  have wf: "indirect_ok ?h hdr (disk_store fs1) \<and> whole_sectors (disk_store fs1)" using c(2,5) by (simp add: file_at_def fs_ok_def)
  from write_pieces_ok [OF u size(1) wf size(2)] obtain st' where
    r: "write_pieces env 12000 \<lparr>file_hdr = hdr, seekPosition = 0\<rparr> (disk_store fs1) = Inr (True, st')"
    "indirect_ok ?h hdr st'" "whole_sectors st'" "indirect_sectors ?h hdr st' = indirect_sectors ?h hdr (disk_store fs1)"
    "indirect.content ?h hdr st' = pieces 12000 @ drop 120000 (indirect.content ?h hdr (disk_store fs1))"
    "\<forall>x. x \<notin> set (indirect_sectors ?h hdr (disk_store fs1)) \<longrightarrow> st' x = disk_store fs1 x" by auto
  have own: "file_area env fs1 s hdr \<inter> system_sectors (file_hdr (freeMapFile fs1)) (entry_sector (currentDir fs1 ! 0)) dh = {}"
    using c(4,7,8) ok unfolding fs_ok_def by auto
  note w = data_written [OF env c(5,2) own r(2-4,6)]
  have "Open env FileName fs1 = Inr (Some \<lparr>file_hdr = hdr, seekPosition = 0\<rparr>)"
    by (rule Open_file_at [OF env c(5) _ c(2)]) (simp add: c(6))
  then have "FileWrite env fs = Inr (True, fs1\<lparr>disk_store := st'\<rparr>)"
    using c(1) r(1) by (simp add: FileWrite_def length_Contents)
  moreover have "drop 120000 (indirect.content ?h hdr (disk_store fs1)) = []" by (simp add: c(3) length_Contents)
  ultimately show ?thesis
    using w c(3-8) r(5) by (intro exI [of _ "fs1\<lparr>disk_store := st'\<rparr>"] exI [of _ s] exI [of _ hdr]) simp
qed

lemma FileRead_ok:
  assumes env: "env_ok env bits" and ok: "fs_ok env bits marked dh fs"
    and n: "directory_map (currentDir fs) (name_key FileName) = Some s" and f: "file_at env fs s hdr" "numBytes hdr = FileSize"
    and content: "indirect.content (fs_host env) hdr (disk_store fs) = pieces 12000"
  shows "FileRead env fs = Inr True"
proof -
  have u: "utility_ok (util env)" using env by (simp add: env_ok_def)
  have size: "numBytes hdr \<le> 960 * 128" by (simp add: f(2) length_Contents)
  have wf: "indirect_ok (fs_host env) hdr (disk_store fs) \<and> whole_sectors (disk_store fs)"
    using f(1) ok by (simp add: file_at_def fs_ok_def)
  show ?thesis
    using read_pieces_ok [OF u size wf content, of 0 12000] Open_file_at [OF env ok n f(1)]
    by (simp add: FileRead_def length_Contents)
qed

end
