(* ===== verification/Program_Properties.thy ===== *)
theory Program_Properties
  imports Fs_Properties Fs_Programs
begin

text \<open>
  The claims about the programs that use the file system, from the calls they make down to the
  sectors of the disk.
\<close>

section \<open>Copying and printing\<close>

text \<open>
  C36. What is copied is what is printed. \<open>Copy\<close> of a UNIX file to a new name, which writes the data
  sectors behind the back of the open file, keeps the volume consistent and every other name and
  file; \<open>Print\<close>, which reads ten bytes at a time, then prints exactly the bytes of the UNIX file.
  The file must fit, and must not fill the last sector of its table: there the loop of \<open>Copy\<close> fetches
  the next sector of the table, which the file does not have.
\<close>

theorem Copy_then_Print:
  assumes env: "env_ok env bits" and ok: "fs_ok env bits marked dh fs"
    and new: "Find n (currentDir fs) = - 1" and room: "has_room (currentDir fs)"
    and size: "length data \<le> 960 * 128" "(length data + 127) div 128 mod 32 \<noteq> 0"
    and free: "sectors_needed (int (length data)) \<le> card (disk_sectors - marked)"
  shows "\<exists>fs' s hdr. Copy env (Some data) n fs = Inr fs' \<and> Print env n fs' = Inr (Some data) \<and>
    file_area env fs' s hdr \<subseteq> disk_sectors - marked \<and>
    fs_ok env bits (marked \<union> file_area env fs' s hdr) dh fs' \<and>
    (\<forall>m. name_key m \<noteq> name_key n \<longrightarrow> Find m (currentDir fs') = Find m (currentDir fs)) \<and>
    (\<forall>s2 hdr2. file_at env fs s2 hdr2 \<longrightarrow>
       file_area env fs s2 hdr2 \<subseteq>
         marked - system_sectors (file_hdr (freeMapFile fs)) (entry_sector (currentDir fs ! 0)) dh \<longrightarrow>
       file_at env fs' s2 hdr2 \<and>
       file_content (fs_host env) True hdr2 (disk_store fs') = file_content (fs_host env) True hdr2 (disk_store fs))"
proof -
  have dok: "directory_ok (currentDir fs)" using ok by (simp add: fs_ok_def)
  have "directory_map (currentDir fs) (name_key n) = None"
    using new Find_map [of n] directory_map_sector [OF dok] by (fastforce split: option.splits)
  from Copy_ok [OF env ok this room size free] obtain fs' s hdr where
    c: "Copy env (Some data) n fs = Inr fs'" "file_at env fs' s hdr"
    "indirect.content (fs_host env) hdr (disk_store fs') = data" "numBytes hdr = int (length data)"
    "file_area env fs' s hdr \<subseteq> disk_sectors - marked" "fs_ok env bits (marked \<union> file_area env fs' s hdr) dh fs'"
    "directory_map (currentDir fs') = (directory_map (currentDir fs))(name_key n \<mapsto> s)"
    "\<forall>x \<in> marked - set (direct_sectors dh) - set (direct_sectors (file_hdr (freeMapFile fs))).
       disk_store fs' x = disk_store fs x" by (elim exE conjE)
  have "Print env n fs' = Inr (Some data)"
    using Print_ok [OF env c(6) _ c(2), of n] c(3,7) by simp
  moreover have "Find m (currentDir fs') = Find m (currentDir fs)" if "name_key m \<noteq> name_key n" for m
    using that c(7) by (simp add: Find_map)
  moreover have "file_at env fs' s2 hdr2 \<and>
      file_content (fs_host env) True hdr2 (disk_store fs') = file_content (fs_host env) True hdr2 (disk_store fs)"
    if "file_at env fs s2 hdr2" "file_area env fs s2 hdr2 \<subseteq>
         marked - system_sectors (file_hdr (freeMapFile fs)) (entry_sector (currentDir fs ! 0)) dh" for s2 hdr2
  proof -
    have "\<forall>x \<in> file_area env fs s2 hdr2. disk_store fs' x = disk_store fs x"
      using c(8) that(2) unfolding system_sectors_def by blast
    from file_frame [OF that(1) this] show ?thesis by (simp add: file_content_table)
  qed
  ultimately show ?thesis using c(1,5,6) by blast
qed

lemma Copy_then_Print_witness:
  "\<exists>fs fs'. FileSystem sample_env True blank_disk = Inr fs \<and> Copy sample_env (Some (replicate 300 7)) [97] fs = Inr fs' \<and>
    Print sample_env [97] fs' = Inr (Some (replicate 300 7))"
proof -
  obtain fs marked dh where f: "FileSystem sample_env True blank_disk = Inr fs" "fs_ok sample_env sample_bits marked dh fs"
    "directory_map (currentDir fs) = [[46] \<mapsto> RootSector, [46, 46] \<mapsto> RootSector]" "has_room (currentDir fs)"
    "1000 \<le> card (disk_sectors - marked)" by (rule sample_volume)
  have "Find [97] (currentDir fs) = - 1" using f(2,3) sample_name by (simp add: Find_map fs_ok_def)
  from Copy_then_Print [OF sample_env_ok f(2) this f(4), of "replicate 300 7"] f(1,5)
  show ?thesis by (auto simp: sectors_needed_def)
qed

section \<open>The performance test\<close>

text \<open>
  C37. The performance test passes, and costs 938 sectors. On a consistent volume with room for its
  file of 120000 bytes, all pieces are written, read back equal, and the file is removed; the volume
  is consistent and has the names it had. But the 938 data sectors of the file stay marked, so the
  test cannot pass twice on one disk.
\<close>

theorem PerformanceTest_loses_sectors:
  assumes env: "env_ok env bits" and ok: "fs_ok env bits marked dh fs"
    and new: "Find FileName (currentDir fs) = - 1" and room: "has_room (currentDir fs)"
    and free: "sectors_needed FileSize \<le> card (disk_sectors - marked)"
  shows "\<exists>fs' lost. PerformanceTest env fs = Inr ((True, True, True), fs') \<and>
    fs_ok env bits (marked \<union> lost) dh fs' \<and> directory_map (currentDir fs') = directory_map (currentDir fs) \<and>
    lost \<subseteq> disk_sectors - marked \<and> card lost = 938 \<and>
    \<not> sectors_needed FileSize \<le> card (disk_sectors - (marked \<union> lost))"
proof -
  let ?h = "fs_host env"
  have dok: "directory_ok (currentDir fs)" using ok by (simp add: fs_ok_def)
  have none: "directory_map (currentDir fs) (name_key FileName) = None"
    using new Find_map [of FileName] directory_map_sector [OF dok] by (fastforce split: option.splits)
  from FileWrite_ok [OF env ok none room free] obtain fs1 s hdr where
    w: "FileWrite env fs = Inr (True, fs1)" "file_at env fs1 s hdr"
    "indirect.content ?h hdr (disk_store fs1) = pieces 12000" "numBytes hdr = FileSize"
    "file_area env fs1 s hdr \<subseteq> disk_sectors - marked" "fs_ok env bits (marked \<union> file_area env fs1 s hdr) dh fs1"
    "directory_map (currentDir fs1) = (directory_map (currentDir fs))(name_key FileName \<mapsto> s)"
    "freeMapFile fs1 = freeMapFile fs" "entry_sector (currentDir fs1 ! 0) = entry_sector (currentDir fs ! 0)"
    by (elim exE conjE)
  have s1: "directory_map (currentDir fs1) (name_key FileName) = Some s" by (simp add: w(7))
  note read = FileRead_ok [OF env w(6) s1 w(2,4,3)]
  let ?lost = "set (indirect_sectors ?h hdr (disk_store fs1))"
  have i: "indirect_ok ?h hdr (disk_store fs1)" "s \<notin> set (table_sectors hdr)" "s \<notin> ?lost"
    using w(2) by (simp_all add: file_at_def)
  have area: "file_area env fs1 s hdr = insert s (set (table_sectors hdr) \<union> ?lost)" by (simp add: file_area_def)
  have disjoint: "set (table_sectors hdr) \<inter> ?lost = {}" using i(1) by (simp add: indirect_ok_def)
  have own: "insert s (set (table_sectors hdr)) \<inter>
      system_sectors (file_hdr (freeMapFile fs1)) (entry_sector (currentDir fs1 ! 0)) dh = {}"
    using w(5,8,9) ok unfolding fs_ok_def area by auto
  have "s \<in> disk_sectors" using w(5) unfolding area by blast
  from Remove_ok [OF env w(6) s1 directory_map_own [OF dok none] w(2) this own] obtain fs2 where
    r: "Remove env FileName fs1 = Inr (True, fs2)"
    "fs_ok env bits (marked \<union> file_area env fs1 s hdr - insert s (set (table_sectors hdr))) dh fs2"
    "directory_map (currentDir fs2) = (directory_map (currentDir fs1))(name_key FileName := None)" by blast
  have left: "marked \<union> file_area env fs1 s hdr - insert s (set (table_sectors hdr)) = marked \<union> ?lost"
    using w(5) i(3) disjoint unfolding area by blast
  have lost: "?lost \<subseteq> disk_sectors - marked" using w(5) unfolding area by blast
  have "nat (numSectors hdr) = 938"
    using i(1) w(4) by (simp add: indirect_ok_def sized_header_def length_Contents)
  then have card: "card ?lost = 938"
    using i(1) distinct_card [of "indirect_sectors ?h hdr (disk_store fs1)"] by (simp add: indirect_ok_def indirect_sectors_def)
  have "card (disk_sectors - (marked \<union> ?lost)) = card (disk_sectors - marked) - 938"
    using lost card card_Diff_subset [of ?lost "disk_sectors - marked"] by (simp add: Diff_Un Diff_Int2 set_diff_eq Int_def conj_assoc)
  moreover have "card (disk_sectors - marked) \<le> 1024"
    using card_mono [of disk_sectors "disk_sectors - marked"] by (auto simp: NumSectors_def SectorsPerTrack_def NumTracks_def)
  ultimately have full: "\<not> sectors_needed FileSize \<le> card (disk_sectors - (marked \<union> ?lost))"
    by (simp add: sectors_needed_def length_Contents)
  have "PerformanceTest env fs = Inr ((True, True, True), fs2)"
    using w(1) read r(1) by (simp add: PerformanceTest_def)
  moreover have "directory_map (currentDir fs2) = directory_map (currentDir fs)"
    using none by (simp add: r(3) w(7) fun_upd_idem)
  ultimately show ?thesis
    using r(2) lost card full unfolding left by blast
qed

lemma PerformanceTest_loses_sectors_witness:
  "\<exists>fs fs'. FileSystem sample_env True blank_disk = Inr fs \<and>
    PerformanceTest sample_env fs = Inr ((True, True, True), fs') \<and> Find FileName (currentDir fs') = - 1"
proof -
  obtain fs marked dh where f: "FileSystem sample_env True blank_disk = Inr fs" "fs_ok sample_env sample_bits marked dh fs"
    "directory_map (currentDir fs) = [[46] \<mapsto> RootSector, [46, 46] \<mapsto> RootSector]" "has_room (currentDir fs)"
    "1000 \<le> card (disk_sectors - marked)" by (rule sample_volume)
  have "name_key FileName \<notin> {[46], [46, 46]}"
    by (simp add: name_key_def cstring_def FileNameMaxLen_def FileName_def bytes_of_def)
  then have new: "Find FileName (currentDir fs) = - 1" using f(2,3) by (auto simp: Find_map fs_ok_def)
  have "sectors_needed FileSize \<le> card (disk_sectors - marked)"
    using f(5) by (simp add: sectors_needed_def length_Contents)
  from PerformanceTest_loses_sectors [OF sample_env_ok f(2) new f(4) this] f(1) new show ?thesis
    by (auto simp: Find_map)
qed

end
