(* ===== verification/Post_Office.thy ===== *)
theory Post_Office
  imports Network_Device Fs_Directory
begin

text \<open>
  The post office (\<^verbatim>\<open>network/post.cc\<close>): mail boxes over the network interface. A mail travels as a
  packet whose data starts with a mail header. The state extends the simulator's by the network
  interface and the boxes. The synchronised list of a box, the lock, the semaphores and the thread
  of the postal worker are the kernel's and parameters; \<open>queue_ok\<close> states what the code relies on.
\<close>

section \<open>Mail\<close>

record mail_header =
  to_box :: c_int
  from_box :: c_int
  mail_length :: c_int

definition sizeof_MailHeader :: nat where "sizeof_MailHeader = 12"
definition MaxMailSize :: nat where "MaxMailSize = MaxPacketSize - sizeof_MailHeader"

definition mail_header_bytes :: "host \<Rightarrow> mail_header \<Rightarrow> byte list" where
  "mail_header_bytes h mh = bytes_of_words h [to_box mh, from_box mh, mail_length mh]"

definition mail_header_of_bytes :: "host \<Rightarrow> byte list \<Rightarrow> mail_header" where
  "mail_header_of_bytes h bs =
    (let ws = words_of_bytes h (take sizeof_MailHeader bs)
     in \<lparr>to_box = ws ! 0, from_box = ws ! 1, mail_length = ws ! 2\<rparr>)"

record mail =
  pktHdr :: packet_header
  mailHdr :: mail_header
  mail_data :: "byte list"

text \<open>\<open>fresh\<close> is what the array of a new mail holds.\<close>

definition Mail :: "byte list \<Rightarrow> packet_header \<Rightarrow> mail_header \<Rightarrow> byte list \<Rightarrow> mail res" where
  "Mail fresh pktH mailH msgData =
    and_then (assert_that (unat (mail_length mailH) \<le> MaxMailSize)) (\<lambda>_.
    let n = unat (mail_length mailH)
    in if length msgData < n then Inl OutOfBounds
       else Inr \<lparr>pktHdr = pktH, mailHdr = mailH, mail_data = splice 0 (take n msgData) fresh\<rparr>)"

section \<open>Boxes\<close>

text \<open>
  The kernel's \<^verbatim>\<open>SynchList\<close>. Its \<^verbatim>\<open>Remove\<close> waits for an element (\<open>await_mail\<close> below) and then
  takes the first; \<open>NoBlockRemove\<close> returns \<^verbatim>\<open>NULL\<close> on an empty list.
\<close>

record 'l mail_queue_ops =
  NewQueue :: 'l
  QueueAppend :: "mail \<Rightarrow> 'l \<Rightarrow> 'l"
  QueueRemove :: "'l \<Rightarrow> (mail \<times> 'l) option"
  NoBlockRemove :: "'l \<Rightarrow> mail option \<times> 'l"

definition queue_ok :: "'l mail_queue_ops \<Rightarrow> ('l \<Rightarrow> mail list) \<Rightarrow> bool" where
  "queue_ok Q mails \<longleftrightarrow> mails (NewQueue Q) = [] \<and> (\<forall>m q. mails (QueueAppend Q m q) = mails q @ [m]) \<and>
     (\<forall>q. mails q = [] \<longrightarrow> QueueRemove Q q = None \<and> (\<exists>q'. NoBlockRemove Q q = (None, q') \<and> mails q' = [])) \<and>
     (\<forall>q m ms. mails q = m # ms \<longrightarrow> (\<exists>q'. QueueRemove Q q = Some (m, q') \<and> mails q' = ms) \<and>
        (\<exists>q'. NoBlockRemove Q q = (Some m, q') \<and> mails q' = ms))"

definition MailBox_Put ::
  "'l mail_queue_ops \<Rightarrow> byte list \<Rightarrow> packet_header \<Rightarrow> mail_header \<Rightarrow> byte list \<Rightarrow> 'l \<Rightarrow> 'l res" where
  "MailBox_Put Q fresh pkt mh data box =
    and_then (Mail fresh pkt mh data) (\<lambda>m. Inr (QueueAppend Q m box))"

text \<open>The mail's bytes copied into the caller's buffer.\<close>

definition copy_mail :: "mail \<Rightarrow> byte list \<Rightarrow> byte list res" where
  "copy_mail m data =
    (let n = unat (mail_length (mailHdr m))
     in if length data < n \<or> length (mail_data m) < n then Inl OutOfBounds
        else Inr (splice 0 (take n (mail_data m)) data))"

text \<open>The list has waited for an element before it removes one.\<close>

definition MailBox_Get ::
  "'l mail_queue_ops \<Rightarrow> byte list \<Rightarrow> 'l \<Rightarrow> (packet_header \<times> mail_header \<times> byte list \<times> 'l) res" where
  "MailBox_Get Q data box =
    (case QueueRemove Q box of
       None \<Rightarrow> Inl NoReturn
     | Some (m, box) \<Rightarrow> and_then (copy_mail m data) (\<lambda>data. Inr (pktHdr m, mailHdr m, data, box)))"

definition MailBox_NoBlockGet ::
  "'l mail_queue_ops \<Rightarrow> byte list \<Rightarrow> 'l \<Rightarrow> ((packet_header \<times> mail_header \<times> byte list) option \<times> 'l) res" where
  "MailBox_NoBlockGet Q data box =
    (case NoBlockRemove Q box of
       (None, box) \<Rightarrow> Inr (None, box)
     | (Some m, box) \<Rightarrow> and_then (copy_mail m data) (\<lambda>data. Inr (Some (pktHdr m, mailHdr m, data), box)))"

section \<open>The post office\<close>

record ('q, 'l) post_office = "'q simulator" +
  net :: network
  netAddr :: c_int
  boxes :: "'l list"
  numBoxes :: int

text \<open>
  What the post office runs on: the host, the list of pending interrupts, the lists of the boxes,
  the lock and the semaphores, the postal worker's thread, the random numbers, and what new buffers
  hold. \<open>network_this\<close> is the address of the network interface; \<open>await_mail\<close> waits until the list of
  a box is not empty, while the rest of the machine runs.
\<close>

record ('q, 'l, 's) post_env =
  po_host :: host
  interrupt_list :: "'q list_ops"
  queues :: "'l mail_queue_ops"
  network_this :: c_int
  Random :: "'s \<Rightarrow> int"
  fresh_packet :: "'s \<Rightarrow> nat \<Rightarrow> byte"
  fresh_mail :: "byte list"
  sendLock_Acquire :: "'s \<Rightarrow> 's res"
  sendLock_Release :: "'s \<Rightarrow> 's res"
  messageSent_P :: "'s \<Rightarrow> 's res"
  messageSent_V :: "'s \<Rightarrow> 's res"
  messageAvailable_P :: "'s \<Rightarrow> 's res"
  messageAvailable_V :: "'s \<Rightarrow> 's res"
  await_mail :: "nat \<Rightarrow> 's \<Rightarrow> 's res"
  Fork_PostalHelper :: "'s \<Rightarrow> 's res"

definition PostOffice ::
  "('q, 'l, ('q, 'l, 'k) post_office_scheme) post_env \<Rightarrow> c_int \<Rightarrow> rat \<Rightarrow> int \<Rightarrow> packet_header \<Rightarrow> (nat \<Rightarrow> byte) \<Rightarrow>
   ('q, 'l, 'k) post_office_scheme \<Rightarrow> ('q, 'l, 'k) post_office_scheme res" where
  "PostOffice env addr reliability nBoxes hdr0 inbox0 s =
    (let s = s\<lparr>netAddr := addr, numBoxes := nBoxes, boxes := replicate (nat nBoxes) (NewQueue (queues env))\<rparr>
     in and_then (Network (interrupt_list env) addr reliability hdr0 inbox0 (network_this env) s) (\<lambda>(n, s).
        Fork_PostalHelper env (s\<lparr>net := n\<rparr>)))"

text \<open>One round of the postal worker; \<open>buffer\<close> keeps what earlier packets left in it.\<close>

definition PostalDelivery_round ::
  "('q, 'l, ('q, 'l, 'k) post_office_scheme, 'e) post_env_scheme \<Rightarrow> byte list \<times> ('q, 'l, 'k) post_office_scheme \<Rightarrow>
   (byte list \<times> ('q, 'l, 'k) post_office_scheme) res" where
  "PostalDelivery_round env p =
    (let (buffer, s) = p
     in and_then (messageAvailable_P env s) (\<lambda>s.
        let (pkt, data, n) = Receive (net s);
            s = s\<lparr>net := n\<rparr>;
            buffer = splice 0 data buffer;
            mh = mail_header_of_bytes (po_host env) buffer;
            box = nat (sint (to_box mh))
        in and_then (assert_that (0 \<le> sint (to_box mh) \<and> sint (to_box mh) < numBoxes s)) (\<lambda>_.
           and_then (assert_that (unat (mail_length mh) \<le> MaxMailSize)) (\<lambda>_.
           and_then (MailBox_Put (queues env) (fresh_mail env) pkt mh (drop sizeof_MailHeader buffer) (boxes s ! box))
             (\<lambda>q. Inr (buffer, s\<lparr>boxes := (boxes s)[box := q]\<rparr>))))))"

primrec PostalDelivery ::
  "('q, 'l, ('q, 'l, 'k) post_office_scheme, 'e) post_env_scheme \<Rightarrow> nat \<Rightarrow> byte list \<times> ('q, 'l, 'k) post_office_scheme \<Rightarrow>
   (byte list \<times> ('q, 'l, 'k) post_office_scheme) res" where
  "PostalDelivery env 0 p = Inr p"
| "PostalDelivery env (Suc n) p = and_then (PostalDelivery_round env p) (PostalDelivery env n)"

definition PostOffice_Send ::
  "('q, 'l, ('q, 'l, 'k) post_office_scheme, 'e) post_env_scheme \<Rightarrow> packet_header \<Rightarrow> mail_header \<Rightarrow> byte list \<Rightarrow>
   ('q, 'l, 'k) post_office_scheme \<Rightarrow> ('q, 'l, 'k) post_office_scheme res" where
  "PostOffice_Send env pkt mh data s =
    and_then (assert_that (unat (mail_length mh) \<le> MaxMailSize)) (\<lambda>_.
    and_then (assert_that (0 \<le> sint (to_box mh) \<and> sint (to_box mh) < numBoxes s)) (\<lambda>_.
    let n = unat (mail_length mh);
        pkt = pkt\<lparr>from_addr := netAddr s, hdr_length := mail_length mh + of_nat sizeof_MailHeader\<rparr>
    in if length data < n then Inl OutOfBounds
       else
         (let buffer = mail_header_bytes (po_host env) mh @ take n data
          in and_then (sendLock_Acquire env s) (\<lambda>s.
             and_then (Send (po_host env) (interrupt_list env) (Random env s) (fresh_packet env s) pkt buffer
                 (network_this env) (net s) s) (\<lambda>(n, s).
             and_then (messageSent_P env (s\<lparr>net := n\<rparr>)) (sendLock_Release env))))))"

definition PostOffice_Receive ::
  "('q, 'l, ('q, 'l, 'k) post_office_scheme, 'e) post_env_scheme \<Rightarrow> int \<Rightarrow> byte list \<Rightarrow> ('q, 'l, 'k) post_office_scheme \<Rightarrow>
   (packet_header \<times> mail_header \<times> byte list \<times> ('q, 'l, 'k) post_office_scheme) res" where
  "PostOffice_Receive env box data s =
    and_then (assert_that (0 \<le> box \<and> box < numBoxes s)) (\<lambda>_.
    and_then (await_mail env (nat box) s) (\<lambda>s.
    and_then (MailBox_Get (queues env) data (boxes s ! nat box)) (\<lambda>(pkt, mh, data, q).
    and_then (assert_that (unat (mail_length mh) \<le> MaxMailSize)) (\<lambda>_.
    Inr (pkt, mh, data, s\<lparr>boxes := (boxes s)[nat box := q]\<rparr>)))))"

definition PostOffice_NoBlockReceive ::
  "('q, 'l, ('q, 'l, 'k) post_office_scheme, 'e) post_env_scheme \<Rightarrow> int \<Rightarrow> byte list \<Rightarrow> ('q, 'l, 'k) post_office_scheme \<Rightarrow>
   ((packet_header \<times> mail_header \<times> byte list) option \<times> ('q, 'l, 'k) post_office_scheme) res" where
  "PostOffice_NoBlockReceive env box data s =
    and_then (assert_that (0 \<le> box \<and> box < numBoxes s)) (\<lambda>_.
    and_then (MailBox_NoBlockGet (queues env) data (boxes s ! nat box)) (\<lambda>(r, q).
    let s = s\<lparr>boxes := (boxes s)[nat box := q]\<rparr>
    in case r of
         None \<Rightarrow> Inr (None, s)
       | Some (pkt, mh, data) \<Rightarrow>
           and_then (assert_that (unat (mail_length mh) \<le> MaxMailSize)) (\<lambda>_. Inr (Some (pkt, mh, data), s))))"

text \<open>The interrupt handlers of the network interface.\<close>

definition IncomingPacket ::
  "('q, 'l, ('q, 'l, 'k) post_office_scheme, 'e) post_env_scheme \<Rightarrow> ('q, 'l, 'k) post_office_scheme \<Rightarrow>
   ('q, 'l, 'k) post_office_scheme res" where
  "IncomingPacket env s = messageAvailable_V env s"

definition PacketSent ::
  "('q, 'l, ('q, 'l, 'k) post_office_scheme, 'e) post_env_scheme \<Rightarrow> ('q, 'l, 'k) post_office_scheme \<Rightarrow>
   ('q, 'l, 'k) post_office_scheme res" where
  "PacketSent env s = messageSent_V env s"

text \<open>As the network interface calls them, with its own state beside the rest.\<close>

definition ReadAvail ::
  "('q, 'l, ('q, 'l, 'k) post_office_scheme, 'e) post_env_scheme \<Rightarrow> network \<times> ('q, 'l, 'k) post_office_scheme \<Rightarrow>
   (network \<times> ('q, 'l, 'k) post_office_scheme) res" where
  "ReadAvail env p = and_then (IncomingPacket env ((snd p)\<lparr>net := fst p\<rparr>)) (\<lambda>s. Inr (net s, s))"

definition GetNetAddr :: "('q, 'l, 'k) post_office_scheme \<Rightarrow> c_int" where
  "GetNetAddr s = netAddr s"

end
