(* ===== verification/Tcp_Channel.thy ===== *)
theory Tcp_Channel
  imports Post_Office File_System
begin

text \<open>
  The reliable channel of \<^verbatim>\<open>network/tcp.cc\<close>: a message is sent again until it is acknowledged, and
  the duplicates this produces are caught. Every wait sets an alarm and sleeps on two semaphores,
  which lets the other threads run; one of them may announce the end of the connection.
\<close>

section \<open>Messages\<close>

datatype PktType = MSG | STRING_INFO | FILE_INFO | PROCESS_INFO | SYNC | ACK | STOP

text \<open>The type of a message is the number of the mail box it goes to.\<close>

fun pkt_box :: "PktType \<Rightarrow> nat" where
  "pkt_box MSG = 0"
| "pkt_box STRING_INFO = 1"
| "pkt_box FILE_INFO = 2"
| "pkt_box PROCESS_INFO = 3"
| "pkt_box SYNC = 4"
| "pkt_box ACK = 5"
| "pkt_box STOP = 6"

definition TEMPO :: int where "TEMPO = 10000"
definition MAXREEMISSIONS :: int where "MAXREEMISSIONS = 200"
definition MAXCONNECTIONREEMISSIONS :: int where "MAXCONNECTIONREEMISSIONS = 50"
definition MAXCATCH :: nat where "MAXCATCH = 20"

record message =
  msg_pkt :: packet_header
  msg_mail :: mail_header
  msg_data :: "byte list"
  msg_type :: PktType

text \<open>\<open>fresh\<close> is the packet header \<^verbatim>\<open>new\<close> gives.\<close>

definition Message :: "packet_header \<Rightarrow> nat \<Rightarrow> PktType \<Rightarrow> message" where
  "Message fresh dataSize msgType =
    \<lparr>msg_pkt = fresh,
     msg_mail = \<lparr>to_box = of_nat (pkt_box msgType), from_box = of_nat (pkt_box msgType), mail_length = of_nat dataSize\<rparr>,
     msg_data = replicate dataSize 0, msg_type = msgType\<rparr>"

section \<open>The state and what it runs on\<close>

record ('q, 'l) tcp_office = "('q, 'l) post_office" +
  tcp_id :: c_int
  connectedID :: c_int
  stoppingConnection :: bool
  files :: file_system

text \<open>
  Added to the environment of the post office: the two semaphores, the header of a new message, the
  environment of the file system, and the bytes the allocator leaves after an array, which the code
  reads and writes when a message fills its buffer. With \<open>beyond\<close> empty such accesses are errors.
\<close>

record ('q, 'l, 's, 'b) tcp_env = "('q, 'l, 's) post_env" +
  tcp_this :: c_int
  stopSem_P :: "'s \<Rightarrow> 's res"
  stopSem_V :: "'s \<Rightarrow> 's res"
  waitSem_P :: "'s \<Rightarrow> 's res"
  waitSem_V :: "'s \<Rightarrow> 's res"
  new_packet :: packet_header
  file_env :: "'b fs_env"
  beyond :: "byte list"

definition WakeUp ::
  "('q, 'l, ('q, 'l, 'k) tcp_office_scheme, 'b) tcp_env \<Rightarrow> ('q, 'l, 'k) tcp_office_scheme \<Rightarrow>
   ('q, 'l, 'k) tcp_office_scheme res" where
  "WakeUp env s = and_then (waitSem_V env s) (stopSem_V env)"

definition TCPostOffice :: "('q, 'l, 'k) tcp_office_scheme \<Rightarrow> ('q, 'l, 'k) tcp_office_scheme" where
  "TCPostOffice s = s\<lparr>tcp_id := GetNetAddr s, connectedID := - 1, stoppingConnection := False\<rparr>"

text \<open>A \<^verbatim>\<open>char\<close> in an expression is an \<^verbatim>\<open>int\<close>.\<close>

definition char_int :: "host \<Rightarrow> byte \<Rightarrow> int" where
  "char_int h c = (if char_signed h then sint c else uint c)"

text \<open>The answer to a token and the test of it; the addition does not wrap.\<close>

definition put_token :: "byte \<Rightarrow> byte list \<Rightarrow> byte list res" where
  "put_token c data = (if length data < 2 then Inl OutOfBounds else Inr (data[0 := c, 1 := 0]))"

definition answer_token :: "message \<Rightarrow> message \<Rightarrow> message res" where
  "answer_token inm out =
    (if msg_data inm = [] then Inl OutOfBounds
     else and_then (put_token (hd (msg_data inm) + 1) (msg_data out)) (\<lambda>d. Inr (out\<lparr>msg_data := d\<rparr>)))"

definition token_follows :: "host \<Rightarrow> byte list \<Rightarrow> byte list \<Rightarrow> bool res" where
  "token_follows h sent got =
    (if sent = [] \<or> got = [] then Inl OutOfBounds else Inr (char_int h (hd sent) + 1 = char_int h (hd got)))"

section \<open>Waiting\<close>

text \<open>An alarm after \<open>TEMPO\<close>, and the sleep; the result tells whether the connection is being stopped.\<close>

definition wait_round ::
  "('q, 'l, ('q, 'l, 'k) tcp_office_scheme, 'b) tcp_env \<Rightarrow> IntType \<Rightarrow> ('q, 'l, 'k) tcp_office_scheme \<Rightarrow>
   (bool \<times> ('q, 'l, 'k) tcp_office_scheme) res" where
  "wait_round env ty s =
    and_then (Schedule (interrupt_list env) WakeUpHandler (tcp_this env) TEMPO ty s) (\<lambda>s.
    and_then (stopSem_P env s) (\<lambda>s.
    if stoppingConnection s then Inr (True, s)
    else and_then (waitSem_P env s) (\<lambda>s. Inr (False, s))))"

text \<open>A message received into \<open>m\<close>, if there is one.\<close>

definition poll_message ::
  "('q, 'l, ('q, 'l, 'k) tcp_office_scheme, 'b) tcp_env \<Rightarrow> message \<Rightarrow> ('q, 'l, 'k) tcp_office_scheme \<Rightarrow>
   (bool \<times> message \<times> ('q, 'l, 'k) tcp_office_scheme) res" where
  "poll_message env m s =
    and_then (PostOffice_NoBlockReceive env (int (pkt_box (msg_type m))) (msg_data m) s) (\<lambda>(r, s).
    case r of
      None \<Rightarrow> Inr (False, m, s)
    | Some (pkt, mh, data) \<Rightarrow> Inr (True, m\<lparr>msg_pkt := pkt, msg_mail := mh, msg_data := data\<rparr>, s))"

definition send_message ::
  "('q, 'l, ('q, 'l, 'k) tcp_office_scheme, 'b) tcp_env \<Rightarrow> message \<Rightarrow> ('q, 'l, 'k) tcp_office_scheme \<Rightarrow>
   ('q, 'l, 'k) tcp_office_scheme res" where
  "send_message env m s = PostOffice_Send env (msg_pkt m) (msg_mail m) (msg_data m) s"

section \<open>Catching duplicates\<close>

function catch_loop ::
  "('q, 'l, ('q, 'l, 'k) tcp_office_scheme, 'b) tcp_env \<Rightarrow> nat \<Rightarrow> int \<Rightarrow> nat \<Rightarrow> int \<Rightarrow> byte list \<Rightarrow>
   ('q, 'l, 'k) tcp_office_scheme \<Rightarrow> (int \<times> ('q, 'l, 'k) tcp_office_scheme) res" where
  "catch_loop env boxeID expected attempts nbCatch dull s =
    (if attempts < MAXCATCH \<and> nbCatch < expected
     then and_then (wait_round env NetworkRecvInt s) (\<lambda>w.
          if fst w then Inr (- 2, snd w)
          else and_then (PostOffice_NoBlockReceive env (int boxeID) dull (snd w)) (\<lambda>r.
               case fst r of
                 None \<Rightarrow> catch_loop env boxeID expected (Suc attempts) nbCatch dull (snd r)
               | Some m \<Rightarrow>
                   (if nbCatch + 1 = expected then Inr (nbCatch + 1, snd r)
                    else catch_loop env boxeID expected 0 (nbCatch + 1) (snd (snd m)) (snd r))))
     else Inr (nbCatch, s))"
  by pat_completeness auto

termination
  by (relation "measures [\<lambda>(_, _, e, _, n, _, _). nat (e - n), \<lambda>(_, _, _, a, _, _, _). MAXCATCH - a]") auto

declare catch_loop.simps [simp del]

definition CatchMail ::
  "('q, 'l, ('q, 'l, 'k) tcp_office_scheme, 'b) tcp_env \<Rightarrow> nat \<Rightarrow> int \<Rightarrow> ('q, 'l, 'k) tcp_office_scheme \<Rightarrow>
   (int \<times> ('q, 'l, 'k) tcp_office_scheme) res" where
  "CatchMail env boxeID expected s = catch_loop env boxeID expected 0 0 (fresh_mail env) s"

text \<open>
  As long as duplicates arrive they are answered, so the loop is bounded by the mail only: \<open>fuel\<close>
  bounds its iterations.
\<close>

primrec answer_loop ::
  "('q, 'l, ('q, 'l, 'k) tcp_office_scheme, 'b) tcp_env \<Rightarrow> nat \<Rightarrow> message \<Rightarrow> nat \<Rightarrow> nat \<Rightarrow> int \<Rightarrow> byte list \<Rightarrow>
   ('q, 'l, 'k) tcp_office_scheme \<Rightarrow> (int \<times> ('q, 'l, 'k) tcp_office_scheme) res" where
  "answer_loop env boxeID out 0 attempts nbCatch dull s = Inl NoReturn"
| "answer_loop env boxeID out (Suc fuel) attempts nbCatch dull s =
    (if attempts < MAXCATCH
     then and_then (wait_round env NetworkRecvInt s) (\<lambda>(stopped, s).
          if stopped then Inr (- 2, s)
          else and_then (PostOffice_NoBlockReceive env (int boxeID) dull s) (\<lambda>(r, s).
               case r of
                 None \<Rightarrow> answer_loop env boxeID out fuel (Suc attempts) nbCatch dull s
               | Some (_, _, dull) \<Rightarrow>
                   and_then (token_follows (po_host env) dull (msg_data out)) (\<lambda>ok.
                   if \<not> ok then Inr (nbCatch, s)
                   else and_then (send_message env out s) (\<lambda>s.
                        answer_loop env boxeID out fuel 0 (nbCatch + 1) dull s))))
     else Inr (nbCatch, s))"

definition CatchWithAnswer ::
  "('q, 'l, ('q, 'l, 'k) tcp_office_scheme, 'b) tcp_env \<Rightarrow> nat \<Rightarrow> nat \<Rightarrow> message \<Rightarrow> ('q, 'l, 'k) tcp_office_scheme \<Rightarrow>
   (int \<times> ('q, 'l, 'k) tcp_office_scheme) res" where
  "CatchWithAnswer env fuel boxeID out s = answer_loop env boxeID out fuel 0 0 (fresh_mail env) s"

section \<open>Sending and receiving with acknowledgement\<close>

text \<open>
  The loop of \<open>SendWait\<close>, with \<open>n\<close> attempts left; \<open>None\<close> when the connection is being stopped, else
  the attempts that failed and the answer.
\<close>

primrec send_loop ::
  "('q, 'l, ('q, 'l, 'k) tcp_office_scheme, 'b) tcp_env \<Rightarrow> message option \<Rightarrow> message \<Rightarrow> nat \<Rightarrow> int \<Rightarrow>
   ('q, 'l, 'k) tcp_office_scheme \<Rightarrow> ((int \<times> message) option \<times> ('q, 'l, 'k) tcp_office_scheme) res" where
  "send_loop env out inm 0 attempts s = Inr (Some (attempts, inm), s)"
| "send_loop env out inm (Suc n) attempts s =
    and_then (case out of None \<Rightarrow> Inr s | Some m \<Rightarrow> send_message env m s) (\<lambda>s.
    and_then (wait_round env NetworkSendInt s) (\<lambda>(stopped, s).
    if stopped then Inr (None, s)
    else and_then (poll_message env inm s) (\<lambda>(got, inm, s).
         if got then Inr (Some (attempts, inm), s)
         else send_loop env out inm n (attempts + 1) s)))"

definition SendWait ::
  "('q, 'l, ('q, 'l, 'k) tcp_office_scheme, 'b) tcp_env \<Rightarrow> message option \<Rightarrow> message \<Rightarrow> int \<Rightarrow>
   ('q, 'l, 'k) tcp_office_scheme \<Rightarrow> (bool \<times> message \<times> ('q, 'l, 'k) tcp_office_scheme) res" where
  "SendWait env out inm limit s =
    and_then (assert_that (0 < limit)) (\<lambda>_.
    and_then (send_loop env out inm (nat limit) 0 s) (\<lambda>(r, s).
    case r of
      None \<Rightarrow> Inr (False, inm, s)
    | Some (attempts, inm) \<Rightarrow>
        (case out of
           None \<Rightarrow> Inr (attempts \<noteq> limit \<and> \<not> stoppingConnection s, inm, s)
         | Some m \<Rightarrow>
             and_then (CatchMail env (pkt_box (msg_type inm)) attempts s) (\<lambda>(_, s).
             if stoppingConnection s then Inr (False, inm, s)
             else and_then (token_follows (po_host env) (msg_data m) (msg_data inm)) (\<lambda>ok.
                  Inr (attempts \<noteq> limit \<and> ok, inm, s))))))"

primrec receive_loop ::
  "('q, 'l, ('q, 'l, 'k) tcp_office_scheme, 'b) tcp_env \<Rightarrow> nat \<Rightarrow> message \<Rightarrow> message \<Rightarrow>
   ('q, 'l, 'k) tcp_office_scheme \<Rightarrow> ((message \<times> message) option \<times> ('q, 'l, 'k) tcp_office_scheme) res" where
  "receive_loop env 0 inm out s = Inl NoReturn"
| "receive_loop env (Suc fuel) inm out s =
    and_then (wait_round env NetworkRecvInt s) (\<lambda>(stopped, s).
    if stopped then Inr (None, s)
    else and_then (poll_message env inm s) (\<lambda>(got, inm, s).
         if \<not> got then receive_loop env fuel inm out s
         else and_then (if msg_type out = ACK then answer_token inm out else Inr out) (\<lambda>out.
              and_then (send_message env out s) (\<lambda>s. Inr (Some (inm, out), s)))))"

definition ReceiveWait ::
  "('q, 'l, ('q, 'l, 'k) tcp_office_scheme, 'b) tcp_env \<Rightarrow> nat \<Rightarrow> message \<Rightarrow> message \<Rightarrow>
   ('q, 'l, 'k) tcp_office_scheme \<Rightarrow> (bool \<times> message \<times> ('q, 'l, 'k) tcp_office_scheme) res" where
  "ReceiveWait env fuel inm out s =
    and_then (receive_loop env fuel inm out s) (\<lambda>(r, s).
    case r of
      None \<Rightarrow> Inr (False, inm, s)
    | Some (inm, out) \<Rightarrow>
        and_then (CatchWithAnswer env fuel (pkt_box (msg_type inm)) out s) (\<lambda>(n, s).
        Inr (n \<noteq> - 2, inm, s)))"

end
