(* ===== verification/Tcp_Service.thy ===== *)
theory Tcp_Service
  imports Tcp_Channel
begin

text \<open>
  What \<^verbatim>\<open>network/tcp.cc\<close> offers its users: connections, and strings and files of any length sent as
  numbered pieces over the acknowledged channel. Progress bars and timing are output only.
\<close>

section \<open>Connections\<close>

text \<open>A message to or from this machine.\<close>

definition addressed :: "c_int \<Rightarrow> c_int \<Rightarrow> message \<Rightarrow> message" where
  "addressed frm to m = m\<lparr>msg_pkt := (msg_pkt m)\<lparr>from_addr := frm, to_addr := to\<rparr>\<rparr>"

definition SetMessageToFrom :: "('q, 'l, 'k) tcp_office_scheme \<Rightarrow> message \<Rightarrow> message" where
  "SetMessageToFrom s m = addressed (tcp_id s) (connectedID s) m"

definition sent_from :: "c_int \<Rightarrow> message \<Rightarrow> message" where
  "sent_from frm m = m\<lparr>msg_pkt := (msg_pkt m)\<lparr>from_addr := frm\<rparr>\<rparr>"

definition sent_to :: "c_int \<Rightarrow> message \<Rightarrow> message" where
  "sent_to to m = m\<lparr>msg_pkt := (msg_pkt m)\<lparr>to_addr := to\<rparr>\<rparr>"

definition set_length :: "nat \<Rightarrow> message \<Rightarrow> message" where
  "set_length n m = m\<lparr>msg_mail := (msg_mail m)\<lparr>mail_length := of_nat n\<rparr>\<rparr>"

text \<open>The token of machine \<open>i\<close>: \<^verbatim>\<open>(char) 64 + id\<close>, stored in a \<^verbatim>\<open>char\<close>, and the end of the string.\<close>

definition token :: "c_int \<Rightarrow> byte list" where
  "token i = [ucast (64 + i), 0]"

definition SyncWithMachine ::
  "('q, 'l, ('q, 'l, 'k) tcp_office_scheme, 'b) tcp_env \<Rightarrow> nat \<Rightarrow> c_int \<Rightarrow> ('q, 'l, 'k) tcp_office_scheme \<Rightarrow>
   (c_int \<times> ('q, 'l, 'k) tcp_office_scheme) res" where
  "SyncWithMachine env fuel targetMachine s =
    (if connectedID s \<noteq> - 1 then Inr (- 1, s)
     else
       (let n = length (cstring (token (tcp_id s))) + 1;
            new = (\<lambda>ty. set_length n (Message (new_packet env) 2 ty));
            outSync = addressed (tcp_id s) targetMachine (new SYNC)\<lparr>msg_data := token (tcp_id s)\<rparr>;
            outAck = addressed (tcp_id s) targetMachine (new ACK)
        in and_then (SendWait env (Some outSync) (new ACK) MAXCONNECTIONREEMISSIONS s) (\<lambda>(ok, _, s).
           if ok
           then and_then (ReceiveWait env fuel (new SYNC) outAck s) (\<lambda>(_, _, s).
                Inr (targetMachine, s\<lparr>connectedID := targetMachine\<rparr>))
           else Inr (connectedID s, s))))"

definition OpenConnection ::
  "('q, 'l, ('q, 'l, 'k) tcp_office_scheme, 'b) tcp_env \<Rightarrow> nat \<Rightarrow> ('q, 'l, 'k) tcp_office_scheme \<Rightarrow>
   (c_int \<times> ('q, 'l, 'k) tcp_office_scheme) res" where
  "OpenConnection env fuel s =
    (if connectedID s \<noteq> - 1 then Inr (- 1, s)
     else
       (let new = Message (new_packet env) 2;
            outSync = sent_from (tcp_id s) (new SYNC)\<lparr>msg_data := token (tcp_id s)\<rparr>;
            outAck = sent_from (tcp_id s) (new ACK);
            inSync = new SYNC
        in and_then (PostOffice_Receive env (int (pkt_box SYNC)) (msg_data inSync) s) (\<lambda>(pkt, mh, data, s).
           let inSync = inSync\<lparr>msg_pkt := pkt, msg_mail := mh, msg_data := data\<rparr>
           in and_then (answer_token inSync outAck) (\<lambda>outAck.
              let outAck = sent_to (from_addr pkt) outAck;
                  outSync = sent_to (from_addr pkt) outSync
              in and_then (send_message env outAck s) (\<lambda>s.
                 and_then (CatchWithAnswer env fuel (pkt_box SYNC) outAck s) (\<lambda>(_, s).
                 and_then (SendWait env (Some outSync) (inSync\<lparr>msg_type := ACK\<rparr>) MAXCONNECTIONREEMISSIONS s) (\<lambda>(ok, _, s).
                 let s = (if ok then s\<lparr>connectedID := from_addr pkt\<rparr> else s)
                 in Inr (connectedID s, s))))))))"

definition EndConnection ::
  "('q, 'l, ('q, 'l, 'k) tcp_office_scheme, 'b) tcp_env \<Rightarrow> ('q, 'l, 'k) tcp_office_scheme \<Rightarrow>
   (c_int \<times> ('q, 'l, 'k) tcp_office_scheme) res" where
  "EndConnection env s =
    (if connectedID s = - 1 then Inr (- 1, s)
     else
       (let outEnd = addressed (tcp_id s) (connectedID s) (Message (new_packet env) 2 STOP)\<lparr>msg_data := token (tcp_id s)\<rparr>;
            inAck = Message (new_packet env) 2 ACK
        in and_then (SendWait env (Some outEnd) inAck MAXCONNECTIONREEMISSIONS (s\<lparr>stoppingConnection := False\<rparr>)) (\<lambda>(ok, _, s).
           let retVal = (if ok then connectedID s else - 1)
           in Inr (retVal, if retVal = connectedID s then s\<lparr>connectedID := - 1\<rparr> else s))))"

definition ListenForEndConnection ::
  "('q, 'l, ('q, 'l, 'k) tcp_office_scheme, 'b) tcp_env \<Rightarrow> nat \<Rightarrow> ('q, 'l, 'k) tcp_office_scheme \<Rightarrow>
   (int \<times> ('q, 'l, 'k) tcp_office_scheme) res" where
  "ListenForEndConnection env fuel s =
    (let inm = Message (new_packet env) 2 STOP;
         out = sent_from (tcp_id s) (Message (new_packet env) 2 ACK)
     in and_then (PostOffice_Receive env (int (pkt_box STOP)) (msg_data inm) s) (\<lambda>(pkt, mh, data, s).
        let inm = inm\<lparr>msg_pkt := pkt, msg_mail := mh, msg_data := data\<rparr>
        in and_then (answer_token inm (sent_to (from_addr pkt) out)) (\<lambda>out.
           and_then (send_message env out s) (\<lambda>s.
           and_then (CatchWithAnswer env fuel (pkt_box STOP) out s) (\<lambda>(_, s).
           and_then (stopSem_V env (s\<lparr>stoppingConnection := True\<rparr>)) (\<lambda>s. Inr (1, s)))))))"

section \<open>Single messages\<close>

definition TCP_SendMessage ::
  "('q, 'l, ('q, 'l, 'k) tcp_office_scheme, 'b) tcp_env \<Rightarrow> byte list \<Rightarrow> ('q, 'l, 'k) tcp_office_scheme \<Rightarrow>
   (bool \<times> ('q, 'l, 'k) tcp_office_scheme) res" where
  "TCP_SendMessage env data s =
    (if connectedID s = - 1 then Inr (False, s)
     else
       (let str = cstring data;
            out = SetMessageToFrom s (Message (new_packet env) (length str) MSG)\<lparr>msg_data := str\<rparr>;
            inm = Message (new_packet env) 2 ACK
        in and_then (SendWait env (Some out) inm MAXREEMISSIONS s) (\<lambda>(ok, _, s).
           Inr (ok, if \<not> ok \<and> stoppingConnection s then s\<lparr>stoppingConnection := False\<rparr> else s))))"

text \<open>The string in an array, which may go on into the bytes after it.\<close>

definition string_in :: "byte list \<Rightarrow> byte list \<Rightarrow> byte list res" where
  "string_in after data = (if 0 \<in> set (data @ after) then Inr (cstring (data @ after)) else Inl OutOfBounds)"

text \<open>The result holds the string printed into the caller's buffer.\<close>

definition TCP_ReceiveMessage ::
  "('q, 'l, ('q, 'l, 'k) tcp_office_scheme, 'b) tcp_env \<Rightarrow> nat \<Rightarrow> ('q, 'l, 'k) tcp_office_scheme \<Rightarrow>
   (bool \<times> byte list \<times> ('q, 'l, 'k) tcp_office_scheme) res" where
  "TCP_ReceiveMessage env fuel s =
    (if connectedID s = - 1 then Inr (False, [], s)
     else
       (let inm = Message (new_packet env) MaxMailSize MSG;
            out = SetMessageToFrom s (Message (new_packet env) 2 ACK)
        in and_then (ReceiveWait env fuel inm out s) (\<lambda>(ok, inm, s).
           let s = (if ok then s else s\<lparr>stoppingConnection := False\<rparr>)
           in and_then (string_in (beyond env) (msg_data inm)) (\<lambda>str. Inr (ok, str, s)))))"

section \<open>Strings\<close>

text \<open>The number of pieces of \<open>n\<close> bytes, and the pieces; an empty string has none and none is written.\<close>

definition pieces_of :: "nat \<Rightarrow> nat" where
  "pieces_of n = n div MaxMailSize + (if n mod MaxMailSize = 0 then 0 else 1)"

definition CutString :: "byte list \<Rightarrow> byte list list res" where
  "CutString str =
    (let pieces = pieces_of (length str)
     in if pieces = 0 then Inl OutOfBounds
        else Inr (List.map (\<lambda>i. take MaxMailSize (drop (MaxMailSize * i) str)) [0..<pieces - 1] @
                  [drop (MaxMailSize * (pieces - 1)) str]))"

text \<open>\<^verbatim>\<open>to_string\<close> and \<^verbatim>\<open>atoi\<close>; the latter skips white space and reads a sign.\<close>

fun to_string :: "nat \<Rightarrow> byte list" where
  "to_string n = (if n < 10 then [of_nat (48 + n)] else to_string (n div 10) @ [of_nat (48 + n mod 10)])"

declare to_string.simps [simp del]

definition digit :: "byte \<Rightarrow> bool" where
  "digit c \<longleftrightarrow> 48 \<le> unat c \<and> unat c < 58"

definition white_space :: "byte \<Rightarrow> bool" where
  "white_space c \<longleftrightarrow> c = 32 \<or> 9 \<le> unat c \<and> unat c \<le> 13"

definition number_in :: "byte list \<Rightarrow> int" where
  "number_in str = foldl (\<lambda>n c. 10 * n + (uint c - 48)) 0 (takeWhile digit str)"

definition atoi :: "byte list \<Rightarrow> int" where
  "atoi str =
    (case dropWhile white_space str of
       [] \<Rightarrow> 0
     | c # cs \<Rightarrow> if c = 45 then - number_in cs else if c = 43 then number_in cs else number_in (c # cs))"

text \<open>The pause after a piece, and the loop over the pieces.\<close>

definition piece_pause ::
  "('q, 'l, ('q, 'l, 'k) tcp_office_scheme, 'b) tcp_env \<Rightarrow> ('q, 'l, 'k) tcp_office_scheme \<Rightarrow>
   ('q, 'l, 'k) tcp_office_scheme res" where
  "piece_pause env s =
    and_then (Schedule (interrupt_list env) WakeUpHandler (tcp_this env) (int MAXCATCH * TEMPO) NetworkSendInt s) (\<lambda>s.
    and_then (stopSem_P env s) (waitSem_P env))"

primrec send_pieces ::
  "('q, 'l, ('q, 'l, 'k) tcp_office_scheme, 'b) tcp_env \<Rightarrow> byte list list \<Rightarrow> ('q, 'l, 'k) tcp_office_scheme \<Rightarrow>
   (bool \<times> ('q, 'l, 'k) tcp_office_scheme) res" where
  "send_pieces env [] s = Inr (True, s)"
| "send_pieces env (p # ps) s =
    and_then (TCP_SendMessage env p s) (\<lambda>(ok, s).
    if \<not> ok then Inr (False, s) else and_then (piece_pause env s) (send_pieces env ps))"

text \<open>The announcement of the number of pieces.\<close>

definition send_info ::
  "('q, 'l, ('q, 'l, 'k) tcp_office_scheme, 'b) tcp_env \<Rightarrow> PktType \<Rightarrow> nat \<Rightarrow> ('q, 'l, 'k) tcp_office_scheme \<Rightarrow>
   (bool \<times> ('q, 'l, 'k) tcp_office_scheme) res" where
  "send_info env ty nbPieces s =
    (let info = SetMessageToFrom s (Message (new_packet env) MaxMailSize ty);
         info = info\<lparr>msg_data := strcpy (msg_data info) (to_string nbPieces)\<rparr>
     in and_then (SendWait env (Some info) (Message (new_packet env) 2 ACK) MAXREEMISSIONS s) (\<lambda>(ok, _, s).
        Inr (ok, if \<not> ok \<and> stoppingConnection s then s\<lparr>stoppingConnection := False\<rparr> else s)))"

definition SendString ::
  "('q, 'l, ('q, 'l, 'k) tcp_office_scheme, 'b) tcp_env \<Rightarrow> byte list \<Rightarrow> ('q, 'l, 'k) tcp_office_scheme \<Rightarrow>
   (bool \<times> ('q, 'l, 'k) tcp_office_scheme) res" where
  "SendString env data s =
    (if connectedID s = - 1 then Inr (False, s)
     else
       (let msg = cstring data
        in and_then (CutString msg) (\<lambda>msgList.
           and_then (send_info env STRING_INFO (pieces_of (length msg)) s) (\<lambda>(ok, s).
           if ok then send_pieces env msgList s else Inr (False, s)))))"

text \<open>The announcement received; the connection's end is not cleared here.\<close>

definition receive_info ::
  "('q, 'l, ('q, 'l, 'k) tcp_office_scheme, 'b) tcp_env \<Rightarrow> nat \<Rightarrow> PktType \<Rightarrow> ('q, 'l, 'k) tcp_office_scheme \<Rightarrow>
   (int option \<times> ('q, 'l, 'k) tcp_office_scheme) res" where
  "receive_info env fuel ty s =
    (let inm = Message (new_packet env) MaxMailSize ty;
         out = SetMessageToFrom s (Message (new_packet env) 2 ACK)
     in and_then (ReceiveWait env fuel inm out s) (\<lambda>(ok, inm, s).
        if \<not> ok then Inr (None, s)
        else and_then (string_in (beyond env) (msg_data inm)) (\<lambda>str. Inr (Some (atoi str), s))))"

text \<open>The string fits a buffer of \<open>MaxMailSize\<close> bytes, or the bytes after it.\<close>

definition fits_piece :: "byte list \<Rightarrow> byte list \<Rightarrow> bool" where
  "fits_piece after str \<longleftrightarrow> length str < MaxMailSize + length after"

primrec receive_pieces ::
  "('q, 'l, ('q, 'l, 'k) tcp_office_scheme, 'b) tcp_env \<Rightarrow> nat \<Rightarrow> nat \<Rightarrow> byte list \<Rightarrow> ('q, 'l, 'k) tcp_office_scheme \<Rightarrow>
   (byte list option \<times> ('q, 'l, 'k) tcp_office_scheme) res" where
  "receive_pieces env fuel 0 result s = Inr (Some result, s)"
| "receive_pieces env fuel (Suc n) result s =
    and_then (TCP_ReceiveMessage env fuel s) (\<lambda>(ok, piece, s).
    if \<not> fits_piece (beyond env) piece then Inl OutOfBounds
    else if \<not> ok then Inr (None, s)
    else receive_pieces env fuel n (result @ piece) s)"

definition ReceiveString ::
  "('q, 'l, ('q, 'l, 'k) tcp_office_scheme, 'b) tcp_env \<Rightarrow> nat \<Rightarrow> ('q, 'l, 'k) tcp_office_scheme \<Rightarrow>
   (byte list option \<times> ('q, 'l, 'k) tcp_office_scheme) res" where
  "ReceiveString env fuel s =
    (if connectedID s = - 1 then Inr (None, s)
     else and_then (receive_info env fuel STRING_INFO s) (\<lambda>(r, s).
          case r of
            None \<Rightarrow> Inr (None, s)
          | Some pieces \<Rightarrow> receive_pieces env fuel (nat pieces) [] s))"

section \<open>Files\<close>

text \<open>\<open>f\<close> is read piece by piece; a piece ends at its first zero byte.\<close>

primrec send_file ::
  "('q, 'l, ('q, 'l, 'k) tcp_office_scheme, 'b) tcp_env \<Rightarrow> nat \<Rightarrow> openfile \<Rightarrow> ('q, 'l, 'k) tcp_office_scheme \<Rightarrow>
   (bool \<times> ('q, 'l, 'k) tcp_office_scheme) res" where
  "send_file env 0 f s = Inr (True, s)"
| "send_file env (Suc n) f s =
    and_then (OpenFile_Read (util (file_env env)) (fs_host (file_env env)) (int MaxMailSize) f (disk_store (files s)))
      (\<lambda>(_, data, f).
    and_then (TCP_SendMessage env (splice 0 data (replicate (MaxMailSize + 1) 0)) s) (\<lambda>(ok, s).
    if \<not> ok then Inr (False, s) else and_then (piece_pause env s) (send_file env n f)))"

text \<open>The length is unsigned in the division.\<close>

definition SendFile ::
  "('q, 'l, ('q, 'l, 'k) tcp_office_scheme, 'b) tcp_env \<Rightarrow> byte list \<Rightarrow> ('q, 'l, 'k) tcp_office_scheme \<Rightarrow>
   (bool \<times> ('q, 'l, 'k) tcp_office_scheme) res" where
  "SendFile env filename s =
    (if connectedID s = - 1 then Inr (False, s)
     else and_then (Open (file_env env) filename (files s)) (\<lambda>r.
          case r of
            None \<Rightarrow> Inr (False, s)
          | Some f \<Rightarrow>
              (let nbPieces = pieces_of (unat (word_of_int (OpenFile_Length f) :: c_int))
               in and_then (send_info env FILE_INFO nbPieces s) (\<lambda>(ok, s).
                  if ok then send_file env nbPieces f s else Inr (False, s)))))"

primrec receive_file ::
  "('q, 'l, ('q, 'l, 'k) tcp_office_scheme, 'b) tcp_env \<Rightarrow> nat \<Rightarrow> nat \<Rightarrow> openfile option \<Rightarrow> ('q, 'l, 'k) tcp_office_scheme \<Rightarrow>
   (bool \<times> ('q, 'l, 'k) tcp_office_scheme) res" where
  "receive_file env fuel 0 f s = Inr (True, s)"
| "receive_file env fuel (Suc n) f s =
    and_then (TCP_ReceiveMessage env fuel s) (\<lambda>(ok, str, s).
    if \<not> fits_piece (beyond env) str then Inl OutOfBounds
    else if \<not> ok then Inr (False, s)
    else if beyond env = [] then Inl OutOfBounds
    else case f of
        None \<Rightarrow> Inl NullPointer
      | Some f \<Rightarrow>
          (let e = file_env env; str = take MaxMailSize str
           in and_then (OpenFile_Write (util e) (fs_host e) (fresh_buffer e) str (int (length str)) f (disk_store (files s)))
                (\<lambda>(_, f, st). receive_file env fuel n (Some f) (s\<lparr>files := (files s)\<lparr>disk_store := st\<rparr>\<rparr>))))"

definition ReceiveFile ::
  "('q, 'l, ('q, 'l, 'k) tcp_office_scheme, 'b) tcp_env \<Rightarrow> nat \<Rightarrow> byte list \<Rightarrow> ('q, 'l, 'k) tcp_office_scheme \<Rightarrow>
   (bool \<times> ('q, 'l, 'k) tcp_office_scheme) res" where
  "ReceiveFile env fuel savename s =
    (if connectedID s = - 1 then Inr (False, s)
     else and_then (receive_info env fuel FILE_INFO s) (\<lambda>(r, s).
          case r of
            None \<Rightarrow> Inr (False, s)
          | Some pieces \<Rightarrow>
              and_then (Create (file_env env) savename (narrow (pieces * int MaxMailSize)) (files s)) (\<lambda>(_, fs).
              and_then (Open (file_env env) savename fs) (\<lambda>f.
              receive_file env fuel (nat pieces) f (s\<lparr>files := fs\<rparr>)))))"

end
