(* ===== verification/Post_Delivery.thy ===== *)
theory Post_Delivery
  imports Post_Office
begin

text \<open>
  How a mail travels: through the send, the wire, the interrupt and the postal worker into its box,
  and out of the box in the order of arrival.
\<close>

section \<open>Boxes\<close>

lemma queue_append: "queue_ok Q mails \<Longrightarrow> mails (QueueAppend Q m q) = mails q @ [m]"
  by (simp add: queue_ok_def)

lemma queue_empty:
  assumes "queue_ok Q mails" and "mails q = []"
  obtains q' where "NoBlockRemove Q q = (None, q')" and "mails q' = []" and "QueueRemove Q q = None"
  using assms unfolding queue_ok_def by blast

lemma queue_first:
  assumes "queue_ok Q mails" and "mails q = m # ms"
  obtains q' q'' where "NoBlockRemove Q q = (Some m, q')" and "mails q' = ms"
    and "QueueRemove Q q = Some (m, q'')" and "mails q'' = ms"
  using assms unfolding queue_ok_def by metis

section \<open>Headers in packets\<close>

lemma length_mail_header [simp]: "length (mail_header_bytes h mh) = 12"
  by (simp add: mail_header_bytes_def)

lemma mail_header_roundtrip: "mail_header_of_bytes h (mail_header_bytes h mh @ r) = mh"
  by (simp add: mail_header_of_bytes_def mail_header_bytes_def sizeof_MailHeader_def words_of_bytes_of_words)

lemma mail_sizes: "MaxMailSize = 40" "MaxPacketSize = 52"
  by (simp_all add: MaxMailSize_def MaxPacketSize_def MaxWireSize_def sizeof_PacketHeader_def sizeof_MailHeader_def)

lemma unat_packet_length:
  "unat (mail_length mh) \<le> MaxMailSize \<Longrightarrow> unat (mail_length mh + of_nat sizeof_MailHeader) = unat (mail_length mh) + 12"
  by (subst unat_word_ariths) (simp add: mail_sizes sizeof_MailHeader_def)

section \<open>The kernel's part\<close>

text \<open>A call of the kernel that comes back and leaves the post office alone.\<close>

definition quiet :: "(('q, 'l, 'k) post_office_scheme \<Rightarrow> ('q, 'l, 'k) post_office_scheme res) \<Rightarrow> bool" where
  "quiet f \<longleftrightarrow> (\<forall>s. \<exists>s'. f s = Inr s' \<and> net s' = net s \<and> netAddr s' = netAddr s \<and> boxes s' = boxes s \<and>
     numBoxes s' = numBoxes s)"

lemma quiet_call:
  assumes "quiet f"
  obtains s' where "f s = Inr s'" and "net s' = net s" and "netAddr s' = netAddr s" and "boxes s' = boxes s"
    and "numBoxes s' = numBoxes s"
  using assms unfolding quiet_def by blast

definition post_kernel_ok ::
  "('q, 'l, ('q, 'l, 'k) post_office_scheme, 'e) post_env_scheme \<Rightarrow> ('l \<Rightarrow> mail list) \<Rightarrow> bool" where
  "post_kernel_ok env mails \<longleftrightarrow> queue_ok (queues env) mails \<and> (\<forall>s. 0 \<le> Random env s) \<and> length (fresh_mail env) = MaxMailSize \<and>
     quiet (sendLock_Acquire env) \<and> quiet (sendLock_Release env) \<and> quiet (messageSent_P env) \<and>
     quiet (messageAvailable_P env) \<and> quiet (messageAvailable_V env)"

lemma Schedule_fields:
  assumes "Schedule L irq a n ty s = Inr s'"
  shows "net s' = net s" and "netAddr s' = netAddr s" and "boxes s' = boxes s" and "numBoxes s' = numBoxes s"
  using assms by (auto simp: Schedule_def Let_def run_simps)

section \<open>Sending\<close>

text \<open>Mail that can be sent: it fits, its box exists, and the network is ready and reliable.\<close>

definition sendable :: "mail_header \<Rightarrow> byte list \<Rightarrow> ('q, 'l, 'k) post_office_scheme \<Rightarrow> bool" where
  "sendable mh data s \<longleftrightarrow> unat (mail_length mh) \<le> MaxMailSize \<and> unat (mail_length mh) \<le> length data \<and>
     0 \<le> sint (to_box mh) \<and> sint (to_box mh) < numBoxes s \<and>
     \<not> sendBusy (net s) \<and> chanceToWork (net s) = 1 \<and> ident (net s) = netAddr s"

text \<open>The packet header the post office fills in.\<close>

definition packet_for :: "c_int \<Rightarrow> packet_header \<Rightarrow> mail_header \<Rightarrow> packet_header" where
  "packet_for me pkt mh = pkt\<lparr>from_addr := me, hdr_length := mail_length mh + of_nat sizeof_MailHeader\<rparr>"

lemma PostOffice_Send_wire:
  assumes k: "post_kernel_ok env mails" and ok: "sendable mh data s"
  obtains s' buf where "PostOffice_Send env pkt mh data s = Inr s'"
    and "wire (net s') = wire (net s) @ [(to_addr pkt, buf)]"
    and "get_header (po_host env) buf = packet_for (netAddr s) pkt mh"
    and "copy_out buf sizeof_PacketHeader (unat (mail_length mh) + 12) =
      mail_header_bytes (po_host env) mh @ take (unat (mail_length mh)) data"
    and "boxes s' = boxes s" and "numBoxes s' = numBoxes s" and "netAddr s' = netAddr s"
proof -
  let ?n = "unat (mail_length mh)" and ?pkt = "packet_for (netAddr s) pkt mh" and ?h = "po_host env"
  let ?b = "mail_header_bytes ?h mh @ take ?n data"
  have o: "?n \<le> MaxMailSize" "?n \<le> length data" "0 \<le> sint (to_box mh) \<and> sint (to_box mh) < numBoxes s"
    "\<not> sendBusy (net s)" "chanceToWork (net s) = 1" "ident (net s) = netAddr s"
    using ok by (simp_all add: sendable_def)
  have len: "unat (hdr_length ?pkt) = ?n + 12" using unat_packet_length [OF o(1)] by (simp add: packet_for_def)
  then have pos: "hdr_length ?pkt > 0" by (metis word_gt_0_no add_is_0 unat_0 word_neq_0_conv zero_neq_numeral)
  obtain s1 where 1: "sendLock_Acquire env s = Inr s1" "net s1 = net s" "netAddr s1 = netAddr s" "boxes s1 = boxes s"
    "numBoxes s1 = numBoxes s"
    using k quiet_call unfolding post_kernel_ok_def by metis
  have cond: "\<not> sendBusy (net s1)" "from_addr ?pkt = ident (net s1)" "chanceToWork (net s1) = 1"
    "0 \<le> Random env s1" "unat (hdr_length ?pkt) \<le> length ?b" "unat (hdr_length ?pkt) \<le> MaxPacketSize"
    using o 1(2) k len by (simp_all add: packet_for_def post_kernel_ok_def mail_sizes)
  obtain s2 where 2: "Send ?h (interrupt_list env) (Random env s1) (fresh_packet env s1) ?pkt ?b (network_this env) (net s1) s1 =
      Inr ((net s1)\<lparr>wire := wire (net s1) @ [(to_addr ?pkt,
        copy_in ?b (unat (hdr_length ?pkt)) sizeof_PacketHeader (put_header ?h ?pkt (fresh_packet env s1)))]\<rparr>, s2)"
    "Schedule (interrupt_list env) NetworkSendDone (network_this env) NetworkTime NetworkSendInt s1 = Inr s2"
    by (rule Send_reliable [OF cond(1) pos cond(6,2-5)])
  note f2 = Schedule_fields [OF 2(2)]
  let ?buf = "copy_in ?b (?n + 12) sizeof_PacketHeader (put_header ?h ?pkt (fresh_packet env s1))"
  let ?s2 = "s2\<lparr>net := (net s1)\<lparr>wire := wire (net s1) @ [(to_addr pkt, ?buf)]\<rparr>\<rparr>"
  obtain s3 where 3: "messageSent_P env ?s2 = Inr s3" "net s3 = net ?s2" "netAddr s3 = netAddr ?s2" "boxes s3 = boxes ?s2"
    "numBoxes s3 = numBoxes ?s2"
    using k quiet_call [where s = ?s2] unfolding post_kernel_ok_def by metis
  obtain s4 where 4: "sendLock_Release env s3 = Inr s4" "net s4 = net s3" "netAddr s4 = netAddr s3" "boxes s4 = boxes s3"
    "numBoxes s4 = numBoxes s3"
    using k quiet_call unfolding post_kernel_ok_def by metis
  have "PostOffice_Send env pkt mh data s = Inr s4"
    using o(1-3) 1(1) 2(1) 3(1) 4(1)
    by (simp add: PostOffice_Send_def Let_def len packet_for_def [symmetric]) (simp add: packet_for_def)
  moreover have "wire (net s4) = wire (net s) @ [(to_addr pkt, ?buf)]" using 1 3 4 by simp
  moreover have "get_header ?h ?buf = ?pkt" by (rule get_header_packet)
  moreover have "copy_out ?buf sizeof_PacketHeader (?n + 12) = ?b" using o(2) by (simp add: copy_out_in)
  ultimately show thesis using that 1 3 4 f2 by simp
qed

section \<open>Delivery\<close>

lemma PostalDelivery_puts:
  assumes k: "post_kernel_ok env mails" and n: "unat (mail_length mh) \<le> MaxMailSize"
    and box: "0 \<le> sint (to_box mh)" "sint (to_box mh) < numBoxes s" "int (length (boxes s)) = numBoxes s"
    and pkt: "inHdr (net s) = hdr" "unat (hdr_length hdr) = unat (mail_length mh) + 12"
    and data: "copy_out (inbox (net s)) 0 (unat (hdr_length hdr)) = mail_header_bytes (po_host env) mh @ d"
    and buf: "length buffer = MaxPacketSize"
  obtains buffer' s' m where "PostalDelivery_round env (buffer, s) = Inr (buffer', s')"
    and "length buffer' = MaxPacketSize" and "pktHdr m = hdr" and "mailHdr m = mh" and "length (mail_data m) = MaxMailSize"
    and "take (unat (mail_length mh)) (mail_data m) = d"
    and "\<exists>q. mails q = mails (boxes s ! nat (sint (to_box mh))) @ [m] \<and> boxes s' = (boxes s)[nat (sint (to_box mh)) := q]"
    and "hdr_length (inHdr (net s')) = 0" and "numBoxes s' = numBoxes s"
proof -
  let ?n = "unat (mail_length mh)" and ?box = "nat (sint (to_box mh))"
  obtain s1 where 1: "messageAvailable_P env s = Inr s1" "net s1 = net s" "boxes s1 = boxes s" "numBoxes s1 = numBoxes s"
    using k quiet_call unfolding post_kernel_ok_def by metis
  let ?b = "mail_header_bytes (po_host env) mh"
  let ?buf = "splice 0 (?b @ d) buffer"
  have len: "length d = ?n"
    using arg_cong [OF data, of length] pkt(2) by (simp add: copy_out_def)
  have buf': "?buf = ?b @ d @ drop (12 + ?n) buffer" using len by (simp add: splice_def)
  have mh: "mail_header_of_bytes (po_host env) ?buf = mh" unfolding buf' by (rule mail_header_roundtrip)
  have rest: "drop sizeof_MailHeader ?buf = d @ drop (12 + ?n) buffer" by (simp add: buf' sizeof_MailHeader_def)
  define m where "m = \<lparr>pktHdr = hdr, mailHdr = mh, mail_data = splice 0 d (fresh_mail env)\<rparr>"
  have "Mail (fresh_mail env) hdr mh (d @ drop (12 + ?n) buffer) = Inr m"
    using n len by (simp add: Mail_def m_def)
  then have put: "MailBox_Put (queues env) (fresh_mail env) hdr mh (drop sizeof_MailHeader ?buf) (boxes s ! ?box) =
      Inr (QueueAppend (queues env) m (boxes s ! ?box))" unfolding rest by (simp add: MailBox_Put_def)
  let ?s' = "s1\<lparr>net := (net s)\<lparr>inHdr := hdr\<lparr>hdr_length := 0\<rparr>\<rparr>,
    boxes := (boxes s)[?box := QueueAppend (queues env) m (boxes s ! ?box)]\<rparr>"
  have run: "PostalDelivery_round env (buffer, s) = Inr (?buf, ?s')"
    using 1 box n mh put data pkt by (simp add: PostalDelivery_round_def Receive_def Let_def)
  have fresh: "length (fresh_mail env) = MaxMailSize" "queue_ok (queues env) mails" using k by (simp_all add: post_kernel_ok_def)
  show thesis
  proof (rule that [OF run])
    show "length ?buf = MaxPacketSize" using buf len n by (subst length_splice) (simp_all add: mail_sizes)
    show "pktHdr m = hdr" "mailHdr m = mh" by (simp_all add: m_def)
    show "length (mail_data m) = MaxMailSize" using fresh(1) len n by (simp add: m_def)
    show "take ?n (mail_data m) = d" using len by (simp add: m_def splice_def)
    show "\<exists>q. mails q = mails (boxes s ! ?box) @ [m] \<and> boxes ?s' = (boxes s)[?box := q]"
      using queue_append [OF fresh(2)] by (intro exI [of _ "QueueAppend (queues env) m (boxes s ! ?box)"]) simp
    show "hdr_length (inHdr (net ?s')) = 0" "numBoxes ?s' = numBoxes s" using 1 by simp_all
  qed
qed

section \<open>Taking mail out of a box\<close>

lemma NoBlockReceive_first:
  assumes k: "post_kernel_ok env mails" and box: "0 \<le> b" "b < numBoxes s" "int (length (boxes s)) = numBoxes s"
    and m: "mails (boxes s ! nat b) = m # ms" "unat (mail_length (mailHdr m)) \<le> MaxMailSize"
      "length (mail_data m) = MaxMailSize" "unat (mail_length (mailHdr m)) \<le> length data"
  obtains q where "PostOffice_NoBlockReceive env b data s =
      Inr (Some (pktHdr m, mailHdr m, splice 0 (take (unat (mail_length (mailHdr m))) (mail_data m)) data),
        s\<lparr>boxes := (boxes s)[nat b := q]\<rparr>)" and "mails q = ms"
proof -
  have "queue_ok (queues env) mails" using k by (simp add: post_kernel_ok_def)
  then obtain q where "NoBlockRemove (queues env) (boxes s ! nat b) = (Some m, q)" "mails q = ms"
    using queue_first m(1) by metis
  then show thesis
    using that box m by (simp add: PostOffice_NoBlockReceive_def MailBox_NoBlockGet_def copy_mail_def)
qed

lemma NoBlockReceive_empty:
  assumes k: "post_kernel_ok env mails" and box: "0 \<le> b" "b < numBoxes s" and m: "mails (boxes s ! nat b) = []"
  obtains q where "PostOffice_NoBlockReceive env b data s = Inr (None, s\<lparr>boxes := (boxes s)[nat b := q]\<rparr>)"
    and "mails q = []"
proof -
  have "queue_ok (queues env) mails" using k by (simp add: post_kernel_ok_def)
  then obtain q where "NoBlockRemove (queues env) (boxes s ! nat b) = (None, q)" "mails q = []"
    using queue_empty m by metis
  then show thesis using that box by (simp add: PostOffice_NoBlockReceive_def MailBox_NoBlockGet_def)
qed

section \<open>The way of a mail\<close>

text \<open>The interrupt takes the packet off the wire and signals the postal worker.\<close>

lemma CheckPktAvail_signals:
  assumes k: "post_kernel_ok env mails" and free: "hdr_length (inHdr (net s)) = 0"
    and hdr: "get_header (po_host env) buf = hdr" "to_addr hdr = ident (net s)" "unat (hdr_length hdr) \<le> MaxPacketSize"
  obtains s' where "CheckPktAvail (po_host env) L (ReadAvail env) (Some buf) this (net s) s = Inr (net s', s')"
    and "inHdr (net s') = hdr"
    and "copy_out (inbox (net s')) 0 (unat (hdr_length hdr)) = copy_out buf sizeof_PacketHeader (unat (hdr_length hdr))"
    and "boxes s' = boxes s" and "numBoxes s' = numBoxes s" and "netAddr s' = netAddr s"
proof -
  obtain s1 where 1: "Schedule L NetworkReadPoll this NetworkTime NetworkRecvInt s = Inr s1"
    using Schedule_returns [of NetworkTime] by (force simp: NetworkTime_def)
  note f = Schedule_fields [OF 1]
  let ?len = "unat (hdr_length hdr)"
  let ?n = "(net s)\<lparr>inHdr := hdr, inbox := copy_in (copy_out buf sizeof_PacketHeader ?len) ?len 0 (inbox (net s))\<rparr>"
  let ?s1 = "s1\<lparr>stats := (stats s1)\<lparr>numPacketsRecvd := Suc (numPacketsRecvd (stats s1))\<rparr>, net := ?n\<rparr>"
  obtain s2 where 2: "messageAvailable_V env ?s1 = Inr s2" "net s2 = net ?s1" "netAddr s2 = netAddr ?s1"
    "boxes s2 = boxes ?s1" "numBoxes s2 = numBoxes ?s1"
    using k quiet_call [where s = ?s1] unfolding post_kernel_ok_def by metis
  have "CheckPktAvail (po_host env) L (ReadAvail env) (Some buf) this (net s) s = Inr (net s2, s2)"
    using 1 2(1) free hdr by (simp add: CheckPktAvail_def ReadAvail_def IncomingPacket_def Let_def)
  moreover have "copy_out (inbox ?n) 0 ?len = copy_out buf sizeof_PacketHeader ?len"
    using copy_out_in [of ?len "copy_out buf sizeof_PacketHeader ?len" 0 "inbox (net s)"] by (simp add: copy_out_def)
  ultimately show thesis using that 2 f by simp
qed

end
