(* ===== verification/Tcp_Line.thy ===== *)
theory Tcp_Line
  imports Tcp_Service Post_Delivery
begin

text \<open>
  The acknowledged channel on a line that works: the kernel's waits come back, mail may arrive while
  they last, and the network takes what is sent. Under this contract every loop of bounded attempts
  ends, and what it puts on the wire is bounded too.
\<close>

section \<open>The line\<close>

definition mail_ok :: "nat \<Rightarrow> mail \<Rightarrow> bool" where
  "mail_ok b m \<longleftrightarrow> unat (mail_length (mailHdr m)) \<le> MaxMailSize \<and> length (mail_data m) = MaxMailSize \<and>
     (b = pkt_box ACK \<longrightarrow> unat (mail_length (mailHdr m)) \<le> 2)"

text \<open>
  The state a wait may leave behind: the post office can send, its boxes are there, and the mail
  in them is well formed and fits the two bytes of an answer where it is one.
\<close>

definition line_ok :: "('l \<Rightarrow> mail list) \<Rightarrow> ('q, 'l, 'k) tcp_office_scheme \<Rightarrow> bool" where
  "line_ok mails s \<longleftrightarrow> \<not> sendBusy (net s) \<and> chanceToWork (net s) = 1 \<and> ident (net s) = netAddr s \<and>
     int (length (boxes s)) = numBoxes s \<and> 7 \<le> length (boxes s) \<and>
     (\<forall>b < length (boxes s). \<forall>m \<in> set (mails (boxes s ! b)). mail_ok b m)"

text \<open>A call that comes back, keeps the line, and sends nothing of its own.\<close>

definition keeps_line ::
  "('l \<Rightarrow> mail list) \<Rightarrow> (('q, 'l, 'k) tcp_office_scheme \<Rightarrow> ('q, 'l, 'k) tcp_office_scheme res) \<Rightarrow> bool" where
  "keeps_line mails f \<longleftrightarrow> (\<forall>s. line_ok mails s \<longrightarrow>
     (\<exists>s'. f s = Inr s' \<and> line_ok mails s' \<and> wire (net s') = wire (net s) \<and> netAddr s' = netAddr s))"

definition line_kernel_ok ::
  "('q, 'l, ('q, 'l, 'k) tcp_office_scheme, 'b) tcp_env \<Rightarrow> ('l \<Rightarrow> mail list) \<Rightarrow> bool" where
  "line_kernel_ok env mails \<longleftrightarrow> queue_ok (queues env) mails \<and> (\<forall>s. 0 \<le> Random env s) \<and>
     length (fresh_mail env) = MaxMailSize \<and>
     keeps_line mails (sendLock_Acquire env) \<and> keeps_line mails (sendLock_Release env) \<and>
     keeps_line mails (messageSent_P env) \<and> keeps_line mails (stopSem_P env) \<and> keeps_line mails (waitSem_P env)"

lemma keeps_line_call:
  assumes "keeps_line mails f" and "line_ok mails s"
  obtains s' where "f s = Inr s'" and "line_ok mails s'" and "wire (net s') = wire (net s)" and "netAddr s' = netAddr s"
  using assms unfolding keeps_line_def by blast

lemma line_fields [simp]:
  "line_ok mails (s\<lparr>pending := q\<rparr>) = line_ok mails s"
  "line_ok mails (s\<lparr>net := (net s)\<lparr>wire := w\<rparr>\<rparr>) = line_ok mails s"
  "line_ok mails (s\<lparr>stoppingConnection := b\<rparr>) = line_ok mails s"
  "line_ok mails (s\<lparr>connectedID := c\<rparr>) = line_ok mails s"
  by (simp_all add: line_ok_def)

lemma Schedule_line:
  assumes "0 < n"
  obtains s' where "Schedule L irq a n ty s = Inr s'" and "line_ok mails s' = line_ok mails s" and "net s' = net s"
  using assms by (simp add: Schedule_def Let_def)

section \<open>One wait, one poll, one send\<close>

lemma wait_round_returns:
  assumes k: "line_kernel_ok env mails" and s: "line_ok mails s"
  obtains b s' where "wait_round env ty s = Inr (b, s')" and "line_ok mails s'" and "wire (net s') = wire (net s)"
    and "b = stoppingConnection s' \<or> \<not> b"
proof -
  obtain s1 where 1: "Schedule (interrupt_list env) WakeUpHandler (tcp_this env) TEMPO ty s = Inr s1" "line_ok mails s1"
    "net s1 = net s" using Schedule_line [of TEMPO] s by (metis TEMPO_def zero_less_numeral)
  obtain s2 where 2: "stopSem_P env s1 = Inr s2" "line_ok mails s2" "wire (net s2) = wire (net s1)"
    using keeps_line_call 1(2) k unfolding line_kernel_ok_def by metis
  obtain s3 where 3: "waitSem_P env s2 = Inr s3" "line_ok mails s3" "wire (net s3) = wire (net s2)"
    using keeps_line_call 2(2) k unfolding line_kernel_ok_def by metis
  show thesis
  proof (cases "stoppingConnection s2")
    case True
    then show ?thesis using that [of True s2] 1 2 by (simp add: wait_round_def)
  next
    case False
    then show ?thesis using that [of False s3] 1 2 3 by (simp add: wait_round_def)
  qed
qed

text \<open>A poll of a box takes one mail out of it, into a buffer that has room.\<close>

lemma poll_box:
  assumes k: "line_kernel_ok env mails" and s: "line_ok mails s" and b: "b < 7"
    and room: "length data = MaxMailSize \<or> b = pkt_box ACK \<and> 2 \<le> length data"
  obtains r s' where "PostOffice_NoBlockReceive env (int b) data s = Inr (r, s')" and "line_ok mails s'"
    and "net s' = net s" and "\<And>p h d. r = Some (p, h, d) \<Longrightarrow> length d = length data"
proof -
  have Q: "queue_ok (queues env) mails" using k by (simp add: line_kernel_ok_def)
  have box: "b < length (boxes s)" "int b < numBoxes s" using s b by (auto simp: line_ok_def)
  have keep: "line_ok mails (s\<lparr>boxes := (boxes s)[b := q]\<rparr>)" if "set (mails q) \<subseteq> set (mails (boxes s ! b))" for q
  proof -
    have "\<forall>c < length (boxes s). \<forall>m \<in> set (mails ((boxes s)[b := q] ! c)). mail_ok c m"
      using s that box(1) unfolding line_ok_def by (metis nth_list_update subsetD)
    then show ?thesis using s by (simp add: line_ok_def)
  qed
  show thesis
  proof (cases "mails (boxes s ! b)")
    case Nil
    then obtain q where "NoBlockRemove (queues env) (boxes s ! b) = (None, q)" "mails q = []"
      using queue_empty [OF Q] by metis
    then show ?thesis
      using that [of None "s\<lparr>boxes := (boxes s)[b := q]\<rparr>"] keep [of q] box
      by (simp add: PostOffice_NoBlockReceive_def MailBox_NoBlockGet_def)
  next
    case (Cons m ms)
    then obtain q where q: "NoBlockRemove (queues env) (boxes s ! b) = (Some m, q)" "mails q = ms"
      using queue_first [OF Q] by metis
    have "m \<in> set (mails (boxes s ! b))" using Cons by simp
    then have "mail_ok b m" using s box unfolding line_ok_def by blast
    then have m: "unat (mail_length (mailHdr m)) \<le> MaxMailSize" "length (mail_data m) = MaxMailSize"
      "b = pkt_box ACK \<longrightarrow> unat (mail_length (mailHdr m)) \<le> 2" by (simp_all add: mail_ok_def)
    then have "unat (mail_length (mailHdr m)) \<le> length data" using room by auto
    moreover have "line_ok mails (s\<lparr>boxes := (boxes s)[b := q]\<rparr>)" using keep [of q] q(2) Cons by auto
    ultimately show ?thesis
      using that [of "Some (pktHdr m, mailHdr m, splice 0 (take (unat (mail_length (mailHdr m))) (mail_data m)) data)"
          "s\<lparr>boxes := (boxes s)[b := q]\<rparr>"] q(1) m box
      by (simp add: PostOffice_NoBlockReceive_def MailBox_NoBlockGet_def copy_mail_def)
  qed
qed

text \<open>A message that can be sent puts one packet on the wire.\<close>

definition message_ok :: "message \<Rightarrow> bool" where
  "message_ok m \<longleftrightarrow> 0 < length (msg_data m) \<and> unat (mail_length (msg_mail m)) \<le> length (msg_data m) \<and>
     unat (mail_length (msg_mail m)) \<le> MaxMailSize \<and> 0 \<le> sint (to_box (msg_mail m)) \<and> sint (to_box (msg_mail m)) < 7"

lemma send_message_wire:
  assumes k: "line_kernel_ok env mails" and s: "line_ok mails s" and m: "message_ok m"
  obtains s' buf where "send_message env m s = Inr s'" and "line_ok mails s'"
    and "wire (net s') = wire (net s) @ [(to_addr (msg_pkt m), buf)]"
proof -
  let ?mh = "msg_mail m" and ?n = "unat (mail_length (msg_mail m))" and ?h = "po_host env"
  have n: "?n \<le> MaxMailSize" "?n \<le> length (msg_data m)" and box: "0 \<le> sint (to_box ?mh)" "sint (to_box ?mh) < numBoxes s"
    using m s by (auto simp: message_ok_def line_ok_def)
  define pkt where "pkt = packet_for (netAddr s) (msg_pkt m) ?mh"
  define b where "b = mail_header_bytes ?h ?mh @ take ?n (msg_data m)"
  have len: "unat (hdr_length pkt) = ?n + 12" using unat_packet_length [OF n(1)] by (simp add: packet_for_def pkt_def)
  then have pos: "hdr_length pkt > 0" by (metis word_gt_0_no add_is_0 unat_0 word_neq_0_conv zero_neq_numeral)
  obtain s1 where 1: "sendLock_Acquire env s = Inr s1" "line_ok mails s1" "wire (net s1) = wire (net s)" "netAddr s1 = netAddr s"
    using keeps_line_call s k unfolding line_kernel_ok_def by metis
  have net1: "\<not> sendBusy (net s1)" "chanceToWork (net s1) = 1" "from_addr pkt = ident (net s1)"
    using 1 by (simp_all add: line_ok_def pkt_def packet_for_def)
  have cond: "0 \<le> Random env s1" "unat (hdr_length pkt) \<le> length b" "unat (hdr_length pkt) \<le> MaxPacketSize"
    using n k len by (simp_all add: b_def line_kernel_ok_def mail_sizes)
  obtain s2 where 2: "Send ?h (interrupt_list env) (Random env s1) (fresh_packet env s1) pkt b (network_this env) (net s1) s1 =
      Inr ((net s1)\<lparr>wire := wire (net s1) @ [(to_addr pkt,
        copy_in b (unat (hdr_length pkt)) sizeof_PacketHeader (put_header ?h pkt (fresh_packet env s1)))]\<rparr>, s2)"
    "Schedule (interrupt_list env) NetworkSendDone (network_this env) NetworkTime NetworkSendInt s1 = Inr s2"
    by (rule Send_reliable [OF net1(1) pos cond(3) net1(3,2) cond(1,2)])
  define buf where "buf = copy_in b (unat (hdr_length pkt)) sizeof_PacketHeader (put_header ?h pkt (fresh_packet env s1))"
  define s2' where "s2' = s2\<lparr>net := (net s1)\<lparr>wire := wire (net s1) @ [(to_addr pkt, buf)]\<rparr>\<rparr>"
  have s2': "line_ok mails s2'"
    using 1(2) Schedule_fields [OF 2(2)] by (simp add: s2'_def line_ok_def)
  obtain s3 where 3: "messageSent_P env s2' = Inr s3" "line_ok mails s3" "wire (net s3) = wire (net s2')"
    using keeps_line_call s2' k unfolding line_kernel_ok_def by metis
  obtain s4 where 4: "sendLock_Release env s3 = Inr s4" "line_ok mails s4" "wire (net s4) = wire (net s3)"
    using keeps_line_call 3(2) k unfolding line_kernel_ok_def by metis
  have "send_message env m s = Inr s4"
    using n box 1(1) 2(1) 3(1) 4(1)
    by (simp add: send_message_def PostOffice_Send_def Let_def packet_for_def [symmetric])
      (simp add: packet_for_def pkt_def b_def s2'_def buf_def)
  then show thesis using that [of s4 buf] 1(3) 3(3) 4 by (simp add: s2'_def pkt_def packet_for_def)
qed

section \<open>The bounded loops\<close>

lemma catch_loop_returns:
  "line_kernel_ok env mails \<Longrightarrow> b < 7 \<Longrightarrow> line_ok mails s \<Longrightarrow> length dull = MaxMailSize \<Longrightarrow>
    \<exists>n s'. catch_loop env b expected attempts nbCatch dull s = Inr (n, s') \<and> line_ok mails s' \<and>
      wire (net s') = wire (net s)"
proof (induction env b expected attempts nbCatch dull s rule: catch_loop.induct)
  case (1 env b expected attempts nbCatch dull s)
  show ?case
  proof (cases "attempts < MAXCATCH \<and> nbCatch < expected")
    case False
    then have "catch_loop env b expected attempts nbCatch dull s = Inr (nbCatch, s)"
      by (subst catch_loop.simps) (rule if_not_P)
    then show ?thesis using 1(5) by blast
  next
    case True
    obtain stopped s1 where w: "wait_round env NetworkRecvInt s = Inr (stopped, s1)" "line_ok mails s1"
      "wire (net s1) = wire (net s)" using wait_round_returns [OF 1(3,5)] by metis
    obtain r s2 where p: "PostOffice_NoBlockReceive env (int b) dull s1 = Inr (r, s2)" "line_ok mails s2" "net s2 = net s1"
      "\<And>p h d. r = Some (p, h, d) \<Longrightarrow> length d = length dull"
      using poll_box [OF 1(3) w(2) 1(4)] 1(6) by metis
    have step: "catch_loop env b expected attempts nbCatch dull s =
      (if stopped then Inr (- 2, s1)
       else case r of
           None \<Rightarrow> catch_loop env b expected (Suc attempts) nbCatch dull s2
         | Some m \<Rightarrow> if nbCatch + 1 = expected then Inr (nbCatch + 1, s2)
                     else catch_loop env b expected 0 (nbCatch + 1) (snd (snd m)) s2)"
      using True w(1) p(1) by (cases r) (simp_all add: catch_loop.simps [of env b expected attempts])
    show ?thesis
    proof (cases "stopped \<or> (r \<noteq> None \<and> nbCatch + 1 = expected)")
      case True
      then show ?thesis using step w p by (auto split: option.splits)
    next
      case False
      then show ?thesis
        using step w p 1(1) [OF True w(1) _ _ _ 1(3,4)] 1(2) [OF True w(1) _ _ _ _ 1(3,4)] 1(6)
        by (cases r) auto
    qed
  qed
qed

lemma send_loop_returns:
  assumes k: "line_kernel_ok env mails" and m: "message_ok m"
  shows "line_ok mails s \<Longrightarrow> msg_type inm = ACK \<Longrightarrow> 2 \<le> length (msg_data inm) \<Longrightarrow>
    \<exists>r s' ws. send_loop env (Some m) inm n a s = Inr (r, s') \<and> line_ok mails s' \<and> wire (net s') = wire (net s) @ ws \<and>
      length ws \<le> n \<and> (\<forall>x \<in> set ws. fst x = to_addr (msg_pkt m)) \<and> (0 < n \<longrightarrow> ws \<noteq> []) \<and>
      (\<forall>a' inm'. r = Some (a', inm') \<longrightarrow> msg_type inm' = ACK \<and> 2 \<le> length (msg_data inm'))"
proof (induction n arbitrary: a inm s)
  case 0
  then show ?case by simp
next
  case (Suc n)
  obtain s1 buf where 1: "send_message env m s = Inr s1" "line_ok mails s1" "wire (net s1) = wire (net s) @ [(to_addr (msg_pkt m), buf)]"
    by (rule send_message_wire [OF k Suc.prems(1) m])
  obtain stopped s2 where 2: "wait_round env NetworkSendInt s1 = Inr (stopped, s2)" "line_ok mails s2" "wire (net s2) = wire (net s1)"
    using wait_round_returns [OF k 1(2)] by metis
  have "(5 :: nat) < 7" and room: "length (msg_data inm) = MaxMailSize \<or> 5 = pkt_box ACK \<and> 2 \<le> length (msg_data inm)"
    using Suc.prems(3) by simp_all
  then obtain r s3 where 3: "PostOffice_NoBlockReceive env (int 5) (msg_data inm) s2 = Inr (r, s3)" "line_ok mails s3"
    "net s3 = net s2" "\<And>p h d. r = Some (p, h, d) \<Longrightarrow> length d = length (msg_data inm)"
    using poll_box [OF k 2(2)] by metis
  show ?case
  proof (cases "stopped \<or> r \<noteq> None")
    case True
    then show ?thesis
      using 1 2 3 Suc.prems(2,3) by (cases r) (auto simp: poll_message_def intro!: exI)
  next
    case False
    then have "r = None" "\<not> stopped" by (cases r; simp)+
    then have "send_loop env (Some m) inm (Suc n) a s = send_loop env (Some m) inm n (a + 1) s3"
      using 1(1) 2(1) 3(1) Suc.prems(2) by (simp add: poll_message_def)
    moreover obtain r' s' ws where "send_loop env (Some m) inm n (a + 1) s3 = Inr (r', s')" "line_ok mails s'"
      "wire (net s') = wire (net s3) @ ws" "length ws \<le> n" "\<forall>x \<in> set ws. fst x = to_addr (msg_pkt m)"
      "\<forall>a' inm'. r' = Some (a', inm') \<longrightarrow> msg_type inm' = ACK \<and> 2 \<le> length (msg_data inm')"
      using Suc.IH [OF 3(2) Suc.prems(2,3), of "a + 1"] by blast
    ultimately show ?thesis
      using 1(3) 2(3) 3(3)
      by (intro exI [of _ r'] exI [of _ s'] exI [of _ "(to_addr (msg_pkt m), buf) # ws"]) simp
  qed
qed

text \<open>So \<open>SendWait\<close> comes back, with at most \<open>limit\<close> packets on the wire, all to the same machine.\<close>

lemma SendWait_returns:
  assumes k: "line_kernel_ok env mails" and s: "line_ok mails s" and m: "message_ok m"
    and inm: "msg_type inm = ACK" "2 \<le> length (msg_data inm)" and limit: "0 < limit"
  shows "\<exists>ok inm' s' ws. SendWait env (Some m) inm limit s = Inr (ok, inm', s') \<and> line_ok mails s' \<and>
    wire (net s') = wire (net s) @ ws \<and> 1 \<le> length ws \<and> int (length ws) \<le> limit \<and>
    (\<forall>x \<in> set ws. fst x = to_addr (msg_pkt m))"
proof -
  obtain r s1 ws where 1: "send_loop env (Some m) inm (nat limit) 0 s = Inr (r, s1)" "line_ok mails s1"
    "wire (net s1) = wire (net s) @ ws" "length ws \<le> nat limit" "\<forall>x \<in> set ws. fst x = to_addr (msg_pkt m)"
    "0 < nat limit \<longrightarrow> ws \<noteq> []" "\<forall>a' inm'. r = Some (a', inm') \<longrightarrow> msg_type inm' = ACK \<and> 2 \<le> length (msg_data inm')"
    using send_loop_returns [OF k m s inm, of "nat limit" 0] by (elim exE conjE)
  have ws: "1 \<le> length ws" "int (length ws) \<le> limit" using 1(4,6) limit by (auto simp: Suc_le_eq)
  show ?thesis
  proof (cases r)
    case None
    then show ?thesis using 1 ws limit by (auto simp: SendWait_def intro!: exI [of _ ws])
  next
    case (Some p)
    obtain a inm' where p: "p = (a, inm')" by fastforce
    then have i: "msg_type inm' = ACK" "2 \<le> length (msg_data inm')" using 1(7) Some by simp_all
    have "length (fresh_mail env) = MaxMailSize" using k by (simp add: line_kernel_ok_def)
    then obtain c s2 where 2: "CatchMail env 5 a s1 = Inr (c, s2)" "line_ok mails s2" "wire (net s2) = wire (net s1)"
      using catch_loop_returns [OF k _ 1(2), of 5 "fresh_mail env" a 0 0] by (auto simp: CatchMail_def)
    have "msg_data m \<noteq> []" "msg_data inm' \<noteq> []" using m i(2) by (auto simp: message_ok_def)
    then have "\<exists>ok. SendWait env (Some m) inm limit s = Inr (ok, inm', s2)"
      using 1(1) 2(1) Some p i(1) limit by (simp add: SendWait_def token_follows_def) blast
    then show ?thesis using 1(3,5) 2 ws by auto
  qed
qed

end
