(* ===== verification/Net_Sample.thy ===== *)
theory Net_Sample
  imports Tcp_Line Device_Properties Fs_Sample
begin

text \<open>
  A kernel for the post office on which the witnesses run: the list of a box is a list, the waits
  come back at once, and the network never loses a packet.
\<close>

definition sample_queue :: "mail list mail_queue_ops" where
  "sample_queue = \<lparr>NewQueue = [], QueueAppend = (\<lambda>m q. q @ [m]),
     QueueRemove = (\<lambda>q. case q of [] \<Rightarrow> None | m # ms \<Rightarrow> Some (m, ms)),
     NoBlockRemove = (\<lambda>q. case q of [] \<Rightarrow> (None, []) | m # ms \<Rightarrow> (Some m, ms))\<rparr>"

lemma sample_queue_ok: "queue_ok sample_queue (\<lambda>q. q)"
  by (simp add: queue_ok_def sample_queue_def)

type_synonym sample_state = "(alarms, mail list) tcp_office"

definition sample_new_packet :: packet_header where
  "sample_new_packet = \<lparr>to_addr = 2, from_addr = 0, hdr_length = 0\<rparr>"

definition sample_net :: "(alarms, mail list, sample_state, int set) tcp_env" where
  "sample_net = \<lparr>po_host = sample_host, interrupt_list = sample_list, queues = sample_queue, network_this = 1,
     Random = (\<lambda>_. 0), fresh_packet = (\<lambda>_ _. 0), fresh_mail = replicate MaxMailSize 0,
     sendLock_Acquire = Inr, sendLock_Release = Inr, messageSent_P = Inr, messageSent_V = Inr,
     messageAvailable_P = Inr, messageAvailable_V = Inr, await_mail = (\<lambda>_. Inr), Fork_PostalHelper = Inr,
     tcp_this = 2, stopSem_P = Inr, stopSem_V = Inr, waitSem_P = Inr, waitSem_V = Inr,
     new_packet = sample_new_packet, file_env = sample_env, beyond = []\<rparr>"

definition sample_files :: file_system where
  "sample_files = \<lparr>freeMapFile = \<lparr>file_hdr = zero_header, seekPosition = 0\<rparr>,
     directoryFile = \<lparr>file_hdr = zero_header, seekPosition = 0\<rparr>, currentDir = [], disk_store = blank_disk\<rparr>"

definition sample_office :: "c_int \<Rightarrow> mail list list \<Rightarrow> sample_state" where
  "sample_office me bs = post_office.extend
     (simulator.extend (sample_clock SystemMode []) (post_office.fields (sample_network me) me bs 7))
     (tcp_office.fields me 2 False sample_files)"

lemma sample_office_simps [simp]:
  "net (sample_office me bs) = sample_network me" "netAddr (sample_office me bs) = me"
  "boxes (sample_office me bs) = bs" "numBoxes (sample_office me bs) = 7"
  "stats (sample_office me bs) = Statistics" "pending (sample_office me bs) = []"
  "stoppingConnection (sample_office me bs) = False"
  by (simp_all add: sample_office_def tcp_office.defs post_office.defs simulator.defs machine.defs sample_clock_def)

lemma sample_net_simps [simp]:
  "po_host sample_net = sample_host" "interrupt_list sample_net = sample_list" "queues sample_net = sample_queue"
  "Random sample_net s = 0" "fresh_mail sample_net = replicate MaxMailSize 0"
  "sendLock_Acquire sample_net = Inr" "sendLock_Release sample_net = Inr" "messageSent_P sample_net = Inr"
  "messageAvailable_P sample_net = Inr" "messageAvailable_V sample_net = Inr"
  "stopSem_P sample_net = Inr" "waitSem_P sample_net = Inr"
  by (simp_all add: sample_net_def)

lemma sample_post_ok: "post_kernel_ok sample_net (\<lambda>q. q)"
  by (simp add: post_kernel_ok_def quiet_def sample_queue_ok)

lemma sample_line_kernel: "line_kernel_ok sample_net (\<lambda>q. q)"
  by (simp add: line_kernel_ok_def keeps_line_def sample_queue_ok)

definition sample_mail :: mail_header where
  "sample_mail = \<lparr>to_box = 0, from_box = 0, mail_length = 3\<rparr>"

text \<open>The boxes of a machine with the answer to the token 65 waiting.\<close>

definition sample_answer :: mail where
  "sample_answer = \<lparr>pktHdr = sample_new_packet, mailHdr = \<lparr>to_box = 5, from_box = 5, mail_length = 2\<rparr>,
     mail_data = [66, 0] @ replicate 38 0\<rparr>"

definition sample_boxes :: "mail list list" where
  "sample_boxes = [[], [], [], [], [], [sample_answer], []]"

lemma sample_line: "line_ok (\<lambda>q. q) (sample_office 1 sample_boxes)"
proof -
  have "sample_boxes ! b = (if b = 5 then [sample_answer] else [])" if "b < 7" for b
  proof -
    have "b = 0 \<or> b = 1 \<or> b = 2 \<or> b = 3 \<or> b = 4 \<or> b = 5 \<or> b = 6" using that by arith
    then show ?thesis by (elim disjE) (simp_all add: sample_boxes_def)
  qed
  moreover have "mail_ok 5 sample_answer" by (simp add: mail_ok_def sample_answer_def mail_sizes)
  moreover have "length sample_boxes = 7" by (simp add: sample_boxes_def)
  ultimately show ?thesis by (auto simp: line_ok_def sample_network_def)
qed

definition sample_message :: message where
  "sample_message = (Message sample_new_packet 2 MSG)\<lparr>msg_data := [65, 0]\<rparr>"

lemma sample_message_ok: "message_ok sample_message"
  by (simp add: message_ok_def sample_message_def Message_def mail_sizes)

end
