(* ===== verification/Net_Properties.thy ===== *)
theory Net_Properties
  imports Net_Sample
begin

text \<open>
  The claims about the post office and the acknowledged channel over it.
\<close>

section \<open>Mail\<close>

text \<open>
  C30. Mail is delivered as it was sent. A mail sent to a box of another machine over a reliable
  network travels as one packet; when that machine's network polls, and its postal worker has run,
  the mail is the last in the box with the sender's machine in its header, its mail header and its
  bytes, and no other box has changed. Taken out of a box that was empty, it is in the caller's
  buffer.
\<close>

theorem mail_roundtrip:
  assumes k: "post_kernel_ok env mails" "post_kernel_ok env2 mails" "po_host env2 = po_host env"
    and send: "sendable mh data s"
    and recv: "to_addr pkt = ident (net s2)" "hdr_length (inHdr (net s2)) = 0" "sint (to_box mh) < numBoxes s2"
      "int (length (boxes s2)) = numBoxes s2" "length buffer = MaxPacketSize"
  defines "len \<equiv> unat (mail_length mh)" and "box \<equiv> nat (sint (to_box mh))"
  shows "\<exists>s' buf n2 s3 buffer' s4 m. PostOffice_Send env pkt mh data s = Inr s' \<and>
    wire (net s') = wire (net s) @ [(to_addr pkt, buf)] \<and>
    CheckPktAvail (po_host env2) L (ReadAvail env2) (Some buf) this (net s2) s2 = Inr (n2, s3) \<and>
    PostalDelivery_round env2 (buffer, s3) = Inr (buffer', s4) \<and>
    pktHdr m = packet_for (netAddr s) pkt mh \<and> mailHdr m = mh \<and> take len (mail_data m) = take len data \<and>
    mails (boxes s4 ! box) = mails (boxes s2 ! box) @ [m] \<and> (\<forall>b. b \<noteq> box \<longrightarrow> boxes s4 ! b = boxes s2 ! b) \<and>
    hdr_length (inHdr (net s4)) = 0 \<and>
    (mails (boxes s2 ! box) = [] \<and> len \<le> length room \<longrightarrow>
      (\<exists>s5. PostOffice_NoBlockReceive env2 (int box) room s4 =
        Inr (Some (packet_for (netAddr s) pkt mh, mh, splice 0 (take len data) room), s5)))"
proof -
  have mh: "len \<le> MaxMailSize" "0 \<le> sint (to_box mh)" using send by (simp_all add: sendable_def len_def)
  obtain s' buf where 1: "PostOffice_Send env pkt mh data s = Inr s'" "wire (net s') = wire (net s) @ [(to_addr pkt, buf)]"
    "get_header (po_host env) buf = packet_for (netAddr s) pkt mh"
    "copy_out buf sizeof_PacketHeader (len + 12) = mail_header_bytes (po_host env) mh @ take len data"
    using PostOffice_Send_wire [OF k(1) send] unfolding len_def by metis
  let ?hdr = "packet_for (netAddr s) pkt mh"
  have hdr: "unat (hdr_length ?hdr) = len + 12" "to_addr ?hdr = ident (net s2)"
    using unat_packet_length mh(1) recv(1) by (simp_all add: packet_for_def len_def)
  have h2: "get_header (po_host env2) buf = ?hdr" "unat (hdr_length ?hdr) \<le> MaxPacketSize"
    using 1(3) k(3) hdr mh(1) by (simp_all add: mail_sizes)
  obtain s3 where 2: "CheckPktAvail (po_host env2) L (ReadAvail env2) (Some buf) this (net s2) s2 = Inr (net s3, s3)"
    "inHdr (net s3) = ?hdr" "copy_out (inbox (net s3)) 0 (unat (hdr_length ?hdr)) = copy_out buf sizeof_PacketHeader (unat (hdr_length ?hdr))"
    "boxes s3 = boxes s2" "numBoxes s3 = numBoxes s2"
    by (rule CheckPktAvail_signals [OF k(2) recv(2) h2(1) hdr(2) h2(2)])
  have box: "sint (to_box mh) < numBoxes s3" "int (length (boxes s3)) = numBoxes s3" using recv(3,4) 2(4,5) by simp_all
  have data: "copy_out (inbox (net s3)) 0 (unat (hdr_length ?hdr)) = mail_header_bytes (po_host env2) mh @ take len data"
    using 2(3) 1(4) hdr(1) k(3) by simp
  obtain buffer' s4 m where 3: "PostalDelivery_round env2 (buffer, s3) = Inr (buffer', s4)"
    "pktHdr m = ?hdr" "mailHdr m = mh" "length (mail_data m) = MaxMailSize" "take len (mail_data m) = take len data"
    "\<exists>q. mails q = mails (boxes s3 ! box) @ [m] \<and> boxes s4 = (boxes s3)[box := q]"
    "hdr_length (inHdr (net s4)) = 0" "numBoxes s4 = numBoxes s3"
    using PostalDelivery_puts [OF k(2) _ mh(2) box 2(2) _ data recv(5)] hdr(1) mh(1) unfolding len_def box_def by metis
  have b: "box < length (boxes s3)" "int box < numBoxes s4" "int (length (boxes s4)) = numBoxes s4"
    using box mh(2) 3(6,8) by (auto simp: box_def)
  have boxes: "mails (boxes s4 ! box) = mails (boxes s2 ! box) @ [m]" "\<forall>b. b \<noteq> box \<longrightarrow> boxes s4 ! b = boxes s2 ! b"
    using 3(6) b(1) 2(4) by auto
  have "\<exists>s5. PostOffice_NoBlockReceive env2 (int box) room s4 = Inr (Some (?hdr, mh, splice 0 (take len data) room), s5)"
    if "mails (boxes s2 ! box) = []" "len \<le> length room"
  proof -
    have "mails (boxes s4 ! nat (int box)) = m # []" using boxes(1) that(1) by simp
    from NoBlockReceive_first [OF k(2) _ b(2,3) this, of room] 3(2-5) mh(1) that(2) show ?thesis
      by (auto simp: len_def)
  qed
  then show ?thesis using 1(1,2) 2(1) 3(1-3,5,7) boxes by blast
qed

lemma mail_roundtrip_witness:
  "\<exists>s' buf n2 s3 buffer' s4 p s5. PostOffice_Send sample_net sample_new_packet sample_mail [7, 8, 9] (sample_office 1 sample_boxes) = Inr s' \<and>
    wire (net s') = [(2, buf)] \<and>
    CheckPktAvail sample_host sample_list (ReadAvail sample_net) (Some buf) 1 (sample_network 2) (sample_office 2 sample_boxes) =
      Inr (n2, s3) \<and>
    PostalDelivery_round sample_net (replicate 52 0, s3) = Inr (buffer', s4) \<and>
    PostOffice_NoBlockReceive sample_net 0 (replicate 4 0) s4 = Inr (Some (p, sample_mail, [7, 8, 9, 0]), s5)"
proof -
  have send: "sendable sample_mail [7, 8, 9] (sample_office 1 sample_boxes)"
    by (simp add: sendable_def sample_mail_def mail_sizes sample_network_def)
  have recv: "to_addr sample_new_packet = ident (net (sample_office 2 sample_boxes))"
    "hdr_length (inHdr (net (sample_office 2 sample_boxes))) = 0" "sint (to_box sample_mail) < numBoxes (sample_office 2 sample_boxes)"
    "int (length (boxes (sample_office 2 sample_boxes))) = numBoxes (sample_office 2 sample_boxes)"
    "length (replicate 52 (0 :: byte)) = MaxPacketSize"
    by (simp_all add: sample_new_packet_def sample_network_def sample_mail_def sample_boxes_def mail_sizes)
  have "take 3 [7, 8, 9] = [7, 8, 9 :: byte]" "splice 0 [7, 8, 9] (replicate 4 0) = [7, 8, 9, 0 :: byte]"
    by (simp_all add: splice_def eval_nat_numeral)
  moreover have "unat (mail_length sample_mail) = 3" "nat (sint (to_box sample_mail)) = 0" "sample_boxes ! 0 = []"
    "to_addr sample_new_packet = 2" "wire (sample_network 1) = []"
    by (simp_all add: sample_mail_def sample_boxes_def sample_new_packet_def sample_network_def)
  ultimately show ?thesis
    using mail_roundtrip [OF sample_post_ok sample_post_ok refl send recv, of sample_list 1 "replicate 4 0"] by auto
qed

section \<open>Acknowledged sending\<close>

text \<open>
  C31. Sending ends. On a line where the kernel's waits come back, whatever arrives meanwhile,
  \<open>SendWait\<close> returns after at least one and at most \<open>limit\<close> packets, all to the machine the message is
  for, and then stops sending.
\<close>

theorem SendWait_ends:
  assumes "line_kernel_ok env mails" and "line_ok mails s" and "message_ok m"
    and "msg_type inm = ACK" and "2 \<le> length (msg_data inm)" and "0 < limit"
  shows "\<exists>ok inm' s' ws. SendWait env (Some m) inm limit s = Inr (ok, inm', s') \<and> line_ok mails s' \<and>
    wire (net s') = wire (net s) @ ws \<and> 1 \<le> length ws \<and> int (length ws) \<le> limit \<and>
    (\<forall>x \<in> set ws. fst x = to_addr (msg_pkt m))"
  by (rule SendWait_returns [OF assms])

lemma SendWait_ends_witness:
  "\<exists>ok inm s' ws. SendWait sample_net (Some sample_message) (Message sample_new_packet 2 ACK) 50 (sample_office 1 sample_boxes) =
      Inr (ok, inm, s') \<and> wire (net s') = ws \<and> 1 \<le> length ws \<and> length ws \<le> 50"
proof -
  have "msg_type (Message sample_new_packet 2 ACK) = ACK" "2 \<le> length (msg_data (Message sample_new_packet 2 ACK))"
    by (simp_all add: Message_def)
  from SendWait_ends [OF sample_line_kernel sample_line sample_message_ok this, of 50] show ?thesis
    by (auto simp: sample_network_def)
qed

lemma char_int_follows:
  "char_int h a + 1 = char_int h b \<longleftrightarrow> b = a + 1 \<and> a \<noteq> (if char_signed h then 127 else 255)"
proof (cases "char_signed h")
  case True
  have r: "- 128 \<le> sint a" "sint a < 128" "sint b < 128" using sint_ge [of a] sint_lt [of a] sint_lt [of b] by simp_all
  have "b = a + 1 \<and> a \<noteq> 127" if "sint a + 1 = sint b"
  proof -
    have "(word_of_int (sint b) :: byte) = word_of_int (sint a) + 1" by (simp add: that [symmetric])
    then show ?thesis using r(3) that by auto
  qed
  moreover have "sint (a + 1) = sint a + 1" if "a \<noteq> 127"
  proof -
    have "sint a \<noteq> 127"
    proof
      assume "sint a = 127"
      then have "word_of_int (sint a) = (127 :: byte)" by simp
      then show False using that by simp
    qed
    then show ?thesis using r by (simp add: sint_word_ariths signed_take_bit_int_eq_self)
  qed
  ultimately show ?thesis using True by (auto simp: char_int_def)
next
  case False
  have r: "0 \<le> uint a" "uint a < 256" "uint b < 256" using uint_lt2p [of a] uint_lt2p [of b] by simp_all
  have "b = a + 1 \<and> a \<noteq> 255" if "uint a + 1 = uint b"
  proof -
    have "(word_of_int (uint b) :: byte) = word_of_int (uint a) + 1" by (simp add: that [symmetric])
    then show ?thesis using r(3) that by auto
  qed
  moreover have "uint (a + 1) = uint a + 1" if "a \<noteq> 255"
  proof -
    have "uint a \<noteq> 255"
    proof
      assume "uint a = 255"
      then have "word_of_int (uint a) = (255 :: byte)" by simp
      then show False using that by simp
    qed
    then show ?thesis using r by (simp add: uint_word_ariths)
  qed
  ultimately show ?thesis using False by (auto simp: char_int_def)
qed

text \<open>
  C32. Success means an answer. If \<open>SendWait\<close> reports success, the connection is not being stopped and
  the answer's token is the message's first byte plus one, as the receiver computes it. A message
  whose first byte is the greatest \<^verbatim>\<open>char\<close> is never reported as sent, since the sum does not wrap in the
  test.
\<close>

theorem SendWait_acknowledged:
  assumes "SendWait env (Some m) inm limit s = Inr (True, inm', s')"
  shows "\<not> stoppingConnection s' \<and> msg_data m \<noteq> [] \<and> msg_data inm' \<noteq> [] \<and>
    hd (msg_data inm') = hd (msg_data m) + 1 \<and>
    hd (msg_data m) \<noteq> (if char_signed (po_host env) then 127 else 255)"
  using assms char_int_follows [of "po_host env" "hd (msg_data m)"]
  by (auto simp: SendWait_def run_simps token_follows_def split: option.splits if_splits)

lemma sample_send:
  "\<exists>s'. send_message sample_net sample_message (sample_office 1 sample_boxes) = Inr s' \<and> boxes s' = sample_boxes \<and>
     numBoxes s' = 7 \<and> \<not> stoppingConnection s'"
  by (simp add: send_message_def PostOffice_Send_def sample_message_def Message_def Send_def Schedule_def sample_network_def
      mail_sizes sizeof_MailHeader_def NetworkTime_def Let_def)

lemma SendWait_acknowledged_witness:
  "\<exists>inm s'. SendWait sample_net (Some sample_message) (Message sample_new_packet 2 ACK) 50 (sample_office 1 sample_boxes) =
      Inr (True, inm, s') \<and> hd (msg_data inm) = 66"
proof -
  obtain s1 where 1: "send_message sample_net sample_message (sample_office 1 sample_boxes) = Inr s1" "boxes s1 = sample_boxes"
    "numBoxes s1 = 7" "\<not> stoppingConnection s1" using sample_send by blast
  let ?in = "Message sample_new_packet 2 ACK"
  have "\<exists>inm s'. send_loop sample_net (Some sample_message) ?in (Suc 49) 0 (sample_office 1 sample_boxes) = Inr (Some (0, inm), s') \<and>
      msg_data inm = [66, 0] \<and> \<not> stoppingConnection s'"
    using 1 unfolding send_loop.simps
    by (simp add: wait_round_def Schedule_def TEMPO_def poll_message_def PostOffice_NoBlockReceive_def MailBox_NoBlockGet_def
        Message_def sample_boxes_def sample_queue_def copy_mail_def sample_answer_def mail_sizes splice_def Let_def)
  then obtain inm' s2 where 2: "send_loop sample_net (Some sample_message) ?in (Suc 49) 0 (sample_office 1 sample_boxes) =
      Inr (Some (0, inm'), s2)" "msg_data inm' = [66, 0]" "\<not> stoppingConnection s2" by blast
  have "nat 50 = Suc 49" by simp
  moreover have "CatchMail sample_net b 0 s2 = Inr (0, s2)" for b by (simp add: CatchMail_def catch_loop.simps)
  moreover have "msg_data sample_message = [65, 0]" by (simp add: sample_message_def)
  ultimately have "\<exists>inm s'. SendWait sample_net (Some sample_message) ?in 50 (sample_office 1 sample_boxes) = Inr (True, inm, s')"
    using 2 unfolding SendWait_def by (simp only:) (simp add: token_follows_def char_int_def sample_host_def)
  then obtain inm s' where r: "SendWait sample_net (Some sample_message) (Message sample_new_packet 2 ACK) 50
      (sample_office 1 sample_boxes) = Inr (True, inm, s')" by blast
  have "hd (msg_data sample_message) = 65" by (simp add: sample_message_def)
  then show ?thesis using SendWait_acknowledged [OF r] r by auto
qed

section \<open>Strings\<close>

lemma number_in_digits: "\<forall>c \<in> set xs. digit c \<Longrightarrow> number_in xs = foldl (\<lambda>n c. 10 * n + (uint c - 48)) 0 xs"
  by (simp add: number_in_def takeWhile_eq_all_conv [THEN iffD2])

lemma digit_of_nat:
  assumes "k < 10"
  shows "digit (48 + of_nat k)" and "uint (48 + of_nat k :: byte) = 48 + int k"
proof -
  have "k = 0 \<or> k = 1 \<or> k = 2 \<or> k = 3 \<or> k = 4 \<or> k = 5 \<or> k = 6 \<or> k = 7 \<or> k = 8 \<or> k = 9" using assms by arith
  then show "digit (48 + of_nat k)" "uint (48 + of_nat k :: byte) = 48 + int k"
    by (elim disjE; simp add: digit_def)+
qed

lemma to_string_digits: "\<forall>c \<in> set (to_string n). digit c"
proof (induction n rule: to_string.induct)
  case (1 n)
  then show ?case
    using digit_of_nat(1) [of n] digit_of_nat(1) [of "n mod 10"] by (simp add: to_string.simps [of n])
qed

lemma number_to_string: "number_in (to_string n) = int n"
proof (induction n rule: to_string.induct)
  case (1 n)
  show ?case
  proof (cases "n < 10")
    case True
    then show ?thesis using digit_of_nat [of n] by (simp add: to_string.simps [of n] number_in_def)
  next
    case False
    have "number_in (to_string (n div 10) @ [48 + of_nat (n mod 10)]) = 10 * number_in (to_string (n div 10)) + int (n mod 10)"
      using to_string_digits [of "n div 10"] digit_of_nat [of "n mod 10"] by (simp add: number_in_digits)
    also have "\<dots> = int (10 * (n div 10) + n mod 10)" using 1 [OF False] by (simp only: of_nat_add of_nat_mult of_nat_numeral)
    finally show ?thesis using False by (simp add: to_string.simps [of n])
  qed
qed

lemma to_string_start: "\<exists>c cs. to_string n = c # cs"
  by (cases "to_string (n div 10)") (simp_all add: to_string.simps [of n])

lemma digit_not: "digit c \<Longrightarrow> c \<noteq> 0 \<and> \<not> white_space c \<and> c \<noteq> 45 \<and> c \<noteq> 43"
  by (auto simp: digit_def white_space_def)

lemma atoi_to_string: "atoi (to_string n) = int n"
proof -
  obtain c cs where s: "to_string n = c # cs" using to_string_start by blast
  then have "digit c" using to_string_digits [of n] by simp
  then show ?thesis using digit_not [of c] number_to_string [of n] by (simp add: atoi_def s)
qed

lemma cstring_append_zero: "0 \<notin> set p \<Longrightarrow> cstring (p @ 0 # r) = p"
  unfolding cstring_def by (subst takeWhile_append2) auto

lemma cstring_same: "0 \<notin> set p \<Longrightarrow> cstring p = p"
  by (auto simp: cstring_def takeWhile_eq_all_conv)

lemma cstring_strcpy: "0 \<notin> set src \<Longrightarrow> cstring (strcpy dst src) = src"
  by (simp add: strcpy_def splice_def cstring_same cstring_append_zero)

lemma piece_in_buffer:
  assumes "0 \<notin> set p" and "length p \<le> n"
  shows "string_in [] (splice 0 p (replicate n 0)) = (if length p < n then Inr p else Inl OutOfBounds) \<and>
    (\<forall>rest. string_in (0 # rest) (splice 0 p (replicate n 0)) = Inr p)"
proof (cases "n - length p")
  case 0
  then have "splice 0 p (replicate n 0) = p" using assms(2) by (simp add: splice_def)
  then show ?thesis using assms 0 cstring_append_zero [of p] by (auto simp: string_in_def)
next
  case (Suc j)
  then have "splice 0 p (replicate n 0) = p @ 0 # replicate j 0" by (simp add: splice_def)
  then show ?thesis using assms Suc cstring_append_zero [of p] by (auto simp: string_in_def)
qed

lemma concat_blocks: "concat (List.map (\<lambda>i. take k (drop (k * i) xs)) [0..<n]) = take (k * n) xs"
proof (induction n)
  case (Suc n)
  have "k * Suc n = k * n + k" by simp
  then show ?case using Suc by (simp only: take_add) simp
qed simp

lemma pieces_bounds:
  assumes "0 < n"
  shows "0 < pieces_of n" and "40 * (pieces_of n - 1) < n" and "n \<le> 40 * (pieces_of n - 1) + 40"
  using assms by (auto simp: pieces_of_def mail_sizes) presburger+

text \<open>
  C33. A string sent in pieces is the string put together again. The pieces of a non-empty string are
  non-empty, fit a mail, join to the string, and are as many as announced; the announcement is read
  back as that number. In the receiver's buffer a piece is found again unless it fills the buffer:
  then it is only if the byte after the buffer happens to be zero, and otherwise the receiver reads
  outside the array.
\<close>

theorem string_pieces:
  assumes "str \<noteq> []" and "0 \<notin> set str"
  shows "\<exists>ps. CutString str = Inr ps \<and> concat ps = str \<and> length ps = pieces_of (length str) \<and>
    (\<forall>p \<in> set ps. p \<noteq> [] \<and> length p \<le> MaxMailSize \<and>
       string_in [] (splice 0 p (replicate MaxMailSize 0)) = (if length p < MaxMailSize then Inr p else Inl OutOfBounds) \<and>
       (\<forall>rest. string_in (0 # rest) (splice 0 p (replicate MaxMailSize 0)) = Inr p)) \<and>
    atoi (cstring (strcpy (replicate MaxMailSize 0) (to_string (length ps)))) = int (length ps)"
proof -
  define n where "n = pieces_of (length str)"
  note b = pieces_bounds [of "length str", folded n_def]
  define ps where "ps = List.map (\<lambda>i. take MaxMailSize (drop (MaxMailSize * i) str)) [0..<n - 1] @ [drop (MaxMailSize * (n - 1)) str]"
  have n: "0 < n" "40 * (n - 1) < length str" "length str \<le> 40 * (n - 1) + 40" using b assms(1) by simp_all
  have "CutString str = Inr ps" using n(1) by (simp add: CutString_def ps_def n_def [symmetric] Let_def)
  moreover have "concat ps = str" by (simp add: ps_def concat_blocks)
  moreover have len: "length ps = n" using n(1) by (simp add: ps_def)
  moreover have "p \<noteq> [] \<and> length p \<le> MaxMailSize" if "p \<in> set ps" for p
  proof -
    have "40 * i < length str" if "i < n - 1" for i using that n(2) by linarith
    then show ?thesis using that n(2,3) by (auto simp: ps_def mail_sizes)
  qed
  moreover have "0 \<notin> set p" if "p \<in> set ps" for p
    using that assms(2) \<open>concat ps = str\<close> by auto
  then have "string_in [] (splice 0 p (replicate MaxMailSize 0)) = (if length p < MaxMailSize then Inr p else Inl OutOfBounds) \<and>
       (\<forall>rest. string_in (0 # rest) (splice 0 p (replicate MaxMailSize 0)) = Inr p)"
    if "p \<in> set ps" "length p \<le> MaxMailSize" for p
    using that piece_in_buffer by blast
  moreover have "atoi (cstring (strcpy (replicate MaxMailSize 0) (to_string n))) = int n"
    using to_string_digits [of n] digit_not by (subst cstring_strcpy) (auto simp: atoi_to_string)
  ultimately show ?thesis unfolding n_def by (intro exI [of _ ps]) simp
qed

lemma string_pieces_witness:
  "\<exists>ps. CutString (replicate 50 97) = Inr ps \<and> concat ps = replicate 50 97 \<and> length ps = 2"
proof -
  have "pieces_of (length (replicate 50 (97 :: byte))) = 2" by (simp add: pieces_of_def mail_sizes)
  then show ?thesis using string_pieces [of "replicate 50 97"] by auto
qed

end
