(* ===== verification/Mail_Programs.thy ===== *)
theory Mail_Programs
  imports Post_Delivery Fs_Programs
begin

text \<open>
  The programs that try out the network (\<^verbatim>\<open>network/nettest.cc\<close>, \<^verbatim>\<open>network/netringtest.cc\<close>). Such a program
  sends and receives mail and then halts its machine; a \<open>mail_program\<close> is what it does next and how
  it goes on. On one machine it runs over the post office; several machines, each with its
  program, make the step relation \<open>net_step\<close>.
\<close>

section \<open>The programs\<close>

text \<open>\<open>ReceiveMail\<close> names the box and the buffer, and goes on with the headers and the buffer filled.\<close>

datatype mail_program =
    SendMail packet_header mail_header "byte list" mail_program
  | ReceiveMail nat "byte list" "packet_header \<times> mail_header \<times> byte list \<Rightarrow> mail_program"
  | HaltMachine
  | Stops failure

text \<open>An array of characters used as a string, by \<^verbatim>\<open>printf\<close> or \<^verbatim>\<open>strlen\<close>; a string of the program text.\<close>

definition with_string :: "byte list \<Rightarrow> (byte list \<Rightarrow> mail_program) \<Rightarrow> mail_program" where
  "with_string buffer k = (if 0 \<in> set buffer then k (cstring buffer) else Stops OutOfBounds)"

definition literal :: "string \<Rightarrow> byte list" where
  "literal text = bytes_of text @ [0]"

text \<open>\<open>outPktHdr\<close>, \<open>outMailHdr\<close> and \<open>buffer\<close> are the local variables before they are assigned.\<close>

definition MailTest :: "packet_header \<Rightarrow> mail_header \<Rightarrow> byte list \<Rightarrow> c_int \<Rightarrow> mail_program" where
  "MailTest outPktHdr outMailHdr buffer farAddr =
    (let data = literal ''Hello!'';
         ack = literal ''Got it!'';
         outPktHdr = outPktHdr\<lparr>to_addr := farAddr\<rparr>;
         outMailHdr = outMailHdr\<lparr>to_box := 0, from_box := 1, mail_length := of_nat (length data)\<rparr>
     in SendMail outPktHdr outMailHdr data
       (ReceiveMail 0 buffer (\<lambda>(inPktHdr, inMailHdr, buffer). with_string buffer (\<lambda>_.
        let outPktHdr = outPktHdr\<lparr>to_addr := from_addr inPktHdr\<rparr>;
            outMailHdr = outMailHdr\<lparr>to_box := from_box inMailHdr, mail_length := of_nat (length ack)\<rparr>
        in SendMail outPktHdr outMailHdr ack
          (ReceiveMail 1 buffer (\<lambda>(inPktHdr, inMailHdr, buffer). with_string buffer (\<lambda>_. HaltMachine)))))))"

text \<open>The acknowledgement at the end of both branches of \<^verbatim>\<open>RingTest\<close>.\<close>

definition acknowledge ::
  "packet_header \<Rightarrow> mail_header \<Rightarrow> packet_header \<Rightarrow> mail_header \<Rightarrow> byte list \<Rightarrow> mail_program" where
  "acknowledge outPktHdr outMailHdr inPktHdr inMailHdr buffer =
    (let ack = literal ''Got it!'';
         outPktHdr = outPktHdr\<lparr>to_addr := from_addr inPktHdr\<rparr>;
         outMailHdr = outMailHdr\<lparr>to_box := from_box inMailHdr, mail_length := of_nat (length ack)\<rparr>
     in SendMail outPktHdr outMailHdr ack
       (ReceiveMail 1 buffer (\<lambda>(inPktHdr, inMailHdr, buffer). with_string buffer (\<lambda>_. HaltMachine))))"

definition RingTest :: "packet_header \<Rightarrow> mail_header \<Rightarrow> byte list \<Rightarrow> c_int \<Rightarrow> c_int \<Rightarrow> mail_program" where
  "RingTest outPktHdr outMailHdr buffer addr n =
    (if sint n < 1 then HaltMachine
     else if addr = 0 then
       (let data = literal ''Hello there !'';
            outPktHdr = outPktHdr\<lparr>to_addr := word_of_int (1 smod sint n)\<rparr>;
            outMailHdr = outMailHdr\<lparr>to_box := 0, from_box := 1, mail_length := of_nat (length data)\<rparr>
        in SendMail outPktHdr outMailHdr data
          (ReceiveMail 0 buffer (\<lambda>(inPktHdr, inMailHdr, buffer). with_string buffer (\<lambda>_.
           acknowledge outPktHdr outMailHdr inPktHdr inMailHdr buffer))))
     else
       ReceiveMail 0 buffer (\<lambda>(inPktHdr, inMailHdr, buffer). with_string buffer (\<lambda>text.
         let outPktHdr = outPktHdr\<lparr>to_addr := word_of_int (sint (addr + 1) smod sint n)\<rparr>;
             outMailHdr = outMailHdr\<lparr>to_box := 0, from_box := 1, mail_length := of_nat (length text + 1)\<rparr>
         in SendMail outPktHdr outMailHdr buffer (acknowledge outPktHdr outMailHdr inPktHdr inMailHdr buffer))))"

section \<open>One machine\<close>

primrec run_mail_program ::
  "('q, 'l, ('q, 'l, 'k) post_office_scheme, 'e) post_env_scheme \<Rightarrow> mail_program \<Rightarrow> ('q, 'l, 'k) post_office_scheme \<Rightarrow>
   ('q, 'l, 'k) post_office_scheme res" where
  "run_mail_program env (SendMail pkt mh data p) s = and_then (PostOffice_Send env pkt mh data s) (run_mail_program env p)"
| "run_mail_program env (ReceiveMail box buffer k) s =
    and_then (PostOffice_Receive env (int box) buffer s) (\<lambda>(pkt, mh, data, s). run_mail_program env (k (pkt, mh, data)) s)"
| "run_mail_program env HaltMachine s = Halt s"
| "run_mail_program env (Stops e) s = Inl e"

section \<open>Several machines\<close>

text \<open>
  The machines have the numbers 0, 1 and so on as addresses and each \<open>B\<close> boxes. A mail sent is in
  transit until the network and the postal worker of the other machine have put it into its box;
  mails in transit may overtake each other, and none is lost. \<open>got\<close> records what was received.
\<close>

record mail_network =
  programs :: "nat \<Rightarrow> mail_program"
  in_boxes :: "nat \<Rightarrow> nat \<Rightarrow> mail list"
  in_transit :: "(nat \<times> mail) multiset"
  got :: "nat \<Rightarrow> mail list"

text \<open>What \<open>PostOffice_Send\<close> checks, and the mail it sends.\<close>

definition posted :: "nat \<Rightarrow> nat \<Rightarrow> packet_header \<Rightarrow> mail_header \<Rightarrow> byte list \<Rightarrow> mail res" where
  "posted B i pkt mh data =
    and_then (assert_that (unat (mail_length mh) \<le> MaxMailSize \<and> 0 \<le> sint (to_box mh) \<and> sint (to_box mh) < int B)) (\<lambda>_.
    if length data < unat (mail_length mh) then Inl OutOfBounds
    else Inr \<lparr>pktHdr = packet_for (of_nat i) pkt mh, mailHdr = mh, mail_data = take (unat (mail_length mh)) data\<rparr>)"

text \<open>It stops for the reasons the post office stops for, and sends what arrives (see \<open>mail_roundtrip\<close>).\<close>

lemma posted_PostOffice_Send:
  assumes "numBoxes s = int B"
  shows "posted B i pkt mh data = Inl e \<Longrightarrow> PostOffice_Send env pkt mh data s = Inl e"
    and "posted B i pkt mh data = Inr m \<Longrightarrow> netAddr s = of_nat i \<Longrightarrow>
      pktHdr m = packet_for (netAddr s) pkt mh \<and> mailHdr m = mh \<and> mail_data m = take (unat (mail_length mh)) data"
  using assms by (auto simp: posted_def PostOffice_Send_def Let_def run_simps split: if_splits)

inductive net_step :: "nat \<Rightarrow> nat \<Rightarrow> mail_network \<Rightarrow> mail_network \<Rightarrow> bool" for B N where
  sends: "i < N \<Longrightarrow> programs s i = SendMail pkt mh data p \<Longrightarrow> posted B i pkt mh data = Inr m \<Longrightarrow>
    net_step B N s (s\<lparr>programs := (programs s)(i := p), in_transit := add_mset (unat (to_addr pkt), m) (in_transit s)\<rparr>)"
| bad_send: "i < N \<Longrightarrow> programs s i = SendMail pkt mh data p \<Longrightarrow> posted B i pkt mh data = Inl e \<Longrightarrow>
    net_step B N s (s\<lparr>programs := (programs s)(i := Stops e)\<rparr>)"
| delivers: "in_transit s = add_mset (d, m) rest \<Longrightarrow> b = unat (to_box (mailHdr m)) \<Longrightarrow>
    net_step B N s (s\<lparr>in_transit := rest, in_boxes := (in_boxes s)(d := (in_boxes s d)(b := in_boxes s d b @ [m]))\<rparr>)"
| receives: "i < N \<Longrightarrow> programs s i = ReceiveMail b buffer k \<Longrightarrow> in_boxes s i b = m # ms \<Longrightarrow> copy_mail m buffer = Inr data \<Longrightarrow>
    net_step B N s (s\<lparr>programs := (programs s)(i := k (pktHdr m, mailHdr m, data)),
      in_boxes := (in_boxes s)(i := (in_boxes s i)(b := ms)), got := (got s)(i := got s i @ [m])\<rparr>)"
| bad_mail: "i < N \<Longrightarrow> programs s i = ReceiveMail b buffer k \<Longrightarrow> in_boxes s i b = m # ms \<Longrightarrow> copy_mail m buffer = Inl e \<Longrightarrow>
    net_step B N s (s\<lparr>programs := (programs s)(i := Stops e)\<rparr>)"

definition net_start :: "(nat \<Rightarrow> mail_program) \<Rightarrow> mail_network" where
  "net_start ps = \<lparr>programs = ps, in_boxes = (\<lambda>_ _. []), in_transit = {#}, got = (\<lambda>_. [])\<rparr>"

end
