(* ===== verification/Mail_Network.thy ===== *)
theory Mail_Network
  imports Mail_Programs
begin

text \<open>
  What programs do that greet a neighbour, wait for a greeting, acknowledge it and wait for the
  acknowledgement: in any interleaving, on any number of machines in a ring. The locale
  \<open>handshake\<close> has what a network test has to provide.
\<close>

section \<open>Scripts\<close>

text \<open>What a program does, given the mail it receives.\<close>

datatype mail_event = Out nat mail | In nat mail

fun follows :: "nat \<Rightarrow> nat \<Rightarrow> mail_program \<Rightarrow> mail_event list \<Rightarrow> bool" where
  "follows B i p [] \<longleftrightarrow> p = HaltMachine"
| "follows B i p (Out d m # es) \<longleftrightarrow>
    (\<exists>pkt mh data p'. p = SendMail pkt mh data p' \<and> posted B i pkt mh data = Inr m \<and> unat (to_addr pkt) = d \<and> follows B i p' es)"
| "follows B i p (In b m # es) \<longleftrightarrow>
    (\<exists>buffer k data. p = ReceiveMail b buffer k \<and> copy_mail m buffer = Inr data \<and>
      follows B i (k (pktHdr m, mailHdr m, data)) es)"

text \<open>The mail on its way to a box or in it.\<close>

definition awaited :: "mail_network \<Rightarrow> nat \<Rightarrow> nat \<Rightarrow> mail multiset" where
  "awaited s d b = mset (in_boxes s d b) +
     image_mset snd (filter_mset (\<lambda>(d', m). d' = d \<and> unat (to_box (mailHdr m)) = b) (in_transit s))"

definition box_of :: "mail \<Rightarrow> nat" where "box_of m = unat (to_box (mailHdr m))"

lemma awaited_start: "awaited (net_start ps) d b = {#}"
  by (simp add: awaited_def net_start_def)

lemma awaited_sends:
  "awaited (s\<lparr>programs := ps, in_transit := add_mset (d', m) (in_transit s)\<rparr>) d b =
    (if d = d' \<and> b = box_of m then add_mset m (awaited s d b) else awaited s d b)"
  by (simp add: awaited_def box_of_def)

lemma awaited_delivers:
  assumes "in_transit s = add_mset (d', m) rest" and "b' = box_of m"
  shows "awaited (s\<lparr>in_transit := rest, in_boxes := (in_boxes s)(d' := (in_boxes s d')(b' := in_boxes s d' b' @ [m]))\<rparr>) d b =
    awaited s d b"
  using assms by (auto simp: awaited_def box_of_def)

lemma awaited_receives:
  assumes "in_boxes s i b' = m # ms"
  shows "awaited (s\<lparr>programs := ps, in_boxes := (in_boxes s)(i := (in_boxes s i)(b' := ms)), got := g\<rparr>) d b =
    (if d = i \<and> b = b' then awaited s d b - {#m#} else awaited s d b)"
  using assms by (simp add: awaited_def)

lemma awaited_head: "in_boxes s i b = m # ms \<Longrightarrow> m \<in># awaited s i b"
  by (simp add: awaited_def)

lemma awaited_arrived: "in_transit s = {#} \<Longrightarrow> awaited s i b = mset (in_boxes s i b)"
  by (simp add: awaited_def)

section \<open>The handshake\<close>

locale handshake =
  fixes B N :: nat and succ pred :: "nat \<Rightarrow> nat" and starts :: "nat \<Rightarrow> bool" and greet ack :: "nat \<Rightarrow> mail"
  assumes ring: "i < N \<Longrightarrow> succ i < N" "i < N \<Longrightarrow> pred i < N" "i < N \<Longrightarrow> pred (succ i) = i" "i < N \<Longrightarrow> succ (pred i) = i"
    and box: "i < N \<Longrightarrow> box_of (greet i) = 0" "i < N \<Longrightarrow> box_of (ack i) = 1"
    and started: "i < N \<Longrightarrow> \<exists>j. starts ((pred ^^ j) i)"
begin

definition script :: "nat \<Rightarrow> mail_event list" where
  "script i =
    (if starts i then [Out (succ i) (greet i), In 0 (greet (pred i)), Out (pred i) (ack i), In 1 (ack (succ i))]
     else [In 0 (greet (pred i)), Out (succ i) (greet i), Out (pred i) (ack i), In 1 (ack (succ i))])"

text \<open>By the number of events machine \<open>i\<close> has behind it: what it has sent and received, and the steps this took.\<close>

definition greeted :: "(nat \<Rightarrow> nat) \<Rightarrow> nat \<Rightarrow> bool" where
  "greeted ph i \<longleftrightarrow> (if starts i then 1 \<le> ph i else 2 \<le> ph i)"

definition welcomed :: "(nat \<Rightarrow> nat) \<Rightarrow> nat \<Rightarrow> bool" where
  "welcomed ph i \<longleftrightarrow> (if starts i then 2 \<le> ph i else 1 \<le> ph i)"

definition received :: "nat \<Rightarrow> nat \<Rightarrow> mail list" where
  "received i p = (if p = 4 then [greet (pred i), ack (succ i)] else if (if starts i then 2 \<le> p else 1 \<le> p) then [greet (pred i)] else [])"

definition weight :: "nat \<Rightarrow> nat \<Rightarrow> nat" where
  "weight i p = (if starts i then [0, 2, 3, 5, 6] ! p else [0, 1, 3, 5, 6] ! p)"

definition expected :: "(nat \<Rightarrow> nat) \<Rightarrow> nat \<Rightarrow> nat \<Rightarrow> mail multiset" where
  "expected ph d b =
    (if b = 0 \<and> greeted ph (pred d) \<and> \<not> welcomed ph d then {#greet (pred d)#}
     else if b = 1 \<and> 3 \<le> ph (succ d) \<and> ph d \<le> 3 then {#ack (succ d)#} else {#})"

definition causal :: "(nat \<Rightarrow> nat) \<Rightarrow> bool" where
  "causal ph \<longleftrightarrow> (\<forall>d < N. ph d \<le> 4 \<and> (welcomed ph d \<longrightarrow> greeted ph (pred d)) \<and> (ph d = 4 \<longrightarrow> 3 \<le> ph (succ d)))"

definition in_phase :: "(nat \<Rightarrow> nat) \<Rightarrow> nat \<Rightarrow> mail_network \<Rightarrow> bool" where
  "in_phase ph k s \<longleftrightarrow> causal ph \<and>
     (\<forall>i < N. follows B i (programs s i) (drop (ph i) (script i)) \<and> got s i = received i (ph i)) \<and>
     (\<forall>d < N. \<forall>b. awaited s d b = expected ph d b) \<and> (\<forall>(d, m) \<in># in_transit s. d < N) \<and>
     k + size (in_transit s) = (\<Sum>i < N. weight i (ph i))"

lemma ring_eq: "i < N \<Longrightarrow> d < N \<Longrightarrow> pred d = i \<longleftrightarrow> d = succ i" "i < N \<Longrightarrow> d < N \<Longrightarrow> succ d = i \<longleftrightarrow> d = pred i"
  using ring by metis+

lemma weight_sum:
  assumes "i < N"
  shows "(\<Sum>j < N. weight j ((ph(i := p)) j)) + weight i (ph i) = (\<Sum>j < N. weight j (ph j)) + weight i p"
  using assms by (simp add: sum.remove [of "{..<N}" i])

text \<open>What the three kinds of event do to the mail that is expected.\<close>

lemma greeting_sent:
  assumes "causal ph" and "i < N" and "ph i = (if starts i then 0 else 1)"
  shows "causal (ph(i := Suc (ph i)))"
    and "d < N \<Longrightarrow> expected (ph(i := Suc (ph i))) d b =
      (if d = succ i \<and> b = 0 then add_mset (greet i) (expected ph d b) else expected ph d b)"
proof -
  let ?ph = "ph(i := Suc (ph i))"
  have upd: "greeted ?ph j \<longleftrightarrow> greeted ph j \<or> j = i" "welcomed ?ph j \<longleftrightarrow> welcomed ph j" "3 \<le> ?ph j \<longleftrightarrow> 3 \<le> ph j"
    "?ph j \<le> 3 \<longleftrightarrow> ph j \<le> 3" "?ph j = 4 \<longleftrightarrow> ph j = 4" "?ph j \<le> 4 \<longleftrightarrow> ph j \<le> 4" for j
    using assms(3) by (auto simp: greeted_def welcomed_def split: if_splits)
  show "causal ?ph" using assms(1) unfolding causal_def upd by blast
  assume d: "d < N"
  have "\<not> greeted ph i" using assms(3) by (simp add: greeted_def)
  then have "\<not> welcomed ph d" if "pred d = i" using assms(1) d that by (auto simp: causal_def)
  then show "expected ?ph d b = (if d = succ i \<and> b = 0 then add_mset (greet i) (expected ph d b) else expected ph d b)"
    using \<open>\<not> greeted ph i\<close> unfolding expected_def upd ring_eq(1) [OF assms(2) d, symmetric] by auto
qed

lemma acknowledgement_sent:
  assumes "causal ph" and "i < N" and "ph i = 2"
  shows "causal (ph(i := Suc (ph i)))"
    and "d < N \<Longrightarrow> expected (ph(i := Suc (ph i))) d b =
      (if d = pred i \<and> b = 1 then add_mset (ack i) (expected ph d b) else expected ph d b)"
proof -
  let ?ph = "ph(i := Suc (ph i))"
  have upd: "greeted ?ph j \<longleftrightarrow> greeted ph j" "welcomed ?ph j \<longleftrightarrow> welcomed ph j" "3 \<le> ?ph j \<longleftrightarrow> 3 \<le> ph j \<or> j = i"
    "?ph j \<le> 3 \<longleftrightarrow> ph j \<le> 3" "?ph j = 4 \<longleftrightarrow> ph j = 4" "?ph j \<le> 4 \<longleftrightarrow> ph j \<le> 4" for j
    using assms(3) by (auto simp: greeted_def welcomed_def)
  show "causal ?ph" using assms(1) unfolding causal_def upd by blast
  assume d: "d < N"
  have "ph d \<le> 3" if "succ d = i" using assms(1,3) d that by (auto simp: causal_def le_Suc_eq numeral_eq_Suc)
  then show "expected ?ph d b = (if d = pred i \<and> b = 1 then add_mset (ack i) (expected ph d b) else expected ph d b)"
    using assms(3) unfolding expected_def upd ring_eq(2) [OF assms(2) d, symmetric] by auto
qed

lemma greeting_received:
  assumes "causal ph" and "i < N" and "ph i = (if starts i then 1 else 0)" and "greeted ph (pred i)"
  shows "causal (ph(i := Suc (ph i)))"
    and "expected (ph(i := Suc (ph i))) d b = (if d = i \<and> b = 0 then expected ph d b - {#greet (pred i)#} else expected ph d b)"
proof -
  let ?ph = "ph(i := Suc (ph i))"
  have upd: "greeted ?ph j \<longleftrightarrow> greeted ph j" "welcomed ?ph j \<longleftrightarrow> welcomed ph j \<or> j = i" "3 \<le> ?ph j \<longleftrightarrow> 3 \<le> ph j"
    "?ph j \<le> 3 \<longleftrightarrow> ph j \<le> 3" "?ph j = 4 \<longleftrightarrow> ph j = 4" "?ph j \<le> 4 \<longleftrightarrow> ph j \<le> 4" for j
    using assms(3) by (auto simp: greeted_def welcomed_def split: if_splits)
  show "causal ?ph" using assms(1,4) unfolding causal_def upd by blast
  show "expected ?ph d b = (if d = i \<and> b = 0 then expected ph d b - {#greet (pred i)#} else expected ph d b)"
    unfolding expected_def upd by auto
qed

lemma acknowledgement_received:
  assumes "causal ph" and "i < N" and "ph i = 3" and "3 \<le> ph (succ i)"
  shows "causal (ph(i := Suc (ph i)))"
    and "expected (ph(i := Suc (ph i))) d b = (if d = i \<and> b = 1 then expected ph d b - {#ack (succ i)#} else expected ph d b)"
proof -
  let ?ph = "ph(i := Suc (ph i))"
  have upd: "greeted ?ph j \<longleftrightarrow> greeted ph j" "welcomed ?ph j \<longleftrightarrow> welcomed ph j" "3 \<le> ?ph j \<longleftrightarrow> 3 \<le> ph j"
    "?ph j \<le> 3 \<longleftrightarrow> ph j \<le> 3 \<and> j \<noteq> i" "?ph j = 4 \<longleftrightarrow> ph j = 4 \<or> j = i" "?ph j \<le> 4 \<longleftrightarrow> ph j \<le> 4" for j
    using assms(3) by (auto simp: greeted_def welcomed_def)
  show "causal ?ph" using assms(1,4) unfolding causal_def upd by blast
  show "expected ?ph d b = (if d = i \<and> b = 1 then expected ph d b - {#ack (succ i)#} else expected ph d b)"
    unfolding expected_def upd by auto
qed

text \<open>Where in its script a program is that sends or receives.\<close>

lemma script_drop:
  assumes "n \<le> 4"
  shows "drop n (script i) =
    (if n = 4 then [] else if n = 3 then [In 1 (ack (succ i))]
     else if n = 2 then [Out (pred i) (ack i), In 1 (ack (succ i))]
     else if n = (if starts i then 0 else 1) then Out (succ i) (greet i) # drop (Suc n) (script i)
     else In 0 (greet (pred i)) # drop (Suc n) (script i))"
proof -
  have "n = 0 \<or> n = 1 \<or> n = 2 \<or> n = 3 \<or> n = 4" using assms by auto
  then show ?thesis by (cases "starts i"; elim disjE; hypsubst) (simp_all add: script_def)
qed

lemma counts:
  "starts i \<Longrightarrow> received i 1 = received i 0" "\<not> starts i \<Longrightarrow> received i 2 = received i 1" "received i 3 = received i 2"
  "starts i \<Longrightarrow> received i 2 = received i 1 @ [greet (pred i)]" "\<not> starts i \<Longrightarrow> received i 1 = received i 0 @ [greet (pred i)]"
  "received i 4 = received i 3 @ [ack (succ i)]"
  "starts i \<Longrightarrow> weight i 1 = weight i 0 + 2" "\<not> starts i \<Longrightarrow> weight i 2 = weight i 1 + 2" "weight i 3 = weight i 2 + 2"
  "starts i \<Longrightarrow> weight i 2 = weight i 1 + 1" "\<not> starts i \<Longrightarrow> weight i 1 = weight i 0 + 1" "weight i 4 = weight i 3 + 1"
  by (simp_all add: received_def weight_def)

lemma at_send:
  assumes "follows B i (SendMail pkt mh data p) (drop n (script i))" and "n \<le> 4"
  shows "\<exists>m. posted B i pkt mh data = Inr m \<and> follows B i p (drop (Suc n) (script i)) \<and> received i (Suc n) = received i n \<and>
    weight i (Suc n) = weight i n + 2 \<and>
    (n = (if starts i then 0 else 1) \<and> m = greet i \<and> unat (to_addr pkt) = succ i \<or> n = 2 \<and> m = ack i \<and> unat (to_addr pkt) = pred i)"
proof -
  have "n = 2 \<or> n = (if starts i then 0 else 1)" using assms by (auto simp: script_drop split: if_splits)
  then show ?thesis
  proof
    assume "n = 2"
    then show ?thesis using assms(1) counts(3,9) script_drop [of 3 i] by (simp add: script_drop)
  next
    assume n: "n = (if starts i then 0 else 1)"
    then have "n \<noteq> 2" "n \<noteq> 3" "n \<noteq> 4" by (simp_all split: if_splits)
    then show ?thesis using assms n counts(1,2,7,8) [of i]
      by (subst (asm) script_drop) (auto simp: numeral_2_eq_2)
  qed
qed

lemma at_receive:
  assumes "follows B i (ReceiveMail b buffer f) (drop n (script i))" and "n \<le> 4"
  shows "\<exists>m data. copy_mail m buffer = Inr data \<and> follows B i (f (pktHdr m, mailHdr m, data)) (drop (Suc n) (script i)) \<and>
    received i (Suc n) = received i n @ [m] \<and> weight i (Suc n) = weight i n + 1 \<and>
    (n = (if starts i then 1 else 0) \<and> m = greet (pred i) \<and> b = 0 \<or> n = 3 \<and> m = ack (succ i) \<and> b = 1)"
proof -
  have "n = 3 \<or> n = (if starts i then 1 else 0)"
    using assms by (auto simp: script_drop le_Suc_eq numeral_eq_Suc split: if_splits)
  then show ?thesis
  proof
    assume "n = 3"
    then show ?thesis using assms(1) counts(6,12) [of i] script_drop [of 4 i] by (auto simp: script_drop)
  next
    assume n: "n = (if starts i then 1 else 0)"
    then have "n \<noteq> 2" "n \<noteq> 3" "n \<noteq> 4" "n \<noteq> (if starts i then 0 else 1)" by (simp_all split: if_splits)
    then show ?thesis using assms n counts(4,5,10,11) [of i]
      by (subst (asm) script_drop) (auto simp: numeral_2_eq_2)
  qed
qed

lemma expected_at:
  assumes "n = (if starts i then 1 else 0) \<and> m = greet (pred i) \<and> b = 0 \<or> n = 3 \<and> m = ack (succ i) \<and> b = 1"
    and "ph i = n" and "m' \<in># expected ph i b"
  shows "m' = m" and "b = 0 \<Longrightarrow> greeted ph (pred i)" and "b = 1 \<Longrightarrow> 3 \<le> ph (succ i)"
  using assms by (auto simp: expected_def welcomed_def split: if_splits)

lemma in_phase_sends:
  assumes inv: "in_phase ph k s" and i: "i < N" "programs s i = SendMail pkt mh data p" and m: "posted B i pkt mh data = Inr m"
  shows "in_phase (ph(i := Suc (ph i))) (Suc k)
    (s\<lparr>programs := (programs s)(i := p), in_transit := add_mset (unat (to_addr pkt), m) (in_transit s)\<rparr>)"
proof -
  have f: "follows B i (SendMail pkt mh data p) (drop (ph i) (script i))" "ph i \<le> 4" "causal ph"
    using inv i by (auto simp: in_phase_def causal_def)
  from at_send [OF f(1,2)] m have next_ok: "follows B i p (drop (Suc (ph i)) (script i))" "received i (Suc (ph i)) = received i (ph i)"
    "weight i (Suc (ph i)) = weight i (ph i) + 2"
    and kind: "ph i = (if starts i then 0 else 1) \<and> m = greet i \<and> unat (to_addr pkt) = succ i \<or>
      ph i = 2 \<and> m = ack i \<and> unat (to_addr pkt) = pred i" by auto
  have "causal (ph(i := Suc (ph i)))" "unat (to_addr pkt) < N"
    "\<forall>d < N. \<forall>b. expected (ph(i := Suc (ph i))) d b =
      (if d = unat (to_addr pkt) \<and> b = box_of m then add_mset m (expected ph d b) else expected ph d b)"
    using kind greeting_sent [OF f(3) i(1)] acknowledgement_sent [OF f(3) i(1)] ring(1,2) [OF i(1)] box [OF i(1)] by auto
  then show ?thesis
    using inv next_ok weight_sum [OF i(1), of ph "Suc (ph i)"] unfolding in_phase_def awaited_sends by auto
qed

lemma in_phase_receives:
  assumes inv: "in_phase ph k s" and i: "i < N" "programs s i = ReceiveMail b buffer f" and m: "in_boxes s i b = m # ms"
  obtains data where "copy_mail m buffer = Inr data"
    and "in_phase (ph(i := Suc (ph i))) (Suc k) (s\<lparr>programs := (programs s)(i := f (pktHdr m, mailHdr m, data)),
      in_boxes := (in_boxes s)(i := (in_boxes s i)(b := ms)), got := (got s)(i := got s i @ [m])\<rparr>)"
proof -
  have f: "follows B i (ReceiveMail b buffer f) (drop (ph i) (script i))" "ph i \<le> 4" "causal ph"
    using inv i by (auto simp: in_phase_def causal_def)
  from at_receive [OF f(1,2)] obtain m' data where next_ok: "copy_mail m' buffer = Inr data"
    "follows B i (f (pktHdr m', mailHdr m', data)) (drop (Suc (ph i)) (script i))"
    "received i (Suc (ph i)) = received i (ph i) @ [m']" "weight i (Suc (ph i)) = weight i (ph i) + 1"
    and kind: "ph i = (if starts i then 1 else 0) \<and> m' = greet (pred i) \<and> b = 0 \<or> ph i = 3 \<and> m' = ack (succ i) \<and> b = 1" by blast
  have "m \<in># expected ph i b" using awaited_head [of s i b] m inv i(1) by (auto simp: in_phase_def)
  note e = expected_at [OF kind refl this]
  have "causal (ph(i := Suc (ph i)))" "\<And>d b'. expected (ph(i := Suc (ph i))) d b' =
      (if d = i \<and> b' = b then expected ph d b' - {#m#} else expected ph d b')"
    using kind e greeting_received [OF f(3) i(1)] acknowledgement_received [OF f(3) i(1)] by auto
  then show ?thesis
    using inv next_ok that weight_sum [OF i(1), of ph "Suc (ph i)"] unfolding in_phase_def awaited_receives [of s i b m ms, OF m] e(1) by auto
qed

lemma in_phase_delivers:
  assumes "in_phase ph k s" and "in_transit s = add_mset (d, m) rest" and "b = unat (to_box (mailHdr m))"
  shows "in_phase ph (Suc k) (s\<lparr>in_transit := rest, in_boxes := (in_boxes s)(d := (in_boxes s d)(b := in_boxes s d b @ [m]))\<rparr>)"
  using assms awaited_delivers [OF assms(2), of b] unfolding in_phase_def box_of_def by auto

lemma in_phase_step:
  assumes "in_phase ph k s" and "net_step B N s s'"
  shows "\<exists>ph'. in_phase ph' (Suc k) s'"
  using assms(2)
proof cases
  case (sends i pkt mh data p m)
  then show ?thesis using in_phase_sends [OF assms(1)] by blast
next
  case (bad_send i pkt mh data p e)
  have "follows B i (SendMail pkt mh data p) (drop (ph i) (script i))" "ph i \<le> 4"
    using assms(1) bad_send by (auto simp: in_phase_def causal_def)
  then show ?thesis using at_send bad_send(4) by fastforce
next
  case (delivers d m rest b)
  then show ?thesis using in_phase_delivers [OF assms(1)] by blast
next
  case (receives i b buffer f m ms data)
  then show ?thesis using in_phase_receives [OF assms(1), of i b buffer f m ms] by fastforce
next
  case (bad_mail i b buffer f m ms e)
  then show ?thesis using in_phase_receives [OF assms(1), of i b buffer f m ms] by fastforce
qed

lemma in_phase_run:
  assumes "\<forall>i < N. follows B i (ps i) (script i)" and "(net_step B N ^^ k) (net_start ps) s"
  shows "\<exists>ph. in_phase ph k s"
  using assms(2)
proof (induction k arbitrary: s)
  case 0
  have none: "\<not> greeted (\<lambda>_. 0) i" "\<not> welcomed (\<lambda>_. 0) i" "received i 0 = []" "weight i 0 = 0" for i
    by (simp_all add: greeted_def welcomed_def received_def weight_def)
  have "in_phase (\<lambda>_. 0) 0 (net_start ps)"
    unfolding in_phase_def
  proof (intro conjI allI impI)
    show "causal (\<lambda>_. 0)" by (simp add: causal_def none)
    show "follows B i (programs (net_start ps) i) (drop 0 (script i))" if "i < N" for i
      using assms(1) that by (simp add: net_start_def)
    show "got (net_start ps) i = received i 0" for i by (simp add: net_start_def none)
    show "awaited (net_start ps) d b = expected (\<lambda>_. 0) d b" for d b by (simp add: awaited_start expected_def none)
    show "\<forall>(d, m) \<in># in_transit (net_start ps). d < N" by (simp add: net_start_def)
    show "0 + size (in_transit (net_start ps)) = (\<Sum>i < N. weight i 0)" by (simp add: net_start_def none)
  qed
  moreover have "s = net_start ps" using 0 by simp
  ultimately show ?case by blast
next
  case (Suc k)
  from Suc.prems obtain t where t: "(net_step B N ^^ k) (net_start ps) t" "net_step B N t s" by (rule relpowp_Suc_E)
  obtain ph where "in_phase ph k t" using Suc.IH [OF t(1)] by (rule exE)
  from in_phase_step [OF this t(2)] show ?case .
qed

text \<open>As long as a machine has not halted, something can happen; nothing is left when all have.\<close>

lemma busy_or_done:
  assumes inv: "in_phase ph k s" and stuck: "\<nexists>s'. net_step B N s s'"
  shows "i < N \<Longrightarrow> ph i = 4" and "in_transit s = {#}"
proof -
  show arrived: "in_transit s = {#}"
  proof (rule ccontr)
    assume "in_transit s \<noteq> {#}"
    then obtain x rest where "in_transit s = add_mset x rest" using multi_nonempty_split by blast
    then show False using stuck net_step.delivers [of s "fst x" "snd x" rest] by auto
  qed
  have phase: "ph i \<le> 4" "follows B i (programs s i) (drop (ph i) (script i))" if "i < N" for i
    using inv that by (auto simp: in_phase_def causal_def)
  have no_mail: "expected ph i b = {#}" if "i < N" "programs s i = ReceiveMail b buffer f" for i b buffer f
  proof -
    have "in_boxes s i b = []"
    proof (cases "in_boxes s i b")
      case (Cons m ms)
      then show ?thesis using in_phase_receives [OF inv that Cons] net_step.receives [OF that Cons] stuck by blast
    qed
    then show ?thesis using inv that(1) awaited_arrived [OF arrived, of i b] by (simp add: in_phase_def)
  qed
  have no_send: False if i: "i < N" "programs s i = SendMail pkt mh data p" for i pkt mh data p
    using at_send [OF phase(2) [OF i(1), unfolded i(2)] phase(1) [OF i(1)]] net_step.sends [OF i] stuck by blast
  have waits: "ph i = 4 \<or> ph i = 3 \<and> expected ph i 1 = {#} \<or> ph i = (if starts i then 1 else 0) \<and> expected ph i 0 = {#}"
    if i: "i < N" for i
    using phase [OF i] no_send [OF i] no_mail [OF i] script_drop [OF phase(1) [OF i]]
    by (auto split: if_splits)
  have greeted: "greeted ph i" if "i < N" "starts ((pred ^^ j) i)" for i j
    using that
  proof (induction j arbitrary: i)
    case 0
    then show ?case using waits [of i] by (auto simp: greeted_def split: if_splits)
  next
    case (Suc j)
    then have "greeted ph (pred i)" using ring(2) by (simp add: funpow_swap1)
    then show ?case using waits [OF Suc.prems(1)] by (auto simp: greeted_def expected_def welcomed_def split: if_splits)
  qed
  have far: "3 \<le> ph i" if "i < N" for i
  proof -
    have "greeted ph (pred i)" using greeted started ring(2) that by blast
    then show ?thesis using waits [OF that] by (auto simp: expected_def welcomed_def split: if_splits)
  qed
  show "ph i = 4" if "i < N"
    using waits [OF that] far [OF that] far [OF ring(1) [OF that]] by (auto simp: expected_def split: if_splits)
qed

theorem handshake_completes:
  assumes "\<forall>i < N. follows B i (ps i) (script i)" and "(net_step B N ^^ k) (net_start ps) s"
  shows "k \<le> 6 * N" and "(\<exists>s'. net_step B N s s') \<or>
    k = 6 * N \<and> in_transit s = {#} \<and>
    (\<forall>i < N. programs s i = HaltMachine \<and> got s i = [greet (pred i), ack (succ i)] \<and> (\<forall>b. in_boxes s i b = []))"
proof -
  obtain ph where inv: "in_phase ph k s" using in_phase_run [OF assms] by blast
  have "weight i (ph i) \<le> 6" if "i < N" for i
  proof -
    have "ph i \<le> 4" using inv that by (simp add: in_phase_def causal_def)
    then have "ph i = 0 \<or> ph i = 1 \<or> ph i = 2 \<or> ph i = 3 \<or> ph i = 4" by auto
    then show ?thesis by (auto simp: weight_def)
  qed
  then have "(\<Sum>i < N. weight i (ph i)) \<le> (\<Sum>i < N. 6)" by (intro sum_mono) simp
  moreover have "k + size (in_transit s) = (\<Sum>i < N. weight i (ph i))" using inv by (simp add: in_phase_def)
  ultimately show "k \<le> 6 * N" by simp
  show "(\<exists>s'. net_step B N s s') \<or> k = 6 * N \<and> in_transit s = {#} \<and>
    (\<forall>i < N. programs s i = HaltMachine \<and> got s i = [greet (pred i), ack (succ i)] \<and> (\<forall>b. in_boxes s i b = []))"
  proof (cases "\<exists>s'. net_step B N s s'")
    case False
    note finished = busy_or_done [OF inv False]
    have "k = (\<Sum>i < N. weight i (ph i))" using inv finished(2) by (simp add: in_phase_def)
    also have "\<dots> = (\<Sum>i < N. 6)" using finished(1) by (intro sum.cong) (simp_all add: weight_def)
    finally have "k = 6 * N" by simp
    moreover have "programs s i = HaltMachine \<and> got s i = [greet (pred i), ack (succ i)] \<and> (\<forall>b. in_boxes s i b = [])"
      if "i < N" for i
    proof -
      have "expected ph i b = {#}" for b using finished(1) [OF that] by (simp add: expected_def welcomed_def)
      moreover have "mset (in_boxes s i b) = expected ph i b" for b
        using inv that awaited_arrived [OF finished(2), of i b] by (simp add: in_phase_def)
      ultimately have "in_boxes s i b = []" for b by simp
      moreover have "drop 4 (script i) = []" by (simp add: script_drop)
      ultimately show ?thesis using inv that finished(1) [OF that] by (auto simp: in_phase_def received_def)
    qed
    ultimately show ?thesis using finished(2) by blast
  qed simp
qed

end

end
