(* ===== verification/Ring_Properties.thy ===== *)
theory Ring_Properties
  imports Mail_Network Mips_Translation
begin

text \<open>The claims about the network tests: all machines together.\<close>

section \<open>The letters\<close>

definition letter :: "nat \<Rightarrow> nat \<Rightarrow> nat \<Rightarrow> string \<Rightarrow> mail" where
  "letter i d b str =
    \<lparr>pktHdr = \<lparr>to_addr = of_nat d, from_addr = of_nat i, hdr_length = of_nat (length (literal str)) + of_nat sizeof_MailHeader\<rparr>,
     mailHdr = \<lparr>to_box = of_nat b, from_box = 1, mail_length = of_nat (length (literal str))\<rparr>, mail_data = literal str\<rparr>"

definition plain :: "string \<Rightarrow> bool" where
  "plain str \<longleftrightarrow> 0 \<notin> set (bytes_of str) \<and> length (literal str) \<le> MaxMailSize"

lemma plain_texts: "plain ''Hello!''" "plain ''Got it!''" "plain ''Hello there !''"
  by (simp_all add: plain_def literal_def bytes_of_def mail_sizes)

lemma small_length: "length (literal str) \<le> MaxMailSize \<Longrightarrow> unat (of_nat (length (literal str)) :: c_int) = length (literal str)"
  by (simp add: mail_sizes unsigned_of_nat take_bit_nat_eq_self)

lemma posted_letter:
  assumes "plain str" and "b < B" and "b < 2" and "mh = \<lparr>to_box = of_nat b, from_box = 1, mail_length = of_nat (length (literal str))\<rparr>"
    and "to_addr pkt = of_nat d" and "take (length (literal str)) data = literal str"
  shows "posted B i pkt mh data = Inr (letter i d b str)"
proof -
  have "b = 0 \<or> b = 1" using assms(3) by auto
  then have "sint (of_nat b :: c_int) = int b" by auto
  moreover have "length (literal str) \<le> length data" using arg_cong [OF assms(6), of length] by simp
  ultimately show ?thesis
    using assms small_length [of str]
    by (simp add: posted_def plain_def letter_def packet_for_def)
qed

lemma copy_letter:
  assumes "plain str" and "length buffer = MaxMailSize"
  shows "copy_mail (letter i d b str) buffer = Inr (literal str @ drop (length (literal str)) buffer)"
  using assms small_length [of str] by (simp add: copy_mail_def letter_def plain_def splice_def Let_def)

lemma with_literal: "plain str \<Longrightarrow> with_string (literal str @ r) k = k (bytes_of str)"
proof -
  assume "plain str"
  then have "takeWhile (\<lambda>c. c \<noteq> 0) (bytes_of str @ 0 # r) = bytes_of str"
    by (subst takeWhile_append2) (auto simp: plain_def)
  then show ?thesis by (simp add: with_string_def literal_def cstring_def)
qed

lemma box_of_letter: "b < 2 \<Longrightarrow> box_of (letter i d b str) = b"
  by (auto simp: box_of_def letter_def less_2_cases_iff)

lemma follows_SendMail:
  "posted B i pkt mh data = Inr m \<Longrightarrow> unat (to_addr pkt) = d \<Longrightarrow> follows B i p es \<Longrightarrow>
   follows B i (SendMail pkt mh data p) (Out d m # es)"
  by simp

lemma follows_letter:
  assumes "plain str" and "length buffer = MaxMailSize"
    and "follows B i (k (pktHdr (letter j d b' str), mailHdr (letter j d b' str), literal str @ drop (length (literal str)) buffer)) es"
  shows "follows B i (ReceiveMail b buffer k) (In b (letter j d b' str) # es)"
  using assms(3) copy_letter [OF assms(1,2)] by simp

lemma letter_headers:
  "from_addr (pktHdr (letter i d b str)) = of_nat i" "from_box (mailHdr (letter i d b str)) = 1"
  by (simp_all add: letter_def)

lemma follows_acknowledge:
  assumes "length buffer = MaxMailSize" and "from_addr inPkt = of_nat d" and "from_box inMail = 1" and "from_box mh = 1" and "1 < B"
    and "d < 2 ^ 32"
  shows "follows B i (acknowledge pkt mh inPkt inMail buffer) [Out d (letter i d 1 ''Got it!''), In 1 (letter j i 1 ''Got it!'')]"
proof -
  let ?str = "''Got it!''"
  have "posted B i (pkt\<lparr>to_addr := of_nat d\<rparr>) (mh\<lparr>to_box := 1, mail_length := of_nat (length (literal ?str))\<rparr>) (literal ?str) =
    Inr (letter i d 1 ?str)"
    by (rule posted_letter [OF plain_texts(2)]) (use assms in simp_all)
  moreover have "unat (of_nat d :: c_int) = d" using assms(6) by (simp add: unsigned_of_nat take_bit_nat_eq_self)
  ultimately show ?thesis
    using assms copy_letter [OF plain_texts(2) assms(1)] by (simp add: acknowledge_def Let_def with_literal [OF plain_texts(2)])
qed

section \<open>The ring\<close>

lemma around:
  fixes i n :: nat
  assumes "i < n"
  shows "(i + 1) mod n = (if i + 1 = n then 0 else i + 1)" and "(i + n - 1) mod n = (if i = 0 then n - 1 else i - 1)"
proof -
  show "(i + 1) mod n = (if i + 1 = n then 0 else i + 1)" using assms by auto
  have "i + n - 1 = i - 1 + n" if "i \<noteq> 0" using that by simp
  then have "(i + n - 1) mod n = i - 1" if "i \<noteq> 0"
    using that assms by (metis less_imp_diff_less mod_add_self2 mod_less)
  then show "(i + n - 1) mod n = (if i = 0 then n - 1 else i - 1)" using assms by simp
qed

interpretation ring: handshake B n "\<lambda>i. (i + 1) mod n" "\<lambda>i. (i + n - 1) mod n" "\<lambda>i. i = 0"
    "\<lambda>i. letter i ((i + 1) mod n) 0 ''Hello there !''" "\<lambda>i. letter i ((i + n - 1) mod n) 1 ''Got it!''" for B n
proof
  fix i
  assume i: "i < n"
  show "(i + 1) mod n < n" "(i + n - 1) mod n < n" using i by simp_all
  show "((i + 1) mod n + n - 1) mod n = i" "((i + n - 1) mod n + 1) mod n = i"
    using i around [of i n] around(2) [of "(i + 1) mod n" n] around(1) [of "(i + n - 1) mod n" n] by (auto split: if_splits)
  show "box_of (letter i ((i + 1) mod n) 0 ''Hello there !'') = 0" "box_of (letter i ((i + n - 1) mod n) 1 ''Got it!'') = 1"
    by (simp_all add: box_of_letter)
  have "((\<lambda>i. (i + n - 1) mod n) ^^ i) i = 0"
    using i
  proof (induction i)
    case (Suc i)
    then have "(Suc i + n - 1) mod n = i" using around(2) [of "Suc i" n] by simp
    then show ?case using Suc by (simp only: funpow_Suc_right o_apply)
  qed simp
  then show "\<exists>j. ((\<lambda>i. (i + n - 1) mod n) ^^ j) i = 0" by blast
qed

lemma follows_RingTest:
  assumes i: "i < n" and n: "n < 2 ^ 31" and "1 < B" and buffer: "length buffer = MaxMailSize"
  shows "follows B i (RingTest pkt mh buffer (of_nat i) (of_nat n)) (ring.script n i)"
proof -
  let ?data = "''Hello there !''" and ?ack = "''Got it!''"
  define s p where "s = (i + 1) mod n" and "p = (i + n - 1) mod n"
  have script: "ring.script n i =
    (if i = 0 then [Out s (letter i s 0 ?data), In 0 (letter p i 0 ?data), Out p (letter i p 1 ?ack), In 1 (letter s i 1 ?ack)]
     else [In 0 (letter p i 0 ?data), Out s (letter i s 0 ?data), Out p (letter i p 1 ?ack), In 1 (letter s i 1 ?ack)])"
    by (simp only: ring.script_def s_def p_def ring.ring(3,4) [OF i])
  have small: "s < 2 ^ 31" "p < 2 ^ 31" using i n by (simp_all add: s_def p_def less_trans [OF mod_less_divisor])
  then have unat: "unat (of_nat s :: c_int) = s" by (simp add: unsigned_of_nat take_bit_nat_eq_self)
  have sint_of_nat: "sint (of_nat m :: c_int) = int m" if "m < 2 ^ 31" for m
  proof -
    have "unat (of_nat m :: c_int) = m" using that by (simp add: unsigned_of_nat take_bit_nat_eq_self)
    then show ?thesis using sint_small [of "of_nat m"] that by simp
  qed
  have n1: "\<not> int n < 1" using i by simp
  have to_s: "word_of_int (sint (of_nat i + 1 :: c_int) smod int n) = (of_nat s :: c_int)"
    "i = 0 \<Longrightarrow> word_of_int (1 smod int n) = (of_nat s :: c_int)"
  proof -
    have smod: "int m smod int n = int (m mod n)" for m by (cases m) (simp_all add: signed_modulo_int_def zmod_int)
    have "sint (of_nat i + 1 :: c_int) = int (i + 1)" using sint_of_nat [of "i + 1"] i n by (simp add: add.commute)
    then show "word_of_int (sint (of_nat i + 1 :: c_int) smod int n) = (of_nat s :: c_int)"
      by (simp only: smod s_def of_int_of_nat_eq)
    show "i = 0 \<Longrightarrow> word_of_int (1 smod int n) = (of_nat s :: c_int)"
      using smod [of 1] by (simp only: s_def) simp
  qed
  have address: "(of_nat i :: c_int) = 0 \<longleftrightarrow> i = 0"
  proof -
    have "unat (of_nat i :: c_int) = i" using i n by (simp add: unsigned_of_nat take_bit_nat_eq_self)
    then show ?thesis by auto
  qed
  have posted: "posted B i (pkt\<lparr>to_addr := of_nat s\<rparr>) (mh\<lparr>to_box := 0, from_box := 1, mail_length := of_nat (length (literal ?data))\<rparr>)
      (literal ?data @ r) = Inr (letter i s 0 ?data)" for r
    by (rule posted_letter [OF plain_texts(3)]) (use assms in simp_all)
  let ?buffer = "literal ?data @ drop (length (literal ?data)) buffer"
  have after: "length ?buffer = MaxMailSize" using buffer plain_texts(3) by (simp add: plain_def)
  let ?mh = "mh\<lparr>to_box := 0, from_box := 1, mail_length := of_nat (length (literal ?data))\<rparr>"
  have last: "follows B i (acknowledge pkt' ?mh (pktHdr (letter p i 0 ?data)) (mailHdr (letter p i 0 ?data)) ?buffer)
      [Out p (letter i p 1 ?ack), In 1 (letter s i 1 ?ack)]" for pkt'
    by (rule follows_acknowledge [OF after]) (use assms small in \<open>simp_all add: letter_headers\<close>)
  show ?thesis
  proof (cases "i = 0")
    case True
    have "follows B i (SendMail (pkt\<lparr>to_addr := of_nat s\<rparr>) ?mh (literal ?data) (ReceiveMail 0 buffer
        (\<lambda>(inPktHdr, inMailHdr, buffer). with_string buffer (\<lambda>_. acknowledge (pkt\<lparr>to_addr := of_nat s\<rparr>) ?mh inPktHdr inMailHdr buffer))))
        [Out s (letter i s 0 ?data), In 0 (letter p i 0 ?data), Out p (letter i p 1 ?ack), In 1 (letter s i 1 ?ack)]"
      by (intro follows_SendMail follows_letter [OF plain_texts(3) buffer])
        (use posted [of "[]"] last in \<open>simp_all add: unat with_literal [OF plain_texts(3)]\<close>)
    then show ?thesis
      unfolding script RingTest_def sint_of_nat [OF n] using True i by (simp add: n1 to_s(2) Let_def)
  next
    case False
    have "follows B i (ReceiveMail 0 buffer (\<lambda>(inPktHdr, inMailHdr, buffer). with_string buffer (\<lambda>str.
        SendMail (pkt\<lparr>to_addr := of_nat s\<rparr>) (mh\<lparr>to_box := 0, from_box := 1, mail_length := of_nat (length str + 1)\<rparr>) buffer
          (acknowledge (pkt\<lparr>to_addr := of_nat s\<rparr>) (mh\<lparr>to_box := 0, from_box := 1, mail_length := of_nat (length str + 1)\<rparr>)
            inPktHdr inMailHdr buffer))))
        [In 0 (letter p i 0 ?data), Out s (letter i s 0 ?data), Out p (letter i p 1 ?ack), In 1 (letter s i 1 ?ack)]"
    proof (rule follows_letter [OF plain_texts(3) buffer])
      have "length (bytes_of ?data) + 1 = length (literal ?data)" by (simp add: literal_def)
      then show "follows B i (case (pktHdr (letter p i 0 ?data), mailHdr (letter p i 0 ?data), ?buffer) of
          (inPktHdr, inMailHdr, buffer) \<Rightarrow> with_string buffer (\<lambda>str.
        SendMail (pkt\<lparr>to_addr := of_nat s\<rparr>) (mh\<lparr>to_box := 0, from_box := 1, mail_length := of_nat (length str + 1)\<rparr>) buffer
          (acknowledge (pkt\<lparr>to_addr := of_nat s\<rparr>) (mh\<lparr>to_box := 0, from_box := 1, mail_length := of_nat (length str + 1)\<rparr>)
            inPktHdr inMailHdr buffer)))
        [Out s (letter i s 0 ?data), Out p (letter i p 1 ?ack), In 1 (letter s i 1 ?ack)]"
        unfolding prod.case with_literal [OF plain_texts(3)]
        by (simp only:) (rule follows_SendMail [OF posted _ last], simp add: unat)
    qed
    then show ?thesis
      unfolding script RingTest_def sint_of_nat [OF n] using False i by (simp add: n1 to_s(1) address Let_def)
  qed
qed

section \<open>Two machines\<close>

interpretation pair: handshake B 2 "\<lambda>i. 1 - i" "\<lambda>i. 1 - i" "\<lambda>_. True"
    "\<lambda>i. letter i (1 - i) 0 ''Hello!''" "\<lambda>i. letter i (1 - i) 1 ''Got it!''" for B
  by unfold_locales (auto simp: less_2_cases_iff box_of_letter)

lemma follows_MailTest:
  assumes "i < 2" and "1 < B" and "length buffer = MaxMailSize"
  shows "follows B i (MailTest pkt mh buffer (of_nat (1 - i))) (pair.script i)"
proof -
  let ?data = "''Hello!''" and ?ack = "''Got it!''"
  have other: "1 - (1 - i) = i" using assms(1) by auto
  have script: "pair.script i = [Out (1 - i) (letter i (1 - i) 0 ?data), In 0 (letter (1 - i) i 0 ?data),
      Out (1 - i) (letter i (1 - i) 1 ?ack), In 1 (letter (1 - i) i 1 ?ack)]"
    by (simp only: pair.script_def other if_True)
  have unat: "unat (of_nat (1 - i) :: c_int) = 1 - i" using assms(1) by (auto simp: less_2_cases_iff)
  let ?mh = "mh\<lparr>to_box := 0, from_box := 1, mail_length := of_nat (length (literal ?data))\<rparr>"
  have posted: "posted B i (pkt\<lparr>to_addr := of_nat (1 - i)\<rparr>) ?mh (literal ?data) = Inr (letter i (1 - i) 0 ?data)"
    by (rule posted_letter [OF plain_texts(1)]) (use assms in simp_all)
  let ?buffer = "literal ?data @ drop (length (literal ?data)) buffer"
  have after: "length ?buffer = MaxMailSize" using assms(3) plain_texts(1) by (simp add: plain_def)
  have last: "follows B i (acknowledge (pkt\<lparr>to_addr := of_nat (1 - i)\<rparr>) ?mh (pktHdr (letter (1 - i) i 0 ?data))
      (mailHdr (letter (1 - i) i 0 ?data)) ?buffer) [Out (1 - i) (letter i (1 - i) 1 ?ack), In 1 (letter (1 - i) i 1 ?ack)]"
    by (rule follows_acknowledge [OF after]) (use assms in \<open>simp_all add: letter_headers\<close>)
  have "follows B i (SendMail (pkt\<lparr>to_addr := of_nat (1 - i)\<rparr>) ?mh (literal ?data) (ReceiveMail 0 buffer
      (\<lambda>(inPktHdr, inMailHdr, buffer). with_string buffer (\<lambda>_. acknowledge (pkt\<lparr>to_addr := of_nat (1 - i)\<rparr>) ?mh inPktHdr inMailHdr buffer))))
      (pair.script i)"
    unfolding script
    by (intro follows_SendMail follows_letter [OF plain_texts(1) assms(3)])
      (use posted last in \<open>simp_all add: unat [simplified] with_literal [OF plain_texts(1)]\<close>)
  then show ?thesis by (simp only: MailTest_def acknowledge_def Let_def)
qed

section \<open>The claims\<close>

text \<open>
  C40. The ring is closed. Let each of \<open>n\<close> machines run \<open>RingTest\<close> with its own address, over a network
  that loses nothing. In whatever order the machines run, mails travel and overtake each other, no
  more than \<open>6 n\<close> steps are possible (four for each machine, and one for each of the \<open>2 n\<close> mails to
  arrive), and something can always happen until all machines have halted. Then each has received two
  letters: the greeting of the machine before it, the text with which machine 0 started, and the
  acknowledgement of the machine after it; no mail is left anywhere.
\<close>

theorem RingTest_completes:
  assumes "1 \<le> n" and "n < 2 ^ 31" and "1 < B" and "\<forall>i < n. length (buffers i) = MaxMailSize"
    and "(net_step B n ^^ k) (net_start (\<lambda>i. RingTest (pkts i) (mhs i) (buffers i) (of_nat i) (of_nat n))) s"
  shows "k \<le> 6 * n \<and> ((\<exists>s'. net_step B n s s') \<or>
    k = 6 * n \<and> in_transit s = {#} \<and>
    (\<forall>i < n. programs s i = HaltMachine \<and> (\<forall>b. in_boxes s i b = []) \<and>
      got s i = [letter ((i + n - 1) mod n) i 0 ''Hello there !'', letter ((i + 1) mod n) i 1 ''Got it!'']))"
proof -
  have follows: "\<forall>i < n. follows B i (RingTest (pkts i) (mhs i) (buffers i) (of_nat i) (of_nat n)) (ring.script n i)"
    using follows_RingTest assms(2-4) by blast
  have "letter ((i + n - 1) mod n) (((i + n - 1) mod n + 1) mod n) 0 d = letter ((i + n - 1) mod n) i 0 d"
    "letter ((i + 1) mod n) (((i + 1) mod n + n - 1) mod n) 1 d = letter ((i + 1) mod n) i 1 d" if "i < n" for i d
    unfolding ring.ring(3,4) [OF that] by simp_all
  then show ?thesis using ring.handshake_completes [OF follows assms(5)] by auto
qed

definition sample_packet :: packet_header where
  "sample_packet = \<lparr>to_addr = 7, from_addr = 7, hdr_length = 7\<rparr>"

definition sample_mail_header :: mail_header where
  "sample_mail_header = \<lparr>to_box = 7, from_box = 7, mail_length = 7\<rparr>"

definition sample_ring :: mail_network where
  "sample_ring = net_start (\<lambda>i. RingTest sample_packet sample_mail_header (replicate 40 9) (of_nat i) (of_nat (3 :: nat)))"

text \<open>Runs that can always be continued before their \<open>m\<close>-th step, and never after it, have exactly \<open>m\<close>.\<close>

lemma run_of_length:
  assumes "\<And>k t. (net_step B n ^^ k) s t \<Longrightarrow> k \<le> m \<and> ((\<exists>t'. net_step B n t t') \<or> k = m \<and> P t)"
  shows "\<exists>t. (net_step B n ^^ m) s t \<and> P t"
proof -
  have "\<exists>t. (net_step B n ^^ j) s t" if "j \<le> m" for j
    using that
  proof (induction j)
    case (Suc j)
    then obtain t where t: "(net_step B n ^^ j) s t" by auto
    then obtain t' where "net_step B n t t'" using assms [OF t] Suc.prems by auto
    then show ?case using t by (auto intro: relpowp_Suc_I)
  qed auto
  then obtain t where t: "(net_step B n ^^ m) s t" by blast
  moreover have "\<not> (\<exists>t'. net_step B n t t')"
  proof
    assume "\<exists>t'. net_step B n t t'"
    then have "\<exists>t'. (net_step B n ^^ Suc m) s t'" using t by (auto intro: relpowp_Suc_I)
    then show False using assms by fastforce
  qed
  ultimately show ?thesis using assms [OF t] by blast
qed

lemma RingTest_completes_witness:
  "\<exists>s. (net_step 2 3 ^^ 18) sample_ring s \<and> (\<forall>i < 3. programs s i = HaltMachine \<and>
     got s i = [letter ((i + 2) mod 3) i 0 ''Hello there !'', letter ((i + 1) mod 3) i 1 ''Got it!''])"
proof (rule run_of_length)
  fix k s
  assume run: "(net_step 2 3 ^^ k) sample_ring s"
  have "\<forall>i < 3. length (replicate 40 (9 :: byte)) = MaxMailSize" by (simp add: mail_sizes)
  from RingTest_completes [OF _ _ _ this run [unfolded sample_ring_def]]
  show "k \<le> 18 \<and> ((\<exists>s'. net_step 2 3 s s') \<or> k = 18 \<and> (\<forall>i < 3. programs s i = HaltMachine \<and>
     got s i = [letter ((i + 2) mod 3) i 0 ''Hello there !'', letter ((i + 1) mod 3) i 1 ''Got it!'']))"
    by auto
qed

text \<open>
  Two machines that run \<open>MailTest\<close> with the address of each other halt after twelve steps
  in any order, and each has received the other's message and the acknowledgement of its own.
\<close>

lemma MailTest_completes:
  assumes "1 < B" and "\<forall>i < 2. length (buffers i) = MaxMailSize"
    and "(net_step B 2 ^^ k) (net_start (\<lambda>i. MailTest (pkts i) (mhs i) (buffers i) (of_nat (1 - i)))) s"
  shows "k \<le> 12 \<and> ((\<exists>s'. net_step B 2 s s') \<or>
    k = 12 \<and> in_transit s = {#} \<and>
    (\<forall>i < 2. programs s i = HaltMachine \<and> (\<forall>b. in_boxes s i b = []) \<and>
      got s i = [letter (1 - i) i 0 ''Hello!'', letter (1 - i) i 1 ''Got it!'']))"
proof -
  have follows: "\<forall>i < 2. follows B i (MailTest (pkts i) (mhs i) (buffers i) (of_nat (1 - i))) (pair.script i)"
    using follows_MailTest assms(1,2) by blast
  have "1 - (1 - i) = i" if "i < 2" for i :: nat using that by auto
  then show ?thesis using pair.handshake_completes [OF follows assms(3)] by auto
qed

end
