(* ===== verification/Channel_Programs.thy ===== *)
theory Channel_Programs
  imports Mail_Programs Tcp_Line
begin

text \<open>
  The acknowledged channel between machines. What \<^verbatim>\<open>network/tcp.cc\<close> does on one machine is a
  \<open>channel_program\<close>: what it sends, where it sleeps and which boxes it polls. Run on one machine such a
  program is the operation of \<open>Tcp_Channel\<close> and \<open>Tcp_Service\<close> it is named after; several machines,
  each with its program, make the step relation \<open>channel_step\<close>.
\<close>

section \<open>The programs\<close>

text \<open>
  \<open>Sleep\<close> is one alarm and the sleep until it, and goes on with whether the connection is being
  stopped; \<open>Poll\<close> names the box and the buffer; \<open>IfStopping\<close> and \<open>ForgetStop\<close> read and clear the flag.
\<close>

datatype 'r channel_program =
    Post message "'r channel_program"
  | Sleep IntType "bool \<Rightarrow> 'r channel_program"
  | Poll nat "byte list" "(packet_header \<times> mail_header \<times> byte list) option \<Rightarrow> 'r channel_program"
  | IfStopping "bool \<Rightarrow> 'r channel_program"
  | ForgetStop "'r channel_program"
  | Gives 'r
  | Fails failure

primrec bind_channel :: "'r channel_program \<Rightarrow> ('r \<Rightarrow> 't channel_program) \<Rightarrow> 't channel_program" where
  "bind_channel (Post m p) f = Post m (bind_channel p f)"
| "bind_channel (Sleep ty k) f = Sleep ty (\<lambda>stopped. bind_channel (k stopped) f)"
| "bind_channel (Poll b data k) f = Poll b data (\<lambda>r. bind_channel (k r) f)"
| "bind_channel (IfStopping k) f = IfStopping (\<lambda>stopping. bind_channel (k stopping) f)"
| "bind_channel (ForgetStop p) f = ForgetStop (bind_channel p f)"
| "bind_channel (Gives r) f = f r"
| "bind_channel (Fails e) f = Fails e"

fun try_res :: "'a res \<Rightarrow> ('a \<Rightarrow> 'r channel_program) \<Rightarrow> 'r channel_program" where
  "try_res (Inl e) k = Fails e"
| "try_res (Inr x) k = k x"

function catch_program :: "nat \<Rightarrow> int \<Rightarrow> nat \<Rightarrow> int \<Rightarrow> byte list \<Rightarrow> int channel_program" where
  "catch_program boxeID expected attempts nbCatch dull =
    (if attempts < MAXCATCH \<and> nbCatch < expected
     then Sleep NetworkRecvInt (\<lambda>stopped.
          if stopped then Gives (- 2)
          else Poll boxeID dull (\<lambda>r.
               case r of
                 None \<Rightarrow> catch_program boxeID expected (Suc attempts) nbCatch dull
               | Some m \<Rightarrow>
                   (if nbCatch + 1 = expected then Gives (nbCatch + 1)
                    else catch_program boxeID expected 0 (nbCatch + 1) (snd (snd m)))))
     else Gives nbCatch)"
  by pat_completeness auto

termination
  by (relation "measures [\<lambda>(_, e, _, n, _). nat (e - n), \<lambda>(_, _, a, _, _). MAXCATCH - a]") auto

declare catch_program.simps [simp del]

primrec answer_program ::
  "host \<Rightarrow> nat \<Rightarrow> message \<Rightarrow> nat \<Rightarrow> nat \<Rightarrow> int \<Rightarrow> byte list \<Rightarrow> int channel_program" where
  "answer_program h boxeID out 0 attempts nbCatch dull = Fails NoReturn"
| "answer_program h boxeID out (Suc fuel) attempts nbCatch dull =
    (if attempts < MAXCATCH
     then Sleep NetworkRecvInt (\<lambda>stopped.
          if stopped then Gives (- 2)
          else Poll boxeID dull (\<lambda>r.
               case r of
                 None \<Rightarrow> answer_program h boxeID out fuel (Suc attempts) nbCatch dull
               | Some m \<Rightarrow>
                   try_res (token_follows h (snd (snd m)) (msg_data out)) (\<lambda>ok.
                   if \<not> ok then Gives nbCatch
                   else Post out (answer_program h boxeID out fuel 0 (nbCatch + 1) (snd (snd m))))))
     else Gives nbCatch)"

definition filled :: "message \<Rightarrow> packet_header \<times> mail_header \<times> byte list \<Rightarrow> message" where
  "filled m x = m\<lparr>msg_pkt := fst x, msg_mail := fst (snd x), msg_data := snd (snd x)\<rparr>"

primrec send_program :: "message option \<Rightarrow> message \<Rightarrow> nat \<Rightarrow> int \<Rightarrow> (int \<times> message) option channel_program" where
  "send_program out inm 0 attempts = Gives (Some (attempts, inm))"
| "send_program out inm (Suc n) attempts =
    (case out of None \<Rightarrow> \<lambda>p. p | Some m \<Rightarrow> Post m)
    (Sleep NetworkSendInt (\<lambda>stopped.
     if stopped then Gives None
     else Poll (pkt_box (msg_type inm)) (msg_data inm) (\<lambda>r.
          case r of
            None \<Rightarrow> send_program out inm n (attempts + 1)
          | Some x \<Rightarrow> Gives (Some (attempts, filled inm x)))))"

text \<open>What remains of \<open>SendWait\<close> after its loop; \<open>dull\<close> is the array of \<open>CatchMail\<close>.\<close>

definition after_send ::
  "host \<Rightarrow> byte list \<Rightarrow> message option \<Rightarrow> message \<Rightarrow> int \<Rightarrow> (int \<times> message) option \<Rightarrow> (bool \<times> message) channel_program" where
  "after_send h dull out inm limit r =
    (case r of
       None \<Rightarrow> Gives (False, inm)
     | Some (attempts, inm) \<Rightarrow>
         (case out of
            None \<Rightarrow> IfStopping (\<lambda>stopping. Gives (attempts \<noteq> limit \<and> \<not> stopping, inm))
          | Some m \<Rightarrow>
              bind_channel (catch_program (pkt_box (msg_type inm)) attempts 0 0 dull) (\<lambda>_.
              IfStopping (\<lambda>stopping.
                if stopping then Gives (False, inm)
                else try_res (token_follows h (msg_data m) (msg_data inm)) (\<lambda>ok. Gives (attempts \<noteq> limit \<and> ok, inm))))))"

definition SendWait_program ::
  "host \<Rightarrow> byte list \<Rightarrow> message option \<Rightarrow> message \<Rightarrow> int \<Rightarrow> (bool \<times> message) channel_program" where
  "SendWait_program h dull out inm limit =
    try_res (assert_that (0 < limit)) (\<lambda>_.
    bind_channel (send_program out inm (nat limit) 0) (after_send h dull out inm limit))"

primrec receive_program :: "nat \<Rightarrow> message \<Rightarrow> message \<Rightarrow> (message \<times> message) option channel_program" where
  "receive_program 0 inm out = Fails NoReturn"
| "receive_program (Suc fuel) inm out =
    Sleep NetworkRecvInt (\<lambda>stopped.
    if stopped then Gives None
    else Poll (pkt_box (msg_type inm)) (msg_data inm) (\<lambda>r.
         case r of
           None \<Rightarrow> receive_program fuel inm out
         | Some x \<Rightarrow>
             try_res (if msg_type out = ACK then answer_token (filled inm x) out else Inr out) (\<lambda>out.
             Post out (Gives (Some (filled inm x, out))))))"

definition ReceiveWait_program ::
  "host \<Rightarrow> byte list \<Rightarrow> nat \<Rightarrow> message \<Rightarrow> message \<Rightarrow> (bool \<times> message) channel_program" where
  "ReceiveWait_program h dull fuel inm out =
    bind_channel (receive_program fuel inm out) (\<lambda>r.
    case r of
      None \<Rightarrow> Gives (False, inm)
    | Some (inm, out) \<Rightarrow>
        bind_channel (answer_program h (pkt_box (msg_type inm)) out fuel 0 0 dull) (\<lambda>n. Gives (n \<noteq> - 2, inm)))"

text \<open>Single messages, between the machines \<open>me\<close> and \<open>peer\<close>; \<open>fresh\<close> is the header of a new message.\<close>

definition SendMessage_program ::
  "host \<Rightarrow> byte list \<Rightarrow> packet_header \<Rightarrow> c_int \<Rightarrow> c_int \<Rightarrow> byte list \<Rightarrow> bool channel_program" where
  "SendMessage_program h dull fresh me peer data =
    (let str = cstring data;
         out = addressed me peer (Message fresh (length str) MSG)\<lparr>msg_data := str\<rparr>
     in bind_channel (SendWait_program h dull (Some out) (Message fresh 2 ACK) MAXREEMISSIONS) (\<lambda>(ok, _).
        if ok then Gives True
        else IfStopping (\<lambda>stopping. if stopping then ForgetStop (Gives False) else Gives False)))"

definition ReceiveMessage_program ::
  "host \<Rightarrow> byte list \<Rightarrow> byte list \<Rightarrow> packet_header \<Rightarrow> nat \<Rightarrow> c_int \<Rightarrow> c_int \<Rightarrow> (bool \<times> byte list) channel_program" where
  "ReceiveMessage_program h dull after fresh fuel me peer =
    bind_channel (ReceiveWait_program h dull fuel (Message fresh MaxMailSize MSG) (addressed me peer (Message fresh 2 ACK)))
      (\<lambda>(ok, inm).
       (if ok then (\<lambda>p. p) else ForgetStop) (try_res (string_in after (msg_data inm)) (\<lambda>str. Gives (ok, str))))"

section \<open>One machine\<close>

primrec run_channel ::
  "('q, 'l, ('q, 'l, 'k) tcp_office_scheme, 'b) tcp_env \<Rightarrow> 'r channel_program \<Rightarrow> ('q, 'l, 'k) tcp_office_scheme \<Rightarrow>
   ('r \<times> ('q, 'l, 'k) tcp_office_scheme) res" where
  "run_channel env (Post m p) s = and_then (send_message env m s) (run_channel env p)"
| "run_channel env (Sleep ty k) s = and_then (wait_round env ty s) (\<lambda>(stopped, s). run_channel env (k stopped) s)"
| "run_channel env (Poll b data k) s =
    and_then (PostOffice_NoBlockReceive env (int b) data s) (\<lambda>(r, s). run_channel env (k r) s)"
| "run_channel env (IfStopping k) s = run_channel env (k (stoppingConnection s)) s"
| "run_channel env (ForgetStop p) s = run_channel env p (s\<lparr>stoppingConnection := False\<rparr>)"
| "run_channel env (Gives r) s = Inr (r, s)"
| "run_channel env (Fails e) s = Inl e"

lemma run_bind_channel:
  "run_channel env (bind_channel p f) s = and_then (run_channel env p s) (\<lambda>(r, s). run_channel env (f r) s)"
proof (induction p arbitrary: s)
  case (Post m p)
  then have "run_channel env (bind_channel p f) = (\<lambda>s. and_then (run_channel env p s) (\<lambda>(r, s). run_channel env (f r) s))" by blast
  then show ?case by (simp add: and_then_assoc)
qed (simp_all add: and_then_assoc case_prod_unfold)

lemma run_try_res: "run_channel env (try_res r k) s = and_then r (\<lambda>x. run_channel env (k x) s)"
  by (cases r) simp_all

lemma run_catch_program:
  "run_channel env (catch_program b e a n dull) s = catch_loop env b e a n dull s"
proof (induction env b e a n dull s rule: catch_loop.induct)
  case (1 env b e a n dull s)
  show ?case
  proof (cases "a < MAXCATCH \<and> n < e")
    case False
    then show ?thesis by (subst catch_program.simps, subst catch_loop.simps) auto
  next
    case True
    note IH = 1 [OF True]
    show ?thesis
      unfolding catch_program.simps [of b e a n dull] catch_loop.simps [of env b e a n dull s] if_P [OF True] run_channel.simps
    proof (rule and_then_cong [OF refl])
      fix w
      assume w: "wait_round env NetworkRecvInt s = Inr w"
      have "and_then (PostOffice_NoBlockReceive env (int b) dull (snd w)) (\<lambda>(r, s). run_channel env (case r of
            None \<Rightarrow> catch_program b e (Suc a) n dull
          | Some m \<Rightarrow> (if n + 1 = e then Gives (n + 1) else catch_program b e 0 (n + 1) (snd (snd m)))) s) =
        and_then (PostOffice_NoBlockReceive env (int b) dull (snd w)) (\<lambda>r. case fst r of
            None \<Rightarrow> catch_loop env b e (Suc a) n dull (snd r)
          | Some m \<Rightarrow> (if n + 1 = e then Inr (n + 1, snd r) else catch_loop env b e 0 (n + 1) (snd (snd m)) (snd r)))"
        if "\<not> fst w"
        using IH [OF w that] by (intro and_then_cong [OF refl]) (auto split: option.split)
      then show "(case w of (stopped, s) \<Rightarrow> run_channel env (if stopped then Gives (- 2) else Poll b dull (\<lambda>r. case r of
            None \<Rightarrow> catch_program b e (Suc a) n dull
          | Some m \<Rightarrow> (if n + 1 = e then Gives (n + 1) else catch_program b e 0 (n + 1) (snd (snd m))))) s) =
        (if fst w then Inr (- 2, snd w) else and_then (PostOffice_NoBlockReceive env (int b) dull (snd w)) (\<lambda>r. case fst r of
            None \<Rightarrow> catch_loop env b e (Suc a) n dull (snd r)
          | Some m \<Rightarrow> (if n + 1 = e then Inr (n + 1, snd r) else catch_loop env b e 0 (n + 1) (snd (snd m)) (snd r))))"
        by (simp add: case_prod_unfold)
    qed
  qed
qed

lemma run_answer_program:
  "run_channel env (answer_program (po_host env) b out fuel a n dull) s = answer_loop env b out fuel a n dull s"
proof (induction fuel arbitrary: a n dull s)
  case (Suc fuel)
  have "run_channel env (answer_program (po_host env) b out fuel a n dull) = answer_loop env b out fuel a n dull" for a n dull
    using Suc by (simp add: fun_eq_iff)
  then show ?case by (auto simp: run_try_res case_prod_unfold intro!: and_then_cong split: option.split)
qed simp

lemma run_send_program: "run_channel env (send_program out inm n a) s = send_loop env out inm n a s"
proof (induction n arbitrary: a s)
  case (Suc n)
  define p where "p = Sleep NetworkSendInt (\<lambda>stopped. if stopped then Gives None
     else Poll (pkt_box (msg_type inm)) (msg_data inm) (\<lambda>r. case r of None \<Rightarrow> send_program out inm n (a + 1)
          | Some x \<Rightarrow> Gives (Some (a, filled inm x))))"
  have "run_channel env p s =
    and_then (wait_round env NetworkSendInt s) (\<lambda>(stopped, s).
    if stopped then Inr (None, s)
    else and_then (poll_message env inm s) (\<lambda>(got, inm, s).
         if got then Inr (Some (a, inm), s) else send_loop env out inm n (a + 1) s))" for s
    using Suc unfolding p_def
    by (auto simp: poll_message_def filled_def case_prod_unfold and_then_assoc intro!: and_then_cong split: option.split)
  then show ?case
    unfolding send_program.simps send_loop.simps p_def [symmetric] by (cases out) (auto intro!: and_then_cong)
qed simp

text \<open>So \<open>SendWait\<close> is its program, and so are the operations that use it.\<close>

lemma run_SendWait_program:
  "SendWait env out inm limit s =
    and_then (run_channel env (SendWait_program (po_host env) (fresh_mail env) out inm limit) s) (\<lambda>((ok, inm), s). Inr (ok, inm, s))"
proof -
  have "and_then (run_channel env (after_send (po_host env) (fresh_mail env) out inm limit r) s) (\<lambda>((ok, inm), s). Inr (ok, inm, s)) =
    (case r of
      None \<Rightarrow> Inr (False, inm, s)
    | Some (attempts, inm) \<Rightarrow>
        (case out of
           None \<Rightarrow> Inr (attempts \<noteq> limit \<and> \<not> stoppingConnection s, inm, s)
         | Some m \<Rightarrow>
             and_then (CatchMail env (pkt_box (msg_type inm)) attempts s) (\<lambda>(_, s).
             if stoppingConnection s then Inr (False, inm, s)
             else and_then (token_follows (po_host env) (msg_data m) (msg_data inm)) (\<lambda>ok.
                  Inr (attempts \<noteq> limit \<and> ok, inm, s)))))" for r s
    by (cases r; cases out)
      (auto simp: after_send_def run_bind_channel run_catch_program run_try_res CatchMail_def case_prod_unfold and_then_assoc
        intro!: and_then_cong)
  then show ?thesis
    by (simp add: SendWait_program_def SendWait_def run_try_res run_bind_channel run_send_program and_then_assoc case_prod_unfold)
qed

lemma run_receive_program: "run_channel env (receive_program fuel inm out) s = receive_loop env fuel inm out s"
proof (induction fuel arbitrary: s)
  case (Suc fuel)
  then show ?case
    by (auto simp: run_try_res poll_message_def filled_def case_prod_unfold and_then_assoc
        intro!: and_then_cong split: option.split)
qed simp

lemma run_ReceiveWait_program:
  "ReceiveWait env fuel inm out s =
    and_then (run_channel env (ReceiveWait_program (po_host env) (fresh_mail env) fuel inm out) s) (\<lambda>((ok, inm), s). Inr (ok, inm, s))"
  by (auto simp: ReceiveWait_program_def ReceiveWait_def run_bind_channel run_receive_program run_answer_program
      CatchWithAnswer_def case_prod_unfold and_then_assoc intro!: and_then_cong split: option.split)

lemma run_SendMessage_program:
  assumes "connectedID s \<noteq> - 1"
  shows "run_channel env (SendMessage_program (po_host env) (fresh_mail env) (new_packet env) (tcp_id s) (connectedID s) data) s =
    TCP_SendMessage env data s"
  using assms
  by (auto simp: SendMessage_program_def TCP_SendMessage_def Let_def run_bind_channel run_SendWait_program SetMessageToFrom_def
      and_then_assoc case_prod_unfold intro!: and_then_cong)

lemma run_ReceiveMessage_program:
  assumes "connectedID s \<noteq> - 1"
  shows "and_then (run_channel env (ReceiveMessage_program (po_host env) (fresh_mail env) (beyond env) (new_packet env) fuel
      (tcp_id s) (connectedID s)) s) (\<lambda>((ok, str), s). Inr (ok, str, s)) = TCP_ReceiveMessage env fuel s"
  using assms
  by (auto simp: ReceiveMessage_program_def TCP_ReceiveMessage_def Let_def run_bind_channel run_ReceiveWait_program
      SetMessageToFrom_def run_try_res and_then_assoc case_prod_unfold intro!: and_then_cong)

section \<open>Several machines\<close>

text \<open>
  As in \<open>net_step\<close>, with polling in place of waiting for a mail. A network that is \<open>lossy\<close> may drop
  mail in transit. Another thread of a machine may announce the end of its connection at any time.
\<close>

record 'r channel_network =
  chan_programs :: "nat \<Rightarrow> 'r channel_program"
  chan_boxes :: "nat \<Rightarrow> nat \<Rightarrow> mail list"
  chan_transit :: "(nat \<times> mail) multiset"
  chan_stopping :: "nat \<Rightarrow> bool"
  chan_got :: "nat \<Rightarrow> mail list"

definition continues :: "nat \<Rightarrow> 'r channel_program \<Rightarrow> 'r channel_network \<Rightarrow> 'r channel_network" where
  "continues i p s = s\<lparr>chan_programs := (chan_programs s)(i := p)\<rparr>"

inductive channel_step :: "bool \<Rightarrow> nat \<Rightarrow> nat \<Rightarrow> 'r channel_network \<Rightarrow> 'r channel_network \<Rightarrow> bool" for lossy B N where
  posts: "i < N \<Longrightarrow> chan_programs s i = Post m p \<Longrightarrow> posted B i (msg_pkt m) (msg_mail m) (msg_data m) = Inr l \<Longrightarrow>
    channel_step lossy B N s ((continues i p s)\<lparr>chan_transit := add_mset (unat (to_addr (msg_pkt m)), l) (chan_transit s)\<rparr>)"
| bad_post: "i < N \<Longrightarrow> chan_programs s i = Post m p \<Longrightarrow> posted B i (msg_pkt m) (msg_mail m) (msg_data m) = Inl e \<Longrightarrow>
    channel_step lossy B N s (continues i (Fails e) s)"
| loses: "lossy \<Longrightarrow> chan_transit s = add_mset x rest \<Longrightarrow> channel_step lossy B N s (s\<lparr>chan_transit := rest\<rparr>)"
| arrives: "chan_transit s = add_mset (d, l) rest \<Longrightarrow> b = unat (to_box (mailHdr l)) \<Longrightarrow>
    channel_step lossy B N s
      (s\<lparr>chan_transit := rest, chan_boxes := (chan_boxes s)(d := (chan_boxes s d)(b := chan_boxes s d b @ [l]))\<rparr>)"
| sleeps: "i < N \<Longrightarrow> chan_programs s i = Sleep ty k \<Longrightarrow> channel_step lossy B N s (continues i (k (chan_stopping s i)) s)"
| finds_none: "i < N \<Longrightarrow> chan_programs s i = Poll b data k \<Longrightarrow> chan_boxes s i b = [] \<Longrightarrow>
    channel_step lossy B N s (continues i (k None) s)"
| finds: "i < N \<Longrightarrow> chan_programs s i = Poll b data k \<Longrightarrow> chan_boxes s i b = l # ls \<Longrightarrow> copy_mail l data = Inr data' \<Longrightarrow>
    channel_step lossy B N s ((continues i (k (Some (pktHdr l, mailHdr l, data'))) s)
      \<lparr>chan_boxes := (chan_boxes s)(i := (chan_boxes s i)(b := ls)), chan_got := (chan_got s)(i := chan_got s i @ [l])\<rparr>)"
| bad_find: "i < N \<Longrightarrow> chan_programs s i = Poll b data k \<Longrightarrow> chan_boxes s i b = l # ls \<Longrightarrow> copy_mail l data = Inl e \<Longrightarrow>
    channel_step lossy B N s (continues i (Fails e) s)"
| asks: "i < N \<Longrightarrow> chan_programs s i = IfStopping k \<Longrightarrow> channel_step lossy B N s (continues i (k (chan_stopping s i)) s)"
| forgets: "i < N \<Longrightarrow> chan_programs s i = ForgetStop p \<Longrightarrow>
    channel_step lossy B N s ((continues i p s)\<lparr>chan_stopping := (chan_stopping s)(i := False)\<rparr>)"
| stops: "channel_step lossy B N s (s\<lparr>chan_stopping := (chan_stopping s)(i := True)\<rparr>)"

definition channel_start :: "(nat \<Rightarrow> 'r channel_program) \<Rightarrow> 'r channel_network" where
  "channel_start ps =
    \<lparr>chan_programs = ps, chan_boxes = (\<lambda>_ _. []), chan_transit = {#}, chan_stopping = (\<lambda>_. False), chan_got = (\<lambda>_. [])\<rparr>"

lemma continues_simps [simp]:
  "chan_programs (continues i p s) = (chan_programs s)(i := p)" "chan_boxes (continues i p s) = chan_boxes s"
  "chan_transit (continues i p s) = chan_transit s" "chan_stopping (continues i p s) = chan_stopping s"
  "chan_got (continues i p s) = chan_got s"
  by (simp_all add: continues_def)

end
