(* ===== verification/Channel_Exchange.thy ===== *)
theory Channel_Exchange
  imports Channel_Programs
begin

text \<open>
  One exchange over the acknowledged channel: what an acknowledgement proves to the sender and
  success to the receiver, whatever the network loses or delays.
\<close>

section \<open>What a program can do\<close>

text \<open>Every message it sends satisfies \<open>P\<close>, it polls the box \<open>b\<close> only, and its result satisfies \<open>R\<close>.\<close>

primrec keeps_to :: "(message \<Rightarrow> bool) \<Rightarrow> nat \<Rightarrow> ('r \<Rightarrow> bool) \<Rightarrow> 'r channel_program \<Rightarrow> bool" where
  "keeps_to P b R (Post m p) \<longleftrightarrow> P m \<and> keeps_to P b R p"
| "keeps_to P b R (Sleep ty k) \<longleftrightarrow> (\<forall>stopped. keeps_to P b R (k stopped))"
| "keeps_to P b R (Poll c data k) \<longleftrightarrow> c = b \<and> (\<forall>r. keeps_to P b R (k r))"
| "keeps_to P b R (IfStopping k) \<longleftrightarrow> (\<forall>stopping. keeps_to P b R (k stopping))"
| "keeps_to P b R (ForgetStop p) \<longleftrightarrow> keeps_to P b R p"
| "keeps_to P b R (Gives r) \<longleftrightarrow> R r"
| "keeps_to P b R (Fails e) \<longleftrightarrow> True"

text \<open>The same until a poll finds a mail, with a buffer that satisfies \<open>D\<close>; it then goes on as \<open>Q\<close> says.\<close>

primrec until_found ::
  "(message \<Rightarrow> bool) \<Rightarrow> nat \<Rightarrow> (byte list \<Rightarrow> bool) \<Rightarrow> ('r \<Rightarrow> bool) \<Rightarrow>
   (packet_header \<times> mail_header \<times> byte list \<Rightarrow> 'r channel_program \<Rightarrow> bool) \<Rightarrow> 'r channel_program \<Rightarrow> bool" where
  "until_found P b D R Q (Post m p) \<longleftrightarrow> P m \<and> until_found P b D R Q p"
| "until_found P b D R Q (Sleep ty k) \<longleftrightarrow> (\<forall>stopped. until_found P b D R Q (k stopped))"
| "until_found P b D R Q (Poll c data k) \<longleftrightarrow>
    c = b \<and> D data \<and> until_found P b D R Q (k None) \<and> (\<forall>x. Q x (k (Some x)))"
| "until_found P b D R Q (IfStopping k) \<longleftrightarrow> (\<forall>stopping. until_found P b D R Q (k stopping))"
| "until_found P b D R Q (ForgetStop p) \<longleftrightarrow> until_found P b D R Q p"
| "until_found P b D R Q (Gives r) \<longleftrightarrow> R r"
| "until_found P b D R Q (Fails e) \<longleftrightarrow> True"

lemma keeps_to_bind:
  "keeps_to P b R' p \<Longrightarrow> (\<And>r. R' r \<Longrightarrow> keeps_to P b R (f r)) \<Longrightarrow> keeps_to P b R (bind_channel p f)"
  by (induction p) auto

lemma until_found_bind:
  "until_found P b D R' Q' p \<Longrightarrow> (\<And>r. R' r \<Longrightarrow> until_found P b D R Q (f r)) \<Longrightarrow>
    (\<And>x q. Q' x q \<Longrightarrow> Q x (bind_channel q f)) \<Longrightarrow> until_found P b D R Q (bind_channel p f)"
  by (induction p) auto

lemma keeps_to_mono: "keeps_to P b R p \<Longrightarrow> (\<And>r. R r \<Longrightarrow> R' r) \<Longrightarrow> keeps_to P b R' p"
  by (induction p) auto

lemma keeps_to_until_found:
  "keeps_to P b R p \<Longrightarrow> (\<And>data. D data) \<Longrightarrow> (\<And>x q. keeps_to P b R q \<Longrightarrow> Q x q) \<Longrightarrow> until_found P b D R Q p"
  by (induction p) auto

lemma keeps_to_try_res: "(\<And>x. r = Inr x \<Longrightarrow> keeps_to P b R (k x)) \<Longrightarrow> keeps_to P b R (try_res r k)"
  by (cases r) auto

section \<open>The sender\<close>

lemma catch_keeps: "keeps_to P b (\<lambda>_. True) (catch_program b e a n dull)"
proof (induction b e a n dull rule: catch_program.induct)
  case (1 b e a n dull)
  then show ?case by (subst catch_program.simps) (auto split: option.split)
qed

text \<open>An attempt that finds no answer is counted, so that the loop which runs out of attempts says so.\<close>

definition no_answer :: "int \<Rightarrow> (int \<times> message) option \<Rightarrow> bool" where
  "no_answer limit r \<longleftrightarrow> (\<forall>a i. r = Some (a, i) \<longrightarrow> a = limit \<and> msg_type i = ACK)"

definition some_answer :: "(int \<times> message) option channel_program \<Rightarrow> bool" where
  "some_answer q \<longleftrightarrow> (\<exists>a i. q = Gives (Some (a, i)) \<and> msg_type i = ACK)"

lemma send_program_until:
  "msg_type inm = ACK \<Longrightarrow> a + int n = limit \<Longrightarrow>
    until_found (\<lambda>m'. m' = m) 5 (\<lambda>_. True) (no_answer limit) (\<lambda>_. some_answer) (send_program (Some m) inm n a)"
  by (induction n arbitrary: a) (auto simp: no_answer_def some_answer_def filled_def)

lemma after_send_keeps:
  assumes "\<And>a i. r = Some (a, i) \<Longrightarrow> msg_type i = ACK \<and> (\<not> good \<longrightarrow> a = limit)"
  shows "keeps_to P 5 (\<lambda>(ok, _). ok \<longrightarrow> good) (after_send h dull (Some m) inm limit r)"
proof (cases r)
  case None
  then show ?thesis by (simp add: after_send_def)
next
  case (Some p)
  obtain a i where p: "p = (a, i)" by fastforce
  then have "msg_type i = ACK" "\<not> good \<longrightarrow> a = limit" using assms Some by blast+
  moreover from this have "keeps_to P 5 (\<lambda>(ok, _). ok \<longrightarrow> good)
      (try_res (token_follows h (msg_data m) (msg_data i)) (\<lambda>ok. Gives (a \<noteq> limit \<and> ok, i)))"
    by (intro keeps_to_try_res) auto
  ultimately show ?thesis
    unfolding after_send_def Some p by (auto intro!: keeps_to_bind [OF catch_keeps] split: if_splits)
qed

lemma SendWait_until:
  assumes "msg_type inm = ACK"
  shows "until_found (\<lambda>m'. m' = m) 5 (\<lambda>_. True) (\<lambda>(ok, _). \<not> ok) (\<lambda>_. keeps_to (\<lambda>m'. m' = m) 5 (\<lambda>_. True))
    (SendWait_program h dull (Some m) inm limit)"
proof (cases "0 < limit")
  case True
  have "until_found (\<lambda>m'. m' = m) 5 (\<lambda>_. True) (\<lambda>(ok, _). \<not> ok) (\<lambda>_. keeps_to (\<lambda>m'. m' = m) 5 (\<lambda>_. True))
    (bind_channel (send_program (Some m) inm (nat limit) 0) (after_send h dull (Some m) inm limit))"
  proof (rule until_found_bind [OF send_program_until [OF assms, of 0 "nat limit" limit]])
    show "until_found (\<lambda>m'. m' = m) 5 (\<lambda>_. True) (\<lambda>(ok, _). \<not> ok) (\<lambda>_. keeps_to (\<lambda>m'. m' = m) 5 (\<lambda>_. True))
        (after_send h dull (Some m) inm limit r)" if "no_answer limit r" for r
    proof (rule keeps_to_until_found)
      show "keeps_to (\<lambda>m'. m' = m) 5 (\<lambda>(ok, _). \<not> ok) (after_send h dull (Some m) inm limit r)"
        using after_send_keeps [of r False limit "\<lambda>m'. m' = m"] that by (auto simp: no_answer_def)
    qed (auto elim: keeps_to_mono)
    show "keeps_to (\<lambda>m'. m' = m) 5 (\<lambda>_. True) (bind_channel q (after_send h dull (Some m) inm limit))" if "some_answer q" for q
    proof -
      obtain a i where "q = Gives (Some (a, i))" "msg_type i = ACK" using \<open>some_answer q\<close> by (auto simp: some_answer_def)
      moreover from this have "keeps_to (\<lambda>m'. m' = m) 5 (\<lambda>(ok, _). ok \<longrightarrow> True) (after_send h dull (Some m) inm limit (Some (a, i)))"
        by (intro after_send_keeps) simp
      then have "keeps_to (\<lambda>m'. m' = m) 5 (\<lambda>_. True) (after_send h dull (Some m) inm limit (Some (a, i)))"
        by (rule keeps_to_mono) simp
      ultimately show ?thesis by simp
    qed
  qed (use True in simp)
  then show ?thesis using True by (simp add: SendWait_program_def)
qed (simp add: SendWait_program_def)

section \<open>The receiver\<close>

definition is_answer :: "message \<Rightarrow> bool" where
  "is_answer a \<longleftrightarrow> unat (to_box (msg_mail a)) = 5"

lemma answer_keeps: "is_answer out \<Longrightarrow> keeps_to is_answer b (\<lambda>_. True) (answer_program h b out fuel a n dull)"
proof (induction fuel arbitrary: a n dull)
  case (Suc fuel)
  then show ?case by (auto intro!: keeps_to_try_res split: option.split)
qed simp

definition answered ::
  "message \<Rightarrow> packet_header \<times> mail_header \<times> byte list \<Rightarrow> (message \<times> message) option channel_program \<Rightarrow> bool" where
  "answered inm x q \<longleftrightarrow> keeps_to is_answer (pkt_box (msg_type inm))
     (\<lambda>r. \<exists>out. r = Some (filled inm x, out) \<and> is_answer out) q"

lemma receive_program_until:
  assumes "is_answer out"
  shows "until_found (\<lambda>_. False) (pkt_box (msg_type inm)) (\<lambda>data. data = msg_data inm) (\<lambda>r. r = None) (answered inm)
    (receive_program fuel inm out)"
proof (induction fuel)
  case (Suc fuel)
  have "is_answer out'" if "(if msg_type out = ACK then answer_token (filled inm x) out else Inr out) = Inr out'" for x out'
    using that assms by (auto simp: answer_token_def is_answer_def run_simps split: if_splits)
  then show ?case
    using Suc by (auto simp: answered_def intro!: keeps_to_try_res)
qed simp

lemma ReceiveWait_until:
  assumes "is_answer out"
  shows "until_found (\<lambda>_. False) (pkt_box (msg_type inm)) (\<lambda>data. data = msg_data inm) (\<lambda>(ok, _). \<not> ok)
    (\<lambda>x. keeps_to is_answer (pkt_box (msg_type inm)) (\<lambda>(ok, i). ok \<longrightarrow> msg_data i = snd (snd x)))
    (ReceiveWait_program h dull fuel inm out)"
  unfolding ReceiveWait_program_def
proof (rule until_found_bind [OF receive_program_until [OF assms]])
  show "keeps_to is_answer (pkt_box (msg_type inm)) (\<lambda>(ok, i). ok \<longrightarrow> msg_data i = snd (snd x))
      (bind_channel q (\<lambda>r. case r of None \<Rightarrow> Gives (False, inm) | Some (inm, out) \<Rightarrow>
        bind_channel (answer_program h (pkt_box (msg_type inm)) out fuel 0 0 dull) (\<lambda>n. Gives (n \<noteq> - 2, inm))))"
    if "answered inm x q" for x q
    using that [unfolded answered_def]
    by (rule keeps_to_bind)
      (auto simp: filled_def intro!: keeps_to_bind [OF answer_keeps])
qed auto

section \<open>The exchange\<close>

text \<open>
  Machine 0 sends \<open>l\<close> to box \<open>b\<close> of machine 1. Before machine 1 has taken a mail out of the box nothing but
  \<open>l\<close> is under way, nothing has come back, and neither program can end well.
\<close>

definition sender_ok :: "message \<Rightarrow> bool \<Rightarrow> (bool \<times> message) channel_program \<Rightarrow> bool" where
  "sender_ok m taken p \<longleftrightarrow>
     until_found (\<lambda>m'. m' = m) 5 (\<lambda>_. True) (\<lambda>(ok, _). \<not> ok) (\<lambda>_. keeps_to (\<lambda>m'. m' = m) 5 (\<lambda>_. True)) p \<or>
     taken \<and> keeps_to (\<lambda>m'. m' = m) 5 (\<lambda>_. True) p"

definition receiver_ok :: "nat \<Rightarrow> mail \<Rightarrow> byte list \<Rightarrow> bool \<Rightarrow> (bool \<times> message) channel_program \<Rightarrow> bool" where
  "receiver_ok b l buffer taken p \<longleftrightarrow>
     (if taken then keeps_to is_answer b (\<lambda>(ok, i). ok \<longrightarrow> copy_mail l buffer = Inr (msg_data i)) p
      else until_found (\<lambda>_. False) b (\<lambda>data. data = buffer) (\<lambda>(ok, _). \<not> ok)
        (\<lambda>x. keeps_to is_answer b (\<lambda>(ok, i). ok \<longrightarrow> msg_data i = snd (snd x))) p)"

definition exchange_inv ::
  "nat \<Rightarrow> message \<Rightarrow> mail \<Rightarrow> byte list \<Rightarrow> (bool \<times> message) channel_network \<Rightarrow> bool" where
  "exchange_inv b m l buffer s \<longleftrightarrow>
     (\<forall>(d, x) \<in># chan_transit s. d = 1 \<and> x = l \<or> unat (to_box (mailHdr x)) = 5 \<and> chan_got s 1 \<noteq> []) \<and>
     (\<forall>x \<in> set (chan_boxes s 1 b). x = l) \<and> (\<forall>x \<in> set (chan_got s 1). x = l) \<and>
     (chan_got s 1 = [] \<longrightarrow> (\<forall>c. chan_boxes s 0 c = [])) \<and>
     sender_ok m (chan_got s 1 \<noteq> []) (chan_programs s 0) \<and> receiver_ok b l buffer (chan_got s 1 \<noteq> []) (chan_programs s 1)"

lemma sender_goes_on:
  "sender_ok m taken (Post m' p) \<Longrightarrow> m' = m \<and> sender_ok m taken p"
  "sender_ok m taken (Sleep ty k) \<Longrightarrow> sender_ok m taken (k stopped)"
  "sender_ok m taken (Poll c data g) \<Longrightarrow> sender_ok m taken (g None)"
  "sender_ok m taken (Poll c data g) \<Longrightarrow> taken \<Longrightarrow> sender_ok m taken (g (Some x))"
  "sender_ok m taken (IfStopping k) \<Longrightarrow> sender_ok m taken (k stopping)"
  "sender_ok m taken (ForgetStop p) \<Longrightarrow> sender_ok m taken p"
  "sender_ok m taken p \<Longrightarrow> sender_ok m True p"
  by (auto simp: sender_ok_def simp del: split_paired_All)

lemma receiver_goes_on:
  "receiver_ok b l buffer taken (Post m' p) \<Longrightarrow> taken \<and> is_answer m' \<and> receiver_ok b l buffer taken p"
  "receiver_ok b l buffer taken (Sleep ty k) \<Longrightarrow> receiver_ok b l buffer taken (k stopped)"
  "receiver_ok b l buffer taken (Poll c data g) \<Longrightarrow> c = b \<and> receiver_ok b l buffer taken (g None)"
  "receiver_ok b l buffer taken (IfStopping k) \<Longrightarrow> receiver_ok b l buffer taken (k stopping)"
  "receiver_ok b l buffer taken (ForgetStop p) \<Longrightarrow> receiver_ok b l buffer taken p"
  by (auto simp: receiver_ok_def split: if_splits)

lemma failed_ok: "sender_ok m taken (Fails e)" "receiver_ok b l buffer taken (Fails e)"
  by (simp_all add: sender_ok_def receiver_ok_def)

lemma receiver_finds:
  assumes "receiver_ok b l buffer taken (Poll c data k)" and "copy_mail l data = Inr data'"
  shows "receiver_ok b l buffer True (k (Some (pkt, mh, data')))"
proof (cases taken)
  case True
  then show ?thesis using assms by (simp add: receiver_ok_def)
next
  case False
  then have "data = buffer" "keeps_to is_answer b (\<lambda>(ok, i). ok \<longrightarrow> msg_data i = data') (k (Some (pkt, mh, data')))"
    using assms(1) by (auto simp: receiver_ok_def)
  then show ?thesis using assms(2) by (auto simp: receiver_ok_def elim!: keeps_to_mono)
qed

lemma exchange_continues:
  assumes "exchange_inv b m l buffer s" and "i < 2"
    and "i = 0 \<Longrightarrow> sender_ok m (chan_got s 1 \<noteq> []) (chan_programs s 0) \<Longrightarrow> sender_ok m (chan_got s 1 \<noteq> []) p"
    and "i = 1 \<Longrightarrow> receiver_ok b l buffer (chan_got s 1 \<noteq> []) (chan_programs s 1) \<Longrightarrow>
      receiver_ok b l buffer (chan_got s 1 \<noteq> []) p"
  shows "exchange_inv b m l buffer (continues i p s)"
proof -
  have "i = 0 \<or> i = 1" using assms(2) by auto
  then show ?thesis using assms(1,3,4) by (auto simp: exchange_inv_def)
qed

lemma exchange_fields [simp]:
  "exchange_inv b m l buffer (s\<lparr>chan_stopping := f\<rparr>) = exchange_inv b m l buffer s"
  by (simp add: exchange_inv_def)

lemma posted_header: "posted B i pkt mh data = Inr l \<Longrightarrow> mailHdr l = mh"
  by (auto simp: posted_def run_simps split: if_splits)

lemma exchange_step:
  assumes m: "posted B 0 (msg_pkt m) (msg_mail m) (msg_data m) = Inr l" "to_addr (msg_pkt m) = 1"
    and b: "b \<noteq> 5" "unat (to_box (msg_mail m)) = b"
    and inv: "exchange_inv b m l buffer s" and step: "channel_step lossy B 2 s t"
  shows "exchange_inv b m l buffer t"
  using step
proof cases
  case (posts i m' p x)
  let ?s = "continues i p s"
  have s: "exchange_inv b m l buffer ?s"
    using inv posts(2) by (rule exchange_continues) (use posts(3) in \<open>auto dest: sender_goes_on receiver_goes_on\<close>)
  have "unat (to_addr (msg_pkt m')) = 1 \<and> x = l \<or> unat (to_box (mailHdr x)) = 5 \<and> chan_got s 1 \<noteq> []"
  proof (cases "i = 0")
    case True
    then have "m' = m" using inv posts(3) by (auto simp: exchange_inv_def dest: sender_goes_on)
    then show ?thesis using posts(4) m True by simp
  next
    case False
    then have "i = 1" using posts(2) by simp
    then have "is_answer m'" "chan_got s 1 \<noteq> []" using inv posts(3) by (auto simp: exchange_inv_def dest: receiver_goes_on)
    then show ?thesis using posted_header [OF posts(4)] by (simp add: is_answer_def)
  qed
  then show ?thesis using s unfolding posts(1) by (simp add: exchange_inv_def)
next
  case (bad_post i m' p e)
  show ?thesis
    unfolding bad_post(1) by (rule exchange_continues [OF inv bad_post(2)]) (simp_all add: failed_ok)
next
  case (loses x rest)
  then show ?thesis using inv by (simp add: exchange_inv_def)
next
  case (arrives d x rest c)
  have "d = 1 \<and> x = l \<or> unat (to_box (mailHdr x)) = 5 \<and> chan_got s 1 \<noteq> []"
    using inv arrives(2) by (auto simp: exchange_inv_def)
  then show ?thesis
    using inv b posted_header [OF m(1)] unfolding arrives(1) by (auto simp: exchange_inv_def arrives(2,3))
next
  case (sleeps i ty k)
  show ?thesis
    unfolding sleeps(1) by (rule exchange_continues [OF inv sleeps(2)]) (use sleeps(3) in \<open>auto dest: sender_goes_on receiver_goes_on\<close>)
next
  case (finds_none i c data k)
  show ?thesis
    unfolding finds_none(1)
    by (rule exchange_continues [OF inv finds_none(2)]) (use finds_none(3) in \<open>auto dest: sender_goes_on receiver_goes_on\<close>)
next
  case (finds i c data k x xs data')
  show ?thesis
  proof (cases "i = 0")
    case True
    then have taken: "chan_got s 1 \<noteq> []" using inv finds(4) by (auto simp: exchange_inv_def)
    then have "sender_ok m True (k (Some (pktHdr x, mailHdr x, data')))"
      using inv finds(3) True by (auto simp: exchange_inv_def dest: sender_goes_on)
    then show ?thesis using inv taken True unfolding finds(1) by (simp add: exchange_inv_def)
  next
    case False
    then have i: "i = 1" using finds(2) by simp
    then have c: "c = b" using inv finds(3) by (auto simp: exchange_inv_def dest: receiver_goes_on)
    then have x: "x = l" "\<forall>y \<in> set xs. y = l" using inv finds(4) i by (auto simp: exchange_inv_def)
    have "receiver_ok b l buffer True (k (Some (pktHdr x, mailHdr x, data')))"
      using inv finds(3,5) i x(1) by (auto simp: exchange_inv_def intro: receiver_finds)
    moreover have "sender_ok m True (chan_programs s 0)" using inv by (auto simp: exchange_inv_def intro: sender_goes_on(7))
    ultimately show ?thesis using inv i c x unfolding finds(1) by (auto simp: exchange_inv_def)
  qed
next
  case (bad_find i c data k x xs e)
  show ?thesis
    unfolding bad_find(1) by (rule exchange_continues [OF inv bad_find(2)]) (simp_all add: failed_ok)
next
  case (asks i k)
  show ?thesis
    unfolding asks(1) by (rule exchange_continues [OF inv asks(2)]) (use asks(3) in \<open>auto dest: sender_goes_on receiver_goes_on\<close>)
next
  case (forgets i p)
  show ?thesis
    unfolding forgets(1) exchange_fields
    by (rule exchange_continues [OF inv forgets(2)]) (use forgets(3) in \<open>auto dest: sender_goes_on receiver_goes_on\<close>)
next
  case (stops i)
  then show ?thesis using inv by simp
qed

lemma exchange_reachable:
  assumes m: "posted B 0 (msg_pkt m) (msg_mail m) (msg_data m) = Inr l" "to_addr (msg_pkt m) = 1"
    and boxes: "msg_type ack = ACK" "msg_type inm \<noteq> ACK" "unat (to_box (msg_mail m)) = pkt_box (msg_type inm)"
      "unat (to_box (msg_mail out)) = 5"
    and run: "(channel_step lossy B 2)\<^sup>*\<^sup>* (channel_start (\<lambda>i. if i = 0 then SendWait_program h0 dull0 (Some m) ack limit
      else ReceiveWait_program h1 dull1 fuel inm out)) s"
  shows "exchange_inv (pkt_box (msg_type inm)) m l (msg_data inm) s"
  using run
proof (induction rule: rtranclp_induct)
  case base
  have "is_answer out" using boxes(4) by (simp add: is_answer_def)
  then show ?case
    using SendWait_until [OF boxes(1)] ReceiveWait_until by (simp add: exchange_inv_def sender_ok_def receiver_ok_def channel_start_def)
next
  case (step s t)
  have "pkt_box (msg_type inm) \<noteq> 5" using boxes(2) by (cases "msg_type inm") simp_all
  then show ?case using exchange_step [OF m _ boxes(3) step(3,2)] by blast
qed

end
