(* ===== verification/Channel_Runs.thy ===== *)
theory Channel_Runs
  imports Channel_Exchange Net_Properties
begin

text \<open>
  Runs of two machines over the acknowledged channel in which nothing is lost: the first message,
  messages that look like its duplicates, and the end of the receiver's waiting for those.
\<close>

section \<open>A run without losses\<close>

text \<open>Programs that send the messages \<open>ds\<close> in turn, and receive \<open>n\<close> of them.\<close>

primrec send_all ::
  "host \<Rightarrow> byte list \<Rightarrow> packet_header \<Rightarrow> c_int \<Rightarrow> c_int \<Rightarrow> byte list list \<Rightarrow> (bool \<times> byte list) list channel_program" where
  "send_all h dull fresh me peer [] = Gives []"
| "send_all h dull fresh me peer (d # ds) =
    bind_channel (SendMessage_program h dull fresh me peer d) (\<lambda>ok.
    bind_channel (send_all h dull fresh me peer ds) (\<lambda>rs. Gives ((ok, d) # rs)))"

primrec receive_all ::
  "host \<Rightarrow> byte list \<Rightarrow> packet_header \<Rightarrow> nat \<Rightarrow> c_int \<Rightarrow> c_int \<Rightarrow> nat \<Rightarrow> (bool \<times> byte list) list channel_program" where
  "receive_all h dull fresh fuel me peer 0 = Gives []"
| "receive_all h dull fresh fuel me peer (Suc n) =
    bind_channel (ReceiveMessage_program h dull [] fresh fuel me peer) (\<lambda>r.
    bind_channel (receive_all h dull fresh fuel me peer n) (\<lambda>rs. Gives (r # rs)))"

text \<open>The two machines with the mail in the two boxes they use, nothing in transit and no stop announced.\<close>

definition between ::
  "(nat \<Rightarrow> 'r channel_program) \<Rightarrow> 'r channel_program \<Rightarrow> 'r channel_program \<Rightarrow> mail list \<Rightarrow> mail list \<Rightarrow> mail list \<Rightarrow> mail list \<Rightarrow> 'r channel_network" where
  "between ps p q acks msgs g0 g1 =
    \<lparr>chan_programs = ps(0 := p, 1 := q),
     chan_boxes = (\<lambda>_ _. [])(0 := (\<lambda>_. [])(5 := acks), 1 := (\<lambda>_. [])(0 := msgs)),
     chan_transit = {#}, chan_stopping = (\<lambda>_. False), chan_got = (\<lambda>_. [])(0 := g0, 1 := g1)\<rparr>"

lemma arrive_at:
  assumes "i < 2" and "chan_programs s i = Post m p" and "posted B i (msg_pkt m) (msg_mail m) (msg_data m) = Inr l"
    and "chan_transit s = {#}" and "d = unat (to_addr (msg_pkt m))" and "b = unat (to_box (msg_mail m))"
  shows "(channel_step lossy B 2)\<^sup>*\<^sup>* s
    ((continues i p s)\<lparr>chan_boxes := (chan_boxes s)(d := (chan_boxes s d)(b := chan_boxes s d b @ [l]))\<rparr>)"
proof -
  define t where "t = (continues i p s)\<lparr>chan_transit := add_mset (d, l) {#}\<rparr>"
  have 1: "channel_step lossy B 2 s t" using posts [OF assms(1-3)] assms(4,5) by (simp add: t_def)
  have 2: "channel_step lossy B 2 t (t\<lparr>chan_transit := {#},
      chan_boxes := (chan_boxes t)(d := (chan_boxes t d)(b := chan_boxes t d b @ [l]))\<rparr>)"
    by (rule arrives) (simp_all add: posted_header [OF assms(3)] assms(6) t_def)
  have 3: "t\<lparr>chan_transit := {#}, chan_boxes := (chan_boxes t)(d := (chan_boxes t d)(b := chan_boxes t d b @ [l]))\<rparr> =
      (continues i p s)\<lparr>chan_boxes := (chan_boxes s)(d := (chan_boxes s d)(b := chan_boxes s d b @ [l]))\<rparr>"
    using assms(4) by (cases s) (simp add: t_def continues_def)
  show ?thesis unfolding 3 [symmetric] by (rule converse_rtranclp_into_rtranclp [where r = "channel_step lossy B 2", OF 1 r_into_rtranclp [where r = "channel_step lossy B 2", OF 2]])
qed

lemma sender_posts:
  assumes "posted B 0 (msg_pkt m) (msg_mail m) (msg_data m) = Inr l" and "to_addr (msg_pkt m) = 1" and "to_box (msg_mail m) = 0"
  shows "(channel_step lossy B 2)\<^sup>*\<^sup>* (between ps (Post m p) q acks msgs g0 g1) (between ps p q acks (msgs @ [l]) g0 g1)"
proof -
  let ?s = "between ps (Post m p) q acks msgs g0 g1"
  have eq: "(continues 0 p ?s)\<lparr>chan_boxes := (chan_boxes ?s)(1 := (chan_boxes ?s 1)(0 := chan_boxes ?s 1 0 @ [l]))\<rparr> =
      between ps p q acks (msgs @ [l]) g0 g1"
    by (simp add: between_def continues_def fun_upd_twist)
  have "(channel_step lossy B 2)\<^sup>*\<^sup>* ?s
      ((continues 0 p ?s)\<lparr>chan_boxes := (chan_boxes ?s)(1 := (chan_boxes ?s 1)(0 := chan_boxes ?s 1 0 @ [l]))\<rparr>)"
    by (rule arrive_at [where m = m]) (use assms in \<open>simp_all add: between_def\<close>)
  then show ?thesis unfolding eq .
qed

lemma receiver_posts:
  assumes "posted B 1 (msg_pkt m) (msg_mail m) (msg_data m) = Inr l" and "to_addr (msg_pkt m) = 0" and "to_box (msg_mail m) = 5"
  shows "(channel_step lossy B 2)\<^sup>*\<^sup>* (between ps p (Post m q) acks msgs g0 g1) (between ps p q (acks @ [l]) msgs g0 g1)"
proof -
  let ?s = "between ps p (Post m q) acks msgs g0 g1"
  have eq: "(continues 1 q ?s)\<lparr>chan_boxes := (chan_boxes ?s)(0 := (chan_boxes ?s 0)(5 := chan_boxes ?s 0 5 @ [l]))\<rparr> =
      between ps p q (acks @ [l]) msgs g0 g1"
    by (simp add: between_def continues_def fun_upd_twist)
  have "(channel_step lossy B 2)\<^sup>*\<^sup>* ?s
      ((continues 1 q ?s)\<lparr>chan_boxes := (chan_boxes ?s)(0 := (chan_boxes ?s 0)(5 := chan_boxes ?s 0 5 @ [l]))\<rparr>)"
    by (rule arrive_at [where m = m]) (use assms in \<open>simp_all add: between_def\<close>)
  then show ?thesis unfolding eq .
qed

lemma sender_finds:
  assumes "k False = Poll 5 data g" and "copy_mail l data = Inr data'"
  shows "(channel_step lossy B 2)\<^sup>*\<^sup>* (between ps (Sleep ty k) q (l # acks) msgs g0 g1)
    (between ps (g (Some (pktHdr l, mailHdr l, data'))) q acks msgs (g0 @ [l]) g1)"
proof -
  let ?t = "between ps (Poll 5 data g) q (l # acks) msgs g0 g1"
  have "channel_step lossy B 2 (between ps (Sleep ty k) q (l # acks) msgs g0 g1) ?t"
    using sleeps [where lossy = lossy and B = B and N = 2 and i = 0 and ty = ty and k = k and
        s = "between ps (Sleep ty k) q (l # acks) msgs g0 g1"] assms(1)
    by (simp add: between_def continues_def fun_upd_twist)
  moreover have "channel_step lossy B 2 ?t (between ps (g (Some (pktHdr l, mailHdr l, data'))) q acks msgs (g0 @ [l]) g1)"
    using finds [where lossy = lossy and B = B and N = 2 and i = 0 and s = ?t and b = 5 and k = g and ls = acks, OF _ _ _ assms(2)]
    by (simp add: between_def continues_def fun_upd_twist)
  ultimately show ?thesis by (rule converse_rtranclp_into_rtranclp [OF _ r_into_rtranclp])
qed

lemma receiver_finds_mail:
  assumes "k False = Poll 0 data g" and "copy_mail l data = Inr data'"
  shows "(channel_step lossy B 2)\<^sup>*\<^sup>* (between ps p (Sleep ty k) acks (l # msgs) g0 g1)
    (between ps p (g (Some (pktHdr l, mailHdr l, data'))) acks msgs g0 (g1 @ [l]))"
proof -
  let ?t = "between ps p (Poll 0 data g) acks (l # msgs) g0 g1"
  have "channel_step lossy B 2 (between ps p (Sleep ty k) acks (l # msgs) g0 g1) ?t"
    using sleeps [where lossy = lossy and B = B and N = 2 and i = 1 and ty = ty and k = k and
        s = "between ps p (Sleep ty k) acks (l # msgs) g0 g1"] assms(1)
    by (simp add: between_def continues_def fun_upd_twist)
  moreover have "channel_step lossy B 2 ?t (between ps p (g (Some (pktHdr l, mailHdr l, data'))) acks msgs g0 (g1 @ [l]))"
    using finds [where lossy = lossy and B = B and N = 2 and i = 1 and s = ?t and b = 0 and k = g and ls = msgs, OF _ _ _ assms(2)]
    by (simp add: between_def continues_def fun_upd_twist)
  ultimately show ?thesis by (rule converse_rtranclp_into_rtranclp [OF _ r_into_rtranclp])
qed

lemma receiver_finds_none:
  assumes "k False = Poll 0 data g"
  shows "(channel_step lossy B 2)\<^sup>*\<^sup>* (between ps p (Sleep ty k) acks [] g0 g1) (between ps p (g None) acks [] g0 g1)"
proof -
  let ?t = "between ps p (Poll 0 data g) acks [] g0 g1"
  have "channel_step lossy B 2 (between ps p (Sleep ty k) acks [] g0 g1) ?t"
    using sleeps [where lossy = lossy and B = B and N = 2 and i = 1 and ty = ty and k = k and
        s = "between ps p (Sleep ty k) acks [] g0 g1"] assms
    by (simp add: between_def continues_def fun_upd_twist)
  moreover have "channel_step lossy B 2 ?t (between ps p (g None) acks [] g0 g1)"
    using finds_none [where lossy = lossy and B = B and N = 2 and i = 1 and s = ?t and b = 0 and k = g]
    by (simp add: between_def continues_def fun_upd_twist)
  ultimately show ?thesis by (rule converse_rtranclp_into_rtranclp [OF _ r_into_rtranclp])
qed

lemma sender_asks:
  "(channel_step lossy B 2)\<^sup>*\<^sup>* (between ps (IfStopping k) q acks msgs g0 g1) (between ps (k False) q acks msgs g0 g1)"
  using asks [where lossy = lossy and B = B and N = 2 and i = 0 and k = k and s = "between ps (IfStopping k) q acks msgs g0 g1"]
  by (intro r_into_rtranclp) (simp add: between_def continues_def fun_upd_twist)

section \<open>What the programs do in such a run\<close>

lemma bind_channel_assoc: "bind_channel (bind_channel p f) g = bind_channel p (\<lambda>r. bind_channel (f r) g)"
  by (induction p) (simp_all add: fun_eq_iff)

definition msg_of :: "packet_header \<Rightarrow> byte list \<Rightarrow> message" where
  "msg_of fresh d = addressed 0 1 (Message fresh (length d) MSG)\<lparr>msg_data := d\<rparr>"

definition ack_of :: "packet_header \<Rightarrow> byte \<Rightarrow> message" where
  "ack_of fresh c = addressed 1 0 (Message fresh 2 ACK)\<lparr>msg_data := [c + 1, 0]\<rparr>"

lemma send_waiting:
  assumes "char_int h c + 1 = char_int h (c + 1)"
  obtains k g k' where "bind_channel (SendWait_program h dull (Some (msg_of fresh (c # x))) (Message fresh 2 ACK) MAXREEMISSIONS) f =
      Post (msg_of fresh (c # x)) (Sleep NetworkSendInt k)"
    and "k False = Poll 5 [0, 0] g" and "\<And>pkt mh. g (Some (pkt, mh, [c + 1, 0])) = IfStopping (k' pkt mh)"
    and "\<And>pkt mh. k' pkt mh False = f (True, filled (Message fresh 2 ACK) (pkt, mh, [c + 1, 0]))"
proof -
  let ?m = "msg_of fresh (c # x)" and ?ack = "Message fresh 2 ACK"
  define F where "F r = bind_channel (after_send h dull (Some ?m) ?ack MAXREEMISSIONS r) f" for r
  define g where "g r = (case r of None \<Rightarrow> send_program (Some ?m) ?ack 199 1 | Some x \<Rightarrow> Gives (Some (0, filled ?ack x)))" for r
  have n: "nat MAXREEMISSIONS = Suc 199" by (simp add: MAXREEMISSIONS_def)
  have "bind_channel (SendWait_program h dull (Some ?m) ?ack MAXREEMISSIONS) f = bind_channel (send_program (Some ?m) ?ack (Suc 199) 0) F"
    unfolding SendWait_program_def n by (simp only: F_def [abs_def]) (simp add: MAXREEMISSIONS_def bind_channel_assoc)
  moreover have ack: "msg_type ?ack = ACK" "msg_data ?ack = [0, 0]" by (simp_all add: Message_def numeral_2_eq_2)
  have "send_program (Some ?m) ?ack (Suc 199) 0 =
      Post ?m (Sleep NetworkSendInt (\<lambda>stopped. if stopped then Gives None else Poll 5 [0, 0] g))"
    by (simp only: send_program.simps option.case ack pkt_box.simps g_def [abs_def] add_0)
  ultimately have 1: "bind_channel (SendWait_program h dull (Some ?m) ?ack MAXREEMISSIONS) f =
      Post ?m (Sleep NetworkSendInt (\<lambda>stopped. bind_channel (if stopped then Gives None else Poll 5 [0, 0] g) F))"
    by simp
  define k' where "k' pkt mh stopping = bind_channel (if stopping then Gives (False, filled ?ack (pkt, mh, [c + 1, 0]))
      else try_res (token_follows h (msg_data ?m) (msg_data (filled ?ack (pkt, mh, [c + 1, 0]))))
        (\<lambda>ok. Gives (0 \<noteq> MAXREEMISSIONS \<and> ok, filled ?ack (pkt, mh, [c + 1, 0])))) f"
    for pkt mh stopping
  have "F (Some (0, filled ?ack (pkt, mh, [c + 1, 0]))) = IfStopping (k' pkt mh)" for pkt mh
    by (simp add: F_def after_send_def catch_program.simps k'_def [abs_def])
  moreover have "k' pkt mh False = f (True, filled ?ack (pkt, mh, [c + 1, 0]))" for pkt mh
    using assms by (simp add: k'_def token_follows_def filled_def msg_of_def MAXREEMISSIONS_def)
  ultimately show thesis
    using that [OF 1, of "\<lambda>r. bind_channel (g r) F" k'] by (simp add: g_def)
qed

definition report :: "(bool \<Rightarrow> 't channel_program) \<Rightarrow> bool \<times> message \<Rightarrow> 't channel_program" where
  "report f r = bind_channel (if fst r then Gives True
    else IfStopping (\<lambda>stopping. if stopping then ForgetStop (Gives False) else Gives False)) f"

lemma report_success: "report f (True, answer) = f True"
  by (simp add: report_def)

lemma SendMessage_waits:
  assumes "0 \<notin> set d"
  shows "bind_channel (SendMessage_program h dull fresh 0 1 d) f =
    bind_channel (SendWait_program h dull (Some (msg_of fresh d)) (Message fresh 2 ACK) MAXREEMISSIONS) (report f)"
  by (simp add: SendMessage_program_def Let_def bind_channel_assoc msg_of_def case_prod_unfold cstring_same [OF assms] report_def [abs_def])

text \<open>The receiver that has answered a message that starts with \<open>c\<close> and now answers its duplicates.\<close>

definition answering ::
  "host \<Rightarrow> packet_header \<Rightarrow> byte list \<Rightarrow> nat \<Rightarrow> nat \<Rightarrow> int \<Rightarrow> byte list \<Rightarrow> (bool \<times> byte list \<Rightarrow> 't channel_program) \<Rightarrow> 't channel_program" where
  "answering h fresh d fuel a n dull f =
    bind_channel (answer_program h 0 (ack_of fresh (hd d)) fuel a n dull)
      (\<lambda>n. (if n \<noteq> - 2 then f (True, d) else ForgetStop (f (False, d))))"

lemma receive_waiting:
  fixes c x
  defines "buffer \<equiv> splice 0 (c # x) (replicate MaxMailSize 0)"
  obtains k g where "bind_channel (ReceiveWait_program h dull (Suc fuel) (Message fresh MaxMailSize MSG)
      (addressed 1 0 (Message fresh 2 ACK))) f = Sleep NetworkRecvInt k"
    and "k False = Poll 0 (replicate MaxMailSize 0) g"
    and "\<And>pkt mh. g (Some (pkt, mh, buffer)) =
      Post (ack_of fresh c) (bind_channel (answer_program h 0 (ack_of fresh c) (Suc fuel) 0 0 dull)
        (\<lambda>n. f (n \<noteq> - 2, filled (Message fresh MaxMailSize MSG) (pkt, mh, buffer))))"
proof -
  let ?in = "Message fresh MaxMailSize MSG" and ?out = "addressed 1 0 (Message fresh 2 ACK)"
  define F where "F r = bind_channel (case r of
      None \<Rightarrow> Gives (False, ?in)
    | Some (inm, out) \<Rightarrow>
        bind_channel (answer_program h (pkt_box (msg_type inm)) out (Suc fuel) 0 0 dull) (\<lambda>n. Gives (n \<noteq> - 2, inm))) f" for r
  define g where "g r = (case r of None \<Rightarrow> receive_program fuel ?in ?out
    | Some x \<Rightarrow> try_res (if msg_type ?out = ACK then answer_token (filled ?in x) ?out else Inr ?out)
        (\<lambda>out. Post out (Gives (Some (filled ?in x, out)))))" for r
  have "bind_channel (ReceiveWait_program h dull (Suc fuel) ?in ?out) f = bind_channel (receive_program (Suc fuel) ?in ?out) F"
    by (simp only: ReceiveWait_program_def bind_channel_assoc F_def [abs_def])
  also have inm: "msg_type ?in = MSG" "msg_data ?in = replicate MaxMailSize 0" by (simp_all add: Message_def)
  have "bind_channel (receive_program (Suc fuel) ?in ?out) F = Sleep NetworkRecvInt (\<lambda>stopped. bind_channel (if stopped then Gives None
      else Poll 0 (replicate MaxMailSize 0) g) F)"
    by (simp only: receive_program.simps bind_channel.simps inm pkt_box.simps g_def [abs_def])
  finally have 1: "bind_channel (ReceiveWait_program h dull (Suc fuel) ?in ?out) f = \<dots>" .
  have "answer_token (filled ?in (pkt, mh, buffer)) ?out = Inr (ack_of fresh c)" for pkt mh
    by (simp add: answer_token_def filled_def buffer_def splice_def put_token_def ack_of_def addressed_def Message_def numeral_2_eq_2)
  moreover have "msg_type ?out = ACK" "msg_type (filled ?in y) = MSG" for y by (simp_all add: addressed_def Message_def filled_def)
  ultimately have "bind_channel (g (Some (pkt, mh, buffer))) F = Post (ack_of fresh c)
      (bind_channel (answer_program h 0 (ack_of fresh c) (Suc fuel) 0 0 dull) (\<lambda>n. f (n \<noteq> - 2, filled ?in (pkt, mh, buffer))))"
    for pkt mh
    by (simp add: g_def F_def bind_channel_assoc del: answer_program.simps)
  then show thesis using that [OF 1] by simp
qed

lemma receiving:
  fixes f :: "bool \<times> byte list \<Rightarrow> 'a channel_program"
  assumes "0 \<notin> set (c # x)" and "length (c # x) < MaxMailSize"
  obtains k g where "bind_channel (ReceiveMessage_program h dull [] fresh (Suc fuel) 1 0) f = Sleep NetworkRecvInt k"
    and "k False = Poll 0 (replicate MaxMailSize 0) g"
    and "\<And>pkt mh. g (Some (pkt, mh, splice 0 (c # x) (replicate MaxMailSize 0))) =
      Post (ack_of fresh c) (answering h fresh (c # x) (Suc fuel) 0 0 dull f)"
proof -
  let ?buffer = "splice 0 (c # x) (replicate MaxMailSize 0)"
  define F :: "bool \<times> message \<Rightarrow> 'a channel_program" where "F = (\<lambda>(ok, inm). bind_channel ((if ok then (\<lambda>p. p) else ForgetStop)
      (try_res (string_in [] (msg_data inm)) (\<lambda>str. Gives (ok, str)))) f)"
  obtain k g where 1: "bind_channel (ReceiveWait_program h dull (Suc fuel) (Message fresh MaxMailSize MSG)
      (addressed 1 0 (Message fresh 2 ACK))) F = Sleep NetworkRecvInt k" "k False = Poll 0 (replicate MaxMailSize 0) g"
    "\<And>pkt mh. g (Some (pkt, mh, ?buffer)) = Post (ack_of fresh c) (bind_channel (answer_program h 0 (ack_of fresh c) (Suc fuel) 0 0 dull)
        (\<lambda>n. F (n \<noteq> - 2, filled (Message fresh MaxMailSize MSG) (pkt, mh, ?buffer))))"
    using receive_waiting [where f = F] by blast
  have "string_in [] ?buffer = Inr (c # x)"
    using piece_in_buffer [OF assms(1)] assms(2) by (simp add: less_imp_le)
  then have "(\<lambda>n :: int. F (n \<noteq> - 2, filled (Message fresh MaxMailSize MSG) (pkt, mh, ?buffer))) =
      (\<lambda>n. if n \<noteq> - 2 then f (True, c # x) else ForgetStop (f (False, c # x)))" for pkt mh
    by (intro ext) (simp add: F_def filled_def)
  then have "g (Some (pkt, mh, ?buffer)) = Post (ack_of fresh c) (answering h fresh (c # x) (Suc fuel) 0 0 dull f)" for pkt mh
    unfolding 1(3) by (simp only: answering_def list.sel)
  moreover have "bind_channel (ReceiveMessage_program h dull [] fresh (Suc fuel) 1 0) f = Sleep NetworkRecvInt k"
    unfolding 1(1) [symmetric] by (simp only: ReceiveMessage_program_def bind_channel_assoc F_def case_prod_unfold)
  ultimately show thesis using that 1(2) by blast
qed

lemma answering_goes_on:
  assumes "a < MAXCATCH" and "char_int h c + 1 = char_int h (c + 1)"
  obtains k g where "answering h fresh (c # x) (Suc fuel) a n dull f = Sleep NetworkRecvInt k" and "k False = Poll 0 dull g"
    and "g None = answering h fresh (c # x) fuel (Suc a) n dull f"
    and "\<And>pkt mh y. g (Some (pkt, mh, c # y)) = Post (ack_of fresh c) (answering h fresh (c # x) fuel 0 (n + 1) (c # y) f)"
proof -
  define F where "F n = (if n \<noteq> - 2 then f (True, c # x) else ForgetStop (f (False, c # x)))" for n :: int
  define g where "g r = (case r of None \<Rightarrow> answer_program h 0 (ack_of fresh c) fuel (Suc a) n dull
    | Some m \<Rightarrow> try_res (token_follows h (snd (snd m)) (msg_data (ack_of fresh c))) (\<lambda>ok.
        if \<not> ok then Gives n else Post (ack_of fresh c) (answer_program h 0 (ack_of fresh c) fuel 0 (n + 1) (snd (snd m)))))"
    for r :: "(packet_header \<times> mail_header \<times> byte list) option"
  have answering: "answering h fresh (c # x) fuel a n dull f = bind_channel (answer_program h 0 (ack_of fresh c) fuel a n dull) F"
    for fuel a n dull
    by (simp add: answering_def F_def [abs_def])
  have "answering h fresh (c # x) (Suc fuel) a n dull f =
      Sleep NetworkRecvInt (\<lambda>stopped. bind_channel (if stopped then Gives (- 2) else Poll 0 dull g) F)"
    using assms(1) unfolding answering by (simp only: answer_program.simps if_True bind_channel.simps g_def [abs_def])
  then show thesis
  proof (rule that [of _ "\<lambda>r. bind_channel (g r) F"])
    show "bind_channel (g (Some (pkt, mh, c # y))) F =
        Post (ack_of fresh c) (answering h fresh (c # x) fuel 0 (n + 1) (c # y) f)" for pkt mh y
    proof -
      have "token_follows h (c # y) (msg_data (ack_of fresh c)) = Inr True"
        using assms(2) by (simp add: token_follows_def ack_of_def)
      then show ?thesis by (simp add: g_def answering)
    qed
  qed (simp_all add: g_def answering)
qed

lemma answering_ends:
  "char_int h c + 1 = char_int h (c + 1) \<Longrightarrow> n \<noteq> - 2 \<Longrightarrow> MAXCATCH - a < fuel \<Longrightarrow>
   (channel_step lossy B 2)\<^sup>*\<^sup>* (between ps p (answering h fresh (c # x) fuel a n dull f) acks [] g0 g1)
     (between ps p (f (True, c # x)) acks [] g0 g1)"
proof (induction fuel arbitrary: a)
  case (Suc fuel)
  show ?case
  proof (cases "a < MAXCATCH")
    case True
    then obtain k g where k: "answering h fresh (c # x) (Suc fuel) a n dull f = Sleep NetworkRecvInt k" "k False = Poll 0 dull g"
      "g None = answering h fresh (c # x) fuel (Suc a) n dull f"
      using answering_goes_on [OF True Suc.prems(1)] by metis
    have "MAXCATCH - Suc a < fuel" using True Suc.prems(3) by simp
    from Suc.IH [OF Suc.prems(1,2) this] receiver_finds_none [where k = k and data = dull and g = g, OF k(2)] show ?thesis
      unfolding k(1) k(3) [symmetric] by (metis rtranclp_trans)
  next
    case False
    then show ?thesis using Suc.prems(2) by (simp add: answering_def)
  qed
qed simp

definition msg_letter :: "packet_header \<Rightarrow> byte list \<Rightarrow> mail" where
  "msg_letter fresh d = \<lparr>pktHdr = packet_for 0 (msg_pkt (msg_of fresh d)) (msg_mail (msg_of fresh d)),
     mailHdr = msg_mail (msg_of fresh d), mail_data = d\<rparr>"

definition ack_letter :: "packet_header \<Rightarrow> byte \<Rightarrow> mail" where
  "ack_letter fresh c = \<lparr>pktHdr = packet_for 1 (msg_pkt (ack_of fresh c)) (msg_mail (ack_of fresh c)),
     mailHdr = msg_mail (ack_of fresh c), mail_data = [c + 1, 0]\<rparr>"

lemma msg_letter:
  assumes "length d < MaxMailSize" and "7 \<le> B"
  shows "posted B 0 (msg_pkt (msg_of fresh d)) (msg_mail (msg_of fresh d)) (msg_data (msg_of fresh d)) = Inr (msg_letter fresh d)"
    and "to_addr (msg_pkt (msg_of fresh d)) = 1" and "to_box (msg_mail (msg_of fresh d)) = 0"
    and "length d \<le> length data \<Longrightarrow> copy_mail (msg_letter fresh d) data = Inr (splice 0 d data)"
proof -
  have "unat (of_nat (length d) :: c_int) = length d"
    using assms(1) by (simp add: mail_sizes unsigned_of_nat take_bit_nat_eq_self)
  then show "posted B 0 (msg_pkt (msg_of fresh d)) (msg_mail (msg_of fresh d)) (msg_data (msg_of fresh d)) = Inr (msg_letter fresh d)"
    "to_addr (msg_pkt (msg_of fresh d)) = 1" "to_box (msg_mail (msg_of fresh d)) = 0"
    "length d \<le> length data \<Longrightarrow> copy_mail (msg_letter fresh d) data = Inr (splice 0 d data)"
    using assms by (simp_all add: posted_def msg_of_def msg_letter_def addressed_def Message_def copy_mail_def)
qed

lemma ack_letter:
  assumes "7 \<le> B"
  shows "posted B 1 (msg_pkt (ack_of fresh c)) (msg_mail (ack_of fresh c)) (msg_data (ack_of fresh c)) = Inr (ack_letter fresh c)"
    and "to_addr (msg_pkt (ack_of fresh c)) = 0" and "to_box (msg_mail (ack_of fresh c)) = 5"
    and "copy_mail (ack_letter fresh c) [0, 0] = Inr [c + 1, 0]"
  using assms by (simp_all add: posted_def ack_of_def ack_letter_def addressed_def Message_def copy_mail_def mail_sizes splice_def)

lemma length_splice_0: "length d \<le> length dull \<Longrightarrow> length (splice 0 d dull) = length dull"
  by (simp add: splice_def)

text \<open>A message and its acknowledgement, whatever the receiver does before and after it.\<close>

lemma one_exchange:
  assumes d: "length (c # x) < MaxMailSize" "char_int h c + 1 = char_int h (c + 1)" and B: "7 \<le> B"
    and q: "j False = Poll 0 data i" "length (c # x) \<le> length data"
      "\<And>pkt mh. i (Some (pkt, mh, splice 0 (c # x) data)) = Post (ack_of fresh c) (q pkt mh)"
  shows "\<exists>answer pkt mh. (channel_step lossy B 2)\<^sup>*\<^sup>*
    (between ps (bind_channel (SendWait_program h dull0 (Some (msg_of fresh (c # x))) (Message fresh 2 ACK) MAXREEMISSIONS) f)
      (Sleep ty j) [] [] g0 g1)
    (between ps (f (True, answer)) (q pkt mh) [] [] (g0 @ [ack_letter fresh c]) (g1 @ [msg_letter fresh (c # x)]))"
proof -
  obtain k g k' where s: "bind_channel (SendWait_program h dull0 (Some (msg_of fresh (c # x))) (Message fresh 2 ACK) MAXREEMISSIONS) f =
      Post (msg_of fresh (c # x)) (Sleep NetworkSendInt k)"
    "k False = Poll 5 [0, 0] g" "\<And>pkt mh. g (Some (pkt, mh, [c + 1, 0])) = IfStopping (k' pkt mh)"
    "\<And>pkt mh. k' pkt mh False = f (True, filled (Message fresh 2 ACK) (pkt, mh, [c + 1, 0]))"
    using send_waiting [OF d(2)] by blast
  note m = msg_letter [OF d(1) B, where fresh = fresh] and a = ack_letter [OF B, where fresh = fresh and c = c]
  let ?l = "msg_letter fresh (c # x)" and ?a = "ack_letter fresh c" and ?R = "(channel_step lossy B 2)\<^sup>*\<^sup>*"
  let ?q = "q (pktHdr ?l) (mailHdr ?l)"
  note trans = rtranclp_trans [where r = "channel_step lossy B 2"]
  have 1: "?R (between ps (Post (msg_of fresh (c # x)) (Sleep NetworkSendInt k)) (Sleep ty j) [] [] g0 g1)
      (between ps (Sleep NetworkSendInt k) (Sleep ty j) [] [?l] g0 g1)"
    using sender_posts [OF m(1-3), where msgs = "[]"] by simp
  have 2: "?R (between ps (Sleep NetworkSendInt k) (Sleep ty j) [] [?l] g0 g1)
      (between ps (Sleep NetworkSendInt k) (Post (ack_of fresh c) ?q) [] [] g0 (g1 @ [?l]))"
    unfolding q(3) [symmetric] by (rule receiver_finds_mail [where k = j and g = i and data = data, OF q(1) m(4) [OF q(2)]])
  have 3: "?R (between ps (Sleep NetworkSendInt k) (Post (ack_of fresh c) ?q) [] [] g0 (g1 @ [?l]))
      (between ps (Sleep NetworkSendInt k) ?q [?a] [] g0 (g1 @ [?l]))"
    using receiver_posts [OF a(1-3), where acks = "[]"] by simp
  have 4: "?R (between ps (Sleep NetworkSendInt k) ?q [?a] [] g0 (g1 @ [?l]))
      (between ps (IfStopping (k' (pktHdr ?a) (mailHdr ?a))) ?q [] [] (g0 @ [?a]) (g1 @ [?l]))"
    unfolding s(3) [symmetric] by (rule sender_finds [where k = k and g = g and data = "[0, 0]", OF s(2) a(4)])
  have 5: "?R (between ps (IfStopping (k' (pktHdr ?a) (mailHdr ?a))) ?q [] [] (g0 @ [?a]) (g1 @ [?l]))
      (between ps (k' (pktHdr ?a) (mailHdr ?a) False) ?q [] [] (g0 @ [?a]) (g1 @ [?l]))"
    by (rule sender_asks)
  have "?R (between ps (Post (msg_of fresh (c # x)) (Sleep NetworkSendInt k)) (Sleep ty j) [] [] g0 g1)
      (between ps (k' (pktHdr ?a) (mailHdr ?a) False) ?q [] [] (g0 @ [?a]) (g1 @ [?l]))"
    by (rule trans [OF 1 trans [OF 2 trans [OF 3 trans [OF 4 5]]]])
  then show ?thesis unfolding s(1,4) by (intro exI)
qed

text \<open>With a receiver that waits for the message, and with one that answers duplicates.\<close>

lemma first_exchange:
  assumes d: "0 \<notin> set (c # x)" "length (c # x) < MaxMailSize" "char_int h c + 1 = char_int h (c + 1)" and B: "7 \<le> B"
  shows "(channel_step lossy B 2)\<^sup>*\<^sup>*
    (between ps (bind_channel (SendMessage_program h dull0 fresh 0 1 (c # x)) f)
      (bind_channel (ReceiveMessage_program h dull [] fresh (Suc fuel) 1 0) f') [] [] g0 g1)
    (between ps (f True) (answering h fresh (c # x) (Suc fuel) 0 0 dull f') [] []
      (g0 @ [ack_letter fresh c]) (g1 @ [msg_letter fresh (c # x)]))"
proof -
  obtain j i where r: "bind_channel (ReceiveMessage_program h dull [] fresh (Suc fuel) 1 0) f' = Sleep NetworkRecvInt j"
    "j False = Poll 0 (replicate MaxMailSize 0) i"
    "\<And>pkt mh. i (Some (pkt, mh, splice 0 (c # x) (replicate MaxMailSize 0))) =
      Post (ack_of fresh c) (answering h fresh (c # x) (Suc fuel) 0 0 dull f')"
    using receiving [OF d(1,2)] by blast
  have "length (c # x) \<le> length (replicate MaxMailSize (0 :: byte))" using d(2) by simp
  from one_exchange [where f = "report f" and q = "\<lambda>_ _. answering h fresh (c # x) (Suc fuel) 0 0 dull f'" and i = i and j = j and ty = NetworkRecvInt, OF d(2,3) B r(2) this r(3)]
  show ?thesis unfolding r(1) SendMessage_waits [OF d(1)] report_success by blast
qed

lemma next_exchange:
  assumes d: "0 \<notin> set (c # y)" "length (c # y) < MaxMailSize" "char_int h c + 1 = char_int h (c + 1)" and B: "7 \<le> B"
    and dull: "length dull = MaxMailSize" and a: "a < MAXCATCH"
  shows "(channel_step lossy B 2)\<^sup>*\<^sup>*
    (between ps (bind_channel (SendMessage_program h dull0 fresh 0 1 (c # y)) f)
      (answering h fresh (c # x) (Suc fuel) a n dull f') [] [] g0 g1)
    (between ps (f True) (answering h fresh (c # x) fuel 0 (n + 1) (splice 0 (c # y) dull) f') [] []
      (g0 @ [ack_letter fresh c]) (g1 @ [msg_letter fresh (c # y)]))"
proof -
  obtain j i where r: "answering h fresh (c # x) (Suc fuel) a n dull f' = Sleep NetworkRecvInt j" "j False = Poll 0 dull i"
    "\<And>pkt mh z. i (Some (pkt, mh, c # z)) = Post (ack_of fresh c) (answering h fresh (c # x) fuel 0 (n + 1) (c # z) f')"
    using answering_goes_on [OF a d(3)] by metis
  have start: "splice 0 (c # y) dull = c # splice 0 y (tl dull)"
    using dull by (cases dull) (simp_all add: splice_def mail_sizes)
  have "length (c # y) \<le> length dull" using d(2) dull by simp
  moreover have "i (Some (pkt, mh, splice 0 (c # y) dull)) =
      Post (ack_of fresh c) (answering h fresh (c # x) fuel 0 (n + 1) (splice 0 (c # y) dull) f')" for pkt mh
    unfolding start by (rule r(3))
  ultimately show ?thesis
    using one_exchange [where f = "report f" and q = "\<lambda>_ _. answering h fresh (c # x) fuel 0 (n + 1) (splice 0 (c # y) dull) f'" and i = i and j = j and ty = NetworkRecvInt,
      OF d(2,3) B r(2)]
    unfolding r(1) SendMessage_waits [OF d(1)] report_success by blast
qed

lemma swallowed:
  assumes "char_int h c + 1 = char_int h (c + 1)" and "7 \<le> B"
  shows "\<forall>y \<in> set ys. 0 \<notin> set (c # y) \<and> length (c # y) < MaxMailSize \<Longrightarrow> length dull = MaxMailSize \<Longrightarrow> length ys \<le> fuel \<Longrightarrow>
    \<exists>dull' g0'. (channel_step lossy B 2)\<^sup>*\<^sup>*
    (between ps (bind_channel (send_all h dull0 fresh 0 1 (List.map (\<lambda>y. c # y) ys)) f)
      (answering h fresh (c # x) fuel 0 n dull f') [] [] g0 g1)
    (between ps (f (List.map (\<lambda>y. (True, c # y)) ys)) (answering h fresh (c # x) (fuel - length ys) 0 (n + int (length ys)) dull' f') [] []
      g0' (g1 @ List.map (\<lambda>y. msg_letter fresh (c # y)) ys))"
proof (induction ys arbitrary: fuel n dull g0 g1 f)
  case Nil
  then show ?case by (intro exI [of _ dull] exI [of _ g0]) simp
next
  case (Cons y ys)
  obtain fuel' where fuel: "fuel = Suc fuel'" using Cons.prems(3) by (cases fuel) simp_all
  have y: "0 \<notin> set (c # y)" "length (c # y) < MaxMailSize" using Cons.prems(1) by simp_all
  let ?f = "\<lambda>ok. bind_channel (bind_channel (send_all h dull0 fresh 0 1 (List.map (\<lambda>y. c # y) ys)) (\<lambda>rs. Gives ((ok, c # y) # rs))) f"
  have a: "0 < MAXCATCH" by (simp add: MAXCATCH_def)
  note next_exchange [OF y assms Cons.prems(2) a, where lossy = lossy and ps = ps and ?dull0.0 = dull0 and fresh = fresh and f = ?f and x = x and fuel = fuel' and n = n and f' = f' and ?g0.0 = g0 and ?g1.0 = g1]
  moreover have "length (splice 0 (c # y) dull) = MaxMailSize" using y(2) Cons.prems(2) by (simp add: length_splice_0)
  with Cons.IH [where dull = "splice 0 (c # y) dull" and fuel = fuel' and n = "n + 1" and f = "\<lambda>rs. f ((True, c # y) # rs)" and
      ?g0.0 = "g0 @ [ack_letter fresh c]" and ?g1.0 = "g1 @ [msg_letter fresh (c # y)]"]
  obtain dull' g0' where "(channel_step lossy B 2)\<^sup>*\<^sup>*
    (between ps (?f True) (answering h fresh (c # x) fuel' 0 (n + 1) (splice 0 (c # y) dull) f') [] []
      (g0 @ [ack_letter fresh c]) (g1 @ [msg_letter fresh (c # y)]))
    (between ps (f ((True, c # y) # List.map (\<lambda>y. (True, c # y)) ys))
      (answering h fresh (c # x) (fuel' - length ys) 0 (n + 1 + int (length ys)) dull' f') [] []
      g0' ((g1 @ [msg_letter fresh (c # y)]) @ List.map (\<lambda>y. msg_letter fresh (c # y)) ys))"
    using Cons.prems fuel by (auto simp: bind_channel_assoc)
  ultimately show ?case
    using fuel by (intro exI [of _ dull'] exI [of _ g0']) (simp add: bind_channel_assoc add.assoc)
qed

lemma between_start: "channel_start ps = between ps (ps 0) (ps 1) [] [] [] []"
  by (auto simp: channel_start_def between_def fun_eq_iff)

end
