(* ===== verification/Channel_Properties.thy ===== *)
theory Channel_Properties
  imports Channel_Runs
begin

text \<open>
  The claims about the acknowledged channel between two machines: what one exchange guarantees, and
  what several exchanges in a row do not.
\<close>

text \<open>
  C34. An acknowledged message has been received. Let one machine run \<open>SendWait\<close> with a message for a box of
  another, which runs \<open>ReceiveWait\<close> on that box. The network may lose, delay and reorder what is sent, the
  machines may run at any speed, and their connections may be stopped at any time. Still all the receiver ever
  takes is the message; if the sender reports success, the receiver has taken it; and if the receiver
  reports success, its buffer holds the message's data.
\<close>

theorem acknowledged_is_received:
  assumes sent: "posted B 0 (msg_pkt m) (msg_mail m) (msg_data m) = Inr l" "to_addr (msg_pkt m) = 1"
    and boxes: "msg_type ack = ACK" "msg_type inm \<noteq> ACK" "unat (to_box (msg_mail m)) = pkt_box (msg_type inm)"
      "unat (to_box (msg_mail out)) = 5"
    and run: "(channel_step lossy B 2)\<^sup>*\<^sup>* (channel_start (\<lambda>i. if i = 0 then SendWait_program h0 dull0 (Some m) ack limit
      else ReceiveWait_program h1 dull1 fuel inm out)) s"
  shows "set (chan_got s 1) \<subseteq> {l} \<and>
    (\<forall>i. chan_programs s 0 = Gives (True, i) \<longrightarrow> chan_got s 1 \<noteq> []) \<and>
    (\<forall>i. chan_programs s 1 = Gives (True, i) \<longrightarrow> chan_got s 1 \<noteq> [] \<and> copy_mail l (msg_data inm) = Inr (msg_data i))"
  using exchange_reachable [OF sent boxes run]
  by (auto simp: exchange_inv_def sender_ok_def receiver_ok_def split: if_splits)

lemma bind_Gives: "bind_channel p Gives = p"
  by (induction p) (simp_all add: fun_eq_iff)

lemma acknowledged_is_received_witness:
  "\<exists>s answer. (channel_step False 7 2)\<^sup>*\<^sup>* (channel_start (\<lambda>i. if i = 0
      then SendWait_program sample_host [] (Some (msg_of sample_new_packet [65, 66])) (Message sample_new_packet 2 ACK) MAXREEMISSIONS
      else ReceiveWait_program sample_host [] (Suc 9) (Message sample_new_packet MaxMailSize MSG)
        (addressed 1 0 (Message sample_new_packet 2 ACK)))) s \<and>
    chan_programs s 0 = Gives (True, answer) \<and> chan_got s 1 \<noteq> [] \<and> set (chan_got s 1) \<subseteq> {msg_letter sample_new_packet [65, 66]}"
proof -
  let ?m = "msg_of sample_new_packet [65, 66]" and ?ack = "Message sample_new_packet 2 ACK"
  let ?in = "Message sample_new_packet MaxMailSize MSG" and ?out = "addressed 1 0 (Message sample_new_packet 2 ACK)"
  define ps where "ps i = (if i = (0 :: nat) then SendWait_program sample_host [] (Some ?m) ?ack MAXREEMISSIONS
      else ReceiveWait_program sample_host [] (Suc 9) ?in ?out)" for i
  have d: "length [65, 66 :: byte] < MaxMailSize" and token: "char_int sample_host 65 + 1 = char_int sample_host (65 + 1)"
    by (simp_all add: mail_sizes char_int_def sample_host_def)
  obtain j i where r: "bind_channel (ReceiveWait_program sample_host [] (Suc 9) ?in ?out) Gives = Sleep NetworkRecvInt j"
    "j False = Poll 0 (replicate MaxMailSize 0) i"
    "\<And>pkt mh. i (Some (pkt, mh, splice 0 [65, 66] (replicate MaxMailSize 0))) = Post (ack_of sample_new_packet 65)
      (bind_channel (answer_program sample_host 0 (ack_of sample_new_packet 65) (Suc 9) 0 0 [])
        (\<lambda>n. Gives (n \<noteq> - 2, filled ?in (pkt, mh, splice 0 [65, 66] (replicate MaxMailSize 0)))))"
    using receive_waiting [where c = 65 and x = "[66]" and f = Gives] by blast
  have "length [65, 66 :: byte] \<le> length (replicate MaxMailSize (0 :: byte))" by (simp add: mail_sizes)
  from one_exchange [where f = Gives and i = i and j = j and ty = NetworkRecvInt and B = 7 and lossy = False and ps = ps and ?dull0.0 = "[]"
      and ?g0.0 = "[]" and ?g1.0 = "[]" and fresh = sample_new_packet, OF d token order.refl r(2) this, OF r(3)]
  obtain answer q g0 g1 where run: "(channel_step False 7 2)\<^sup>*\<^sup>* (between ps (SendWait_program sample_host [] (Some ?m) ?ack MAXREEMISSIONS)
      (ReceiveWait_program sample_host [] (Suc 9) ?in ?out) [] [] [] []) (between ps (Gives (True, answer)) q [] [] g0 g1)"
    unfolding bind_Gives r(1) [unfolded bind_Gives, symmetric] by blast
  have start: "channel_start ps = between ps (SendWait_program sample_host [] (Some ?m) ?ack MAXREEMISSIONS)
      (ReceiveWait_program sample_host [] (Suc 9) ?in ?out) [] [] [] []"
    unfolding between_start by (simp add: ps_def)
  have boxes: "msg_type ?ack = ACK" "msg_type ?in \<noteq> ACK" "unat (to_box (msg_mail ?m)) = pkt_box (msg_type ?in)"
    "unat (to_box (msg_mail ?out)) = 5"
    by (simp_all add: Message_def msg_of_def addressed_def)
  let ?s = "between ps (Gives (True, answer)) q [] [] g0 g1"
  have reach: "(channel_step False 7 2)\<^sup>*\<^sup>* (channel_start ps) ?s" using run unfolding start .
  from acknowledged_is_received [OF msg_letter(1,2) [OF d order.refl] boxes reach [unfolded ps_def]]
  have "chan_got ?s 1 \<noteq> [] \<and> set (chan_got ?s 1) \<subseteq> {msg_letter sample_new_packet [65, 66]}"
    by (simp add: between_def)
  moreover have "chan_programs ?s 0 = Gives (True, answer)" by (simp add: between_def)
  ultimately show ?thesis using reach unfolding ps_def by blast
qed

text \<open>
  C35. Messages that start alike are lost. The token is the first byte of a message, so that a
  message with the same first byte as the one before it looks like a duplicate to a receiver that is
  still answering those. Two machines that are connected, one of which sends any number of
  messages that start with the same byte while the other receives, can run so that every \<open>SendMessage\<close>
  reports success although the network loses nothing; but the first \<open>ReceiveMessage\<close> has taken all
  messages and returned the first one, and the second waits with nothing left to arrive. (\<open>SendString\<close> and
  \<open>SendFile\<close> pause between their pieces.)
\<close>

theorem messages_starting_alike_are_lost:
  assumes texts: "\<forall>y \<in> set (x # ys). 0 \<notin> set (c # y) \<and> length (c # y) < MaxMailSize"
    and c: "c \<noteq> (if char_signed h then 127 else 255)" and B: "7 \<le> B"
    and dull1: "length dull1 = MaxMailSize" and fuel: "length ys + MAXCATCH < fuel"
  shows "\<exists>s. (channel_step False B 2)\<^sup>*\<^sup>* (channel_start (\<lambda>i. if i = 0
      then send_all h dull0 fresh 0 1 (List.map (\<lambda>y. c # y) (x # ys)) else receive_all h dull1 fresh fuel 1 0 (Suc n))) s \<and>
    chan_programs s 0 = Gives (List.map (\<lambda>y. (True, c # y)) (x # ys)) \<and>
    chan_programs s 1 = bind_channel (receive_all h dull1 fresh fuel 1 0 n) (\<lambda>rs. Gives ((True, c # x) # rs)) \<and>
    chan_transit s = {#} \<and> (\<forall>i b. chan_boxes s i b = []) \<and>
    List.map mail_data (chan_got s 1) = List.map (\<lambda>y. c # y) (x # ys)"
proof -
  have token: "char_int h c + 1 = char_int h (c + 1)" using c char_int_follows [of h c "c + 1"] by simp
  obtain fuel' where fuel': "fuel = Suc fuel'" using fuel by (cases fuel) simp_all
  have x: "0 \<notin> set (c # x)" "length (c # x) < MaxMailSize" using texts by simp_all
  define ps where "ps i = (if i = (0 :: nat) then send_all h dull0 fresh 0 1 (List.map (\<lambda>y. c # y) (x # ys))
      else receive_all h dull1 fresh fuel 1 0 (Suc n))" for i
  define f where "f ok = bind_channel (send_all h dull0 fresh 0 1 (List.map (\<lambda>y. c # y) ys)) (\<lambda>rs. Gives ((ok, c # x) # rs))" for ok
  define f' where "f' r = bind_channel (receive_all h dull1 fresh fuel 1 0 n) (\<lambda>rs. Gives (r # rs))" for r
  let ?R = "(channel_step False B 2)\<^sup>*\<^sup>*"
  have "channel_start ps = between ps (bind_channel (SendMessage_program h dull0 fresh 0 1 (c # x)) f)
      (bind_channel (ReceiveMessage_program h dull1 [] fresh (Suc fuel') 1 0) f') [] [] [] []"
    unfolding between_start by (simp add: ps_def f_def [abs_def] f'_def [abs_def] fuel')
  also have "?R \<dots> (between ps (f True) (answering h fresh (c # x) fuel 0 0 dull1 f') [] [] [ack_letter fresh c] [msg_letter fresh (c # x)])"
    using first_exchange [OF x token B, where ?g0.0 = "[]" and ?g1.0 = "[]"] unfolding fuel' by simp
  also have "\<forall>y \<in> set ys. 0 \<notin> set (c # y) \<and> length (c # y) < MaxMailSize" "length ys \<le> fuel" using texts fuel by simp_all
  from swallowed [OF token B this(1) dull1 this(2), where n = 0 and f = "\<lambda>rs. Gives ((True, c # x) # rs)"]
  obtain dull' g0 where "?R (between ps (f True) (answering h fresh (c # x) fuel 0 0 dull1 f') [] []
      [ack_letter fresh c] [msg_letter fresh (c # x)])
    (between ps (Gives ((True, c # x) # List.map (\<lambda>y. (True, c # y)) ys))
      (answering h fresh (c # x) (fuel - length ys) 0 (0 + int (length ys)) dull' f') [] []
      g0 ([msg_letter fresh (c # x)] @ List.map (\<lambda>y. msg_letter fresh (c # y)) ys))"
    unfolding f_def by blast
  then have "?R (between ps (f True) (answering h fresh (c # x) fuel 0 0 dull1 f') [] []
      [ack_letter fresh c] [msg_letter fresh (c # x)])
    (between ps (Gives (List.map (\<lambda>y. (True, c # y)) (x # ys)))
      (answering h fresh (c # x) (fuel - length ys) 0 (int (length ys)) dull' f') [] []
      g0 ([msg_letter fresh (c # x)] @ List.map (\<lambda>y. msg_letter fresh (c # y)) ys))"
    by (simp only: list.map add_0)
  also have "?R \<dots> (between ps (Gives (List.map (\<lambda>y. (True, c # y)) (x # ys))) (f' (True, c # x)) [] []
      g0 ([msg_letter fresh (c # x)] @ List.map (\<lambda>y. msg_letter fresh (c # y)) ys))"
    by (rule answering_ends [OF token]) (use fuel in simp_all)
  finally show ?thesis
    unfolding ps_def [abs_def]
    by (intro exI conjI) (assumption, simp_all add: between_def f'_def msg_letter_def)
qed

lemma messages_starting_alike_are_lost_witness:
  "\<exists>s. (channel_step False 7 2)\<^sup>*\<^sup>* (channel_start (\<lambda>i. if i = 0
      then send_all sample_host [] sample_new_packet 0 1 [[65, 49], [65, 50], [65, 51]]
      else receive_all sample_host (replicate MaxMailSize 0) sample_new_packet 30 1 0 (Suc 2))) s \<and>
    chan_programs s 0 = Gives [(True, [65, 49]), (True, [65, 50]), (True, [65, 51])] \<and>
    (\<forall>i b. chan_boxes s i b = []) \<and> List.map mail_data (chan_got s 1) = [[65, 49], [65, 50], [65, 51]]"
proof -
  have 1: "\<forall>y \<in> set [[49], [50], [51]]. 0 \<notin> set (65 # y) \<and> length (65 # y :: byte list) < MaxMailSize" by (simp add: mail_sizes)
  have 2: "(65 :: byte) \<noteq> (if char_signed sample_host then 127 else 255)" by simp
  have 3: "length [[50], [51 :: byte]] + MAXCATCH < 30" by (simp add: MAXCATCH_def)
  show ?thesis
    using messages_starting_alike_are_lost [of "[49]" "[[50], [51]]" 65 sample_host 7 "replicate MaxMailSize 0" 30 "[]" sample_new_packet 2,
      OF 1 2 order.refl length_replicate 3]
    unfolding list.map by (elim exE conjE) (intro exI conjI)
qed

end
