(* ===== verification/Coff_Noff.thy ===== *)
theory Coff_Noff
  imports Fs_OpenFile
begin

text \<open>
  The converter of object files that the build makes for the user programs (\<^verbatim>\<open>bin/coff2noff.c\<close>): it
  reads a COFF file and writes the NOFF file that the kernel loads. The structures are read and
  written as the compiler lays them out on a 32-bit host. A run ends with the NOFF file or with
  \<^verbatim>\<open>exit(1)\<close>, after which there is no NOFF file.
\<close>

section \<open>The formats\<close>

record filehdr =
  f_magic :: c_short
  f_nscns :: c_short
  f_timdat :: c_int
  f_symptr :: c_int
  f_nsyms :: c_int
  f_opthdr :: c_short
  f_flags :: c_short

record aouthdr =
  magic :: c_short
  vstamp :: c_short
  tsize :: c_int
  dsize :: c_int
  bsize :: c_int
  entry :: c_int
  text_start :: c_int
  data_start :: c_int
  bss_start :: c_int
  gprmask :: c_int
  cprmask :: "c_int list"
  gp_value :: c_int

record scnhdr =
  s_name :: "byte list"
  s_paddr :: c_int
  s_vaddr :: c_int
  s_size :: c_int
  s_scnptr :: c_int
  s_relptr :: c_int
  s_lnnoptr :: c_int
  s_nreloc :: c_short
  s_nlnno :: c_short
  s_flags :: c_int

record segment =
  virtualAddr :: c_int
  inFileAddr :: c_int
  seg_size :: c_int

record noff_header =
  noffMagic :: c_int
  code :: segment
  initData :: segment
  uninitData :: segment

definition MIPSELMAGIC :: c_short where "MIPSELMAGIC = 0x0162"
definition OMAGIC :: c_short where "OMAGIC = 0x107"
definition NOFFMAGIC :: c_int where "NOFFMAGIC = 0xbadfad"

definition sizeof_filehdr :: nat where "sizeof_filehdr = 20"
definition sizeof_aouthdr :: nat where "sizeof_aouthdr = 56"
definition sizeof_scnhdr :: nat where "sizeof_scnhdr = 40"
definition sizeof_NoffHeader :: nat where "sizeof_NoffHeader = 40"

definition filehdr_of_bytes :: "host \<Rightarrow> byte list \<Rightarrow> filehdr" where
  "filehdr_of_bytes h bs =
    \<lparr>f_magic = load_short h ((!) bs) 0, f_nscns = load_short h ((!) bs) 2, f_timdat = load_word h ((!) bs) 4,
     f_symptr = load_word h ((!) bs) 8, f_nsyms = load_word h ((!) bs) 12, f_opthdr = load_short h ((!) bs) 16,
     f_flags = load_short h ((!) bs) 18\<rparr>"

definition aouthdr_of_bytes :: "host \<Rightarrow> byte list \<Rightarrow> aouthdr" where
  "aouthdr_of_bytes h bs =
    \<lparr>magic = load_short h ((!) bs) 0, vstamp = load_short h ((!) bs) 2, tsize = load_word h ((!) bs) 4,
     dsize = load_word h ((!) bs) 8, bsize = load_word h ((!) bs) 12, entry = load_word h ((!) bs) 16,
     text_start = load_word h ((!) bs) 20, data_start = load_word h ((!) bs) 24, bss_start = load_word h ((!) bs) 28,
     gprmask = load_word h ((!) bs) 32, cprmask = List.map (load_word h ((!) bs)) [36, 40, 44, 48],
     gp_value = load_word h ((!) bs) 52\<rparr>"

definition scnhdr_of_bytes :: "host \<Rightarrow> byte list \<Rightarrow> scnhdr" where
  "scnhdr_of_bytes h bs =
    \<lparr>s_name = take 8 bs, s_paddr = load_word h ((!) bs) 8, s_vaddr = load_word h ((!) bs) 12,
     s_size = load_word h ((!) bs) 16, s_scnptr = load_word h ((!) bs) 20, s_relptr = load_word h ((!) bs) 24,
     s_lnnoptr = load_word h ((!) bs) 28, s_nreloc = load_short h ((!) bs) 32, s_nlnno = load_short h ((!) bs) 34,
     s_flags = load_word h ((!) bs) 36\<rparr>"

definition segment_words :: "segment \<Rightarrow> c_int list" where
  "segment_words seg = [virtualAddr seg, inFileAddr seg, seg_size seg]"

definition noff_bytes :: "host \<Rightarrow> noff_header \<Rightarrow> byte list" where
  "noff_bytes h H =
    bytes_of_words h (noffMagic H # segment_words (code H) @ segment_words (initData H) @ segment_words (uninitData H))"

section \<open>Files\<close>

datatype coff_error =
    CannotOpen | FileTooShort | UnableToWrite | NotMipsel | NotOmagic | DataAndRdata | BssAndSbss | UnknownSegment

fun or_exit :: "coff_error + 'a \<Rightarrow> ('a \<Rightarrow> coff_error + 'b) \<Rightarrow> coff_error + 'b" where
  "or_exit (Inl e) f = Inl e"
| "or_exit (Inr x) f = f x"

text \<open>
  The calls of UNIX: \<^verbatim>\<open>read\<close> and \<^verbatim>\<open>write\<close> return -1 for a negative number of bytes, which the checks
  below take for success when it is -1 that was asked for; \<^verbatim>\<open>lseek\<close> to a negative place does nothing.
\<close>

definition coff_Read :: "byte list \<Rightarrow> c_int \<Rightarrow> nat \<Rightarrow> coff_error + (byte list \<times> nat)" where
  "coff_Read file nBytes pos =
    (let buf = (if sint nBytes < 0 then [] else take (unat nBytes) (drop pos file));
         result = (if sint nBytes < 0 then - 1 else of_nat (length buf))
     in if result \<noteq> nBytes then Inl FileTooShort else Inr (buf, pos + length buf))"

definition coff_lseek :: "c_int \<Rightarrow> nat \<Rightarrow> nat" where
  "coff_lseek offset pos = (if sint offset < 0 then pos else unat offset)"

text \<open>A write past the end of a file leaves zeros between.\<close>

definition write_at :: "nat \<Rightarrow> byte list \<Rightarrow> byte list \<Rightarrow> byte list" where
  "write_at pos buf file =
    (if buf = [] then file
     else take pos (file @ replicate (pos - length file) 0) @ buf @ drop (pos + length buf) file)"

text \<open>\<open>opened\<close> says whether the output could be opened, which the program does not check.\<close>

definition coff_Write ::
  "bool \<Rightarrow> byte list \<Rightarrow> c_int \<Rightarrow> byte list \<times> nat \<Rightarrow> coff_error + (byte list \<times> nat)" where
  "coff_Write opened buf nBytes out =
    (let (file, pos) = out;
         buf = (if sint nBytes < 0 then [] else take (unat nBytes) buf);
         result = (if \<not> opened \<or> sint nBytes < 0 then - 1 else nBytes)
     in if result \<noteq> nBytes then Inl UnableToWrite else Inr (write_at pos buf file, pos + length buf))"

section \<open>The conversion\<close>

record coff_state =
  inPos :: nat
  outFile :: "byte list \<times> nat"
  noffH :: noff_header
  inNoffFile :: c_int

text \<open>The comparisons of names, with literals shorter than the array.\<close>

definition name_is :: "string \<Rightarrow> byte list \<Rightarrow> bool" where
  "name_is literal name = (take (Suc (length literal)) name = List.map of_char literal @ [0])"

definition section_to_host :: "host \<Rightarrow> scnhdr \<Rightarrow> scnhdr" where
  "section_to_host h sec =
    sec\<lparr>s_paddr := WordToHost h (s_paddr sec), s_size := WordToHost h (s_size sec),
        s_scnptr := WordToHost h (s_scnptr sec)\<rparr>"

text \<open>The statements that both branches with contents share.\<close>

definition copy_section :: "bool \<Rightarrow> byte list \<Rightarrow> scnhdr \<Rightarrow> coff_state \<Rightarrow> coff_error + coff_state" where
  "copy_section opened file sec st =
    or_exit (coff_Read file (s_size sec) (coff_lseek (s_scnptr sec) (inPos st))) (\<lambda>(buffer, pos).
    or_exit (coff_Write opened buffer (s_size sec) (outFile st)) (\<lambda>out.
    Inr (st\<lparr>inPos := pos, outFile := out, inNoffFile := inNoffFile st + s_size sec\<rparr>)))"

definition convert_section :: "bool \<Rightarrow> byte list \<Rightarrow> scnhdr \<Rightarrow> coff_state \<Rightarrow> coff_error + coff_state" where
  "convert_section opened file sec st =
    (let seg = \<lparr>virtualAddr = s_paddr sec, inFileAddr = inNoffFile st, seg_size = s_size sec\<rparr>;
         H = noffH st
     in if s_size sec = 0 then Inr st
        else if name_is ''.text'' (s_name sec) then copy_section opened file sec (st\<lparr>noffH := H\<lparr>code := seg\<rparr>\<rparr>)
        else if name_is ''.data'' (s_name sec) \<or> name_is ''.rdata'' (s_name sec) then
          (if seg_size (initData H) \<noteq> 0 then Inl DataAndRdata
           else copy_section opened file sec (st\<lparr>noffH := H\<lparr>initData := seg\<rparr>\<rparr>))
        else if name_is ''.bss'' (s_name sec) \<or> name_is ''.sbss'' (s_name sec) then
          (let u = uninitData H
           in if seg_size u \<noteq> 0 then
                (if s_paddr sec = virtualAddr u + seg_size u then Inl BssAndSbss
                 else Inr (st\<lparr>noffH := H\<lparr>uninitData := u\<lparr>seg_size := seg_size u + s_size sec\<rparr>\<rparr>\<rparr>))
              else Inr (st\<lparr>noffH := H\<lparr>uninitData := u\<lparr>virtualAddr := s_paddr sec, seg_size := s_size sec\<rparr>\<rparr>\<rparr>))
        else
          or_exit (coff_Read file (s_size sec) (coff_lseek (s_scnptr sec) (inPos st))) (\<lambda>(buffer, pos).
          or_exit (coff_Write opened buffer (s_size sec) (outFile st)) (\<lambda>out. Inl UnknownSegment)))"

primrec convert_sections :: "bool \<Rightarrow> byte list \<Rightarrow> scnhdr list \<Rightarrow> coff_state \<Rightarrow> coff_error + coff_state" where
  "convert_sections opened file [] st = Inr st"
| "convert_sections opened file (sec # secs) st =
    or_exit (convert_section opened file sec st) (convert_sections opened file secs)"

text \<open>The section headers after the two file headers, as words of the host.\<close>

definition coff_sections :: "host \<Rightarrow> nat \<Rightarrow> byte list \<Rightarrow> scnhdr list" where
  "coff_sections h n bs =
    List.map (\<lambda>i. section_to_host h (scnhdr_of_bytes h (drop (i * sizeof_scnhdr) bs))) [0..<n]"

text \<open>\<open>fresh\<close> is what the variable \<^verbatim>\<open>noffH\<close> holds at first; the result is the contents of the NOFF file.\<close>

definition coff2noff :: "host \<Rightarrow> noff_header \<Rightarrow> byte list option \<Rightarrow> bool \<Rightarrow> coff_error + byte list" where
  "coff2noff h fresh coff opened =
    (case coff of None \<Rightarrow> Inl CannotOpen
     | Some file \<Rightarrow>
         or_exit (coff_Read file (of_nat sizeof_filehdr) 0) (\<lambda>(bs, pos).
         let fileh = filehdr_of_bytes h bs;
             numsections = unat (ShortToHost h (f_nscns fileh))
         in if ShortToHost h (f_magic fileh) \<noteq> MIPSELMAGIC then Inl NotMipsel
            else
              or_exit (coff_Read file (of_nat sizeof_aouthdr) pos) (\<lambda>(bs, pos).
              if ShortToHost h (magic (aouthdr_of_bytes h bs)) \<noteq> OMAGIC then Inl NotOmagic
              else
                or_exit (coff_Read file (of_nat (numsections * sizeof_scnhdr)) pos) (\<lambda>(bs, pos).
                let H = fresh\<lparr>noffMagic := NOFFMAGIC, code := (code fresh)\<lparr>seg_size := 0\<rparr>,
                           initData := (initData fresh)\<lparr>seg_size := 0\<rparr>, uninitData := (uninitData fresh)\<lparr>seg_size := 0\<rparr>\<rparr>
                in or_exit (convert_sections opened file (coff_sections h numsections bs)
                     \<lparr>inPos = pos, outFile = ([], sizeof_NoffHeader), noffH = H, inNoffFile = of_nat sizeof_NoffHeader\<rparr>)
                   (\<lambda>st.
                   or_exit (coff_Write opened (noff_bytes h (noffH st)) (of_nat sizeof_NoffHeader) (fst (outFile st), 0))
                     (\<lambda>out. Inr (fst out)))))))"

end
