(* ===== verification/Coff_Layout.thy ===== *)
theory Coff_Layout
  imports Coff_Noff Mips_Translation
begin

text \<open>
  What the converter writes: the contents of the sections with code and with data one after the
  other, and a header that says where they are. The sections are accepted or refused one by one,
  from the first to the last.
\<close>

section \<open>Sections\<close>

datatype section_kind = Empty | Text | Data | Bss | Other

definition section_kind :: "scnhdr \<Rightarrow> section_kind" where
  "section_kind sec =
    (if s_size sec = 0 then Empty
     else if name_is ''.text'' (s_name sec) then Text
     else if name_is ''.data'' (s_name sec) \<or> name_is ''.rdata'' (s_name sec) then Data
     else if name_is ''.bss'' (s_name sec) \<or> name_is ''.sbss'' (s_name sec) then Bss
     else Other)"

definition of_kind :: "section_kind \<Rightarrow> scnhdr list \<Rightarrow> scnhdr list" where
  "of_kind k secs = filter (\<lambda>sec. section_kind sec = k) secs"

lemma of_kind_snoc [simp]:
  "of_kind k (secs @ [sec]) = of_kind k secs @ (if section_kind sec = k then [sec] else [])"
  by (simp add: of_kind_def)

lemma of_kind_Nil [simp]: "of_kind k [] = []"
  by (simp add: of_kind_def)

definition section_bytes :: "byte list \<Rightarrow> scnhdr \<Rightarrow> byte list" where
  "section_bytes file sec = take (unat (s_size sec)) (drop (unat (s_scnptr sec)) file)"

definition section_fits :: "byte list \<Rightarrow> scnhdr \<Rightarrow> bool" where
  "section_fits file sec \<longleftrightarrow> unat (s_scnptr sec) + unat (s_size sec) \<le> length file"

definition image :: "byte list \<Rightarrow> scnhdr list \<Rightarrow> byte list" where
  "image file secs = concat (List.map (section_bytes file) (filter (\<lambda>sec. section_kind sec \<in> {Text, Data}) secs))"

lemma image_Nil [simp]: "image file [] = []"
  by (simp add: image_def)

lemma image_snoc:
  "image file (secs @ [sec]) = image file secs @ (if section_kind sec \<in> {Text, Data} then section_bytes file sec else [])"
  by (simp add: image_def)

definition total_size :: "scnhdr list \<Rightarrow> nat" where
  "total_size secs = sum_list (List.map (\<lambda>sec. unat (s_size sec)) secs)"

lemma image_length: "length (image file secs) \<le> total_size secs"
  by (induction secs rule: rev_induct) (auto simp: image_snoc total_size_def section_bytes_def)

text \<open>A section is accepted after others when the loop goes on behind it.\<close>

definition accepted_after :: "byte list \<Rightarrow> scnhdr list \<Rightarrow> scnhdr \<Rightarrow> bool" where
  "accepted_after file secs sec =
    (case section_kind sec of
       Empty \<Rightarrow> True
     | Text \<Rightarrow> section_fits file sec
     | Data \<Rightarrow> of_kind Data secs = [] \<and> section_fits file sec
     | Bss \<Rightarrow> of_kind Bss secs \<noteq> [] \<longrightarrow>
         s_paddr sec \<noteq> s_paddr (hd (of_kind Bss secs)) + sum_list (List.map s_size (of_kind Bss secs))
     | Other \<Rightarrow> False)"

definition accepted :: "byte list \<Rightarrow> scnhdr list \<Rightarrow> bool" where
  "accepted file secs \<longleftrightarrow> (\<forall>i < length secs. accepted_after file (take i secs) (secs ! i))"

lemma accepted_snoc: "accepted file (secs @ [sec]) \<longleftrightarrow> accepted file secs \<and> accepted_after file secs sec"
  by (auto simp: accepted_def nth_append less_Suc_eq)

section \<open>The header\<close>

definition placed :: "byte list \<Rightarrow> byte list \<Rightarrow> segment \<Rightarrow> scnhdr \<Rightarrow> bool" where
  "placed file bytes seg sec \<longleftrightarrow> virtualAddr seg = s_paddr sec \<and> seg_size seg = s_size sec \<and>
     (\<exists>a b. bytes = a @ section_bytes file sec @ b \<and> inFileAddr seg = of_nat (sizeof_NoffHeader + length a))"

lemma placed_append: "placed file bytes seg sec \<Longrightarrow> placed file (bytes @ rest) seg sec"
  unfolding placed_def by (metis append.assoc)

definition segments_ok :: "byte list \<Rightarrow> scnhdr list \<Rightarrow> noff_header \<Rightarrow> bool" where
  "segments_ok file secs H \<longleftrightarrow> noffMagic H = NOFFMAGIC \<and>
     (if of_kind Text secs = [] then seg_size (code H) = 0
      else placed file (image file secs) (code H) (last (of_kind Text secs))) \<and>
     (if of_kind Data secs = [] then seg_size (initData H) = 0
      else (\<exists>sec. of_kind Data secs = [sec] \<and> placed file (image file secs) (initData H) sec)) \<and>
     (if of_kind Bss secs = [] then seg_size (uninitData H) = 0
      else virtualAddr (uninitData H) = s_paddr (hd (of_kind Bss secs)) \<and>
        seg_size (uninitData H) = sum_list (List.map s_size (of_kind Bss secs)))"

definition converted :: "byte list \<Rightarrow> scnhdr list \<Rightarrow> coff_state \<Rightarrow> bool" where
  "converted file secs st \<longleftrightarrow> segments_ok file secs (noffH st) \<and>
     inNoffFile st = of_nat (sizeof_NoffHeader + length (image file secs)) \<and>
     outFile st = (if image file secs = [] then [] else replicate sizeof_NoffHeader 0 @ image file secs,
                   sizeof_NoffHeader + length (image file secs))"

section \<open>One section\<close>

lemma of_nat_eq_small:
  assumes "m < 2 ^ 32"
  shows "(of_nat m :: c_int) = n \<longleftrightarrow> m = unat n"
proof -
  have "unat (of_nat m :: c_int) = m" using assms by (simp add: unsigned_of_nat take_bit_nat_eq_self)
  then show ?thesis by auto
qed

lemma coff_Read_ok:
  assumes "unat n < 2 ^ 31"
  shows "coff_Read file n pos =
    (if pos + unat n \<le> length file \<or> n = 0 then Inr (take (unat n) (drop pos file), pos + unat n) else Inl FileTooShort)"
proof -
  have s: "\<not> sint n < 0" using sint_small [of n] assms by simp
  let ?m = "min (length file - pos) (unat n)"
  have "?m < 2 ^ 32" using assms by auto
  then have "(of_nat ?m :: c_int) = n \<longleftrightarrow> ?m = unat n"
    by (rule of_nat_eq_small)
  moreover have "?m = unat n \<longleftrightarrow> pos + unat n \<le> length file \<or> n = 0"
    using unat_eq_zero [of n] by (cases "unat n = 0") auto
  ultimately show ?thesis using s by (auto simp: coff_Read_def Let_def)
qed

lemma copy_section_ok:
  assumes "unat (s_size sec) < 2 ^ 31" and "0 < s_size sec" and "0 \<le> sint (s_scnptr sec)"
  shows "copy_section True file sec st =
    (if section_fits file sec
     then Inr (st\<lparr>inPos := unat (s_scnptr sec) + unat (s_size sec),
       outFile := (write_at (snd (outFile st)) (section_bytes file sec) (fst (outFile st)),
                   snd (outFile st) + unat (s_size sec)),
       inNoffFile := inNoffFile st + s_size sec\<rparr>)
     else Inl FileTooShort)"
  using assms sint_small [of "s_size sec"]
  by (auto simp: copy_section_def coff_Read_ok coff_lseek_def coff_Write_def section_fits_def section_bytes_def Let_def
      split: prod.splits)

lemma section_kind_size: "section_kind sec \<noteq> Empty \<longleftrightarrow> s_size sec \<noteq> 0"
  by (simp add: section_kind_def)

lemma section_bytes_length: "section_fits file sec \<Longrightarrow> length (section_bytes file sec) = unat (s_size sec)"
  by (simp add: section_bytes_def section_fits_def)

text \<open>The sizes do not wrap around.\<close>

lemma unat_sum_sizes:
  "total_size secs < 2 ^ 32 \<Longrightarrow> unat (sum_list (List.map s_size secs)) = total_size secs"
proof (induction secs)
  case (Cons sec secs)
  then have "unat (s_size sec) + unat (sum_list (List.map s_size secs)) < 2 ^ 32"
    and "unat (sum_list (List.map s_size secs)) = total_size secs"
    by (simp_all add: total_size_def)
  then show ?case by (simp add: unat_word_ariths total_size_def)
qed (simp add: total_size_def)

lemma of_kind_size: "total_size (of_kind k secs) \<le> total_size secs"
  by (induction secs rule: rev_induct) (auto simp: total_size_def)

lemma sum_sizes_zero:
  assumes "total_size secs < 2 ^ 32" and "k \<noteq> Empty"
  shows "sum_list (List.map s_size (of_kind k secs)) = 0 \<longleftrightarrow> of_kind k secs = []"
proof (cases "of_kind k secs")
  case (Cons sec rest)
  then have "sec \<in> set (of_kind k secs)" by simp
  then have "s_size sec \<noteq> 0" using assms(2) section_kind_size [of sec] by (auto simp: of_kind_def)
  then have "0 < total_size (of_kind k secs)" by (simp add: Cons total_size_def unat_gt_0)
  moreover have "total_size (of_kind k secs) < 2 ^ 32" using assms(1) of_kind_size [of k secs] by linarith
  ultimately have "unat (sum_list (List.map s_size (of_kind k secs))) \<noteq> 0" by (simp add: unat_sum_sizes)
  then show ?thesis using Cons by auto
qed simp

lemma copied:
  assumes inv: "converted file secs st" and kind: "section_kind sec \<in> {Text, Data}"
    and size: "unat (s_size sec) < 2147483648" "0 \<le> sint (s_scnptr sec)"
    and H: "section_fits file sec \<Longrightarrow> segments_ok file (secs @ [sec]) H"
  shows "if section_fits file sec
    then \<exists>st'. copy_section True file sec (st\<lparr>noffH := H\<rparr>) = Inr st' \<and> converted file (secs @ [sec]) st'
    else copy_section True file sec (st\<lparr>noffH := H\<rparr>) = Inl FileTooShort"
proof -
  have "0 < s_size sec" using kind section_kind_size [of sec] by (auto simp: word_gt_0)
  note copy = copy_section_ok [OF _ this size(2), where st = "st\<lparr>noffH := H\<rparr>"]
  show ?thesis
  proof (cases "section_fits file sec")
    case True
    let ?i = "image file secs" and ?b = "section_bytes file sec"
    have b: "length ?b = unat (s_size sec)" by (rule section_bytes_length [OF True])
    then have "?b \<noteq> []" using \<open>0 < s_size sec\<close> by (auto simp: word_gt_0 unat_eq_zero)
    then have "write_at (sizeof_NoffHeader + length ?i) ?b (fst (outFile st)) = replicate sizeof_NoffHeader 0 @ ?i @ ?b"
      using inv by (cases "?i = []") (auto simp: converted_def write_at_def)
    moreover have "image file (secs @ [sec]) = ?i @ ?b" using kind by (auto simp: image_snoc)
    ultimately show ?thesis
      using True copy size inv H [OF True] b \<open>?b \<noteq> []\<close> by (simp add: converted_def)
  next
    case False
    then show ?thesis using copy size(1) by simp
  qed
qed

section \<open>All sections\<close>

lemma convert_section_ok:
  assumes inv: "converted file secs st" and total: "total_size (secs @ [sec]) < 2147483648 - sizeof_NoffHeader"
    and scn: "0 \<le> sint (s_scnptr sec)"
  shows "if accepted_after file secs sec
    then \<exists>st'. convert_section True file sec st = Inr st' \<and> converted file (secs @ [sec]) st'
    else \<exists>e. convert_section True file sec st = Inl e"
proof -
  let ?H = "noffH st"
  let ?seg = "\<lparr>virtualAddr = s_paddr sec, inFileAddr = inNoffFile st, seg_size = s_size sec\<rparr>"
  have size: "unat (s_size sec) < 2147483648" and before: "total_size secs < 2 ^ 32" using total by (simp_all add: total_size_def)
  have segs: "segments_ok file secs ?H" using inv by (simp add: converted_def)
  have placed: "placed file (image file (secs @ [sec])) ?seg sec" if "section_kind sec \<in> {Text, Data}"
  proof -
    have "image file (secs @ [sec]) = image file secs @ section_bytes file sec @ []" using that by (auto simp: image_snoc)
    moreover have "inNoffFile st = of_nat (sizeof_NoffHeader + length (image file secs))"
      using inv unfolding converted_def by blast
    ultimately show ?thesis unfolding placed_def by (intro conjI exI) simp_all
  qed
  note keep = placed_append [where rest = "section_bytes file sec" and bytes = "image file secs"]
  show ?thesis
  proof (cases "section_kind sec")
    case Empty
    then have "convert_section True file sec st = Inr st" "image file (secs @ [sec]) = image file secs"
      using section_kind_size [of sec] by (simp_all add: convert_section_def image_snoc)
    then show ?thesis using Empty inv by (simp add: accepted_after_def converted_def segments_ok_def)
  next
    case Text
    then have run: "convert_section True file sec st = copy_section True file sec (st\<lparr>noffH := ?H\<lparr>code := ?seg\<rparr>\<rparr>)"
      by (auto simp: convert_section_def section_kind_def Let_def split: if_splits)
    have "segments_ok file (secs @ [sec]) (?H\<lparr>code := ?seg\<rparr>)"
      using segs placed Text keep by (auto simp: segments_ok_def image_snoc split: if_splits)
    from copied [OF inv _ size scn this] Text run show ?thesis by (simp add: accepted_after_def)
  next
    case Data
    have empty: "of_kind Data secs = [] \<longleftrightarrow> seg_size (initData ?H) = 0"
    proof (cases "of_kind Data secs")
      case (Cons d ds)
      then have "d \<in> set (of_kind Data secs)" by simp
      then have "s_size d \<noteq> 0" using section_kind_size [of d] by (auto simp: of_kind_def)
      then show ?thesis using segs Cons by (auto simp: segments_ok_def placed_def)
    qed (use segs in \<open>simp add: segments_ok_def\<close>)
    have run: "convert_section True file sec st =
        (if seg_size (initData ?H) \<noteq> 0 then Inl DataAndRdata
         else copy_section True file sec (st\<lparr>noffH := ?H\<lparr>initData := ?seg\<rparr>\<rparr>))"
      using Data by (auto simp: convert_section_def section_kind_def Let_def split: if_splits)
    show ?thesis
    proof (cases "of_kind Data secs = []")
      case True
      have "segments_ok file (secs @ [sec]) (?H\<lparr>initData := ?seg\<rparr>)"
        using segs placed Data True keep by (auto simp: segments_ok_def image_snoc split: if_splits)
      from copied [OF inv _ size scn this] Data run True empty show ?thesis by (simp add: accepted_after_def)
    next
      case False
      then show ?thesis using run empty Data by (simp add: accepted_after_def)
    qed
  next
    case Bss
    let ?u = "uninitData ?H" and ?bs = "of_kind Bss secs"
    have same: "image file (secs @ [sec]) = image file secs" using Bss by (simp add: image_snoc)
    have empty: "?bs = [] \<longleftrightarrow> seg_size ?u = 0"
      using segs sum_sizes_zero [OF before, of Bss] by (auto simp: segments_ok_def split: if_splits)
    have run: "convert_section True file sec st =
        (if seg_size ?u \<noteq> 0 then
           (if s_paddr sec = virtualAddr ?u + seg_size ?u then Inl BssAndSbss
            else Inr (st\<lparr>noffH := ?H\<lparr>uninitData := ?u\<lparr>seg_size := seg_size ?u + s_size sec\<rparr>\<rparr>\<rparr>))
         else Inr (st\<lparr>noffH := ?H\<lparr>uninitData := ?u\<lparr>virtualAddr := s_paddr sec, seg_size := s_size sec\<rparr>\<rparr>\<rparr>))"
      using Bss by (auto simp: convert_section_def section_kind_def Let_def split: if_splits)
    show ?thesis
    proof (cases "?bs = []")
      case True
      then show ?thesis using run empty Bss inv same by (simp add: accepted_after_def converted_def segments_ok_def)
    next
      case False
      then show ?thesis using run empty Bss inv same by (auto simp: accepted_after_def converted_def segments_ok_def)
    qed
  next
    case Other
    then have "\<exists>e. convert_section True file sec st = Inl e"
      by (cases "coff_Read file (s_size sec) (coff_lseek (s_scnptr sec) (inPos st))")
        (auto simp: convert_section_def section_kind_def coff_Write_def Let_def split: if_splits prod.splits)
    then show ?thesis using Other by (simp add: accepted_after_def)
  qed
qed

lemma convert_sections_snoc:
  "convert_sections opened file (secs @ [sec]) st =
    or_exit (convert_sections opened file secs st) (convert_section opened file sec)"
proof (induction secs arbitrary: st)
  case Nil
  then show ?case by (cases "convert_section opened file sec st") simp_all
next
  case (Cons x secs)
  then show ?case by (cases "convert_section opened file x st") simp_all
qed

lemma convert_sections_ok:
  assumes "converted file [] st"
  shows "total_size secs < 2147483648 - sizeof_NoffHeader \<Longrightarrow> \<forall>sec \<in> set secs. 0 \<le> sint (s_scnptr sec) \<Longrightarrow>
    if accepted file secs then \<exists>st'. convert_sections True file secs st = Inr st' \<and> converted file secs st'
    else \<exists>e. convert_sections True file secs st = Inl e"
proof (induction secs rule: rev_induct)
  case Nil
  then show ?case using assms by (simp add: accepted_def)
next
  case (snoc sec secs)
  have IH: "if accepted file secs then \<exists>st'. convert_sections True file secs st = Inr st' \<and> converted file secs st'
    else \<exists>e. convert_sections True file secs st = Inl e"
    using snoc by (simp add: total_size_def)
  show ?case
  proof (cases "accepted file secs")
    case True
    then obtain st' where st': "convert_sections True file secs st = Inr st'" "converted file secs st'" using IH by auto
    have "0 \<le> sint (s_scnptr sec)" using snoc.prems(2) by simp
    from convert_section_ok [OF st'(2) snoc.prems(1) this] st'(1) True show ?thesis
      by (simp add: convert_sections_snoc accepted_snoc split: if_splits)
  next
    case False
    then show ?thesis using IH by (auto simp: convert_sections_snoc accepted_snoc)
  qed
qed

end
