(* ===== verification/Text_Output.thy ===== *)
theory Text_Output
  imports Nachos_Prelude
begin

text \<open>
  Output: the text a program prints is a string. Here are the numbers as \<^verbatim>\<open>printf\<close> shows them, and its
  format strings.
\<close>

definition tab :: string where "tab = [CHR 0x09]"
definition newline :: string where "newline = [CHR 0x0A]"

section \<open>Numbers\<close>

definition hex_digit :: "nat \<Rightarrow> char" where
  "hex_digit n = ''0123456789abcdef'' ! n"

text \<open>The formats \<^verbatim>\<open>%x\<close> and \<^verbatim>\<open>%08x\<close>.\<close>

fun hex :: "nat \<Rightarrow> string" where
  "hex n = (if n < 16 then [hex_digit n] else hex (n div 16) @ [hex_digit (n mod 16)])"

declare hex.simps [simp del]

definition hex8 :: "c_int \<Rightarrow> string" where
  "hex8 w = (let s = hex (unat w) in replicate (8 - length s) (CHR ''0'') @ s)"

text \<open>The formats \<^verbatim>\<open>%u\<close> and \<^verbatim>\<open>%d\<close>, and \<^verbatim>\<open>%lld\<close>.\<close>

fun digits :: "nat \<Rightarrow> string" where
  "digits n = (if n < 10 then [hex_digit n] else digits (n div 10) @ [hex_digit (n mod 10)])"

declare digits.simps [simp del]

definition decimal :: "int \<Rightarrow> string" where
  "decimal n = (if n < 0 then ''-'' @ digits (nat (- n)) else digits (nat n))"

section \<open>Characters and formats\<close>

text \<open>The bytes of an array printed as characters, and a format string whose conversions have one letter.\<close>

definition characters :: "byte list \<Rightarrow> string" where
  "characters bs = List.map (\<lambda>b. char_of (unat b)) bs"

fun printf :: "string \<Rightarrow> string list \<Rightarrow> string" where
  "printf [] as = []"
| "printf (c # cs) as =
    (if c = CHR ''%'' then (case as of [] \<Rightarrow> printf (tl cs) [] | a # as \<Rightarrow> a @ printf (tl cs) as)
     else c # printf cs as)"

lemma digits_nonempty: "digits n \<noteq> []"
  by (simp add: digits.simps [of n])

lemma hex_nonempty: "hex n \<noteq> []"
  by (simp add: hex.simps [of n])

lemma hex_length: "n < 16 ^ Suc k \<Longrightarrow> length (hex n) \<le> Suc k"
proof (induction k arbitrary: n)
  case 0
  then show ?case by (subst hex.simps) simp
next
  case (Suc k)
  then have "n div 16 < 16 ^ Suc k" by (simp add: less_mult_imp_div_less)
  then show ?case using Suc.IH [of "n div 16"] by (simp add: hex.simps [of n])
qed

text \<open>So \<^verbatim>\<open>%08x\<close> always has eight digits.\<close>

lemma length_hex8: "length (hex8 w) = 8"
proof -
  have "unat w < 16 ^ Suc 7" using unsigned_less [of w, where 'a = nat] by simp
  from hex_length [OF this] show ?thesis by (simp add: hex8_def Let_def)
qed

end
