(* ===== verification/Mips_Interpreter.thy ===== *)
theory Mips_Interpreter
  imports Coff_Noff Text_Output
begin

unbundle bit_operations_syntax

text \<open>
  The older interpreter of MIPS programs (\<^verbatim>\<open>bin/execute.c\<close>, \<^verbatim>\<open>bin/system.c\<close> and the loader of
  \<^verbatim>\<open>bin/main.c\<close>), with its encodings (\<^verbatim>\<open>bin/encode.h\<close>, \<^verbatim>\<open>bin/instr.h\<close>, \<^verbatim>\<open>bin/int.h\<close>). It executes without
  delayed loads, traps or translation, and hands system calls to UNIX, whose effects are a
  parameter. Shifts by a register use the low five bits of the count, as the host's instructions do.
\<close>

section \<open>Encodings\<close>

definition I_SPECIAL :: nat where "I_SPECIAL = 0"
definition I_BCOND :: nat where "I_BCOND = 1"
definition I_J :: nat where "I_J = 2"
definition I_JAL :: nat where "I_JAL = 3"
definition I_BEQ :: nat where "I_BEQ = 4"
definition I_BNE :: nat where "I_BNE = 5"
definition I_BLEZ :: nat where "I_BLEZ = 6"
definition I_BGTZ :: nat where "I_BGTZ = 7"
definition I_ADDI :: nat where "I_ADDI = 8"
definition I_ADDIU :: nat where "I_ADDIU = 9"
definition I_SLTI :: nat where "I_SLTI = 10"
definition I_SLTIU :: nat where "I_SLTIU = 11"
definition I_ANDI :: nat where "I_ANDI = 12"
definition I_ORI :: nat where "I_ORI = 13"
definition I_XORI :: nat where "I_XORI = 14"
definition I_LUI :: nat where "I_LUI = 15"
definition I_COP0 :: nat where "I_COP0 = 16"
definition I_COP1 :: nat where "I_COP1 = 17"
definition I_COP2 :: nat where "I_COP2 = 18"
definition I_COP3 :: nat where "I_COP3 = 19"
definition I_LB :: nat where "I_LB = 32"
definition I_LH :: nat where "I_LH = 33"
definition I_LWL :: nat where "I_LWL = 34"
definition I_LW :: nat where "I_LW = 35"
definition I_LBU :: nat where "I_LBU = 36"
definition I_LHU :: nat where "I_LHU = 37"
definition I_LWR :: nat where "I_LWR = 38"
definition I_SB :: nat where "I_SB = 40"
definition I_SH :: nat where "I_SH = 41"
definition I_SWL :: nat where "I_SWL = 42"
definition I_SW :: nat where "I_SW = 43"
definition I_SWR :: nat where "I_SWR = 46"
definition I_LWC0 :: nat where "I_LWC0 = 48"
definition I_LWC1 :: nat where "I_LWC1 = 49"
definition I_LWC2 :: nat where "I_LWC2 = 50"
definition I_LWC3 :: nat where "I_LWC3 = 51"
definition I_SWC0 :: nat where "I_SWC0 = 56"
definition I_SWC1 :: nat where "I_SWC1 = 57"
definition I_SWC2 :: nat where "I_SWC2 = 58"
definition I_SWC3 :: nat where "I_SWC3 = 59"
definition I_SLL :: nat where "I_SLL = 0"
definition I_SRL :: nat where "I_SRL = 2"
definition I_SRA :: nat where "I_SRA = 3"
definition I_SLLV :: nat where "I_SLLV = 4"
definition I_SRLV :: nat where "I_SRLV = 6"
definition I_SRAV :: nat where "I_SRAV = 7"
definition I_JR :: nat where "I_JR = 8"
definition I_JALR :: nat where "I_JALR = 9"
definition I_SYSCALL :: nat where "I_SYSCALL = 12"
definition I_BREAK :: nat where "I_BREAK = 13"
definition I_MFHI :: nat where "I_MFHI = 16"
definition I_MTHI :: nat where "I_MTHI = 17"
definition I_MFLO :: nat where "I_MFLO = 18"
definition I_MTLO :: nat where "I_MTLO = 19"
definition I_MULT :: nat where "I_MULT = 24"
definition I_MULTU :: nat where "I_MULTU = 25"
definition I_DIV :: nat where "I_DIV = 26"
definition I_DIVU :: nat where "I_DIVU = 27"
definition I_ADD :: nat where "I_ADD = 32"
definition I_ADDU :: nat where "I_ADDU = 33"
definition I_SUB :: nat where "I_SUB = 34"
definition I_SUBU :: nat where "I_SUBU = 35"
definition I_AND :: nat where "I_AND = 36"
definition I_OR :: nat where "I_OR = 37"
definition I_XOR :: nat where "I_XOR = 38"
definition I_NOR :: nat where "I_NOR = 39"
definition I_SLT :: nat where "I_SLT = 42"
definition I_SLTU :: nat where "I_SLTU = 43"
definition I_BLTZ :: nat where "I_BLTZ = 0"
definition I_BGEZ :: nat where "I_BGEZ = 1"
definition I_BLTZAL :: nat where "I_BLTZAL = 16"
definition I_BGEZAL :: nat where "I_BGEZAL = 17"
definition I_NOP :: nat where "I_NOP = 0"

lemmas I_defs =
  I_SPECIAL_def I_BCOND_def I_J_def I_JAL_def I_BEQ_def I_BNE_def I_BLEZ_def I_BGTZ_def I_ADDI_def
  I_ADDIU_def I_SLTI_def I_SLTIU_def I_ANDI_def I_ORI_def I_XORI_def I_LUI_def I_COP0_def I_COP1_def
  I_COP2_def I_COP3_def I_LB_def I_LH_def I_LWL_def I_LW_def I_LBU_def I_LHU_def I_LWR_def I_SB_def
  I_SH_def I_SWL_def I_SW_def I_SWR_def I_LWC0_def I_LWC1_def I_LWC2_def I_LWC3_def I_SWC0_def
  I_SWC1_def I_SWC2_def I_SWC3_def I_SLL_def I_SRL_def I_SRA_def I_SLLV_def I_SRLV_def I_SRAV_def
  I_JR_def I_JALR_def I_SYSCALL_def I_BREAK_def I_MFHI_def I_MTHI_def I_MFLO_def I_MTLO_def
  I_MULT_def I_MULTU_def I_DIV_def I_DIVU_def I_ADD_def I_ADDU_def I_SUB_def I_SUBU_def I_AND_def
  I_OR_def I_XOR_def I_NOR_def I_SLT_def I_SLTU_def I_BLTZ_def I_BGEZ_def I_BLTZAL_def I_BGEZAL_def
  I_NOP_def

definition i_field :: "nat \<Rightarrow> c_int \<Rightarrow> nat" where
  "i_field n i = unat (drop_bit n i AND 0x1f)"

definition i_rd :: "c_int \<Rightarrow> nat" where "i_rd i = i_field 11 i"
definition i_rt :: "c_int \<Rightarrow> nat" where "i_rt i = i_field 16 i"
definition i_rs :: "c_int \<Rightarrow> nat" where "i_rs i = i_field 21 i"
definition shamt :: "c_int \<Rightarrow> nat" where "shamt i = i_field 6 i"

definition immed :: "c_int \<Rightarrow> c_int" where
  "immed i = (if i AND 0x8000 \<noteq> 0 then i OR (- 0x8000) else i AND 0x7fff)"

section \<open>State and memory\<close>

record interp =
  Reg :: "nat \<Rightarrow> c_int"
  HI :: c_int
  LO :: c_int
  i_pc :: c_int
  i_npc :: c_int
  icount :: c_int
  mem :: "nat \<Rightarrow> byte"

definition MEMSIZE :: nat where "MEMSIZE = 2 ^ 24"
definition memoffset :: c_int where "memoffset = 0x10000000"

text \<open>The place in the array \<^verbatim>\<open>mem\<close> of \<open>n\<close> bytes at an address.\<close>

definition place :: "c_int \<Rightarrow> nat \<Rightarrow> nat res" where
  "place addr n = (let p = unat (addr - memoffset) in if p + n \<le> MEMSIZE then Inr p else Inl OutOfBounds)"

definition fetch :: "host \<Rightarrow> c_int \<Rightarrow> interp \<Rightarrow> c_int res" where
  "fetch h addr t = and_then (place addr 4) (\<lambda>p. Inr (load_word h (mem t) p))"

definition sfetch :: "host \<Rightarrow> c_int \<Rightarrow> interp \<Rightarrow> c_int res" where
  "sfetch h addr t = and_then (place addr 2) (\<lambda>p. Inr (scast (load_short h (mem t) p)))"

definition usfetch :: "host \<Rightarrow> c_int \<Rightarrow> interp \<Rightarrow> c_int res" where
  "usfetch h addr t = and_then (place addr 2) (\<lambda>p. Inr (ucast (load_short h (mem t) p)))"

definition cfetch :: "host \<Rightarrow> c_int \<Rightarrow> interp \<Rightarrow> c_int res" where
  "cfetch h addr t = and_then (place addr 1) (\<lambda>p. Inr (char_value h (mem t p)))"

definition ucfetch :: "c_int \<Rightarrow> interp \<Rightarrow> c_int res" where
  "ucfetch addr t = and_then (place addr 1) (\<lambda>p. Inr (ucast (mem t p)))"

definition store_mem :: "host \<Rightarrow> c_int \<Rightarrow> c_int \<Rightarrow> interp \<Rightarrow> interp res" where
  "store_mem h addr i t = and_then (place addr 4) (\<lambda>p. Inr (t\<lparr>mem := store_word h (mem t) p i\<rparr>))"

definition sstore :: "host \<Rightarrow> c_int \<Rightarrow> c_int \<Rightarrow> interp \<Rightarrow> interp res" where
  "sstore h addr i t = and_then (place addr 2) (\<lambda>p. Inr (t\<lparr>mem := store_short h (mem t) p (ucast i)\<rparr>))"

definition cstore :: "c_int \<Rightarrow> c_int \<Rightarrow> interp \<Rightarrow> interp res" where
  "cstore addr i t = and_then (place addr 1) (\<lambda>p. Inr (t\<lparr>mem := (mem t)(p := ucast i)\<rparr>))"

definition put_Reg :: "nat \<Rightarrow> c_int \<Rightarrow> interp \<Rightarrow> interp" where
  "put_Reg n v t = t\<lparr>Reg := (Reg t)(n := v)\<rparr>"

section \<open>System calls\<close>

datatype interp_outcome = Running interp | Exited int

text \<open>
  The calls that go to UNIX: the result, and the memory after it, of the call with this number and
  these arguments.
\<close>

type_synonym unix_calls = "int \<Rightarrow> c_int \<Rightarrow> c_int \<Rightarrow> c_int \<Rightarrow> (nat \<Rightarrow> byte) \<Rightarrow> c_int \<times> (nat \<Rightarrow> byte)"

definition system_trap :: "unix_calls \<Rightarrow> interp \<Rightarrow> interp_outcome res" where
  "system_trap unix t =
    (let syscallno = sint (Reg t 2); o0 = Reg t 4; o1 = Reg t 5; o2 = Reg t 6;
         call = (\<lambda>o1. let (r, m) = unix syscallno o0 o1 o2 (mem t) in (put_Reg 1 r t)\<lparr>mem := m\<rparr>)
     in if syscallno = 1 then Inr (Exited 0)
        else if syscallno \<in> {3, 4, 5, 19, 62, 64} then Inr (Running (call o1))
        else if syscallno = 6 then Inr (Running (put_Reg 1 0 t))
        else if syscallno = 17 then Inr (Running (put_Reg 1 (word_of_int ((sint o0 sdiv 8192 + 1) * 8192)) t))
        else if syscallno = 54 then
          (let size = signed_drop_bit 16 o1 AND 0x7f;
               group = signed_drop_bit 8 o1 AND 0xff;
               o1 = (if group = of_char (CHR ''t'') \<and> size = 8
                     then (o1 AND NOT (push_bit 16 0x7f)) OR push_bit 16 6 else o1)
           in Inr (Running (put_Reg 1 0 (call o1))))
        else Inr (Exited 2))"

text \<open>A breakpoint only prints before it is a system call.\<close>

definition system_break :: "unix_calls \<Rightarrow> interp \<Rightarrow> interp_outcome res" where
  "system_break unix t = system_trap unix t"

section \<open>Instructions\<close>

definition half :: "c_int \<Rightarrow> c_int" where "half x = x AND 0xffff"

definition high_half_of :: "c_int \<Rightarrow> c_int" where "high_half_of x = signed_drop_bit 16 x AND 0xffff"

text \<open>The high word as \<^verbatim>\<open>I_MULT\<close> and \<^verbatim>\<open>I_MULTU\<close> put it together.\<close>

definition cross_product :: "c_int \<Rightarrow> c_int \<Rightarrow> c_int" where
  "cross_product t1 t2 =
    high_half_of t1 * high_half_of t2 + signed_drop_bit 16 (high_half_of t1 * half t2) +
    signed_drop_bit 16 (high_half_of t2 * half t1)"

definition interp_mult :: "c_int \<Rightarrow> c_int \<Rightarrow> c_int \<times> c_int" where
  "interp_mult a b =
    (let neg = ((sint a < 0) \<noteq> (sint b < 0));
         t1 = (if sint a < 0 then - a else a);
         t2 = (if sint b < 0 then - b else b);
         lo = t1 * t2;
         hi = cross_product t1 t2
     in if neg then
          (let lo = NOT lo + 1; hi = NOT hi in (if lo = 0 then hi + 1 else hi, lo))
        else (hi, lo))"

definition to_Reg :: "nat \<Rightarrow> c_int \<Rightarrow> interp \<Rightarrow> interp_outcome res" where
  "to_Reg n v t = Inr (Running (put_Reg n v t))"

definition to_HI_LO :: "c_int \<Rightarrow> c_int \<Rightarrow> interp \<Rightarrow> interp_outcome res" where
  "to_HI_LO hi lo t = Inr (Running (t\<lparr>HI := hi, LO := lo\<rparr>))"

definition jump_if :: "bool \<Rightarrow> c_int \<Rightarrow> interp \<Rightarrow> interp_outcome res" where
  "jump_if c target t = Inr (Running (if c then t\<lparr>i_npc := target\<rparr> else t))"

definition i_truth :: "bool \<Rightarrow> c_int" where "i_truth b = (if b then 1 else 0)"

text \<open>The case \<^verbatim>\<open>I_SPECIAL\<close>; \<open>xpc\<close> is the address of the instruction.\<close>

definition interp_special :: "unix_calls \<Rightarrow> c_int \<Rightarrow> c_int \<Rightarrow> interp \<Rightarrow> interp_outcome res" where
  "interp_special unix xpc i t =
    (let s = Reg t (i_rs i); r = Reg t (i_rt i); d = i_rd i; oc = unat (i AND 0x3f); cnt = unat (s AND 0x1f)
     in if oc = I_SLL then to_Reg d (push_bit (shamt i) r) t
        else if oc = I_SRL then to_Reg d (drop_bit (shamt i) r) t
        else if oc = I_SRA then to_Reg d (signed_drop_bit (shamt i) r) t
        else if oc = I_SLLV then to_Reg d (push_bit cnt r) t
        else if oc = I_SRLV then to_Reg d (drop_bit cnt r) t
        else if oc = I_SRAV then to_Reg d (signed_drop_bit cnt r) t
        else if oc = I_JR then jump_if True s t
        else if oc = I_JALR then to_Reg d (xpc + 8) (t\<lparr>i_npc := s\<rparr>)
        else if oc = I_SYSCALL then system_trap unix t
        else if oc = I_BREAK then system_break unix t
        else if oc = I_MFHI then to_Reg d (HI t) t
        else if oc = I_MTHI then to_HI_LO s (LO t) t
        else if oc = I_MFLO then to_Reg d (LO t) t
        else if oc = I_MTLO then to_HI_LO (HI t) s t
        else if oc = I_MULT then to_HI_LO (fst (interp_mult s r)) (snd (interp_mult s r)) t
        else if oc = I_MULTU then to_HI_LO (cross_product s r) (s * r) t
        else if oc = I_DIV then
          (if r = 0 \<or> sint s = - (2 ^ 31) \<and> sint r = - 1 then Inl DivideTrap
           else to_HI_LO (word_of_int (sint s smod sint r)) (word_of_int (sint s sdiv sint r)) t)
        else if oc = I_DIVU then (if r = 0 then Inl DivideTrap else to_HI_LO (s mod r) (s div r) t)
        else if oc = I_ADD \<or> oc = I_ADDU then to_Reg d (s + r) t
        else if oc = I_SUB \<or> oc = I_SUBU then to_Reg d (s - r) t
        else if oc = I_AND then to_Reg d (s AND r) t
        else if oc = I_OR then to_Reg d (s OR r) t
        else if oc = I_XOR then to_Reg d (s XOR r) t
        else if oc = I_NOR then to_Reg d (NOT (s OR r)) t
        else if oc = I_SLT then to_Reg d (i_truth (sint s < sint r)) t
        else if oc = I_SLTU then to_Reg d (i_truth (uint s < uint r)) t
        else Inr (Exited 2))"

text \<open>The case \<^verbatim>\<open>I_BCOND\<close>, in which the field \<^verbatim>\<open>rt\<close> is the operation.\<close>

definition interp_bcond :: "c_int \<Rightarrow> c_int \<Rightarrow> interp \<Rightarrow> interp_outcome res" where
  "interp_bcond xpc i t =
    (let target = xpc + 4 + push_bit 2 (immed i); oc = i_rt i; linked = put_Reg 31 (xpc + 8) t
     in if oc = I_BLTZ then jump_if (sint (Reg t (i_rs i)) < 0) target t
        else if oc = I_BGEZ then jump_if (0 \<le> sint (Reg t (i_rs i))) target t
        else if oc = I_BLTZAL then jump_if (sint (Reg linked (i_rs i)) < 0) target linked
        else if oc = I_BGEZAL then jump_if (0 \<le> sint (Reg linked (i_rs i))) target linked
        else Inr (Exited 2))"

definition load_Reg :: "nat \<Rightarrow> c_int res \<Rightarrow> interp \<Rightarrow> interp_outcome res" where
  "load_Reg n v t = and_then v (\<lambda>v. to_Reg n v t)"

definition stored :: "interp res \<Rightarrow> interp_outcome res" where
  "stored t = and_then t (\<lambda>t. Inr (Running t))"

text \<open>The other cases of the switch.\<close>

definition interp_op :: "unix_calls \<Rightarrow> host \<Rightarrow> c_int \<Rightarrow> c_int \<Rightarrow> interp \<Rightarrow> interp_outcome res" where
  "interp_op unix h xpc i t =
    (let s = Reg t (i_rs i); r = Reg t (i_rt i); d = i_rt i; oc = unat (drop_bit 26 i AND 0x3f);
         target = xpc + 4 + push_bit 2 (immed i);
         absolute = (xpc AND 0xf0000000) OR push_bit 2 (i AND 0x03ffffff);
         addr = s + immed i
     in if oc = I_SPECIAL then interp_special unix xpc i t
        else if oc = I_BCOND then interp_bcond xpc i t
        else if oc = I_J then jump_if True absolute t
        else if oc = I_JAL then jump_if True absolute (put_Reg 31 (xpc + 8) t)
        else if oc = I_BEQ then jump_if (s = r) target t
        else if oc = I_BNE then jump_if (s \<noteq> r) target t
        else if oc = I_BLEZ then jump_if (sint s \<le> 0) target t
        else if oc = I_BGTZ then jump_if (0 < sint s) target t
        else if oc = I_ADDI \<or> oc = I_ADDIU then to_Reg d (s + immed i) t
        else if oc = I_SLTI then to_Reg d (i_truth (sint s < sint (immed i))) t
        else if oc = I_SLTIU then to_Reg d (i_truth (uint s < uint (immed i))) t
        else if oc = I_ANDI then to_Reg d (s AND immed i) t
        else if oc = I_ORI then to_Reg d (s OR immed i) t
        else if oc = I_XORI then to_Reg d (s XOR immed i) t
        else if oc = I_LUI then to_Reg d (push_bit 16 i) t
        else if oc = I_LB then load_Reg d (cfetch h addr t) t
        else if oc = I_LH then load_Reg d (sfetch h addr t) t
        else if oc = I_LWL then
          load_Reg d (and_then (fetch h (addr AND 0xfffffffc) t) (\<lambda>v.
            Inr ((r AND signed_drop_bit (8 * unat (- addr AND 0x03)) (- 1)) OR push_bit (8 * unat (addr AND 0x03)) v))) t
        else if oc = I_LW then load_Reg d (fetch h addr t) t
        else if oc = I_LBU then load_Reg d (ucfetch addr t) t
        else if oc = I_LHU then load_Reg d (usfetch h addr t) t
        else if oc = I_LWR then
          load_Reg d (and_then (fetch h (addr AND 0xfffffffc) t) (\<lambda>v.
            Inr ((if addr AND 0x03 = 0 then 0 else r AND push_bit (8 * unat (addr AND 0x03)) (- 1)) OR
                 signed_drop_bit (8 * unat (- addr AND 0x03)) v))) t
        else if oc = I_SB then stored (cstore addr r t)
        else if oc = I_SH then stored (sstore h addr r t)
        else if oc = I_SW then stored (store_mem h addr r t)
        else Inr (Exited 2))"

section \<open>The loop\<close>

text \<open>One iteration of the loop of \<^verbatim>\<open>runprogram\<close>.\<close>

definition interp_step :: "unix_calls \<Rightarrow> host \<Rightarrow> interp \<Rightarrow> interp_outcome res" where
  "interp_step unix h t =
    (let xpc = i_pc t;
         t = t\<lparr>icount := icount t + 1, i_pc := i_npc t, i_npc := i_npc t + 4\<rparr>
     in and_then (fetch h xpc t) (\<lambda>instr.
        let t = put_Reg 0 0 t
        in if instr = 0 then Inr (Running t) else interp_op unix h xpc instr t))"

primrec interp_run :: "unix_calls \<Rightarrow> host \<Rightarrow> nat \<Rightarrow> interp \<Rightarrow> interp_outcome res" where
  "interp_run unix h 0 t = Inr (Running t)"
| "interp_run unix h (Suc n) t =
    and_then (interp_step unix h t) (\<lambda>r.
    case r of Exited e \<Rightarrow> Inr (Exited e) | Running t \<Rightarrow> interp_run unix h n t)"

text \<open>Bytes copied to an address.\<close>

primrec copy_bytes :: "byte list \<Rightarrow> c_int \<Rightarrow> interp \<Rightarrow> interp res" where
  "copy_bytes [] addr t = Inr t"
| "copy_bytes (b # bs) addr t = and_then (cstore addr (ucast b) t) (copy_bytes bs (addr + 1))"

text \<open>The arguments on the stack; \<open>argv\<close> holds them without their terminating zeros.\<close>

primrec push_args :: "host \<Rightarrow> byte list list \<Rightarrow> c_int \<Rightarrow> c_int \<Rightarrow> interp \<Rightarrow> interp res" where
  "push_args h [] aci ai t = Inr t"
| "push_args h (a # as) aci ai t =
    and_then (copy_bytes (a @ [0]) ai t) (\<lambda>t.
    and_then (store_mem h aci ai t) (push_args h as (aci + 4) (ai + of_nat (length a + 1))))"

definition start_program :: "host \<Rightarrow> c_int \<Rightarrow> byte list list \<Rightarrow> interp \<Rightarrow> interp res" where
  "start_program h startpc argv t =
    (let sp = of_nat (MEMSIZE - 1024) + memoffset;
         t = put_Reg 29 sp (t\<lparr>icount := 0, i_pc := startpc, i_npc := startpc + 4\<rparr>)
     in and_then (store_mem h sp (of_nat (length argv)) t) (push_args h argv (sp + 4) (sp + 4 + 32)))"

definition runprogram :: "unix_calls \<Rightarrow> host \<Rightarrow> nat \<Rightarrow> c_int \<Rightarrow> byte list list \<Rightarrow> interp \<Rightarrow> interp_outcome res" where
  "runprogram unix h n startpc argv t = and_then (start_program h startpc argv t) (interp_run unix h n)"

section \<open>The loader\<close>

text \<open>
  The macro \<^verbatim>\<open>LOADSECTION\<close>: \<^verbatim>\<open>getc\<close> gives -1 at the end of the file, which is the one just opened
  (the code reads the stream \<^verbatim>\<open>main\<close> has closed); the size of the memory is compared
  after the bytes are written.
\<close>

definition load_section :: "byte list \<Rightarrow> scnhdr \<Rightarrow> interp \<Rightarrow> interp_outcome res" where
  "load_section file head t =
    (if s_scnptr head = 0 then Inr (Running t)
     else
       (let n = (if sint (s_size head) < 0 then 0 else unat (s_size head));
            bytes = List.map (\<lambda>j. if j < length file then file ! j else - 1)
              [unat (s_scnptr head)..<unat (s_scnptr head) + n]
        in and_then (copy_bytes bytes (s_vaddr head) t) (\<lambda>t.
           if int MEMSIZE \<le> sint (s_vaddr head + of_nat n - memoffset) then Inr (Exited 1) else Inr (Running t))))"

text \<open>
  What is printed comes with the result: the sections that are missing, by their names without the dot, and
  that the memory is too small.
\<close>

definition too_small :: string where "too_small = ''MEMSIZE too small. Fix and recompile.'' @ newline"

primrec load_sections ::
  "(scnhdr \<Rightarrow> interp \<Rightarrow> interp_outcome res) \<Rightarrow> (string \<times> scnhdr option) list \<Rightarrow> interp \<Rightarrow> (string \<times> interp_outcome) res"
where
  "load_sections LOADSECTION [] t = Inr ([], Running t)"
| "load_sections LOADSECTION (nh # rest) t =
    (case snd nh of
       None \<Rightarrow>
         and_then (load_sections LOADSECTION rest t) (\<lambda>(s, r).
         Inr (fst nh @ '' section header missing'' @ newline @ s, r))
     | Some head \<Rightarrow>
         and_then (LOADSECTION head t) (\<lambda>r.
         case r of
           Exited e \<Rightarrow> Inr (too_small, Exited e)
         | Running t \<Rightarrow> load_sections LOADSECTION rest t))"

text \<open>
  An object file as the library gives it: its type, its bytes and its sections by name. \<open>ldopen\<close> is the
  library's; a file that \<^verbatim>\<open>fopen\<close> finds and \<open>ldopen\<close> refuses ends a program the same way as one that is not
  there.
\<close>

record ld_file =
  ld_TYPE :: c_short
  ld_bytes :: "byte list"
  ldnshread :: "string \<Rightarrow> scnhdr option"

definition six_sections :: "ld_file \<Rightarrow> (string \<times> scnhdr option) list" where
  "six_sections f =
    List.map (\<lambda>name. (name, ldnshread f (CHR ''.'' # name))) [''text'', ''rdata'', ''data'', ''sdata'', ''sbss'', ''bss'']"

definition load_program :: "ld_file \<Rightarrow> interp \<Rightarrow> (string \<times> interp_outcome) res" where
  "load_program f t =
    (if ld_TYPE f \<noteq> 0x162 then Inr ([], Exited 0)
     else load_sections (load_section (ld_bytes f)) (six_sections f) t)"

end
