(* ===== verification/Mips_Carry.thy ===== *)
theory Mips_Carry
  imports Mips_Interpreter Mips_Mult
begin

unbundle bit_operations_syntax

text \<open>
  The products of the two programs. The simulator's multiplier (\<open>Mult\<close>) is exact; the older interpreter
  puts the high word together from the products of half words and drops what is carried into it. The
  condition under which nothing is dropped, and the proof that it is exact.
\<close>

section \<open>Halves of a word\<close>

text \<open>
  Nothing is carried out of the low halves of the cross products, and neither of them is negative as
  an \<^verbatim>\<open>int\<close>, so that the arithmetic shift is the division.
\<close>

definition no_carry :: "c_int \<Rightarrow> c_int \<Rightarrow> bool" where
  "no_carry a b \<longleftrightarrow>
     (let al = uint a mod 2 ^ 16; ah = uint a div 2 ^ 16; bl = uint b mod 2 ^ 16; bh = uint b div 2 ^ 16
      in ah * bl < 2 ^ 31 \<and> bh * al < 2 ^ 31 \<and>
         al * bl div 2 ^ 16 + ah * bl mod 2 ^ 16 + bh * al mod 2 ^ 16 < 2 ^ 16)"

lemma uint_half: "uint (half x) = uint x mod 2 ^ 16"
proof -
  have "half x = take_bit 16 x" by (simp add: half_def masks take_bit_eq_mask)
  then show ?thesis by (simp add: unsigned_take_bit_eq take_bit_eq_mod uint_mod)
qed

lemma uint_high_half: "uint (high_half_of x) = uint x div 2 ^ 16"
proof -
  have "high_half_of x = drop_bit 16 x"
    unfolding high_half_of_def masks(4)
    by (rule bit_word_eqI) (auto simp: bit_simps min_def dest: bit_imp_le_length)
  then show ?thesis by (simp add: unsigned_drop_bit_eq drop_bit_eq_div take_bit_eq_mod uint_div)
qed

lemma shifted: "signed_drop_bit 16 x = word_of_int (uint x div 2 ^ 16 - (if 2 ^ 31 \<le> uint x then 2 ^ 16 else 0))"
  for x :: c_int
proof -
  have "signed_drop_bit 16 x = word_of_int (sint (signed_drop_bit 16 x))" by simp
  also have "\<dots> = word_of_int (sint x div 2 ^ 16)"
    by (simp only: sint_signed_drop_bit_eq drop_bit_eq_div)
  finally have "signed_drop_bit 16 x = word_of_int (sint x div 2 ^ 16)" .
  moreover have "(uint x - 2 ^ 32) div 2 ^ 16 = uint x div 2 ^ 16 - 2 ^ 16"
    using div_mult_self1 [of "2 ^ 16" "uint x" "- (2 ^ 16)"] by simp
  ultimately show ?thesis by (simp add: sint_uint_c_int)
qed

lemma half_product:
  fixes a b :: int
  assumes "0 \<le> a" "a < 2 ^ 16" "0 \<le> b" "b < 2 ^ 16"
  shows "0 \<le> a * b" "a * b \<le> (2 ^ 16 - 1) * (2 ^ 16 - 1)"
  using assms mult_mono [of a "2 ^ 16 - 1" b "2 ^ 16 - 1"] by simp_all

lemma uint_half_product:
  assumes "uint x < 2 ^ 16" "uint y < 2 ^ 16"
  shows "uint (x * y) = uint x * uint (y :: c_int)"
  using half_product [OF _ assms(1) _ assms(2)] by (simp add: uint_word_ariths)

section \<open>The high word\<close>

lemma high_of_halves:
  fixes ah al bh bl :: int
  shows "(ah * 2 ^ 16 + al) * (bh * 2 ^ 16 + bl) div 2 ^ 32 =
    ah * bh + ah * bl div 2 ^ 16 + bh * al div 2 ^ 16 +
    (al * bl div 2 ^ 16 + ah * bl mod 2 ^ 16 + bh * al mod 2 ^ 16) div 2 ^ 16"
proof -
  define p q r where "p = ah * bl" and "q = bh * al" and "r = al * bl"
  have "(ah * 2 ^ 16 + al) * (bh * 2 ^ 16 + bl) div 2 ^ 32 = (ah * bh * 2 ^ 32 + ((p + q) * 2 ^ 16 + r)) div 2 ^ 32"
    by (simp add: p_def q_def r_def algebra_simps)
  also have "\<dots> = ah * bh + ((p + q) * 2 ^ 16 + r) div 2 ^ 16 div 2 ^ 16"
    by (simp add: div_mult2_eq [symmetric] zdiv_zmult2_eq [symmetric])
  also have "((p + q) * 2 ^ 16 + r) div 2 ^ 16 = p + q + r div 2 ^ 16" by simp
  also have "p + q + r div 2 ^ 16 = (p div 2 ^ 16 + q div 2 ^ 16) * 2 ^ 16 + (r div 2 ^ 16 + p mod 2 ^ 16 + q mod 2 ^ 16)"
    using div_mult_mod_eq [of p "2 ^ 16"] div_mult_mod_eq [of q "2 ^ 16"] by (simp add: algebra_simps)
  also have "\<dots> div 2 ^ 16 = p div 2 ^ 16 + q div 2 ^ 16 + (r div 2 ^ 16 + p mod 2 ^ 16 + q mod 2 ^ 16) div 2 ^ 16"
    by (rule div_mult_self3) simp
  finally show ?thesis by (simp only: p_def q_def r_def add.assoc)
qed

lemma carried:
  fixes x y z :: int
  assumes "0 \<le> x" "x < 2 ^ 16" "0 \<le> y" "y < 2 ^ 16" "0 \<le> z" "z < 2 ^ 16"
  shows "0 \<le> (x + y + z) div 2 ^ 16" and "(x + y + z) div 2 ^ 16 \<le> 2"
    and "(x + y + z) div 2 ^ 16 = 0 \<longleftrightarrow> x + y + z < 2 ^ 16"
proof -
  show "0 \<le> (x + y + z) div 2 ^ 16" using assms by simp
  show "(x + y + z) div 2 ^ 16 \<le> 2" using assms by simp
  show "(x + y + z) div 2 ^ 16 = 0 \<longleftrightarrow> x + y + z < 2 ^ 16" using assms by simp linarith
qed

theorem cross_product_exact:
  "cross_product a b = word_of_int (uint a * uint b div 2 ^ 32) \<longleftrightarrow> no_carry a b"
proof -
  define al ah bl bh where "al = uint a mod 2 ^ 16" and "ah = uint a div 2 ^ 16"
    and "bl = uint b mod 2 ^ 16" and "bh = uint b div 2 ^ 16"
  note halves = al_def ah_def bl_def bh_def
  have r: "0 \<le> al" "al < 2 ^ 16" "0 \<le> ah" "ah < 2 ^ 16" "0 \<le> bl" "bl < 2 ^ 16" "0 \<le> bh" "bh < 2 ^ 16"
    using uint_lt2p [of a] uint_lt2p [of b] unfolding halves by (simp_all add: pos_imp_zdiv_nonneg_iff)
  define k where "k = (al * bl div 2 ^ 16 + ah * bl mod 2 ^ 16 + bh * al mod 2 ^ 16) div 2 ^ 16"
  define c where "c = (if 2 ^ 31 \<le> ah * bl then 1 else 0) + (if 2 ^ 31 \<le> bh * al then 1 else (0 :: int))"
  have words: "uint (high_half_of a * half b) = ah * bl" "uint (high_half_of b * half a) = bh * al"
    using r by (simp_all add: uint_half_product uint_half uint_high_half halves)
  have high: "high_half_of a * high_half_of b = word_of_int (ah * bh)"
    using r by (metis ah_def bh_def uint_half_product uint_high_half word_of_int_uint)
  have cross: "cross_product a b = word_of_int (ah * bh + ah * bl div 2 ^ 16 + bh * al div 2 ^ 16 - c * 2 ^ 16)"
    unfolding cross_product_def shifted words high by (simp add: c_def)
  have "uint a = ah * 2 ^ 16 + al" "uint b = bh * 2 ^ 16 + bl" by (simp_all add: halves)
  then have exact: "uint a * uint b div 2 ^ 32 = ah * bh + ah * bl div 2 ^ 16 + bh * al div 2 ^ 16 + k"
    by (simp only: high_of_halves k_def)
  have low: "al * bl div 2 ^ 16 < 2 ^ 16" "0 \<le> al * bl div 2 ^ 16"
    using half_product [OF r(1,2,5,6)] by simp_all
  have middle: "0 \<le> x mod 2 ^ 16" "x mod 2 ^ 16 < 2 ^ 16" for x :: int by simp_all
  note k = carried [OF low(2,1) middle [of "ah * bl"] middle [of "bh * al"], folded k_def]
  have c: "0 \<le> c" "c \<le> 2" "c = 0 \<longleftrightarrow> ah * bl < 2 ^ 31 \<and> bh * al < 2 ^ 31" by (auto simp: c_def)
  have "cross_product a b = word_of_int (uint a * uint b div 2 ^ 32) \<longleftrightarrow>
      (word_of_int (k + c * 2 ^ 16) :: c_int) = 0"
    unfolding cross exact by (simp add: algebra_simps)
  also have "\<dots> \<longleftrightarrow> (k + c * 2 ^ 16) mod 2 ^ 32 = 0"
    unfolding word_of_int_eq_0_iff mod_eq_0_iff_dvd by (simp only: len_of_numeral_defs) simp
  also have "\<dots> \<longleftrightarrow> k = 0 \<and> c = 0"
  proof -
    have "(k + c * 2 ^ 16) mod 2 ^ 32 = k + c * 2 ^ 16" using k c by (intro mod_pos_pos_trivial) auto
    then show ?thesis using k c by auto
  qed
  also have "\<dots> \<longleftrightarrow> no_carry a b"
    using k(3) unfolding no_carry_def Let_def c(3) halves [symmetric] by simp blast
  finally show ?thesis .
qed

text \<open>The pair the simulator computes.\<close>

lemma Mult_loop_pair: "Mult_loop 32 a 0 b 0 0 = (word_of_int (uint a * uint b div 2 ^ 32), a * b)"
proof -
  obtain hi lo where p: "Mult_loop 32 a 0 b 0 0 = (hi, lo)" by (cases "Mult_loop 32 a 0 b 0 0")
  have d: "uint a * uint b = uint hi * 2 ^ 32 + uint lo"
    using Mult_loop_product [of a b] by (simp add: p dword_def)
  have lo: "0 \<le> uint lo" "uint lo < 2 ^ 32" using uint_lt2p [of lo] by simp_all
  have "uint a * uint b div 2 ^ 32 = uint hi" unfolding d using lo by simp
  moreover have "lo = a * b"
  proof -
    have "uint (a * b) = uint lo"
      unfolding uint_word_ariths d using lo by simp
    then show ?thesis by (metis word_uint_eqI)
  qed
  ultimately show ?thesis using p by simp
qed

lemma Mult_signed_pair:
  "Mult a b True =
    (let a1 = (if sint a < 0 then - a else a); b1 = (if sint b < 0 then - b else b);
         p = (word_of_int (uint a1 * uint b1 div 2 ^ 32), a1 * b1)
     in if (sint a < 0) \<noteq> (sint b < 0) then Mult_negate p else p)"
  by (auto simp: Mult_def Mult_loop_pair Let_def Mult_negate_def)

lemma Mult_unsigned_pair: "Mult a b False = (word_of_int (uint a * uint b div 2 ^ 32), a * b)"
  by (auto simp: Mult_def Mult_loop_pair Let_def)

text \<open>The magnitude of a signed word, which both programs multiply.\<close>

definition magnitude :: "c_int \<Rightarrow> c_int" where
  "magnitude x = (if sint x < 0 then - x else x)"

text \<open>The older interpreter has the low word right, and the high word exactly when nothing is carried.\<close>

lemma negate_fst: "fst (Mult_negate (hi, lo)) = fst (Mult_negate (hi', lo)) \<longleftrightarrow> hi = hi'"
  by (auto simp: Mult_negate_def Let_def dest: arg_cong [where f = "NOT"])

theorem interp_mult_exact:
  "snd (interp_mult a b) = snd (Mult a b True)"
  "fst (interp_mult a b) = fst (Mult a b True) \<longleftrightarrow>
     no_carry (magnitude a) (magnitude b)"
proof -
  define a1 b1 where "a1 = magnitude a" and "b1 = magnitude b"
  have "interp_mult a b =
      (if (sint a < 0) \<noteq> (sint b < 0) then Mult_negate (cross_product a1 b1, a1 * b1) else (cross_product a1 b1, a1 * b1))"
    unfolding interp_mult_def Mult_negate_def Let_def a1_def b1_def magnitude_def by simp
  moreover have "Mult a b True =
      (if (sint a < 0) \<noteq> (sint b < 0) then Mult_negate (word_of_int (uint a1 * uint b1 div 2 ^ 32), a1 * b1)
       else (word_of_int (uint a1 * uint b1 div 2 ^ 32), a1 * b1))"
    unfolding Mult_signed_pair Let_def a1_def b1_def magnitude_def by simp
  ultimately show "snd (interp_mult a b) = snd (Mult a b True)"
    "fst (interp_mult a b) = fst (Mult a b True) \<longleftrightarrow> no_carry (magnitude a) (magnitude b)"
    unfolding a1_def [symmetric] b1_def [symmetric]
    using negate_fst [of "cross_product a1 b1" "a1 * b1"] cross_product_exact [of a1 b1]
    by (simp_all add: Mult_negate_def Let_def)
qed

theorem interp_multu_exact:
  "snd (Mult a b False) = a * b"
  "cross_product a b = fst (Mult a b False) \<longleftrightarrow> no_carry a b"
  using cross_product_exact [of a b] by (simp_all add: Mult_unsigned_pair)

end
