(* ===== verification/Mips_Agreement.thy ===== *)
theory Mips_Agreement
  imports Mips_Interpreter Mips_Carry Mips_Delay
begin

unbundle bit_operations_syntax

text \<open>
  Two programs of the repository execute MIPS instructions: the simulator (\<^verbatim>\<open>machine/mipssim.cc\<close>) and
  the older interpreter (\<^verbatim>\<open>bin/execute.c\<close>). On the instructions that neither touch memory nor trap
  they agree, step by step, but for the exceptions listed with \<open>same_effect\<close>; the last lemmas of
  the section \<open>Where they differ\<close> show that two of them, products that carry and a link into the register jumped
  through, are real differences.
\<close>

section \<open>The two decoders\<close>

text \<open>The codes of the one with the numbers of the other, for the two tables.\<close>

definition main_codes :: "(opcode \<times> nat) list" where
  "main_codes =
    [(SPECIAL, I_SPECIAL), (BCOND, I_BCOND), (OP_J, I_J), (OP_JAL, I_JAL), (OP_BEQ, I_BEQ), (OP_BNE,
     I_BNE), (OP_BLEZ, I_BLEZ), (OP_BGTZ, I_BGTZ), (OP_ADDI, I_ADDI), (OP_ADDIU, I_ADDIU), (OP_SLTI,
     I_SLTI), (OP_SLTIU, I_SLTIU), (OP_ANDI, I_ANDI), (OP_ORI, I_ORI), (OP_XORI, I_XORI), (OP_LUI,
     I_LUI)]"

definition special_codes :: "(opcode \<times> nat) list" where
  "special_codes =
    [(OP_SLL, I_SLL), (OP_SRL, I_SRL), (OP_SRA, I_SRA), (OP_SLLV, I_SLLV), (OP_SRLV, I_SRLV),
     (OP_SRAV, I_SRAV), (OP_JR, I_JR), (OP_JALR, I_JALR), (OP_SYSCALL, I_SYSCALL), (OP_MFHI,
     I_MFHI), (OP_MTHI, I_MTHI), (OP_MFLO, I_MFLO), (OP_MTLO, I_MTLO), (OP_MULT, I_MULT), (OP_MULTU,
     I_MULTU), (OP_DIV, I_DIV), (OP_DIVU, I_DIVU), (OP_ADD, I_ADD), (OP_ADDU, I_ADDU), (OP_SUB,
     I_SUB), (OP_SUBU, I_SUBU), (OP_AND, I_AND), (OP_OR, I_OR), (OP_XOR, I_XOR), (OP_NOR, I_NOR),
     (OP_SLT, I_SLT), (OP_SLTU, I_SLTU)]"

lemma main_table: "list_all (\<lambda>(n, c, _). list_all (\<lambda>(c', m). c = c' \<longrightarrow> n = m) main_codes) (enumerate 0 opTable)"
  by code_simp

lemma special_table: "list_all (\<lambda>(n, c). list_all (\<lambda>(c', m). c = c' \<longrightarrow> n = m) special_codes) (enumerate 0 specialTable)"
  by code_simp

lemma main_number:
  assumes "fst (opTable ! n) = c" and "n < 64" and "(c, m) \<in> set main_codes"
  shows "n = m"
proof -
  have "(n, opTable ! n) \<in> set (enumerate 0 opTable)" using assms(2) by (simp add: in_set_enumerate_eq)
  then show ?thesis using main_table assms(1,3) by (fastforce simp: list_all_iff)
qed

lemma special_number:
  assumes "specialTable ! n = c" and "n < 64" and "(c, m) \<in> set special_codes"
  shows "n = m"
proof -
  have "(n, specialTable ! n) \<in> set (enumerate 0 specialTable)" using assms(2) by (simp add: in_set_enumerate_eq)
  then show ?thesis using special_table assms(1,3) by (fastforce simp: list_all_iff)
qed

lemma tables_apart:
  "list_all (\<lambda>(c, _). list_all (\<lambda>(c', _). c \<noteq> c') special_codes \<and> c \<notin> {OP_BLTZ, OP_BGEZ, OP_BLTZAL, OP_BGEZAL}) opTable"
  "list_all (\<lambda>c. list_all (\<lambda>(c', _). c \<noteq> c') main_codes \<and> c \<notin> {OP_BLTZ, OP_BGEZ, OP_BLTZAL, OP_BGEZAL}) specialTable"
  "list_all (\<lambda>(c, m). c \<notin> {OP_BLTZ, OP_BGEZ, OP_BLTZAL, OP_BGEZAL, OP_UNIMP}) (main_codes @ special_codes)"
  by code_simp+

lemma main_formats:
  "list_all (\<lambda>(c, m). fst (opTable ! m) = c \<and> snd (opTable ! m) = (if c = SPECIAL then RFMT else if c \<in> {OP_J, OP_JAL} then JFMT else IFMT)) main_codes"
  by code_simp

section \<open>Fields\<close>

lemma unat_field: "unat (ucast ((x :: c_int) AND 0x1f) :: byte) = unat (x AND 0x1f)"
  using index5_less [of x] by (simp add: unsigned_ucast_eq unsigned_take_bit_eq take_bit_nat_eq_self_iff)

lemma decoded_operands:
  "unat (rs (Decode (i\<lparr>instr_value := v\<rparr>))) = i_rs v" "unat (rt (Decode (i\<lparr>instr_value := v\<rparr>))) = i_rt v"
  "unat (rd (Decode (i\<lparr>instr_value := v\<rparr>))) = i_rd v"
  by (simp_all add: Decode_def Let_def unat_field i_rs_def i_rt_def i_rd_def i_field_def)

lemma field_less: "i_rs v < 32" "i_rt v < 32" "i_rd v < 32"
  by (simp_all add: i_rs_def i_rt_def i_rd_def i_field_def index5_less)

lemma immed_scast: "immed v = scast (ucast v :: c_short)"
proof -
  have m: "(- 0x8000 :: c_int) = NOT (mask 15)" "(0x7fff :: c_int) = mask 15" "(0x8000 :: c_int) = 2 ^ 15"
    by (simp_all add: mask_eq_exp_minus_1)
  show ?thesis
    unfolding immed_def unfolding m(1,2) unfolding m(3) and_exp_iff_bit
    by (rule bit_word_eqI) (auto simp: bit_simps min_def dest: bit_imp_le_length only_15 split: if_splits)
qed

lemma decoded_special:
  assumes "opCode (Decode (i\<lparr>instr_value := v\<rparr>)) = c" and "(c, m) \<in> set special_codes"
  shows "unat (drop_bit 26 v AND 0x3f) = I_SPECIAL" and "unat (v AND 0x3f) = m"
    and "unat (extra (Decode (i\<lparr>instr_value := v\<rparr>))) = shamt v"
proof -
  let ?n = "unat (drop_bit 26 v AND 0x3f)"
  have n: "?n < 64" "unat (v AND 0x3f) < 64" by (rule index6_less)+
  have "opTable ! ?n \<in> set opTable" using n by (intro nth_mem) simp
  then have "fst (opTable ! ?n) \<noteq> c" using tables_apart(1) assms(2) by (fastforce simp: list_all_iff)
  moreover have "c \<notin> {OP_BLTZ, OP_BGEZ, OP_BLTZAL, OP_BGEZAL, OP_UNIMP}"
    using tables_apart(3) assms(2) by (fastforce simp: list_all_iff)
  ultimately have sp: "fst (opTable ! ?n) = SPECIAL" "specialTable ! unat (v AND 0x3f) = c"
    using assms(1) by (auto simp: Decode_def Let_def split: if_splits)
  show 0: "?n = I_SPECIAL" by (rule main_number [OF sp(1) n(1)]) (simp add: main_codes_def)
  show "unat (v AND 0x3f) = m" by (rule special_number [OF sp(2) n(2) assms(2)])
  have "?n = 0" using 0 by (simp add: I_defs)
  then show "unat (extra (Decode (i\<lparr>instr_value := v\<rparr>))) = shamt v"
    by (simp add: Decode_def Let_def opTable_0 shamt_def i_field_def)
qed

lemma decoded_main:
  assumes "opCode (Decode (i\<lparr>instr_value := v\<rparr>)) = c" and "(c, m) \<in> set main_codes"
  shows "unat (drop_bit 26 v AND 0x3f) = m"
    and "extra (Decode (i\<lparr>instr_value := v\<rparr>)) = (if c \<in> {OP_J, OP_JAL} then v AND 0x3ffffff else immed v)"
proof -
  let ?n = "unat (drop_bit 26 v AND 0x3f)"
  have n: "?n < 64" "unat (v AND 0x3f) < 64" by (rule index6_less)+
  have "specialTable ! unat (v AND 0x3f) \<in> set specialTable" using n by (intro nth_mem) simp
  then have "specialTable ! unat (v AND 0x3f) \<noteq> c" using tables_apart(2) assms(2) by (fastforce simp: list_all_iff)
  moreover have "c \<notin> {OP_BLTZ, OP_BGEZ, OP_BLTZAL, OP_BGEZAL, OP_UNIMP}"
    using tables_apart(3) assms(2) by (fastforce simp: list_all_iff)
  ultimately have e: "fst (opTable ! ?n) = c" "c \<noteq> SPECIAL"
    using assms(1) by (auto simp: Decode_def Let_def split: if_splits)
  show m: "?n = m" by (rule main_number [OF e(1) n(1) assms(2)])
  have "snd (opTable ! ?n) = (if c \<in> {OP_J, OP_JAL} then JFMT else IFMT)"
    using main_formats assms(2) e unfolding m by (fastforce simp: list_all_iff)
  then show "extra (Decode (i\<lparr>instr_value := v\<rparr>)) = (if c \<in> {OP_J, OP_JAL} then v AND 0x3ffffff else immed v)"
    using immediate_sign_extended [of v] by (simp add: Decode_def Let_def immed_scast)
qed

lemma decoded_bcond:
  assumes "opCode (Decode (i\<lparr>instr_value := v\<rparr>)) = c" and "(c, m) \<in> {(OP_BLTZ, I_BLTZ), (OP_BGEZ, I_BGEZ), (OP_BLTZAL, I_BLTZAL), (OP_BGEZAL, I_BGEZAL)}"
  shows "unat (drop_bit 26 v AND 0x3f) = I_BCOND" and "i_rt v = m"
    and "extra (Decode (i\<lparr>instr_value := v\<rparr>)) = immed v"
proof -
  let ?n = "unat (drop_bit 26 v AND 0x3f)"
  have n: "?n < 64" "unat (v AND 0x3f) < 64" by (rule index6_less)+
  have "specialTable ! unat (v AND 0x3f) \<in> set specialTable" "opTable ! ?n \<in> set opTable" using n by (simp_all add: nth_mem)
  then have "specialTable ! unat (v AND 0x3f) \<noteq> c" "fst (opTable ! ?n) \<noteq> c"
    using tables_apart(1,2) assms(2) by (fastforce simp: list_all_iff)+
  then have b: "fst (opTable ! ?n) = BCOND" using assms(1) by (auto simp: Decode_def Let_def split: if_splits)
  show m: "?n = I_BCOND" by (rule main_number [OF b n(1)]) (simp add: main_codes_def)
  have "snd (opTable ! ?n) = IFMT" unfolding m by (simp add: opTable_def I_defs)
  then show "extra (Decode (i\<lparr>instr_value := v\<rparr>)) = immed v"
    using immediate_sign_extended [of v] by (simp add: Decode_def Let_def immed_scast)
  have "v AND 0x1f0000 = push_bit 16 (drop_bit 16 v AND 0x1f)"
  proof -
    have m: "(0x1f0000 :: c_int) = push_bit 16 (mask 5)" "(0x1f :: c_int) = mask 5" by (simp_all add: mask_eq_exp_minus_1)
    show ?thesis unfolding m(1) unfolding m(2) by (rule bit_word_eqI) (auto simp: bit_simps)
  qed
  moreover define f where "f = drop_bit 16 v AND 0x1f"
  moreover have "unat f < 32" unfolding f_def by (rule index5_less)
  ultimately have k: "unat (v AND 0x1f0000) = 65536 * unat f"
    by (simp add: push_bit_eq_mult unat_word_ariths)
  have "i_rt v = unat f" by (simp add: i_rt_def i_field_def f_def)
  moreover have "v AND 0x1f0000 = x \<longleftrightarrow> 65536 * unat f = unat x" for x
    unfolding k [symmetric] by (rule word_unat_eq_iff)
  ultimately show "i_rt v = m"
    using assms b n by (auto simp: Decode_def Let_def I_defs split: if_splits)
qed

section \<open>Agreement\<close>

text \<open>The registers of the two machines, with no load pending in the simulator.\<close>

definition same_registers :: "'m machine_scheme \<Rightarrow> interp \<Rightarrow> bool" where
  "same_registers s t \<longleftrightarrow> (\<forall>n < 32. n \<noteq> 0 \<longrightarrow> registers s n = Reg t n) \<and> registers s HiReg = HI t \<and>
     registers s LoReg = LO t \<and> registers s LoadReg = 0"

definition agrees :: "'m machine_scheme \<Rightarrow> interp \<Rightarrow> bool" where
  "agrees s t \<longleftrightarrow> same_registers s t \<and> registers s 0 = 0 \<and> registers s PCReg = i_pc t \<and> registers s NextPCReg = i_npc t"

text \<open>
  The instructions on which they do the same. Left out are the loads and stores, system calls and
  unknown codes; \<open>ADD\<close>, \<open>ADDI\<close> and \<open>SUB\<close> that overflow; \<open>ANDI\<close>, \<open>ORI\<close> and \<open>XORI\<close> with the sign bit of the
  immediate set, which the simulator extends with zeros; \<open>DIV\<close> and \<open>DIVU\<close> by zero and the quotient that
  does not fit; \<open>MULT\<close> and \<open>MULTU\<close> when the interpreter's high word drops a carry (\<open>no_carry\<close>); branches,
  \<open>J\<close>, \<open>JAL\<close> and \<open>JALR\<close> in a delay slot; \<open>J\<close> and \<open>JAL\<close> whose delay slot's successor is in another 256 MB
  region than the jump itself; and \<open>JALR\<close> that links into the register it jumps through.
\<close>

definition same_effect :: "instruction \<Rightarrow> 'm machine_scheme \<Rightarrow> bool" where
  "same_effect i s \<longleftrightarrow>
     (let c = opCode i; straight = (registers s NextPCReg = registers s PCReg + 4);
          near = ((registers s NextPCReg + 4) AND 0xf0000000 = registers s PCReg AND 0xf0000000)
      in c \<in>
       {OP_ADDIU, OP_ADDU, OP_SUBU, OP_AND, OP_OR, OP_XOR, OP_NOR, OP_SLT, OP_SLTU, OP_SLTI,
        OP_SLTIU, OP_LUI, OP_SLL, OP_SRL, OP_SRA, OP_SLLV, OP_SRLV, OP_SRAV, OP_MFHI, OP_MFLO,
        OP_MTHI, OP_MTLO, OP_JR} \<or>
       c = OP_ADD \<and> int_range (sint (RS i s) + sint (RT i s)) \<or>
       c = OP_SUB \<and> int_range (sint (RS i s) - sint (RT i s)) \<or>
       c = OP_ADDI \<and> int_range (sint (RS i s) + sint (extra i)) \<or>
       c \<in> {OP_ANDI, OP_ORI, OP_XORI} \<and> extra i AND 0xffff = extra i \<or>
       c = OP_DIV \<and> RT i s \<noteq> 0 \<and> \<not> (sint (RS i s) = - (2 ^ 31) \<and> sint (RT i s) = - 1) \<or>
       c = OP_DIVU \<and> RT i s \<noteq> 0 \<or>
       c = OP_MULT \<and> no_carry (magnitude (RS i s)) (magnitude (RT i s)) \<or>
       c = OP_MULTU \<and> no_carry (RS i s) (RT i s) \<or>
       c \<in> {OP_BEQ, OP_BNE, OP_BLEZ, OP_BGTZ, OP_BLTZ, OP_BGEZ, OP_BLTZAL, OP_BGEZAL} \<and> straight \<or>
       c = OP_JALR \<and> straight \<and> rd i \<noteq> rs i \<or>
       c \<in> {OP_J, OP_JAL} \<and> straight \<and> near)"

text \<open>The states when both have executed the instruction, before the simulator retires it.\<close>

definition executed :: "'m machine_scheme \<Rightarrow> c_int \<Rightarrow> interp \<Rightarrow> bool" where
  "executed s pcAfter t \<longleftrightarrow> same_registers s t \<and> registers s NextPCReg = i_pc t \<and> pcAfter = i_npc t"

lemma executed_put: "executed s pc t \<Longrightarrow> n < 32 \<Longrightarrow> executed (set_reg n v s) pc (put_Reg n v t)"
  by (auto simp: executed_def same_registers_def set_reg_def put_Reg_def)

lemma executed_jump: "executed s pc t \<Longrightarrow> executed s npc (t\<lparr>i_npc := npc\<rparr>)"
  by (auto simp: executed_def same_registers_def)

lemma executed_hi_lo: "executed s pc t \<Longrightarrow> executed (set_hi_lo hi lo s) pc (t\<lparr>HI := hi, LO := lo\<rparr>)"
  by (auto simp: executed_def same_registers_def set_hi_lo_def set_reg_def)

text \<open>The common shape of the cases.\<close>

definition registers_only :: "'m machine_scheme \<Rightarrow> 'm machine_scheme \<Rightarrow> bool" where
  "registers_only s s' \<longleftrightarrow> s' = s\<lparr>registers := registers s'\<rparr>"

lemma registers_only_iff: "registers_only s s' \<longleftrightarrow> (\<exists>r. s' = s\<lparr>registers := r\<rparr>)"
  by (auto simp: registers_only_def)

lemma registers_only_refl [simp]: "registers_only s s"
  by (simp add: registers_only_def)

lemma registers_only_simps [simp]:
  "registers_only s s' \<Longrightarrow> registers_only s (set_reg n v s')"
  "registers_only s s' \<Longrightarrow> registers_only s (link n s')" "registers_only s s' \<Longrightarrow> registers_only s (set_hi_lo hi lo s')"
  by (auto simp: registers_only_iff set_reg_def link_def set_hi_lo_def)

lemma mem_put_Reg [simp]: "mem (put_Reg n v t) = mem t"
  by (simp add: put_Reg_def)

definition same_outcome :: "'m machine_scheme \<Rightarrow> interp \<Rightarrow> 'm machine_scheme exec res \<Rightarrow> interp_outcome res \<Rightarrow> bool" where
  "same_outcome s t r q \<longleftrightarrow>
     (\<exists>s' pcAfter t'. r = Inr (Next s' pcAfter 0 0) \<and> q = Inr (Running t') \<and> executed s' pcAfter t' \<and>
        registers_only s s' \<and> mem t' = mem t)"

lemma same_to_rd: "executed s pc t \<Longrightarrow> unat (rd i) < 32 \<Longrightarrow> same_outcome s t (to_rd i v pc s) (to_Reg (unat (rd i)) v t)"
  and same_to_rt: "executed s pc t \<Longrightarrow> unat (rt i) < 32 \<Longrightarrow> same_outcome s t (to_rt i v pc s) (to_Reg (unat (rt i)) v t)"
  by (auto simp: same_outcome_def to_rd_def to_rt_def to_Reg_def intro: executed_put)

lemma same_jump_if:
  assumes "executed s' pc t'" and "c \<Longrightarrow> pc' = target" and "\<not> c \<Longrightarrow> pc' = pc" and "registers_only s s'" and "mem t' = mem t"
  shows "same_outcome s t (Inr (Next s' pc' 0 0)) (jump_if c target t')"
  using assms by (auto simp: same_outcome_def jump_if_def intro: executed_jump)

lemma same_branch:
  "executed s' pc t' \<Longrightarrow> target = registers s' NextPCReg + IndexToAddr (extra i) \<Longrightarrow> registers_only s s' \<Longrightarrow> mem t' = mem t \<Longrightarrow>
   same_outcome s t (branch_if c i pc s') (jump_if c target t')"
  unfolding branch_if_def by (rule same_jump_if) simp_all

lemma same_hi_lo: "executed s pc t \<Longrightarrow> same_outcome s t (Inr (Next (set_hi_lo hi lo s) pc 0 0)) (to_HI_LO hi lo t)"
  by (auto simp: same_outcome_def to_HI_LO_def intro: executed_hi_lo)

section \<open>The cases\<close>

lemma executed_registers:
  assumes "executed s pc t" and "registers s 0 = Reg t 0" and "n < 32"
  shows "registers s n = Reg t n"
  using assms by (cases "n = 0") (auto simp: executed_def same_registers_def)

lemma executed_special:
  assumes "executed s pc t"
  shows "registers s HiReg = HI t" and "registers s LoReg = LO t" and "registers s LoadReg = 0"
  using assms by (auto simp: executed_def same_registers_def)

text \<open>The cases of the interpreter by the number of the operation.\<close>

lemma interp_special_eqs:
  "unat (i AND 0x3f) = I_SLL \<Longrightarrow> interp_special unix xpc i t = to_Reg (i_rd i) (push_bit (shamt i) (Reg t (i_rt i))) t"
  "unat (i AND 0x3f) = I_SRL \<Longrightarrow> interp_special unix xpc i t = to_Reg (i_rd i) (drop_bit (shamt i) (Reg t (i_rt i))) t"
  "unat (i AND 0x3f) = I_SRA \<Longrightarrow> interp_special unix xpc i t = to_Reg (i_rd i) (signed_drop_bit (shamt i) (Reg t (i_rt i))) t"
  "unat (i AND 0x3f) = I_SLLV \<Longrightarrow> interp_special unix xpc i t = to_Reg (i_rd i) (push_bit (unat (Reg t (i_rs i) AND 0x1f)) (Reg t (i_rt i))) t"
  "unat (i AND 0x3f) = I_SRLV \<Longrightarrow> interp_special unix xpc i t = to_Reg (i_rd i) (drop_bit (unat (Reg t (i_rs i) AND 0x1f)) (Reg t (i_rt i))) t"
  "unat (i AND 0x3f) = I_SRAV \<Longrightarrow> interp_special unix xpc i t = to_Reg (i_rd i) (signed_drop_bit (unat (Reg t (i_rs i) AND 0x1f)) (Reg t (i_rt i))) t"
  "unat (i AND 0x3f) = I_MFHI \<Longrightarrow> interp_special unix xpc i t = to_Reg (i_rd i) (HI t) t"
  "unat (i AND 0x3f) = I_MFLO \<Longrightarrow> interp_special unix xpc i t = to_Reg (i_rd i) (LO t) t"
  "unat (i AND 0x3f) = I_ADD \<Longrightarrow> interp_special unix xpc i t = to_Reg (i_rd i) (Reg t (i_rs i) + Reg t (i_rt i)) t"
  "unat (i AND 0x3f) = I_ADDU \<Longrightarrow> interp_special unix xpc i t = to_Reg (i_rd i) (Reg t (i_rs i) + Reg t (i_rt i)) t"
  "unat (i AND 0x3f) = I_SUB \<Longrightarrow> interp_special unix xpc i t = to_Reg (i_rd i) (Reg t (i_rs i) - Reg t (i_rt i)) t"
  "unat (i AND 0x3f) = I_SUBU \<Longrightarrow> interp_special unix xpc i t = to_Reg (i_rd i) (Reg t (i_rs i) - Reg t (i_rt i)) t"
  "unat (i AND 0x3f) = I_AND \<Longrightarrow> interp_special unix xpc i t = to_Reg (i_rd i) (Reg t (i_rs i) AND Reg t (i_rt i)) t"
  "unat (i AND 0x3f) = I_OR \<Longrightarrow> interp_special unix xpc i t = to_Reg (i_rd i) (Reg t (i_rs i) OR Reg t (i_rt i)) t"
  "unat (i AND 0x3f) = I_XOR \<Longrightarrow> interp_special unix xpc i t = to_Reg (i_rd i) (Reg t (i_rs i) XOR Reg t (i_rt i)) t"
  "unat (i AND 0x3f) = I_NOR \<Longrightarrow> interp_special unix xpc i t = to_Reg (i_rd i) (NOT (Reg t (i_rs i) OR Reg t (i_rt i))) t"
  "unat (i AND 0x3f) = I_SLT \<Longrightarrow> interp_special unix xpc i t = to_Reg (i_rd i) (i_truth (sint (Reg t (i_rs i)) < sint (Reg t (i_rt i)))) t"
  "unat (i AND 0x3f) = I_SLTU \<Longrightarrow> interp_special unix xpc i t = to_Reg (i_rd i) (i_truth (uint (Reg t (i_rs i)) < uint (Reg t (i_rt i)))) t"
  "unat (i AND 0x3f) = I_JR \<Longrightarrow> interp_special unix xpc i t = jump_if True (Reg t (i_rs i)) t"
  "unat (i AND 0x3f) = I_JALR \<Longrightarrow> interp_special unix xpc i t = to_Reg (i_rd i) (xpc + 8) (t\<lparr>i_npc := Reg t (i_rs i)\<rparr>)"
  "unat (i AND 0x3f) = I_MULT \<Longrightarrow> interp_special unix xpc i t =
    to_HI_LO (fst (interp_mult (Reg t (i_rs i)) (Reg t (i_rt i)))) (snd (interp_mult (Reg t (i_rs i)) (Reg t (i_rt i)))) t"
  "unat (i AND 0x3f) = I_MULTU \<Longrightarrow> interp_special unix xpc i t =
    to_HI_LO (cross_product (Reg t (i_rs i)) (Reg t (i_rt i))) (Reg t (i_rs i) * Reg t (i_rt i)) t"
  "unat (i AND 0x3f) = I_MTHI \<Longrightarrow> interp_special unix xpc i t = to_HI_LO (Reg t (i_rs i)) (LO t) t"
  "unat (i AND 0x3f) = I_MTLO \<Longrightarrow> interp_special unix xpc i t = to_HI_LO (HI t) (Reg t (i_rs i)) t"
  "unat (i AND 0x3f) = I_DIV \<Longrightarrow> interp_special unix xpc i t =
    (if Reg t (i_rt i) = 0 \<or> sint (Reg t (i_rs i)) = - (2 ^ 31) \<and> sint (Reg t (i_rt i)) = - 1 then Inl DivideTrap
     else to_HI_LO (word_of_int (sint (Reg t (i_rs i)) smod sint (Reg t (i_rt i))))
       (word_of_int (sint (Reg t (i_rs i)) sdiv sint (Reg t (i_rt i)))) t)"
  "unat (i AND 0x3f) = I_DIVU \<Longrightarrow> interp_special unix xpc i t =
    (if Reg t (i_rt i) = 0 then Inl DivideTrap
     else to_HI_LO (Reg t (i_rs i) mod Reg t (i_rt i)) (Reg t (i_rs i) div Reg t (i_rt i)) t)"
  by (simp_all only: interp_special_def Let_def I_defs) simp_all

lemma interp_op_eqs:
  "unat (drop_bit 26 i AND 0x3f) = I_SPECIAL \<Longrightarrow> interp_op unix h xpc i t = interp_special unix xpc i t"
  "unat (drop_bit 26 i AND 0x3f) = I_BCOND \<Longrightarrow> interp_op unix h xpc i t = interp_bcond xpc i t"
  "unat (drop_bit 26 i AND 0x3f) = I_J \<Longrightarrow> interp_op unix h xpc i t = jump_if True ((xpc AND 0xf0000000) OR push_bit 2 (i AND 0x03ffffff)) t"
  "unat (drop_bit 26 i AND 0x3f) = I_JAL \<Longrightarrow> interp_op unix h xpc i t = jump_if True ((xpc AND 0xf0000000) OR push_bit 2 (i AND 0x03ffffff)) (put_Reg 31 (xpc + 8) t)"
  "unat (drop_bit 26 i AND 0x3f) = I_BEQ \<Longrightarrow> interp_op unix h xpc i t = jump_if (Reg t (i_rs i) = Reg t (i_rt i)) (xpc + 4 + push_bit 2 (immed i)) t"
  "unat (drop_bit 26 i AND 0x3f) = I_BNE \<Longrightarrow> interp_op unix h xpc i t = jump_if (Reg t (i_rs i) \<noteq> Reg t (i_rt i)) (xpc + 4 + push_bit 2 (immed i)) t"
  "unat (drop_bit 26 i AND 0x3f) = I_BLEZ \<Longrightarrow> interp_op unix h xpc i t = jump_if (sint (Reg t (i_rs i)) \<le> 0) (xpc + 4 + push_bit 2 (immed i)) t"
  "unat (drop_bit 26 i AND 0x3f) = I_BGTZ \<Longrightarrow> interp_op unix h xpc i t = jump_if (0 < sint (Reg t (i_rs i))) (xpc + 4 + push_bit 2 (immed i)) t"
  "unat (drop_bit 26 i AND 0x3f) = I_ADDI \<Longrightarrow> interp_op unix h xpc i t = to_Reg (i_rt i) (Reg t (i_rs i) + immed i) t"
  "unat (drop_bit 26 i AND 0x3f) = I_ADDIU \<Longrightarrow> interp_op unix h xpc i t = to_Reg (i_rt i) (Reg t (i_rs i) + immed i) t"
  "unat (drop_bit 26 i AND 0x3f) = I_SLTI \<Longrightarrow> interp_op unix h xpc i t = to_Reg (i_rt i) (i_truth (sint (Reg t (i_rs i)) < sint (immed i))) t"
  "unat (drop_bit 26 i AND 0x3f) = I_SLTIU \<Longrightarrow> interp_op unix h xpc i t = to_Reg (i_rt i) (i_truth (uint (Reg t (i_rs i)) < uint (immed i))) t"
  "unat (drop_bit 26 i AND 0x3f) = I_ANDI \<Longrightarrow> interp_op unix h xpc i t = to_Reg (i_rt i) (Reg t (i_rs i) AND immed i) t"
  "unat (drop_bit 26 i AND 0x3f) = I_ORI \<Longrightarrow> interp_op unix h xpc i t = to_Reg (i_rt i) (Reg t (i_rs i) OR immed i) t"
  "unat (drop_bit 26 i AND 0x3f) = I_XORI \<Longrightarrow> interp_op unix h xpc i t = to_Reg (i_rt i) (Reg t (i_rs i) XOR immed i) t"
  "unat (drop_bit 26 i AND 0x3f) = I_LUI \<Longrightarrow> interp_op unix h xpc i t = to_Reg (i_rt i) (push_bit 16 i) t"
  by (simp_all only: interp_op_def Let_def I_defs) simp_all

text \<open>The operations on registers, immediates apart.\<close>

lemma same_special:
  fixes i :: instruction and v :: c_int
  defines "d \<equiv> Decode (i\<lparr>instr_value := v\<rparr>)"
  assumes t: "executed s pc t" "registers s 0 = Reg t 0"
    and c: "(opCode d, m) \<in> {(OP_SLL, I_SLL), (OP_SRL, I_SRL), (OP_SRA, I_SRA), (OP_SLLV, I_SLLV), (OP_SRLV, I_SRLV),
      (OP_SRAV, I_SRAV), (OP_ADDU, I_ADDU), (OP_SUBU, I_SUBU), (OP_AND, I_AND), (OP_OR, I_OR), (OP_XOR, I_XOR), (OP_NOR, I_NOR),
      (OP_SLT, I_SLT), (OP_SLTU, I_SLTU), (OP_MFHI, I_MFHI), (OP_MFLO, I_MFLO)}"
  shows "same_outcome s t (exec_op (opCode d) h k d pc s) (interp_op unix h' xpc v t)"
proof -
  have "(opCode d, m) \<in> set special_codes" using c by (auto simp: special_codes_def)
  note n = decoded_special [OF refl this [unfolded d_def], folded d_def]
  note ops = decoded_operands [where i = i and v = v, folded d_def]
  have regs: "RS d s = Reg t (i_rs v)" "RT d s = Reg t (i_rt v)"
    by (simp_all add: ops executed_registers [OF t] field_less)
  note rd = same_to_rd [OF t(1), of d, unfolded ops, OF field_less(3)]
  show ?thesis
    unfolding interp_op_eqs(1) [OF n(1)] using c n(2)
    by (elim insertE emptyE)
      (simp_all add: interp_special_eqs regs n(3) executed_special [OF t(1)] i_truth_def rd
        exec_SLL_def exec_SRL_def exec_SRA_def exec_SLLV_def exec_SRLV_def exec_SRAV_def exec_ADDU_def exec_SUBU_def
        exec_AND_def exec_OR_def exec_XOR_def exec_NOR_def exec_SLT_def exec_SLTU_def exec_MFHI_def exec_MFLO_def)
qed

text \<open>The operations that write \<^verbatim>\<open>HI\<close> and \<^verbatim>\<open>LO\<close>, that might trap, or that jump through a register.\<close>

lemma exec_in_range:
  "int_range (sint (RS i s) + sint (RT i s)) \<Longrightarrow> exec_ADD k i pc s = to_rd i (RS i s + RT i s) pc s"
  "int_range (sint (RS i s) - sint (RT i s)) \<Longrightarrow> exec_SUB k i pc s = to_rd i (RS i s - RT i s) pc s"
  "int_range (sint (RS i s) + sint (extra i)) \<Longrightarrow> exec_ADDI k i pc s = to_rt i (RS i s + extra i) pc s"
  using add_overflow [of "RS i s" "RT i s"] sub_overflow [of "RS i s" "RT i s"] add_overflow [of "extra i" "RS i s"]
  by (auto simp: exec_ADD_def exec_SUB_def exec_ADDI_def Let_def add.commute xor.commute)

lemma same_arithmetic:
  fixes i :: instruction and v :: c_int
  defines "d \<equiv> Decode (i\<lparr>instr_value := v\<rparr>)"
  assumes t: "executed s pc t" "registers s 0 = Reg t 0" and xpc: "opCode d = OP_JALR \<longrightarrow> xpc + 4 = registers s NextPCReg"
    and effect: "opCode d = OP_ADD \<longrightarrow> int_range (sint (RS d s) + sint (RT d s))"
      "opCode d = OP_SUB \<longrightarrow> int_range (sint (RS d s) - sint (RT d s))"
      "opCode d \<in> {OP_DIV, OP_DIVU} \<longrightarrow> RT d s \<noteq> 0"
      "opCode d = OP_DIV \<longrightarrow> \<not> (sint (RS d s) = - (2 ^ 31) \<and> sint (RT d s) = - 1)"
      "opCode d = OP_JALR \<longrightarrow> i_rd v \<noteq> i_rs v"
    and c: "(opCode d, m) \<in> {(OP_ADD, I_ADD), (OP_SUB, I_SUB), (OP_DIV, I_DIV), (OP_DIVU, I_DIVU), (OP_MTHI, I_MTHI),
      (OP_MTLO, I_MTLO), (OP_JR, I_JR), (OP_JALR, I_JALR)}"
  shows "same_outcome s t (exec_op (opCode d) h k d pc s) (interp_op unix h' xpc v t)"
proof -
  have "(opCode d, m) \<in> set special_codes" using c by (auto simp: special_codes_def)
  note n = decoded_special [OF refl this [unfolded d_def], folded d_def]
  note ops = decoded_operands [where i = i and v = v, folded d_def]
  have regs: "registers s (i_rs v) = Reg t (i_rs v)" "registers s (i_rt v) = Reg t (i_rt v)"
    by (simp_all add: executed_registers [OF t] field_less)
  note rd = same_to_rd [OF t(1), of d, unfolded ops, OF field_less(3)]
  have hi: "set_hi_lo hi (registers s LoReg) s = set_reg HiReg hi s" "set_hi_lo (registers s HiReg) lo s = set_reg LoReg lo s" for hi lo
    by (simp_all add: set_hi_lo_def set_reg_def fun_upd_idem fun_upd_twist)
  note hi_lo = same_hi_lo [OF t(1)]
  have moves: "same_outcome s t (Inr (Next (set_reg HiReg x s) pc 0 0)) (to_HI_LO x (LO t) t)"
    "same_outcome s t (Inr (Next (set_reg LoReg x s) pc 0 0)) (to_HI_LO (HI t) x t)" for x
    using hi_lo [of x "registers s LoReg"] hi_lo [of "registers s HiReg" x] executed_special [OF t(1)]
    unfolding hi by simp_all
  have jump: "same_outcome s t (Inr (Next s x 0 0)) (jump_if True x t)" for x
    using t(1) by (rule same_jump_if) simp_all
  have link: "same_outcome s t (Inr (Next (link (i_rd v) s) x 0 0)) (to_Reg (i_rd v) (xpc + 8) (t\<lparr>i_npc := x\<rparr>))"
    if "opCode d = OP_JALR" for x
  proof -
    have "executed (set_reg (i_rd v) (xpc + 8) s) x (put_Reg (i_rd v) (xpc + 8) (t\<lparr>i_npc := x\<rparr>))"
      by (rule executed_put [OF executed_jump [OF t(1)] field_less(3)])
    moreover have "link (i_rd v) s = set_reg (i_rd v) (xpc + 8) s"
    proof -
      have "registers s NextPCReg = xpc + 4" using xpc that by simp
      then show ?thesis by (simp add: link_def add.commute)
    qed
    ultimately show ?thesis by (auto simp: same_outcome_def to_Reg_def)
  qed
  have link_other: "registers (link (i_rd v) s) (i_rs v) = Reg t (i_rs v)" if "i_rd v \<noteq> i_rs v"
    using that regs by (simp add: link_def set_reg_def)
  note eqs = interp_special_eqs ops regs
  note effect = effect [unfolded ops regs]
  have in_range: "opCode d = OP_ADD \<Longrightarrow> exec_ADD k d pc s = to_rd d (Reg t (i_rs v) + Reg t (i_rt v)) pc s"
    "opCode d = OP_SUB \<Longrightarrow> exec_SUB k d pc s = to_rd d (Reg t (i_rs v) - Reg t (i_rt v)) pc s"
    using exec_in_range(1,2) [where i = d and s = s and k = k and pc = pc] effect unfolding ops regs by blast+
  show ?thesis
    unfolding interp_op_eqs(1) [OF n(1)] using c n(2) effect
    by (elim insertE emptyE)
      (auto simp: eqs in_range rd hi_lo moves jump link link_other exec_DIV_def exec_DIVU_def exec_MTHI_def
        exec_MTLO_def exec_JR_def exec_JALR_def)
qed

text \<open>The products: the low word is always the same, the high word when nothing is carried into it.\<close>

lemma executed_product:
  fixes i :: instruction and v :: c_int
  defines "d \<equiv> Decode (i\<lparr>instr_value := v\<rparr>)"
  assumes t: "executed s pc t" "registers s 0 = Reg t 0"
  shows "opCode d = OP_MULT \<Longrightarrow> \<exists>p. exec_op OP_MULT h k d pc s = Inr (Next (set_hi_lo (fst p) (snd p) s) pc 0 0) \<and>
      interp_op unix h' xpc v t = to_HI_LO (fst (interp_mult (RS d s) (RT d s))) (snd p) t \<and>
      (fst (interp_mult (RS d s) (RT d s)) = fst p \<longleftrightarrow> no_carry (magnitude (RS d s)) (magnitude (RT d s)))"
    and "opCode d = OP_MULTU \<Longrightarrow> \<exists>p. exec_op OP_MULTU h k d pc s = Inr (Next (set_hi_lo (fst p) (snd p) s) pc 0 0) \<and>
      interp_op unix h' xpc v t = to_HI_LO (cross_product (RS d s) (RT d s)) (snd p) t \<and>
      (cross_product (RS d s) (RT d s) = fst p \<longleftrightarrow> no_carry (RS d s) (RT d s))"
proof -
  note ops = decoded_operands [where i = i and v = v, folded d_def]
  have regs: "RS d s = Reg t (i_rs v)" "RT d s = Reg t (i_rt v)"
    by (simp_all add: ops executed_registers [OF t] field_less)
  show "\<exists>p. exec_op OP_MULT h k d pc s = Inr (Next (set_hi_lo (fst p) (snd p) s) pc 0 0) \<and>
      interp_op unix h' xpc v t = to_HI_LO (fst (interp_mult (RS d s) (RT d s))) (snd p) t \<and>
      (fst (interp_mult (RS d s) (RT d s)) = fst p \<longleftrightarrow> no_carry (magnitude (RS d s)) (magnitude (RT d s)))"
    if c: "opCode d = OP_MULT"
  proof -
    have "(OP_MULT, I_MULT) \<in> set special_codes" by (simp add: special_codes_def)
    note n = decoded_special [OF c [unfolded d_def] this, folded d_def]
    show ?thesis
      unfolding interp_op_eqs(1) [OF n(1)]
      by (intro exI [of _ "Mult (RS d s) (RT d s) True"])
        (simp add: interp_special_eqs n(2) regs exec_MULT_def Let_def interp_mult_exact)
  qed
  show "\<exists>p. exec_op OP_MULTU h k d pc s = Inr (Next (set_hi_lo (fst p) (snd p) s) pc 0 0) \<and>
      interp_op unix h' xpc v t = to_HI_LO (cross_product (RS d s) (RT d s)) (snd p) t \<and>
      (cross_product (RS d s) (RT d s) = fst p \<longleftrightarrow> no_carry (RS d s) (RT d s))"
    if c: "opCode d = OP_MULTU"
  proof -
    have "(OP_MULTU, I_MULTU) \<in> set special_codes" by (simp add: special_codes_def)
    note n = decoded_special [OF c [unfolded d_def] this, folded d_def]
    show ?thesis
      unfolding interp_op_eqs(1) [OF n(1)]
      by (intro exI [of _ "Mult (RS d s) (RT d s) False"])
        (simp add: interp_special_eqs n(2) regs exec_MULTU_def Let_def interp_multu_exact)
  qed
qed

lemma same_product:
  fixes i :: instruction and v :: c_int
  defines "d \<equiv> Decode (i\<lparr>instr_value := v\<rparr>)"
  assumes t: "executed s pc t" "registers s 0 = Reg t 0"
    and effect: "opCode d = OP_MULT \<and> no_carry (magnitude (RS d s)) (magnitude (RT d s)) \<or>
      opCode d = OP_MULTU \<and> no_carry (RS d s) (RT d s)"
  shows "same_outcome s t (exec_op (opCode d) h k d pc s) (interp_op unix h' xpc v t)"
  using effect
proof (elim disjE conjE)
  assume c: "opCode d = OP_MULT" "no_carry (magnitude (RS d s)) (magnitude (RT d s))"
  from executed_product(1) [OF t c(1) [unfolded d_def], folded d_def, of h k unix h' xpc] c same_hi_lo [OF t(1)]
  show ?thesis by auto
next
  assume c: "opCode d = OP_MULTU" "no_carry (RS d s) (RT d s)"
  from executed_product(2) [OF t c(1) [unfolded d_def], folded d_def, of h k unix h' xpc] c same_hi_lo [OF t(1)]
  show ?thesis by auto
qed

text \<open>The operations with an immediate.\<close>

lemma same_immediate:
  fixes i :: instruction and v :: c_int
  defines "d \<equiv> Decode (i\<lparr>instr_value := v\<rparr>)"
  assumes t: "executed s pc t" "registers s 0 = Reg t 0"
    and effect: "opCode d = OP_ADDI \<longrightarrow> int_range (sint (RS d s) + sint (extra d))"
      "opCode d \<in> {OP_ANDI, OP_ORI, OP_XORI} \<longrightarrow> extra d AND 0xffff = extra d"
    and c: "(opCode d, m) \<in> {(OP_ADDI, I_ADDI), (OP_ADDIU, I_ADDIU), (OP_SLTI, I_SLTI), (OP_SLTIU, I_SLTIU), (OP_ANDI, I_ANDI),
      (OP_ORI, I_ORI), (OP_XORI, I_XORI), (OP_LUI, I_LUI)}"
  shows "same_outcome s t (exec_op (opCode d) h k d pc s) (interp_op unix h' xpc v t)"
proof -
  have "(opCode d, m) \<in> set main_codes" using c by (auto simp: main_codes_def)
  note n = decoded_main [OF refl this [unfolded d_def], folded d_def]
  have x: "extra d = immed v" using n(2) c by auto
  note ops = decoded_operands [where i = i and v = v, folded d_def]
  have regs: "registers s (i_rs v) = Reg t (i_rs v)" "registers s (i_rt v) = Reg t (i_rt v)"
    by (simp_all add: executed_registers [OF t] field_less)
  note rt = same_to_rt [OF t(1), of d, unfolded ops, OF field_less(2)]
  note effect = effect [unfolded ops regs x]
  have in_range: "opCode d = OP_ADDI \<Longrightarrow> exec_ADDI k d pc s = to_rt d (Reg t (i_rs v) + immed v) pc s"
    using exec_in_range(3) [where i = d and s = s and k = k and pc = pc] effect unfolding ops regs x by blast
  have upper: "push_bit 16 (immed v) = push_bit 16 v"
  proof -
    have only: "15 \<le> n - 16 \<longleftrightarrow> n - 16 = 15" if "n < 32" for n :: nat using that by auto
    show ?thesis unfolding immed_scast by (rule bit_word_eqI) (auto simp: bit_simps min_def only)
  qed
  show ?thesis
    using c n(1) effect
    by (elim insertE emptyE)
      (simp_all add: interp_op_eqs(3-) ops regs x in_range rt upper i_truth_def exec_ADDIU_def exec_SLTI_def exec_SLTIU_def
        exec_ANDI_def exec_ORI_def exec_XORI_def exec_LUI_def)
qed

text \<open>Branches and jumps.\<close>

lemma same_jump:
  fixes i :: instruction and v :: c_int
  defines "d \<equiv> Decode (i\<lparr>instr_value := v\<rparr>)"
  assumes t: "executed s pc t" "registers s 0 = Reg t 0" and xpc: "xpc + 4 = registers s NextPCReg"
    and near: "opCode d \<in> {OP_J, OP_JAL} \<longrightarrow> pc AND 0xf0000000 = xpc AND 0xf0000000"
    and c: "(opCode d, m) \<in> {(OP_BEQ, I_BEQ), (OP_BNE, I_BNE), (OP_BLEZ, I_BLEZ), (OP_BGTZ, I_BGTZ), (OP_J, I_J), (OP_JAL, I_JAL)}"
  shows "same_outcome s t (exec_op (opCode d) h k d pc s) (interp_op unix h' xpc v t)"
proof -
  have "(opCode d, m) \<in> set main_codes" using c by (auto simp: main_codes_def)
  note n = decoded_main [OF refl this [unfolded d_def], folded d_def]
  note ops = decoded_operands [where i = i and v = v, folded d_def]
  have regs: "registers s (i_rs v) = Reg t (i_rs v)" "registers s (i_rt v) = Reg t (i_rt v)"
    by (simp_all add: executed_registers [OF t] field_less)
  have branch: "same_outcome s t (branch_if c d pc s) (jump_if c (xpc + 4 + push_bit 2 (immed v)) t)" if "opCode d \<notin> {OP_J, OP_JAL}" for c
    using n(2) that by (intro same_branch [OF t(1)]) (simp_all add: IndexToAddr_def xpc)
  have jump: "same_outcome s t (Inr (Next s' x 0 0)) (jump_if True x t')" if "executed s' pc t'" "registers_only s s'" "mem t' = mem t" for s' t' x
    using that(1) by (rule same_jump_if) (simp_all add: that)
  have "link RetAddrReg s = set_reg 31 (xpc + 8) s" by (simp add: link_def xpc [symmetric] add.commute)
  then have linked: "executed (link RetAddrReg s) pc (put_Reg 31 (xpc + 8) t)" using executed_put [OF t(1), of 31] by simp
  show ?thesis
    using c n near
    by (elim insertE emptyE)
      (simp_all add: interp_op_eqs(3-) ops regs branch jump [OF t(1)] jump [OF linked] exec_BEQ_def exec_BNE_def exec_BLEZ_def
        exec_BGTZ_def exec_J_def exec_JAL_def IndexToAddr_def)
qed

lemma same_bcond:
  fixes i :: instruction and v :: c_int
  defines "d \<equiv> Decode (i\<lparr>instr_value := v\<rparr>)"
  assumes t: "executed s pc t" "registers s 0 = Reg t 0" and xpc: "xpc + 4 = registers s NextPCReg"
    and c: "(opCode d, m) \<in> {(OP_BLTZ, I_BLTZ), (OP_BGEZ, I_BGEZ), (OP_BLTZAL, I_BLTZAL), (OP_BGEZAL, I_BGEZAL)}"
  shows "same_outcome s t (exec_op (opCode d) h k d pc s) (interp_op unix h' xpc v t)"
proof -
  note n = decoded_bcond [OF refl c [unfolded d_def], folded d_def]
  note ops = decoded_operands [where i = i and v = v, folded d_def]
  have next_pc: "registers (link RetAddrReg s) NextPCReg = registers s NextPCReg"
    by (simp add: link_def set_reg_def)
  have branch: "same_outcome s t (branch_if c d pc s') (jump_if c (xpc + 4 + push_bit 2 (immed v)) t')"
    if "executed s' pc t'" "registers s' NextPCReg = registers s NextPCReg" "registers_only s s'" "mem t' = mem t" for c s' t'
    using n(3) that by (intro same_branch) (simp_all add: IndexToAddr_def xpc)
  have "link RetAddrReg s = set_reg 31 (xpc + 8) s" by (simp add: link_def xpc [symmetric] add.commute)
  then have linked: "executed (link RetAddrReg s) pc (put_Reg 31 (xpc + 8) t)"
    "registers (link RetAddrReg s) 0 = Reg (put_Reg 31 (xpc + 8) t) 0"
    using executed_put [OF t(1), of 31] t(2) by (simp_all add: set_reg_def put_Reg_def)
  have regs: "registers s (i_rs v) = Reg t (i_rs v)" "registers (link RetAddrReg s) (i_rs v) = Reg (put_Reg 31 (xpc + 8) t) (i_rs v)"
    by (simp_all add: executed_registers [OF t] executed_registers [OF linked] field_less)
  have sign: "x AND SIGN_BIT = 0 \<longleftrightarrow> 0 \<le> sint x" "x AND SIGN_BIT \<noteq> 0 \<longleftrightarrow> sint x < 0" for x :: c_int
    using sign_bit_iff [of x] by (auto simp: SIGN_BIT_def)
  show ?thesis
    unfolding interp_op_eqs(2) [OF n(1)] using c n(2)
    by (elim insertE emptyE)
      (simp_all add: interp_bcond_def Let_def I_defs ops regs sign not_le not_less branch [OF t(1) refl] branch [OF linked(1) next_pc] exec_BLTZ_def
        exec_BGEZ_def exec_BLTZAL_def exec_BGEZAL_def)
qed

text \<open>One instruction.\<close>

lemma same_exec:
  fixes i :: instruction and v :: c_int
  defines "d \<equiv> Decode (i\<lparr>instr_value := v\<rparr>)"
  assumes t: "executed s (registers s NextPCReg + 4) t" "registers s 0 = Reg t 0" and effect: "same_effect d s"
    and xpc: "registers s PCReg = xpc"
  shows "same_outcome s t (exec_op (opCode d) h k d (registers s NextPCReg + 4) s) (interp_op unix h' xpc v t)"
proof -
  note ops = decoded_operands [where i = i and v = v, folded d_def]
  note product = same_product [OF t, where i = i and v = v, folded d_def]
    and plain = same_special [OF t, where i = i and v = v, folded d_def]
    and arithmetic = same_arithmetic [OF t, where i = i and v = v and xpc = xpc, folded d_def]
    and immediate = same_immediate [OF t, where i = i and v = v, folded d_def]
    and jump = same_jump [OF t, where i = i and v = v and xpc = xpc, folded d_def]
    and bcond = same_bcond [OF t, where i = i and v = v and xpc = xpc, folded d_def]
  have conds: "opCode d = OP_ADD \<longrightarrow> int_range (sint (RS d s) + sint (RT d s))"
      "opCode d = OP_SUB \<longrightarrow> int_range (sint (RS d s) - sint (RT d s))"
      "opCode d \<in> {OP_DIV, OP_DIVU} \<longrightarrow> RT d s \<noteq> 0"
      "opCode d = OP_DIV \<longrightarrow> \<not> (sint (RS d s) = - (2 ^ 31) \<and> sint (RT d s) = - 1)"
      "opCode d = OP_JALR \<longrightarrow> rd d \<noteq> rs d"
      "opCode d = OP_ADDI \<longrightarrow> int_range (sint (RS d s) + sint (extra d))"
      "opCode d \<in> {OP_ANDI, OP_ORI, OP_XORI} \<longrightarrow> extra d AND 0xffff = extra d"
      "opCode d \<in> {OP_J, OP_JAL} \<longrightarrow> (registers s NextPCReg + 4) AND 0xf0000000 = xpc AND 0xf0000000"
    using effect xpc by (auto simp: same_effect_def Let_def)
  have distinct: "opCode d = OP_JALR \<longrightarrow> i_rd v \<noteq> i_rs v" using conds(5) by (metis ops(1,3) word_unat_eq_iff)
  have straight: "opCode d \<in> {OP_JALR, OP_BEQ, OP_BNE, OP_BLEZ, OP_BGTZ, OP_J, OP_JAL, OP_BLTZ, OP_BGEZ, OP_BLTZAL, OP_BGEZAL} \<longrightarrow>
      xpc + 4 = registers s NextPCReg"
    using effect xpc by (auto simp: same_effect_def Let_def)
  let ?plain = "{(OP_SLL, I_SLL), (OP_SRL, I_SRL), (OP_SRA, I_SRA), (OP_SLLV, I_SLLV), (OP_SRLV, I_SRLV),
      (OP_SRAV, I_SRAV), (OP_ADDU, I_ADDU), (OP_SUBU, I_SUBU), (OP_AND, I_AND), (OP_OR, I_OR), (OP_XOR, I_XOR), (OP_NOR, I_NOR),
      (OP_SLT, I_SLT), (OP_SLTU, I_SLTU), (OP_MFHI, I_MFHI), (OP_MFLO, I_MFLO)}"
  let ?arithmetic = "{(OP_ADD, I_ADD), (OP_SUB, I_SUB), (OP_DIV, I_DIV), (OP_DIVU, I_DIVU), (OP_MTHI, I_MTHI),
      (OP_MTLO, I_MTLO), (OP_JR, I_JR), (OP_JALR, I_JALR)}"
  let ?immediate = "{(OP_ADDI, I_ADDI), (OP_ADDIU, I_ADDIU), (OP_SLTI, I_SLTI), (OP_SLTIU, I_SLTIU), (OP_ANDI, I_ANDI),
      (OP_ORI, I_ORI), (OP_XORI, I_XORI), (OP_LUI, I_LUI)}"
  let ?jump = "{(OP_BEQ, I_BEQ), (OP_BNE, I_BNE), (OP_BLEZ, I_BLEZ), (OP_BGTZ, I_BGTZ), (OP_J, I_J), (OP_JAL, I_JAL)}"
  let ?bcond = "{(OP_BLTZ, I_BLTZ), (OP_BGEZ, I_BGEZ), (OP_BLTZAL, I_BLTZAL), (OP_BGEZAL, I_BGEZAL)}"
  have number: "\<exists>m. (c, m) \<in> S" if "c \<in> fst ` S" for c :: opcode and S :: "(opcode \<times> nat) set" using that by auto
  have "opCode d \<in> fst ` ?plain \<union> fst ` ?arithmetic \<union> fst ` ?immediate \<union> fst ` ?jump \<union> fst ` ?bcond \<or>
      (opCode d = OP_MULT \<and> no_carry (magnitude (RS d s)) (magnitude (RT d s)) \<or> opCode d = OP_MULTU \<and> no_carry (RS d s) (RT d s))"
    using effect unfolding same_effect_def Let_def by (elim disjE conjE insertE emptyE) simp_all
  then consider m where "(opCode d, m) \<in> ?plain" | m where "(opCode d, m) \<in> ?arithmetic" | m where "(opCode d, m) \<in> ?immediate"
    | m where "(opCode d, m) \<in> ?jump" | m where "(opCode d, m) \<in> ?bcond"
    | "opCode d = OP_MULT \<and> no_carry (magnitude (RS d s)) (magnitude (RT d s)) \<or> opCode d = OP_MULTU \<and> no_carry (RS d s) (RT d s)"
    using number unfolding Un_iff by metis
  then show ?thesis
  proof cases
    case 1
    then show ?thesis by (rule plain)
  next
    case 2
    have "opCode d = OP_JALR \<longrightarrow> xpc + 4 = registers s NextPCReg" using straight by simp
    then show ?thesis by (rule arithmetic [OF _ conds(1-4) distinct 2])
  next
    case 3
    show ?thesis by (rule immediate [OF conds(6,7) 3])
  next
    case 4
    then have "xpc + 4 = registers s NextPCReg" using straight by auto
    then show ?thesis by (rule jump [OF _ conds(8) 4])
  next
    case 5
    then have "xpc + 4 = registers s NextPCReg" using straight by auto
    then show ?thesis by (rule bcond [OF _ 5])
  next
    case 6
    then show ?thesis by (rule product)
  qed
qed

section \<open>Where they differ\<close>

text \<open>
  A product that carries leaves the same \<^verbatim>\<open>LO\<close> and different \<^verbatim>\<open>HI\<close>. A \<open>JALR\<close> into the register it
  links goes on at the address it has just stored in the simulator, and at the one the register
  had in the interpreter.
\<close>

lemma products_differ:
  fixes i :: instruction and v :: c_int
  defines "d \<equiv> Decode (i\<lparr>instr_value := v\<rparr>)"
  assumes t: "executed s pc t" "registers s 0 = Reg t 0"
    and carry: "opCode d = OP_MULT \<and> \<not> no_carry (magnitude (RS d s)) (magnitude (RT d s)) \<or>
      opCode d = OP_MULTU \<and> \<not> no_carry (RS d s) (RT d s)"
  shows "\<exists>s' t'. exec_op (opCode d) h k d pc s = Inr (Next s' pc 0 0) \<and> interp_op unix h' xpc v t = Inr (Running t') \<and>
    registers s' LoReg = LO t' \<and> registers s' HiReg \<noteq> HI t'"
  using carry
proof (elim disjE conjE)
  assume c: "opCode d = OP_MULT" "\<not> no_carry (magnitude (RS d s)) (magnitude (RT d s))"
  from executed_product(1) [OF t c(1) [unfolded d_def], folded d_def, of h k unix h' xpc] c
  show ?thesis by (auto simp: to_HI_LO_def set_hi_lo_def set_reg_def)
next
  assume c: "opCode d = OP_MULTU" "\<not> no_carry (RS d s) (RT d s)"
  from executed_product(2) [OF t c(1) [unfolded d_def], folded d_def, of h k unix h' xpc] c
  show ?thesis by (auto simp: to_HI_LO_def set_hi_lo_def set_reg_def)
qed

lemma links_differ:
  fixes i :: instruction and v :: c_int
  defines "d \<equiv> Decode (i\<lparr>instr_value := v\<rparr>)"
  assumes t: "executed s pc t" "registers s 0 = Reg t 0" and c: "opCode d = OP_JALR" "rd d = rs d"
  shows "\<exists>s' t'. exec_op (opCode d) h k d pc s = Inr (Next s' (registers s NextPCReg + 4) 0 0) \<and>
    interp_op unix h' xpc v t = Inr (Running t') \<and> i_npc t' = RS d s"
proof -
  have "(OP_JALR, I_JALR) \<in> set special_codes" by (simp add: special_codes_def)
  note n = decoded_special [OF c(1) [unfolded d_def] this, folded d_def]
  note ops = decoded_operands [where i = i and v = v, folded d_def]
  have "RS d s = Reg t (i_rs v)" by (simp add: ops executed_registers [OF t] field_less)
  then show ?thesis
    unfolding interp_op_eqs(1) [OF n(1)] using c
    by (simp add: interp_special_eqs n(2) exec_JALR_def exec_JR_def link_def set_reg_def to_Reg_def put_Reg_def)
qed

section \<open>One step\<close>

text \<open>The older interpreter does not decode a word of zeros; decoded, it would shift register 0 into itself.\<close>

lemma interp_zero:
  assumes "Reg t 0 = 0"
  shows "interp_op unix h xpc 0 t = Inr (Running t)"
proof -
  have "put_Reg 0 0 t = t" using assms by (simp add: put_Reg_def fun_upd_idem)
  then show ?thesis
    using assms by (simp add: interp_op_eqs(1) interp_special_eqs(1) I_defs i_rd_def i_rt_def i_field_def to_Reg_def)
qed

text \<open>One step, from the states between instructions.\<close>

lemma simulators_step:
  assumes "translation_ok s" and "agrees s t" and "ReadMem h k (registers s PCReg) 4 s = Inr (Some v, s1)"
    and "fetch h' (i_pc t) t = Inr v" and "same_effect (Decode (i\<lparr>instr_value := v\<rparr>)) s"
  shows "\<exists>s' t'. OneInstruction h k i s = Inr (Decode (i\<lparr>instr_value := v\<rparr>), s') \<and>
    interp_step unix h' t = Inr (Running t') \<and> agrees s' t' \<and> registers_only s1 s' \<and> mem t' = mem t"
proof -
  let ?d = "Decode (i\<lparr>instr_value := v\<rparr>)"
  let ?t = "put_Reg 0 0 (t\<lparr>icount := icount t + 1, i_pc := i_npc t, i_npc := i_npc t + 4\<rparr>)"
  note f = fetched [OF assms(1,3)]
  have e: "executed s1 (registers s1 NextPCReg + 4) ?t" "registers s1 0 = Reg ?t 0"
    using assms(2) by (auto simp: executed_def agrees_def same_registers_def put_Reg_def f)
  have effect: "same_effect ?d s1" using assms(5) by (simp add: same_effect_def f)
  have pc: "registers s1 PCReg = i_pc t" using assms(2) by (simp add: agrees_def f)
  obtain s2 pcAfter t2 where o2: "exec_op (opCode ?d) h k ?d (registers s1 NextPCReg + 4) s1 = Inr (Next s2 pcAfter 0 0)"
      "interp_op unix h' (i_pc t) v ?t = Inr (Running t2)" "executed s2 pcAfter t2" "registers_only s1 s2" "mem t2 = mem t"
    using same_exec [OF e effect pc, of h k unix h'] unfolding same_outcome_def by auto
  have load: "load_ok s2" "registers s2 LoadReg = 0" using o2(3) by (simp_all add: executed_def same_registers_def load_ok_def)
  note r = retire_Next [OF load(1), of pcAfter 0 0, unfolded load(2)]
  have "interp_step unix h' t = Inr (Running t2)"
    using o2(2) assms(4) interp_zero [of ?t unix h' "i_pc t"]
    by (auto simp: interp_step_def Let_def fetch_def put_Reg_def)
  moreover have "agrees (s2\<lparr>registers := (registers s2)(0 := registers s2 LoadValueReg, LoadReg := 0, LoadValueReg := 0,
      0 := 0, PrevPCReg := registers s2 PCReg, PCReg := registers s2 NextPCReg, NextPCReg := pcAfter)\<rparr>) t2"
    using o2(3) by (auto simp: agrees_def executed_def same_registers_def)
  moreover have "registers_only s1 (s2\<lparr>registers := r\<rparr>)" for r using o2(4) by (auto simp: registers_only_iff)
  ultimately show ?thesis using o2(1,5) r unfolding OneInstruction_fetched [OF assms(3)] by auto
qed

section \<open>Runs\<close>

text \<open>The older interpreter's memory holds the code at the addresses that translation gives it.\<close>

definition same_code :: "host \<Rightarrow> host \<Rightarrow> 'm machine_scheme \<Rightarrow> interp \<Rightarrow> bool" where
  "same_code h h' s t \<longleftrightarrow>
     (\<forall>va p. mmu va 4 False s = Phys p \<longrightarrow> fetch h' va t = Inr (read_value h (mainMemory s) (unat p) 4))"

text \<open>The next \<open>n\<close> instructions are fetched without a trap and are ones on which both do the same.\<close>

fun shared_run ::
  "host \<Rightarrow> ('q, 'k) simulator_scheme kernel \<Rightarrow> nat \<Rightarrow> instruction \<Rightarrow> ('q, 'k) simulator_scheme \<Rightarrow> bool" where
  "shared_run h k 0 i s = True"
| "shared_run h k (Suc n) i s =
    (case ReadMem h k (registers s PCReg) 4 s of
       Inr (Some v, _) \<Rightarrow> same_effect (Decode (i\<lparr>instr_value := v\<rparr>)) s \<and>
         (case OneInstruction h k i s of Inr (i', s') \<Rightarrow> shared_run h k n i' s' | Inl _ \<Rightarrow> False)
     | _ \<Rightarrow> False)"

lemma ReadMem_value:
  assumes "translation_ok s" and "ReadMem h k va 4 s = Inr (Some v, s1)"
  shows "\<exists>p. mmu va 4 False s = Phys p \<and> v = read_value h (mainMemory s) (unat p) 4"
proof -
  have sz: "4 \<in> {1, 2, 4 :: c_int}" by simp
  obtain s' where t: "translated va 4 False s s'" using Translate_implements [OF assms(1) sz] by blast
  show ?thesis
  proof (cases "mmu va 4 False s")
    case (Phys p)
    then show ?thesis using ReadMem_phys [OF t Phys sz, of h k] assms(2) by simp
  next
    case (Trap e)
    then show ?thesis using assms(2) unfolding ReadMem_trap [OF t Trap] by (auto simp: run_simps)
  qed
qed

lemma same_code_step:
  assumes "translation_ok s" and "ReadMem h k va 4 s = Inr (Some v, s1)" and "registers_only s1 s'" and "mem t' = mem t"
    and "same_code h h' s t"
  shows "translation_ok s'" and "same_code h h' s' t'"
proof -
  note f = fetched [OF assms(1,2)]
  obtain r where s': "s' = s1\<lparr>registers := r\<rparr>" using assms(3) by (auto simp: registers_only_iff)
  show "translation_ok s'" using f(2) unfolding s' by (auto simp: translation_ok_def split: option.splits)
  have "mmu a sz b s' = mmu a sz b s" for a sz b
    unfolding s' f(4) [symmetric] by (cases "tlb s1") (simp_all add: mmu_def beyond_def mapping_def)
  moreover have "fetch h' a t' = fetch h' a t" for a using assms(4) by (simp add: fetch_def)
  ultimately show "same_code h h' s' t'" using assms(5) f(3) unfolding s' by (simp add: same_code_def)
qed

lemma simulators_run:
  assumes "translation_ok s" and "agrees s t" and "same_code h h' s t" and "shared_run h k n i s"
  shows "\<exists>i' s' t'. iterate (\<lambda>p. OneInstruction h k (fst p) (snd p)) n (i, s) = Inr (i', s') \<and>
    interp_run unix h' n t = Inr (Running t') \<and> agrees s' t'"
  using assms
proof (induction n arbitrary: i s t)
  case 0
  then show ?case by simp
next
  case (Suc n)
  obtain v s1 where v: "ReadMem h k (registers s PCReg) 4 s = Inr (Some v, s1)"
    using Suc.prems(4) by (auto split: sum.splits prod.splits option.splits)
  have effect: "same_effect (Decode (i\<lparr>instr_value := v\<rparr>)) s" using Suc.prems(4) v by simp
  have "fetch h' (i_pc t) t = Inr v"
    using ReadMem_value [OF Suc.prems(1) v] Suc.prems(2,3) by (auto simp: same_code_def agrees_def)
  from simulators_step [OF Suc.prems(1,2) v this effect, of unix]
  obtain s' t' where step: "OneInstruction h k i s = Inr (Decode (i\<lparr>instr_value := v\<rparr>), s')"
      "interp_step unix h' t = Inr (Running t')" "agrees s' t'" "registers_only s1 s'" "mem t' = mem t" by blast
  note next_ok = same_code_step [OF Suc.prems(1) v step(4,5) Suc.prems(3)]
  have "shared_run h k n (Decode (i\<lparr>instr_value := v\<rparr>)) s'" using Suc.prems(4) v step(1) by simp
  from Suc.IH [OF next_ok(1) step(3) next_ok(2) this] show ?case using step(1,2) by simp
qed

end
