(* ===== verification/Tool_Properties.thy ===== *)
theory Tool_Properties
  imports Coff_Layout Mips_Agreement Mips_Properties
begin

text \<open>The claims about the tools that prepare user programs.\<close>

section \<open>From COFF to NOFF\<close>

text \<open>A file that starts with the two headers of a COFF file, complete with its section headers.\<close>

definition coff_file :: "host \<Rightarrow> byte list \<Rightarrow> scnhdr list \<Rightarrow> bool" where
  "coff_file h file secs \<longleftrightarrow>
     (let fileh = filehdr_of_bytes h (take sizeof_filehdr file);
          systemh = aouthdr_of_bytes h (take sizeof_aouthdr (drop sizeof_filehdr file));
          n = unat (ShortToHost h (f_nscns fileh));
          start = sizeof_filehdr + sizeof_aouthdr
      in start + n * sizeof_scnhdr \<le> length file \<and> ShortToHost h (f_magic fileh) = MIPSELMAGIC \<and>
         ShortToHost h (magic systemh) = OMAGIC \<and>
         secs = coff_sections h n (take (n * sizeof_scnhdr) (drop start file)))"

definition no_segments :: "noff_header \<Rightarrow> noff_header" where
  "no_segments fresh = fresh\<lparr>noffMagic := NOFFMAGIC, code := (code fresh)\<lparr>seg_size := 0\<rparr>,
     initData := (initData fresh)\<lparr>seg_size := 0\<rparr>, uninitData := (uninitData fresh)\<lparr>seg_size := 0\<rparr>\<rparr>"

lemma unat_of_nat_small: "m < 2 ^ 32 \<Longrightarrow> unat (of_nat m :: c_int) = m"
  by (simp add: unsigned_of_nat take_bit_nat_eq_self)

lemma coff2noff_sections:
  assumes "coff_file h file secs"
  shows "\<exists>pos. coff2noff h fresh (Some file) True =
    or_exit (convert_sections True file secs
      \<lparr>inPos = pos, outFile = ([], sizeof_NoffHeader), noffH = no_segments fresh, inNoffFile = of_nat sizeof_NoffHeader\<rparr>)
    (\<lambda>st. or_exit (coff_Write True (noff_bytes h (noffH st)) (of_nat sizeof_NoffHeader) (fst (outFile st), 0))
      (\<lambda>out. Inr (fst out)))"
proof -
  let ?n = "unat (ShortToHost h (f_nscns (filehdr_of_bytes h (take 20 file))))"
  have n: "?n < 2 ^ 16" using unsigned_less [of "ShortToHost h (f_nscns (filehdr_of_bytes h (take 20 file)))"] by simp
  then have size: "unat (of_nat (?n * 40) :: c_int) = ?n * 40" by (intro unat_of_nat_small) simp
  show ?thesis
    using assms n
    by (intro exI [of _ "76 + ?n * 40"]) (simp add: coff2noff_def coff_file_def Let_def sizeof_filehdr_def sizeof_aouthdr_def sizeof_scnhdr_def no_segments_def
        coff_Read_ok size del: of_nat_mult)
qed

lemma coff_Write_header:
  assumes "length header = sizeof_NoffHeader"
  shows "coff_Write True header (of_nat sizeof_NoffHeader) (out, 0) =
    Inr (header @ drop sizeof_NoffHeader out, sizeof_NoffHeader)"
proof -
  have "header \<noteq> []" using assms by (auto simp: sizeof_NoffHeader_def)
  then show ?thesis using assms by (simp add: coff_Write_def write_at_def Let_def sizeof_NoffHeader_def sint_small)
qed

text \<open>The bytes of a segment in the NOFF file.\<close>

definition segment_in :: "byte list \<Rightarrow> segment \<Rightarrow> byte list" where
  "segment_in out seg = take (unat (seg_size seg)) (drop (unat (inFileAddr seg)) out)"

lemma placed_segment:
  assumes "placed file bytes seg sec" and "length header = sizeof_NoffHeader"
    and "sizeof_NoffHeader + length bytes < 2 ^ 32" and "section_fits file sec"
  shows "virtualAddr seg = s_paddr sec \<and> segment_in (header @ bytes) seg = section_bytes file sec"
proof -
  obtain a b where ab: "bytes = a @ section_bytes file sec @ b" "inFileAddr seg = of_nat (sizeof_NoffHeader + length a)"
    "virtualAddr seg = s_paddr sec" "seg_size seg = s_size sec" using assms(1) by (auto simp: placed_def)
  have "unat (inFileAddr seg) = sizeof_NoffHeader + length a"
    unfolding ab(2) by (rule unat_of_nat_small) (use assms(3) ab(1) in simp)
  then show ?thesis
    using ab assms(2) section_bytes_length [OF assms(4)] by (simp add: segment_in_def)
qed

lemma accepted_fits:
  assumes "accepted file secs" and "sec \<in> set secs" and "section_kind sec \<in> {Text, Data}"
  shows "section_fits file sec"
  using assms by (auto simp: accepted_def accepted_after_def in_set_conv_nth)

lemma of_kind_in: "of_kind k secs \<noteq> [] \<Longrightarrow> last (of_kind k secs) \<in> set secs \<and> section_kind (last (of_kind k secs)) = k"
  using last_in_set [of "of_kind k secs"] by (auto simp: of_kind_def)

text \<open>
  C38. The converter keeps the program. Let the sections of a COFF file be small enough for the
  sizes to be added. If no section is refused, the output is a header followed by the contents
  of the sections with code and data; the header can be read back, and its segments are, byte for
  byte and at the same virtual addresses, the last section with code and the only one with data,
  while the uninitialised segment starts at the first such section and has the sizes of all. If a
  section is refused, because its contents are missing, its name is unknown, it is a second one with data, or it
  starts right where the uninitialised ones before it end, there is no output.
\<close>

theorem coff2noff_keeps_sections:
  assumes coff: "coff_file h file secs" and total: "total_size secs < 2147483648 - sizeof_NoffHeader"
    and scn: "\<forall>sec \<in> set secs. 0 \<le> sint (s_scnptr sec)"
  shows "if accepted file secs
    then \<exists>H. coff2noff h fresh (Some file) True = Inr (noff_bytes h H @ image file secs) \<and>
      words_of_bytes h (take sizeof_NoffHeader (noff_bytes h H @ image file secs)) =
        noffMagic H # segment_words (code H) @ segment_words (initData H) @ segment_words (uninitData H) \<and>
      noffMagic H = NOFFMAGIC \<and>
      (if of_kind Text secs = [] then seg_size (code H) = 0
       else virtualAddr (code H) = s_paddr (last (of_kind Text secs)) \<and>
         segment_in (noff_bytes h H @ image file secs) (code H) = section_bytes file (last (of_kind Text secs))) \<and>
      (if of_kind Data secs = [] then seg_size (initData H) = 0
       else (\<exists>sec. of_kind Data secs = [sec] \<and> virtualAddr (initData H) = s_paddr sec \<and>
         segment_in (noff_bytes h H @ image file secs) (initData H) = section_bytes file sec)) \<and>
      (if of_kind Bss secs = [] then seg_size (uninitData H) = 0
       else virtualAddr (uninitData H) = s_paddr (hd (of_kind Bss secs)) \<and>
         unat (seg_size (uninitData H)) = total_size (of_kind Bss secs))
    else \<exists>e. coff2noff h fresh (Some file) True = Inl e"
proof -
  obtain pos where run: "coff2noff h fresh (Some file) True =
    or_exit (convert_sections True file secs
      \<lparr>inPos = pos, outFile = ([], sizeof_NoffHeader), noffH = no_segments fresh, inNoffFile = of_nat sizeof_NoffHeader\<rparr>)
    (\<lambda>st. or_exit (coff_Write True (noff_bytes h (noffH st)) (of_nat sizeof_NoffHeader) (fst (outFile st), 0))
      (\<lambda>out. Inr (fst out)))" using coff2noff_sections [OF coff] by blast
  have "converted file []
      \<lparr>inPos = pos, outFile = ([], sizeof_NoffHeader), noffH = no_segments fresh, inNoffFile = of_nat sizeof_NoffHeader\<rparr>"
    by (simp add: converted_def segments_ok_def no_segments_def)
  note secs = convert_sections_ok [OF this total scn]
  show ?thesis
  proof (cases "accepted file secs")
    case False
    then show ?thesis using secs run by auto
  next
    case True
    then obtain st where st: "coff2noff h fresh (Some file) True =
        or_exit (coff_Write True (noff_bytes h (noffH st)) (of_nat sizeof_NoffHeader) (fst (outFile st), 0))
          (\<lambda>out. Inr (fst out))" "converted file secs st" using secs run by auto
    let ?H = "noffH st"
    let ?bytes = "image file secs"
    have header: "length (noff_bytes h ?H) = sizeof_NoffHeader"
      by (simp add: noff_bytes_def segment_words_def sizeof_NoffHeader_def)
    have len: "sizeof_NoffHeader + length ?bytes < 2 ^ 32"
      using image_length [of "file" secs] total by (simp add: sizeof_NoffHeader_def)
    have written: "coff2noff h fresh (Some file) True = Inr (noff_bytes h ?H @ ?bytes)"
      using st coff_Write_header [OF header] by (simp add: converted_def)
    moreover have "words_of_bytes h (take sizeof_NoffHeader (noff_bytes h ?H @ ?bytes)) =
        noffMagic ?H # segment_words (code ?H) @ segment_words (initData ?H) @ segment_words (uninitData ?H)"
      using header by (simp add: noff_bytes_def words_of_bytes_of_words)
    moreover have segs: "segments_ok file secs ?H" using st(2) by (simp add: converted_def)
    moreover have "virtualAddr (code ?H) = s_paddr (last (of_kind Text secs)) \<and>
        segment_in (noff_bytes h ?H @ ?bytes) (code ?H) = section_bytes file (last (of_kind Text secs))"
      if "of_kind Text secs \<noteq> []"
    proof -
      have "section_fits file (last (of_kind Text secs))" using accepted_fits [OF True] of_kind_in [OF that] by auto
      moreover have "placed file ?bytes (code ?H) (last (of_kind Text secs))" using segs that by (simp add: segments_ok_def)
      ultimately show ?thesis using placed_segment [OF _ header len] by blast
    qed
    moreover have "\<exists>sec. of_kind Data secs = [sec] \<and> virtualAddr (initData ?H) = s_paddr sec \<and>
        segment_in (noff_bytes h ?H @ ?bytes) (initData ?H) = section_bytes file sec" if nonempty: "of_kind Data secs \<noteq> []"
    proof -
      obtain sec where sec: "of_kind Data secs = [sec]" "placed file ?bytes (initData ?H) sec"
        using segs nonempty by (auto simp: segments_ok_def)
      then have "section_fits file sec" using accepted_fits [OF True] of_kind_in [OF nonempty] by auto
      then show ?thesis using placed_segment [OF sec(2) header len] sec(1) by blast
    qed
    moreover have "unat (sum_list (List.map s_size (of_kind Bss secs))) = total_size (of_kind Bss secs)"
      by (rule unat_sum_sizes) (use of_kind_size [of Bss secs] total in simp)
    ultimately show ?thesis using True by (auto simp: segments_ok_def)
  qed
qed

text \<open>A COFF file with four bytes of code at the virtual address 64.\<close>

definition sample_coff :: "byte list" where
  "sample_coff = [0x62, 1, 1, 0] @ replicate 16 0 @ [7, 1] @ replicate 54 0 @
     [46, 116, 101, 120, 116, 0, 0, 0] @ [64, 0, 0, 0] @ replicate 4 0 @ [4, 0, 0, 0] @ [116, 0, 0, 0] @ replicate 16 0 @
     [1, 2, 3, 4]"

definition sample_section :: scnhdr where
  "sample_section = \<lparr>s_name = [46, 116, 101, 120, 116, 0, 0, 0], s_paddr = 64, s_vaddr = 0, s_size = 4, s_scnptr = 116,
     s_relptr = 0, s_lnnoptr = 0, s_nreloc = 0, s_nlnno = 0, s_flags = 0\<rparr>"

definition sample_fresh :: noff_header where
  "sample_fresh = (let seg = \<lparr>virtualAddr = 9, inFileAddr = 9, seg_size = 9\<rparr>
     in \<lparr>noffMagic = 9, code = seg, initData = seg, uninitData = seg\<rparr>)"

lemma sample_coff_file: "coff_file sample_host sample_coff [sample_section]"
  by code_simp

lemma sample_coff_accepted:
  "accepted sample_coff [sample_section]" "of_kind Text [sample_section] = [sample_section]"
  "section_bytes sample_coff sample_section = [1, 2, 3, 4]"
  by (code_simp)+

lemma coff2noff_keeps_sections_witness:
  "\<exists>H. coff2noff sample_host sample_fresh (Some sample_coff) True = Inr (noff_bytes sample_host H @ [1, 2, 3, 4]) \<and>
    virtualAddr (code H) = 64 \<and> segment_in (noff_bytes sample_host H @ [1, 2, 3, 4]) (code H) = [1, 2, 3, 4]"
proof -
  have image: "image sample_coff [sample_section] = [1, 2, 3, 4]" by code_simp
  have "total_size [sample_section] < 2147483648 - sizeof_NoffHeader"
    by (simp add: total_size_def sample_section_def sizeof_NoffHeader_def)
  from coff2noff_keeps_sections [OF sample_coff_file this, of sample_fresh] sample_coff_accepted
  show ?thesis unfolding image by (auto simp: sample_section_def)
qed

section \<open>The two simulators\<close>

text \<open>
  C39. The simulator of \<^verbatim>\<open>machine\<close> and the older interpreter of \<^verbatim>\<open>bin\<close> agree on what a program
  computes in registers. Start them on the same registers, with the same code at the same addresses
  and no load pending, and let every instruction the program comes to be fetched without a trap and be a
  register operation, an operation with an immediate, a branch or a jump (no load, store, system call
  or unknown code), with these exceptions, which \<open>same_effect\<close> leaves out: \<open>ADD\<close>, \<open>ADDI\<close> and \<open>SUB\<close> that
  overflow; \<open>ANDI\<close>, \<open>ORI\<close> and \<open>XORI\<close> with the sign bit of the immediate set; \<open>DIV\<close> and \<open>DIVU\<close> by
  zero and the quotient that does not fit; \<open>MULT\<close> and \<open>MULTU\<close> when the interpreter's high word drops a
  carry; branches, \<open>J\<close>, \<open>JAL\<close> and \<open>JALR\<close> in a delay slot; \<open>J\<close> and \<open>JAL\<close> at the end of a 256 MB region;
  \<open>JALR\<close> that links into the register it jumps through. Then both run on without stopping, and after
  every number of instructions the general registers, \<^verbatim>\<open>HI\<close>, \<^verbatim>\<open>LO\<close> and the two program counters are
  the same. Products that carry and links into the register jumped through are left out because
  the programs differ there (\<open>Mips_Agreement.products_differ\<close>, \<open>links_differ\<close>).
\<close>

theorem simulators_agree:
  assumes "translation_ok s" and "agrees s t" and "same_code h h' s t" and "shared_run h k n i s"
  shows "\<exists>i' s' t'. iterate (instruction_step h k) n (i, s) = Inr (i', s') \<and>
    interp_run unix h' n t = Inr (Running t') \<and> agrees s' t'"
proof -
  have "instruction_step h k = (\<lambda>p. OneInstruction h k (fst p) (snd p))" by (rule ext) (simp add: instruction_step_def)
  then show ?thesis using simulators_run [OF assms] by simp
qed

text \<open>An instruction at the bottom of the interpreter's memory; the simulator finds the page through its TLB.\<close>

definition sample_code_page :: translation_entry where
  "sample_code_page = sample_entry\<lparr>virtualPage := 0x200000\<rparr>"

definition sample_code_state :: "unit simulator" where
  "sample_code_state = (sample_state (i_format 9 0 1 5))\<lparr>
     registers := (\<lambda>_. 0)(PCReg := 0x10000000, NextPCReg := 0x10000004),
     tlb := Some (replicate 4 sample_code_page), pageTable := None\<rparr>"

definition sample_interp :: interp where
  "sample_interp = \<lparr>Reg = (\<lambda>_. 0), HI = 0, LO = 0, i_pc = 0x10000000, i_npc = 0x10000004, icount = 0,
     mem = (\<lambda>q. mainMemory sample_code_state (256 + q))\<rparr>"

lemma sample_code_mapping: "mapping sample_code_state v = (if v = 0x200000 then Some sample_code_page else None)"
proof -
  have "replicate 4 sample_code_page = [sample_code_page, sample_code_page, sample_code_page, sample_code_page]"
    by (simp add: eval_nat_numeral)
  moreover have "maps_page v sample_code_page \<longleftrightarrow> v = 0x200000"
    by (auto simp: maps_page_def sample_code_page_def sample_entry_def)
  ultimately show ?thesis by (simp add: mapping_def sample_code_state_def tlb_lookup_def TLBSize_def)
qed

lemma sample_code_mmu:
  assumes "mmu va 4 False sample_code_state = Phys p"
  shows "place va 4 = Inr (unat va mod 128)" and "unat p = 256 + unat va mod 128"
proof -
  have va: "va div 128 = 0x200000" "p = 256 + va mod 128"
    using assms by (auto simp: mmu_def sample_code_mapping page_of_def frame_address_def sample_code_page_def sample_entry_def split: if_splits)
  have r: "unat va mod 128 < 128" by simp
  have d: "unat va div 128 = 0x200000" using arg_cong [OF va(1), of unat] by (simp add: unat_div)
  then have v: "unat va = 0x10000000 + unat va mod 128" using div_mult_mod_eq [of "unat va" 128] by simp
  have "unat (va - memoffset) = unat va mod 128"
    using v by (simp add: memoffset_def unat_sub_if' word_le_nat_alt)
  moreover have "unat va mod 128 + 4 \<le> MEMSIZE" using r by (simp only: MEMSIZE_def) simp
  ultimately show "place va 4 = Inr (unat va mod 128)" by (simp add: place_def Let_def)
  have m: "unat (va mod 128) = unat va mod 128" by (simp add: unat_mod)
  show "unat p = 256 + unat va mod 128" using r unfolding va(2) by (simp add: unat_word_ariths m)
qed

lemma sample_same_code: "same_code sample_host sample_host sample_code_state sample_interp"
proof -
  have little: "load_word sample_host m a = read_value sample_host m a 4" for m a
    using load_word_little [of sample_host m a] by (simp add: read_value_def WordToHost_def sample_host_def)
  show ?thesis
    unfolding same_code_def
  proof (intro allI impI)
    fix va p
    assume "mmu va 4 False sample_code_state = Phys p"
    note p = sample_code_mmu [OF this]
    have "read_value sample_host (mem sample_interp) a 4 = read_value sample_host (mainMemory sample_code_state) (256 + a) 4" for a
      by (simp add: sample_interp_def read_value_def add.assoc)
    then show "fetch sample_host va sample_interp = Inr (read_value sample_host (mainMemory sample_code_state) (unat p) 4)"
      by (simp add: fetch_def p little)
  qed
qed

lemma sample_code_ok: "translation_ok sample_code_state" "agrees sample_code_state sample_interp"
  by (simp_all add: sample_code_state_def sample_state_def translation_ok_def tlb_ok_def TLBSize_def sample_interp_def agrees_def same_registers_def)

lemma sample_shared_run: "shared_run sample_host sample_kernel 1 sample_instruction sample_code_state"
proof -
  let ?v = "i_format 9 0 1 5"
  have sz: "4 \<in> {1, 2, 4 :: c_int}" by simp
  have pc: "registers sample_code_state PCReg = 0x10000000" by (simp add: sample_code_state_def)
  obtain s1 where t: "translated 0x10000000 4 False sample_code_state s1"
    using Translate_implements [OF sample_code_ok(1) sz] by blast
  have mmu: "mmu 0x10000000 4 False sample_code_state = Phys 256"
    by (simp add: mmu_def misaligned_def beyond_def sample_code_mapping page_of_def frame_address_def)
      (simp add: sample_code_page_def sample_entry_def sample_code_state_def)
  have "read_value sample_host (mainMemory sample_code_state) 256 4 = ?v"
    using sample_fetch [of ?v] ReadMem_value [OF sample_translation, of sample_host sample_kernel 0 ?v] sample_mmu
    by (fastforce simp: sample_code_state_def)
  then have read: "ReadMem sample_host sample_kernel 0x10000000 4 sample_code_state = Inr (Some ?v, s1)"
    using ReadMem_phys [OF t mmu sz, of sample_host sample_kernel] by simp
  have "opCode (Decode (sample_instruction\<lparr>instr_value := ?v\<rparr>)) = OP_ADDIU"
    by (rule conjunct1 [OF i_format_op]) (simp_all add: opTable_def)
  then have effect: "same_effect (Decode (sample_instruction\<lparr>instr_value := ?v\<rparr>)) sample_code_state"
    by (simp add: same_effect_def Let_def)
  have "fetch sample_host (i_pc sample_interp) sample_interp = Inr ?v"
    using sample_same_code mmu ReadMem_value [OF sample_code_ok(1) read] by (auto simp: same_code_def sample_interp_def)
  from simulators_step [OF sample_code_ok read [folded pc] this effect] obtain s' where
    "OneInstruction sample_host sample_kernel sample_instruction sample_code_state = Inr (Decode (sample_instruction\<lparr>instr_value := ?v\<rparr>), s')"
    by blast
  then show ?thesis using read effect by (simp add: pc)
qed

lemma simulators_agree_witness:
  "\<exists>i' s' t'. iterate (instruction_step sample_host sample_kernel) 1 (sample_instruction, sample_code_state) = Inr (i', s') \<and>
    interp_run (\<lambda>_ _ _ _ m. (0, m)) sample_host 1 sample_interp = Inr (Running t') \<and> agrees s' t'"
  by (rule simulators_agree [OF sample_code_ok sample_same_code sample_shared_run])

end
