(* ===== verification/Mips_Trace.thy ===== *)
theory Mips_Trace
  imports Text_Output Mips_Isa
begin

text \<open>
  The trace of the simulator: what \<^verbatim>\<open>OneInstruction\<close> prints about an instruction when debugging the
  machine (\<^verbatim>\<open>machine/mipssim.h\<close>, \<^verbatim>\<open>machine/mipssim.cc\<close>).
\<close>

datatype RegType = NONE | RS_reg | RT_reg | RD_reg | EXTRA_arg

definition TypeToReg :: "RegType \<Rightarrow> instruction \<Rightarrow> int" where
  "TypeToReg reg instr =
    (case reg of
       RS_reg \<Rightarrow> uint (rs instr)
     | RT_reg \<Rightarrow> uint (rt instr)
     | RD_reg \<Rightarrow> uint (rd instr)
     | EXTRA_arg \<Rightarrow> sint (extra instr)
     | NONE \<Rightarrow> - 1)"

definition opStrings :: "(string \<times> RegType \<times> RegType \<times> RegType) list" where
  "opStrings =
    [(''Shouldn'' @ [CHR 0x27] @ ''t happen'', NONE, NONE, NONE),
     (''ADD r%d,r%d,r%d'', RD_reg, RS_reg, RT_reg),
     (''ADDI r%d,r%d,%d'', RT_reg, RS_reg, EXTRA_arg),
     (''ADDIU r%d,r%d,%d'', RT_reg, RS_reg, EXTRA_arg),
     (''ADDU r%d,r%d,r%d'', RD_reg, RS_reg, RT_reg),
     (''AND r%d,r%d,r%d'', RD_reg, RS_reg, RT_reg),
     (''ANDI r%d,r%d,%d'', RT_reg, RS_reg, EXTRA_arg),
     (''BEQ r%d,r%d,%d'', RS_reg, RT_reg, EXTRA_arg),
     (''BGEZ r%d,%d'', RS_reg, EXTRA_arg, NONE),
     (''BGEZAL r%d,%d'', RS_reg, EXTRA_arg, NONE),
     (''BGTZ r%d,%d'', RS_reg, EXTRA_arg, NONE),
     (''BLEZ r%d,%d'', RS_reg, EXTRA_arg, NONE),
     (''BLTZ r%d,%d'', RS_reg, EXTRA_arg, NONE),
     (''BLTZAL r%d,%d'', RS_reg, EXTRA_arg, NONE),
     (''BNE r%d,r%d,%d'', RS_reg, RT_reg, EXTRA_arg),
     (''Shouldn'' @ [CHR 0x27] @ ''t happen'', NONE, NONE, NONE),
     (''DIV r%d,r%d'', RS_reg, RT_reg, NONE),
     (''DIVU r%d,r%d'', RS_reg, RT_reg, NONE),
     (''J %d'', EXTRA_arg, NONE, NONE),
     (''JAL %d'', EXTRA_arg, NONE, NONE),
     (''JALR r%d,r%d'', RD_reg, RS_reg, NONE),
     (''JR r%d,r%d'', RD_reg, RS_reg, NONE),
     (''LB r%d,%d(r%d)'', RT_reg, EXTRA_arg, RS_reg),
     (''LBU r%d,%d(r%d)'', RT_reg, EXTRA_arg, RS_reg),
     (''LH r%d,%d(r%d)'', RT_reg, EXTRA_arg, RS_reg),
     (''LHU r%d,%d(r%d)'', RT_reg, EXTRA_arg, RS_reg),
     (''LUI r%d,%d'', RT_reg, EXTRA_arg, NONE),
     (''LW r%d,%d(r%d)'', RT_reg, EXTRA_arg, RS_reg),
     (''LWL r%d,%d(r%d)'', RT_reg, EXTRA_arg, RS_reg),
     (''LWR r%d,%d(r%d)'', RT_reg, EXTRA_arg, RS_reg),
     (''Shouldn'' @ [CHR 0x27] @ ''t happen'', NONE, NONE, NONE),
     (''MFHI r%d'', RD_reg, NONE, NONE),
     (''MFLO r%d'', RD_reg, NONE, NONE),
     (''Shouldn'' @ [CHR 0x27] @ ''t happen'', NONE, NONE, NONE),
     (''MTHI r%d'', RS_reg, NONE, NONE),
     (''MTLO r%d'', RS_reg, NONE, NONE),
     (''MULT r%d,r%d'', RS_reg, RT_reg, NONE),
     (''MULTU r%d,r%d'', RS_reg, RT_reg, NONE),
     (''NOR r%d,r%d,r%d'', RD_reg, RS_reg, RT_reg),
     (''OR r%d,r%d,r%d'', RD_reg, RS_reg, RT_reg),
     (''ORI r%d,r%d,%d'', RT_reg, RS_reg, EXTRA_arg),
     (''RFE'', NONE, NONE, NONE),
     (''SB r%d,%d(r%d)'', RT_reg, EXTRA_arg, RS_reg),
     (''SH r%d,%d(r%d)'', RT_reg, EXTRA_arg, RS_reg),
     (''SLL r%d,r%d,%d'', RD_reg, RT_reg, EXTRA_arg),
     (''SLLV r%d,r%d,r%d'', RD_reg, RT_reg, RS_reg),
     (''SLT r%d,r%d,r%d'', RD_reg, RS_reg, RT_reg),
     (''SLTI r%d,r%d,%d'', RT_reg, RS_reg, EXTRA_arg),
     (''SLTIU r%d,r%d,%d'', RT_reg, RS_reg, EXTRA_arg),
     (''SLTU r%d,r%d,r%d'', RD_reg, RS_reg, RT_reg),
     (''SRA r%d,r%d,%d'', RD_reg, RT_reg, EXTRA_arg),
     (''SRAV r%d,r%d,r%d'', RD_reg, RT_reg, RS_reg),
     (''SRL r%d,r%d,%d'', RD_reg, RT_reg, EXTRA_arg),
     (''SRLV r%d,r%d,r%d'', RD_reg, RT_reg, RS_reg),
     (''SUB r%d,r%d,r%d'', RD_reg, RS_reg, RT_reg),
     (''SUBU r%d,r%d,r%d'', RD_reg, RS_reg, RT_reg),
     (''SW r%d,%d(r%d)'', RT_reg, EXTRA_arg, RS_reg),
     (''SWL r%d,%d(r%d)'', RT_reg, EXTRA_arg, RS_reg),
     (''SWR r%d,%d(r%d)'', RT_reg, EXTRA_arg, RS_reg),
     (''XOR r%d,r%d,r%d'', RD_reg, RS_reg, RT_reg),
     (''XORI r%d,r%d,%d'', RT_reg, RS_reg, EXTRA_arg),
     (''SYSCALL'', NONE, NONE, NONE),
     (''Unimplemented'', NONE, NONE, NONE),
     (''Reserved'', NONE, NONE, NONE)]"

definition trace_instruction :: "instruction \<Rightarrow> c_int \<Rightarrow> string res" where
  "trace_instruction instr pc =
    and_then (assert_that (opcode_value (opCode instr) \<le> MaxOpcode)) (\<lambda>_.
    let (s, a, b, c) = opStrings ! opcode_value (opCode instr)
    in Inr (''At PC = 0x'' @ hex (unat pc) @ '': '' @ printf s (List.map (\<lambda>r. decimal (TypeToReg r instr)) [a, b, c]) @ newline))"

lemma length_opStrings: "length opStrings = Suc MaxOpcode"
  by code_simp

text \<open>Each string has as many conversions as arguments, so no argument is missing and none is left over.\<close>

lemma opStrings_arguments:
  "list_all (\<lambda>(s, a, b, c). length (filter (\<lambda>x. x = CHR ''%'') s) = length (takeWhile (\<lambda>r. r \<noteq> NONE) [a, b, c]) \<and>
     filter (\<lambda>r. r \<noteq> NONE) [a, b, c] = takeWhile (\<lambda>r. r \<noteq> NONE) [a, b, c]) opStrings"
  by code_simp

end
