(* ===== verification/Disassembler.thy ===== *)
theory Disassembler
  imports Mips_Interpreter Mips_Trace
begin

unbundle bit_operations_syntax

text \<open>
  The disassembler (\<^verbatim>\<open>bin/d.c\<close>, \<^verbatim>\<open>bin/opstrings.c\<close>, \<^verbatim>\<open>bin/disasm.c\<close>): a third decoder of the instruction
  set, which shows a whole object file. Its text is a string.
\<close>

section \<open>Tables\<close>

definition normalops :: "string list" where
  "normalops =
    [''special'', ''bcond'', ''j'', ''jal'', ''beq'', ''bne'', ''blez'', ''bgtz'', ''addi'',
     ''addiu'', ''slti'', ''sltiu'', ''andi'', ''ori'', ''xori'', ''lui'', ''cop0'', ''cop1'',
     ''cop2'', ''cop3'', ''024'', ''025'', ''026'', ''027'', ''030'', ''031'', ''032'', ''033'',
     ''034'', ''035'', ''036'', ''037'', ''lb'', ''lh'', ''lwl'', ''lw'', ''lbu'', ''lhu'',
     ''lwr'', ''047'', ''sb'', ''sh'', ''swl'', ''sw'', ''054'', ''055'', ''swr'', ''057'',
     ''lwc0'', ''lwc1'', ''lwc2'', ''lwc3'', ''064'', ''065'', ''066'', ''067'', ''swc0'',
     ''swc1'', ''swc2'', ''swc3'', ''074'', ''075'', ''076'', ''077'']"

definition specialops :: "string list" where
  "specialops =
    [''sll'', ''001'', ''srl'', ''sra'', ''sllv'', ''005'', ''srlv'', ''srav'', ''jr'', ''jalr'',
     ''012'', ''013'', ''syscall'', ''break'', ''016'', ''017'', ''mfhi'', ''mthi'', ''mflo'',
     ''mtlo'', ''024'', ''025'', ''026'', ''027'', ''mult'', ''multu'', ''div'', ''divu'', ''034'',
     ''035'', ''036'', ''037'', ''add'', ''addu'', ''sub'', ''subu'', ''and'', ''or'', ''xor'',
     ''nor'', ''050'', ''051'', ''slt'', ''sltu'', ''054'', ''055'', ''056'', ''057'', ''060'',
     ''061'', ''062'', ''063'', ''064'', ''065'', ''066'', ''067'', ''070'', ''071'', ''072'',
     ''073'', ''074'', ''075'', ''076'', ''077'']"

definition regstrings :: "string list" where
  "regstrings =
    [''0'', ''r1'', ''r2'', ''r3'', ''r4'', ''r5'', ''r6'', ''r7'', ''r8'', ''r9'', ''r10'',
     ''r11'', ''r12'', ''r13'', ''r14'', ''r15'', ''r16'', ''r17'', ''r18'', ''r19'', ''r20'',
     ''r21'', ''r22'', ''r23'', ''r24'', ''r25'', ''r26'', ''r27'', ''gp'', ''sp'', ''r30'',
     ''r31'']"

definition R :: "nat \<Rightarrow> string" where "R i = regstrings ! i"

section \<open>One instruction\<close>

definition off26 :: "c_int \<Rightarrow> c_int" where "off26 i = push_bit 2 (i AND (push_bit 26 1 - 1))"
definition top4 :: "c_int \<Rightarrow> c_int" where "top4 i = i AND NOT (push_bit 28 1 - 1)"
definition off16 :: "c_int \<Rightarrow> c_int" where "off16 i = push_bit 2 (immed i)"

definition special_operands :: "nat \<Rightarrow> c_int \<Rightarrow> string" where
  "special_operands opcode i =
    (if opcode \<in> {I_SLL, I_SRL, I_SRA} then R (i_rd i) @ '','' @ R (i_rt i) @ '',0x'' @ hex (shamt i)
     else if opcode \<in> {I_SLLV, I_SRLV, I_SRAV} then R (i_rd i) @ '','' @ R (i_rt i) @ '','' @ R (i_rs i)
     else if opcode \<in> {I_JR, I_JALR, I_MFLO, I_MTLO} then R (i_rs i)
     else if opcode \<in> {I_SYSCALL, I_BREAK} then []
     else if opcode \<in> {I_MFHI, I_MTHI} then R (i_rd i)
     else if opcode \<in> {I_MULT, I_MULTU, I_DIV, I_DIVU} then R (i_rs i) @ '','' @ R (i_rt i)
     else if opcode \<in> {I_ADD, I_ADDU, I_SUB, I_SUBU, I_AND, I_OR, I_XOR, I_NOR, I_SLT, I_SLTU}
     then R (i_rd i) @ '','' @ R (i_rs i) @ '','' @ R (i_rt i)
     else [])"

definition bcond_name :: "nat \<Rightarrow> string" where
  "bcond_name n =
    (if n = I_BLTZ then ''bltz'' else if n = I_BGEZ then ''bgez'' else if n = I_BLTZAL then ''bltzal''
     else if n = I_BGEZAL then ''bgezal'' else ''BCOND'')"

definition normal_operands :: "nat \<Rightarrow> c_int \<Rightarrow> c_int \<Rightarrow> string" where
  "normal_operands opcode i pc =
    (if opcode \<in> {I_J, I_JAL} then hex8 (top4 pc OR off26 i)
     else if opcode \<in> {I_BEQ, I_BNE} then R (i_rt i) @ '','' @ R (i_rs i) @ '','' @ hex8 (off16 i + pc + 4)
     else if opcode \<in> {I_ADDI, I_ADDIU, I_SLTI, I_SLTIU, I_ANDI, I_ORI, I_XORI}
     then R (i_rt i) @ '','' @ R (i_rs i) @ '',0x'' @ hex (unat (immed i))
     else if opcode = I_LUI then R (i_rt i) @ '',0x'' @ hex (unat (immed i))
     else if opcode \<in> {I_COP0, I_COP1, I_COP2, I_COP3} then []
     else if opcode \<in> {I_LB, I_LH, I_LWL, I_LW, I_LBU, I_LHU, I_LWR, I_SB, I_SH, I_SWL, I_SW, I_SWR, I_LWC0, I_LWC1,
       I_LWC2, I_LWC3, I_SWC0, I_SWC1, I_SWC2, I_SWC3}
     then R (i_rt i) @ '',0x'' @ hex (unat (immed i)) @ ''('' @ R (i_rs i) @ '')''
     else [])"

definition dump_ascii :: "bool \<Rightarrow> c_int \<Rightarrow> c_int \<Rightarrow> string" where
  "dump_ascii longdis i pc =
    (let opcode = unat (drop_bit 26 i)
     in (if longdis then hex8 pc @ '': '' @ hex8 i @ ''  '' else []) @ tab @
        (if unat i = I_NOP then ''nop''
         else if opcode = I_SPECIAL then
           (let opcode = unat (i AND 0x3f) in specialops ! opcode @ tab @ special_operands opcode i)
         else if opcode = I_BCOND then bcond_name (i_rt i) @ tab @ R (i_rs i) @ '','' @ hex8 (off16 i + pc + 4)
         else normalops ! opcode @ tab @ normal_operands opcode i pc))"

section \<open>A program\<close>

text \<open>The loop of \<^verbatim>\<open>disasm\<close> over the words of the text section.\<close>

primrec disasm_loop :: "host \<Rightarrow> bool \<Rightarrow> nat \<Rightarrow> c_int \<Rightarrow> interp \<Rightarrow> string res" where
  "disasm_loop h longdis 0 pc t = Inr []"
| "disasm_loop h longdis (Suc n) pc t =
    and_then (fetch h pc t) (\<lambda>instr.
    and_then (disasm_loop h longdis n (pc + 4) t) (\<lambda>rest.
    Inr (dump_ascii longdis instr pc @ newline @ rest)))"

definition disasm :: "host \<Rightarrow> bool \<Rightarrow> scnhdr \<Rightarrow> interp \<Rightarrow> string res" where
  "disasm h longdis texthead t =
    disasm_loop h longdis (if sint (s_size texthead) \<le> 0 then 0 else (unat (s_size texthead) + 3) div 4) memoffset t"

text \<open>This loader compares each address with the size of the memory before it writes.\<close>

primrec checked_copy :: "byte list \<Rightarrow> c_int \<Rightarrow> interp \<Rightarrow> interp_outcome res" where
  "checked_copy [] pc t = Inr (Running t)"
| "checked_copy (b # bs) pc t =
    (if int MEMSIZE \<le> sint (pc - memoffset) then Inr (Exited 1)
     else and_then (cstore pc (ucast b) t) (checked_copy bs (pc + 1)))"

definition dis_load_section :: "byte list \<Rightarrow> scnhdr \<Rightarrow> interp \<Rightarrow> interp_outcome res" where
  "dis_load_section file head t =
    (if s_scnptr head = 0 then Inr (Running t)
     else
       (let n = (if sint (s_size head) < 0 then 0 else unat (s_size head))
        in checked_copy (List.map (\<lambda>j. if j < length file then file ! j else - 1)
             [unat (s_scnptr head)..<unat (s_scnptr head) + n]) (s_vaddr head) t))"

definition dis_load_program :: "ld_file \<Rightarrow> interp \<Rightarrow> (string \<times> interp_outcome) res" where
  "dis_load_program f t =
    (if ld_TYPE f \<noteq> 0x162 then Inr ([], Exited 0)
     else load_sections (dis_load_section (ld_bytes f)) (six_sections f) t)"

text \<open>
  The file is named by the first argument that is no option; the letters of an option have no effect.
  The names are copied into arrays of 1000 and of 256 characters. The result is what is printed and, when
  the program stops early, its exit status; the messages on the error output are left out. The header of a text section that is missing is all zeros.
\<close>

definition first_file :: "string list \<Rightarrow> string" where
  "first_file args =
    (case dropWhile (\<lambda>a. a \<noteq> [] \<and> hd a = CHR ''-'') args of [] \<Rightarrow> ''a.out'' | a # _ \<Rightarrow> a)"

definition disasm_main ::
  "host \<Rightarrow> bool \<Rightarrow> (string \<Rightarrow> ld_file option) \<Rightarrow> string \<Rightarrow> string list \<Rightarrow> interp \<Rightarrow> (string \<times> int option) res" where
  "disasm_main h longdis ldopen self args t =
    (if 256 \<le> length self \<or> 1000 \<le> length (first_file args) then Inl OutOfBounds
     else case ldopen (first_file args) of
       None \<Rightarrow> Inr ([], Some 0)
     | Some f \<Rightarrow>
         and_then (dis_load_program f t) (\<lambda>(s, r).
         case r of
           Exited e \<Rightarrow> Inr (s, Some e)
         | Running t \<Rightarrow>
             (case ldnshread f ''.text'' of
                None \<Rightarrow> Inr (s, None)
              | Some texthead \<Rightarrow> and_then (disasm h longdis texthead t) (\<lambda>listing. Inr (s @ listing, None)))))"

text \<open>Every word of the text section is shown, in order, when the program is in the memory.\<close>

lemma disasm_loop_lines:
  "list_all (\<lambda>k. fetch h (pc + 4 * of_nat k) t = Inr (ws ! k)) [0..<length ws] \<Longrightarrow>
   disasm_loop h longdis (length ws) pc t =
     Inr (concat (List.map (\<lambda>k. dump_ascii longdis (ws ! k) (pc + 4 * of_nat k) @ newline) [0..<length ws]))"
proof (induction ws arbitrary: pc)
  case Nil
  show ?case by simp
next
  case (Cons w ws)
  have f: "fetch h (pc + 4 * of_nat k) t = Inr ((w # ws) ! k)" if "k < Suc (length ws)" for k
    using Cons.prems that by (simp add: list_all_iff del: upt_Suc)
  have first: "fetch h pc t = Inr w" using f [of 0] by simp
  have step: "pc + 4 + 4 * of_nat k = pc + 4 * of_nat (Suc k)" for k by simp
  have "list_all (\<lambda>k. fetch h (pc + 4 + 4 * of_nat k) t = Inr (ws ! k)) [0..<length ws]"
    unfolding step using f by (auto simp: list_all_iff simp del: of_nat_Suc)
  note IH = Cons.IH [OF this]
  have split: "[0..<length (w # ws)] = 0 # List.map Suc [0..<length ws]"
    by (simp add: upt_conv_Cons map_Suc_upt del: upt_Suc)
  show ?case unfolding split using first IH
    by (simp add: step o_def del: of_nat_Suc upt_Suc)
qed

end
