(* ===== verification/Disassembler_Names.thy ===== *)
theory Disassembler_Names
  imports Disassembler Mips_Agreement
begin

text \<open>
  The disassembler is a third decoder of the instruction set: it names every instruction the way the
  simulator decodes it, as does the trace, and the targets it prints are those of the interpreter.
\<close>

section \<open>The names\<close>

primrec opcode_name :: "opcode \<Rightarrow> string" where
  "opcode_name OP_ADD = ''add''" | "opcode_name OP_ADDI = ''addi''"
| "opcode_name OP_ADDIU = ''addiu''" | "opcode_name OP_ADDU = ''addu''"
| "opcode_name OP_AND = ''and''" | "opcode_name OP_ANDI = ''andi''" | "opcode_name OP_BEQ = ''beq''"
| "opcode_name OP_BGEZ = ''bgez''" | "opcode_name OP_BGEZAL = ''bgezal''"
| "opcode_name OP_BGTZ = ''bgtz''" | "opcode_name OP_BLEZ = ''blez''"
| "opcode_name OP_BLTZ = ''bltz''" | "opcode_name OP_BLTZAL = ''bltzal''"
| "opcode_name OP_BNE = ''bne''" | "opcode_name OP_DIV = ''div''" | "opcode_name OP_DIVU = ''divu''"
| "opcode_name OP_J = ''j''" | "opcode_name OP_JAL = ''jal''" | "opcode_name OP_JALR = ''jalr''"
| "opcode_name OP_JR = ''jr''" | "opcode_name OP_LB = ''lb''" | "opcode_name OP_LBU = ''lbu''"
| "opcode_name OP_LH = ''lh''" | "opcode_name OP_LHU = ''lhu''" | "opcode_name OP_LUI = ''lui''"
| "opcode_name OP_LW = ''lw''" | "opcode_name OP_LWL = ''lwl''" | "opcode_name OP_LWR = ''lwr''"
| "opcode_name OP_MFHI = ''mfhi''" | "opcode_name OP_MFLO = ''mflo''"
| "opcode_name OP_MTHI = ''mthi''" | "opcode_name OP_MTLO = ''mtlo''"
| "opcode_name OP_MULT = ''mult''" | "opcode_name OP_MULTU = ''multu''"
| "opcode_name OP_NOR = ''nor''" | "opcode_name OP_OR = ''or''" | "opcode_name OP_ORI = ''ori''"
| "opcode_name OP_RFE = ''rfe''" | "opcode_name OP_SB = ''sb''" | "opcode_name OP_SH = ''sh''"
| "opcode_name OP_SLL = ''sll''" | "opcode_name OP_SLLV = ''sllv''" | "opcode_name OP_SLT = ''slt''"
| "opcode_name OP_SLTI = ''slti''" | "opcode_name OP_SLTIU = ''sltiu''"
| "opcode_name OP_SLTU = ''sltu''" | "opcode_name OP_SRA = ''sra''"
| "opcode_name OP_SRAV = ''srav''" | "opcode_name OP_SRL = ''srl''"
| "opcode_name OP_SRLV = ''srlv''" | "opcode_name OP_SUB = ''sub''"
| "opcode_name OP_SUBU = ''subu''" | "opcode_name OP_SW = ''sw''" | "opcode_name OP_SWL = ''swl''"
| "opcode_name OP_SWR = ''swr''" | "opcode_name OP_XOR = ''xor''" | "opcode_name OP_XORI = ''xori''"
| "opcode_name OP_SYSCALL = ''syscall''" | "opcode_name OP_UNIMP = []" | "opcode_name OP_RES = []"
| "opcode_name SPECIAL = []" | "opcode_name BCOND = []"

text \<open>The trace of the simulator names the instructions in capital letters.\<close>

definition capital :: "char \<Rightarrow> char" where
  "capital c = (if c \<in> set ''abcdefghijklmnopqrstuvwxyz'' then char_of ((of_char c :: nat) - 32) else c)"

lemma traced_name:
  assumes "c \<notin> {OP_UNIMP, OP_RES, SPECIAL, BCOND}"
  shows "takeWhile (\<lambda>x. x \<noteq> CHR '' '') (fst (opStrings ! opcode_value c)) = List.map capital (opcode_name c)"
proof -
  have "list_all (\<lambda>c. takeWhile (\<lambda>x. x \<noteq> CHR '' '') (fst (opStrings ! opcode_value c)) = List.map capital (opcode_name c))
    [OP_ADD, OP_ADDI, OP_ADDIU, OP_ADDU, OP_AND, OP_ANDI, OP_BEQ, OP_BGEZ, OP_BGEZAL, OP_BGTZ, OP_BLEZ, OP_BLTZ, OP_BLTZAL,
     OP_BNE, OP_DIV, OP_DIVU, OP_J, OP_JAL, OP_JALR, OP_JR, OP_LB, OP_LBU, OP_LH, OP_LHU, OP_LUI, OP_LW, OP_LWL, OP_LWR,
     OP_MFHI, OP_MFLO, OP_MTHI, OP_MTLO, OP_MULT, OP_MULTU, OP_NOR, OP_OR, OP_ORI, OP_RFE, OP_SB, OP_SH, OP_SLL, OP_SLLV,
     OP_SLT, OP_SLTI, OP_SLTIU, OP_SLTU, OP_SRA, OP_SRAV, OP_SRL, OP_SRLV, OP_SUB, OP_SUBU, OP_SW, OP_SWL, OP_SWR, OP_XOR,
     OP_XORI, OP_SYSCALL]"
    by code_simp
  then show ?thesis using assms by (cases c) simp_all
qed

lemma normal_names:
  "list_all (\<lambda>(n, c, _). c \<notin> {SPECIAL, BCOND, OP_UNIMP, OP_RES} \<longrightarrow> normalops ! n = opcode_name c) (enumerate 0 opTable)"
  by code_simp

lemma special_names:
  "list_all (\<lambda>(n, c). c \<notin> {OP_UNIMP, OP_RES} \<longrightarrow> specialops ! n = opcode_name c) (enumerate 0 specialTable)"
  by code_simp

lemma group_numbers:
  "list_all (\<lambda>(n, c, _). (c = SPECIAL \<longrightarrow> n = 0) \<and> (c = BCOND \<longrightarrow> n = 1)) (enumerate 0 opTable)"
  by code_simp

text \<open>
  Every instruction that the simulator executes is shown under its name: the table of the
  disassembler agrees with the two tables of the decoder and with its treatment of the branches
  that compare with zero.
\<close>

lemma shown_name:
  assumes "opCode (Decode (i\<lparr>instr_value := v\<rparr>)) = c" and "c \<notin> {OP_UNIMP, OP_RES}" and "v \<noteq> 0"
  shows "\<exists>operands. dump_ascii longdis v pc =
    (if longdis then hex8 pc @ '': '' @ hex8 v @ ''  '' else []) @ tab @ opcode_name c @ tab @ operands"
proof -
  let ?n = "unat (drop_bit 26 v AND 0x3f)" and ?f = "unat (v AND 0x3f)"
  have top: "drop_bit 26 v AND 0x3f = drop_bit 26 v"
    unfolding masks by (rule bit_word_eqI) (auto simp: bit_simps dest: bit_imp_le_length)
  have n: "?n < 64" "?f < 64" by (rule index6_less)+
  have entry: "(?n, opTable ! ?n) \<in> set (enumerate 0 opTable)" "(?f, specialTable ! ?f) \<in> set (enumerate 0 specialTable)"
    using n by (simp_all add: in_set_enumerate_eq)
  have special: "fst (opTable ! ?n) = SPECIAL \<longleftrightarrow> ?n = 0" and bcond: "fst (opTable ! ?n) = BCOND \<longleftrightarrow> ?n = 1"
    using group_numbers entry(1) by (fastforce simp: list_all_iff opTable_def)+
  have nop: "unat v \<noteq> I_NOP" using assms(3) by (simp add: I_NOP_def unsigned_eq_0_iff)
  have shown: "dump_ascii longdis v pc = (if longdis then hex8 pc @ '': '' @ hex8 v @ ''  '' else []) @ tab @
      (if ?n = 0 then specialops ! ?f @ tab @ special_operands ?f v
       else if ?n = 1 then bcond_name (i_rt v) @ tab @ R (i_rs v) @ '','' @ hex8 (off16 v + pc + 4)
       else normalops ! ?n @ tab @ normal_operands ?n v pc)"
    unfolding top using nop by (simp add: dump_ascii_def Let_def I_SPECIAL_def I_BCOND_def)
  have code: "c = (if fst (opTable ! ?n) = SPECIAL then specialTable ! ?f
     else if fst (opTable ! ?n) = BCOND then
       (if v AND 0x1f0000 = 0 then OP_BLTZ else if v AND 0x1f0000 = 0x10000 then OP_BGEZ
        else if v AND 0x1f0000 = 0x100000 then OP_BLTZAL else if v AND 0x1f0000 = 0x110000 then OP_BGEZAL else OP_UNIMP)
     else fst (opTable ! ?n))"
    unfolding assms(1) [symmetric] by (simp add: Decode_def Let_def)
  consider "?n = 0" "specialTable ! ?f = c" | "?n = 1" "c \<in> {OP_BLTZ, OP_BGEZ, OP_BLTZAL, OP_BGEZAL}"
    | "?n \<noteq> 0" "?n \<noteq> 1" "fst (opTable ! ?n) = c"
  proof (cases "?n = 0")
    case True
    then show ?thesis using that(1) code special by simp
  next
    case False
    then have c: "c = (if ?n = 1 then
       (if v AND 0x1f0000 = 0 then OP_BLTZ else if v AND 0x1f0000 = 0x10000 then OP_BGEZ
        else if v AND 0x1f0000 = 0x100000 then OP_BLTZAL else if v AND 0x1f0000 = 0x110000 then OP_BGEZAL else OP_UNIMP)
       else fst (opTable ! ?n))" using code special bcond by simp
    show ?thesis
    proof (cases "?n = 1")
      case True
      then have "c \<in> {OP_BLTZ, OP_BGEZ, OP_BLTZAL, OP_BGEZAL}" using c assms(2) by (simp split: if_splits)
      with True show ?thesis by (rule that(2))
    next
      case n1: False
      then have "fst (opTable ! ?n) = c" using c by simp
      with False n1 show ?thesis by (rule that(3))
    qed
  qed
  then show ?thesis
  proof cases
    case 1
    have "specialops ! ?f = opcode_name c" using special_names entry(2) 1(2) assms(2) by (fastforce simp: list_all_iff)
    then show ?thesis unfolding shown using 1(1) by simp
  next
    case 2
    then have "bcond_name (i_rt v) = opcode_name c"
      using decoded_bcond(2) [OF assms(1)] by (fastforce simp: bcond_name_def I_defs)
    then show ?thesis unfolding shown using 2(1) by simp
  next
    case 3
    then have "c \<notin> {SPECIAL, BCOND}" using special bcond by auto
    then have "normalops ! ?n = opcode_name c" using normal_names entry(1) 3(3) assms(2) by (fastforce simp: list_all_iff)
    then show ?thesis unfolding shown using 3 by simp
  qed
qed

text \<open>The targets shown are the addresses to which the interpreter jumps.\<close>

lemma shown_jump: "top4 pc OR off26 i = (pc AND 0xf0000000) OR push_bit 2 (i AND 0x03ffffff)"
proof -
  have "(0xf0000000 :: c_int) = - 0x10000000" by simp
  then show ?thesis unfolding top4_def off26_def by (simp only:) simp
qed

lemma shown_branch: "off16 i + pc + 4 = pc + 4 + push_bit 2 (immed i)"
  by (simp add: off16_def)

end
