(* ===== verification/Interp_Main.thy ===== *)
theory Interp_Main
  imports Disassembler Tcp_Service
begin

unbundle bit_operations_syntax

text \<open>
  The rest of the interpreter: the options of its \<^verbatim>\<open>main\<close> (\<^verbatim>\<open>bin/main.c\<close>), the text it prints when it
  traces a program, and the counting functions at the end of \<^verbatim>\<open>bin/execute.c\<close>. Tracing does not change
  the run; the logarithm is the number of binary digits.
\<close>

section \<open>Options\<close>

record options =
  TRACE :: bool
  Traptrace :: bool
  Regtrace :: bool
  NROWS :: int
  ASSOC :: int
  LINESIZE :: int
  RAND :: bool
  LRD :: bool

definition default_options :: options where
  "default_options =
    \<lparr>TRACE = False, Traptrace = False, Regtrace = False, NROWS = 64, ASSOC = 1, LINESIZE = 4, RAND = False,
     LRD = False\<rparr>"

text \<open>
  The letters of one argument. The letter \<open>m\<close> takes the next four arguments; when they are not there,
  the program reads the null pointer that ends the list.
\<close>

primrec option_letters :: "byte list \<Rightarrow> byte list list \<Rightarrow> options \<Rightarrow> (byte list list \<times> options) res" where
  "option_letters [] args p = Inr (args, p)"
| "option_letters (c # cs) args p =
    (if c = of_char (CHR ''t'') then option_letters cs args (p\<lparr>TRACE := True\<rparr>)
     else if c = of_char (CHR ''T'') then option_letters cs args (p\<lparr>Traptrace := True\<rparr>)
     else if c = of_char (CHR ''r'') then option_letters cs args (p\<lparr>Regtrace := True\<rparr>)
     else if c = of_char (CHR ''m'') then
       (case args of
          rows # assoc # line # policy # args \<Rightarrow>
            option_letters cs args
              (p\<lparr>NROWS := atoi rows, ASSOC := atoi assoc, LINESIZE := atoi line,
                 RAND := take 1 policy = List.map of_char ''r'', LRD := take 3 policy = List.map of_char ''lrd''\<rparr>)
        | _ \<Rightarrow> Inl NullPointer)
     else option_letters cs args p)"

lemma option_letters_shorter: "option_letters cs args p = Inr (args', p') \<Longrightarrow> length args' \<le> length args"
proof (induction cs arbitrary: args p)
  case Nil
  then show ?case by simp
next
  case (Cons c cs)
  then show ?case by (fastforce split: if_splits list.splits)
qed

function read_options :: "byte list list \<Rightarrow> options \<Rightarrow> (byte list list \<times> options) res" where
  "read_options args p =
    (case args of
       [] \<Rightarrow> Inr ([], p)
     | a # rest \<Rightarrow>
         if a \<noteq> [] \<and> hd a = of_char (CHR ''-'') then
           (case option_letters (tl a) rest p of Inl e \<Rightarrow> Inl e | Inr (rest, p) \<Rightarrow> read_options rest p)
         else Inr (args, p))"
  by pat_completeness auto

termination
  by (relation "measure (\<lambda>(args, p). length args)") (auto dest: option_letters_shorter)

declare read_options.simps [simp del]

section \<open>Tracing\<close>

definition reg_row :: "string \<Rightarrow> nat \<Rightarrow> interp \<Rightarrow> string" where
  "reg_row name k t = name @ concat (List.map (\<lambda>j. '' '' @ hex8 (Reg t j)) [k..<k + 8]) @ newline"

definition dump_reg :: "interp \<Rightarrow> string" where
  "dump_reg t = reg_row '' 0:'' 0 t @ reg_row '' 8:'' 8 t @ reg_row ''16:'' 16 t @ reg_row ''24:'' 24 t"

text \<open>What the system calls print themselves, before and after; \<open>t\<close> is the state before the call.\<close>

definition trap_text :: "options \<Rightarrow> interp \<Rightarrow> interp_outcome \<Rightarrow> string" where
  "trap_text p t r =
    (if Traptrace p then ''**System call '' @ decimal (sint (Reg t 2)) @ newline @ dump_reg t else []) @
    (case r of
       Running t' \<Rightarrow> if Traptrace p then ''**Afterwards:'' @ newline @ dump_reg t' else []
     | Exited e \<Rightarrow>
         if e = 2 then
           ''Unknown System call '' @ decimal (sint (Reg t 2)) @ newline @ (if Traptrace p then [] else dump_reg t)
         else [])"

text \<open>The text of one iteration, which executes \<open>i\<close> at \<open>xpc\<close>.\<close>

definition iteration_text :: "options \<Rightarrow> bool \<Rightarrow> c_int \<Rightarrow> c_int \<Rightarrow> interp \<Rightarrow> interp_outcome \<Rightarrow> string" where
  "iteration_text p longdis xpc i t r =
    (let trap = (i \<noteq> 0 \<and> unat (drop_bit 26 i AND 0x3f) = I_SPECIAL); oc = unat (i AND 0x3f)
     in (if trap \<and> oc = I_SYSCALL then trap_text p t r
         else if trap \<and> oc = I_BREAK then (if Traptrace p then ''**breakpoint '' else []) @ trap_text p t r
         else if r = Exited 2 then ''Unimplemented Instruction'' @ newline else []) @
        (case r of
           Running t' \<Rightarrow>
             if TRACE p then dump_ascii longdis i xpc @ newline @ (if Regtrace p then dump_reg t' else []) else []
         | Exited _ \<Rightarrow> []))"

primrec traced_run ::
  "unix_calls \<Rightarrow> host \<Rightarrow> options \<Rightarrow> bool \<Rightarrow> nat \<Rightarrow> interp \<Rightarrow> (string \<times> interp_outcome) res" where
  "traced_run unix h p longdis 0 t = Inr ([], Running t)"
| "traced_run unix h p longdis (Suc n) t =
    and_then (fetch h (i_pc t) t) (\<lambda>i.
    and_then (interp_step unix h t) (\<lambda>r.
    let out = iteration_text p longdis (i_pc t) i (put_Reg 0 0 t) r
    in case r of
         Exited e \<Rightarrow> Inr (out, Exited e)
       | Running t' \<Rightarrow> and_then (traced_run unix h p longdis n t') (\<lambda>(s, r). Inr (out @ s, r))))"

lemma fetch_step: "fetch h (i_pc t) t = Inl e \<Longrightarrow> interp_step unix h t = Inl e"
  by (simp add: interp_step_def fetch_def Let_def place_def split: if_splits)

text \<open>Whatever is traced, the outcome is that of the plain loop.\<close>

lemma traced_run_run: "and_then (traced_run unix h p longdis n t) (\<lambda>(s, r). Inr r) = interp_run unix h n t"
proof (induction n arbitrary: t)
  case 0
  show ?case by simp
next
  case (Suc n)
  show ?case
  proof (cases "fetch h (i_pc t) t")
    case (Inl e)
    then show ?thesis by (simp add: fetch_step)
  next
    case (Inr i)
    have "and_then (and_then (traced_run unix h p longdis n t') (\<lambda>(s, r). Inr (out @ s, r))) (\<lambda>(s, r). Inr r) =
      and_then (traced_run unix h p longdis n t') (\<lambda>(s, r). Inr r)" for t' out
      by (cases "traced_run unix h p longdis n t'") auto
    then show ?thesis using Inr Suc.IH
      by (cases "interp_step unix h t") (auto simp: Let_def split: interp_outcome.split)
  qed
qed

section \<open>The program\<close>

definition interp_main ::
  "unix_calls \<Rightarrow> host \<Rightarrow> bool \<Rightarrow> (byte list \<Rightarrow> ld_file option) \<Rightarrow> nat \<Rightarrow> byte list \<Rightarrow> byte list list \<Rightarrow> interp \<Rightarrow>
   (string \<times> interp_outcome) res" where
  "interp_main unix h longdis ldopen n self args t =
    (if 256 \<le> length self then Inl OutOfBounds
     else and_then (read_options args default_options) (\<lambda>(args, p).
       let aout = List.map of_char ''a.out''; filename = (case args of [] \<Rightarrow> aout | a # _ \<Rightarrow> a)
       in if 1000 \<le> length filename then Inl OutOfBounds
          else case ldopen filename of
            None \<Rightarrow> Inr ([], Exited 0)
          | Some f \<Rightarrow>
              and_then (load_program f t) (\<lambda>(s, r).
              case r of
                Exited e \<Rightarrow> Inr (s, Exited e)
              | Running t \<Rightarrow>
                  and_then (start_program h memoffset (if args = [] then [aout] else args) t) (\<lambda>t.
                  and_then (traced_run unix h p longdis n t) (\<lambda>(s', r). Inr (s @ s', r))))))"

section \<open>Counters\<close>

text \<open>The number of binary digits, found by halving the word.\<close>

definition narrow_ones :: "c_int \<times> nat \<Rightarrow> c_int \<times> nat \<Rightarrow> c_int \<times> nat" where
  "narrow_ones mk il = (let (m, k) = mk; (i, l) = il; j = i AND m in if j \<noteq> 0 then (j, l + k) else (i, l))"

definition ilog2 :: "c_int \<Rightarrow> nat" where
  "ilog2 i =
    (if i = 0 then 0
     else snd (fold narrow_ones
       [(0xffff0000, 16), (0xff00ff00, 8), (0xf0f0f0f0, 4), (0xcccccccc, 2), (0xaaaaaaaa, 1)] (i, 1)))"

text \<open>
  During the search the ones of the word are in a block of \<open>k\<close> digits that starts below \<open>l\<close>, and the
  first one, at \<open>n\<close>, stays.
\<close>

definition located :: "nat \<Rightarrow> nat \<Rightarrow> c_int \<times> nat \<Rightarrow> bool" where
  "located n k il \<longleftrightarrow>
    (\<exists>b. snd il = Suc b \<and> k dvd b \<and> b + k \<le> 32 \<and> bit (fst il) n \<and>
      (\<forall>m. bit (fst il) m \<longrightarrow> b \<le> m \<and> m \<le> n \<and> m < b + k))"

lemma located_narrow:
  assumes "located n (2 * k) il" and "0 < k" and mask: "\<And>j. j < 32 \<Longrightarrow> bit m j = odd (j div k)"
  shows "located n k (narrow_ones (m, k) il)"
proof -
  obtain i b where il: "il = (i, Suc b)" and b: "2 * k dvd b" "b + 2 * k \<le> 32" and n: "bit i n"
    and ones: "\<And>m. bit i m \<Longrightarrow> b \<le> m \<and> m \<le> n \<and> m < b + 2 * k"
    using assms(1) by (cases il) (auto simp: located_def)
  from b(1) obtain q where q: "b = 2 * k * q" by (elim dvdE)
  have "j div k = (if j < b + k then 2 * q else 2 * q + 1)" if j: "b \<le> j" "j < b + 2 * k" for j
  proof (cases "j < b + k")
    case True
    then have "j div k = 2 * q" using j q by (intro div_nat_eqI) (auto simp: algebra_simps)
    then show ?thesis using True by simp
  next
    case False
    then have "j div k = 2 * q + 1" using j q by (intro div_nat_eqI) (auto simp: algebra_simps)
    then show ?thesis using False by simp
  qed
  then have bits: "bit (i AND m) j \<longleftrightarrow> bit i j \<and> b + k \<le> j" for j
    using ones [of j] mask [of j] b(2) by (auto simp: bit_and_iff split: if_splits)
  have dvd: "k dvd b" using q by simp
  show ?thesis
  proof (cases "i AND m = 0")
    case True
    then have "\<not> (bit i j \<and> b + k \<le> j)" for j using bits [of j] by simp
    then have "located n k (i, Suc b)"
      unfolding located_def using n ones b(2) dvd by (intro exI [of _ b]) force
    then show ?thesis using True by (simp add: narrow_ones_def il)
  next
    case False
    then obtain j where "bit (i AND m) j" by (auto simp: bit_eq_iff)
    then have "b + k \<le> n" using bits ones by fastforce
    then have "located n k (i AND m, Suc (b + k))"
      unfolding located_def using bits n ones b(2) dvd by (intro exI [of _ "b + k"]) fastforce
    then show ?thesis using False by (simp add: narrow_ones_def il)
  qed
qed

lemma mask_bits:
  "list_all (\<lambda>n. bit (0xffff0000 :: c_int) n = odd (n div 16) \<and> bit (0xff00ff00 :: c_int) n = odd (n div 8) \<and>
     bit (0xf0f0f0f0 :: c_int) n = odd (n div 4) \<and> bit (0xcccccccc :: c_int) n = odd (n div 2) \<and>
     bit (0xaaaaaaaa :: c_int) n = odd (n div 1)) [0..<32]"
  by code_simp

text \<open>The result is one more than the place of the first one.\<close>

lemma ilog2_digits:
  assumes "i \<noteq> 0"
  shows "bit i (ilog2 i - 1) \<and> (\<forall>m\<ge>ilog2 i. \<not> bit i m)"
proof -
  have fin: "finite {m. bit i m}" by (rule finite_subset [of _ "{..<32}"]) (auto dest: bit_imp_le_length)
  have ne: "{m. bit i m} \<noteq> {}" using assms by (auto simp: bit_eq_iff)
  define n where "n = Max {m. bit i m}"
  have n: "bit i n" and top: "\<And>m. bit i m \<Longrightarrow> m \<le> n" using Max_in [OF fin ne] fin by (auto simp: n_def)
  have masks: "bit (0xffff0000 :: c_int) j = odd (j div 16)" "bit (0xff00ff00 :: c_int) j = odd (j div 8)"
    "bit (0xf0f0f0f0 :: c_int) j = odd (j div 4)" "bit (0xcccccccc :: c_int) j = odd (j div 2)"
    "bit (0xaaaaaaaa :: c_int) j = odd (j div 1)" if "j < 32" for j
    using mask_bits that by (simp_all only: list_all_iff set_upt atLeastLessThan_iff zero_le)
  have "located n 32 (i, 1)"
    unfolding located_def using n top by (intro exI [of _ 0]) (auto dest: bit_imp_le_length)
  then have "located n (2 * 16) (i, 1)" by simp
  from located_narrow [OF this _ masks(1)] have "located n (2 * 8) (narrow_ones (0xffff0000, 16) (i, 1))" by simp
  from located_narrow [OF this _ masks(2)]
  have "located n (2 * 4) (narrow_ones (0xff00ff00, 8) (narrow_ones (0xffff0000, 16) (i, 1)))" by simp
  from located_narrow [OF this _ masks(3)]
  have "located n (2 * 2) (narrow_ones (0xf0f0f0f0, 4) (narrow_ones (0xff00ff00, 8) (narrow_ones (0xffff0000, 16) (i, 1))))" by simp
  from located_narrow [OF this _ masks(4)]
  have "located n (2 * 1) (narrow_ones (0xcccccccc, 2) (narrow_ones (0xf0f0f0f0, 4)
    (narrow_ones (0xff00ff00, 8) (narrow_ones (0xffff0000, 16) (i, 1)))))" by simp
  from located_narrow [OF this _ masks(5)] have "ilog2 i = Suc n"
    using assms by (auto simp: ilog2_def located_def le_less_Suc_eq)
  then show ?thesis using n top by fastforce
qed

text \<open>The histograms: 32 rows of 33 numbers, and one of 64; a row that is not there is beyond the array.\<close>

record histograms =
  hists :: "c_int list list"
  hoflo :: "c_int list"
  htotal :: "c_int list"

definition henters :: "int \<Rightarrow> nat \<Rightarrow> histograms \<Rightarrow> histograms res" where
  "henters n hist s =
    (if hist < 32 then
       (let s = (if 0 \<le> n \<and> n < 33 then
                   s\<lparr>hists := (hists s)[hist := (hists s ! hist)[nat n := hists s ! hist ! nat n + 1]]\<rparr>
                 else s\<lparr>hoflo := (hoflo s)[hist := hoflo s ! hist + 1]\<rparr>)
        in Inr (s\<lparr>htotal := (htotal s)[hist := htotal s ! hist + 1]\<rparr>))
     else Inl OutOfBounds)"

definition henter :: "int \<Rightarrow> c_int list \<Rightarrow> c_int list" where
  "henter n hist = (if 0 \<le> n \<and> n < 64 then hist[nat n := hist ! nat n + 1] else hist)"

definition printhist :: "c_int list \<Rightarrow> string" where
  "printhist hist =
    concat (List.map (\<lambda>i. decimal (int i) @ '' '' @ decimal (sint (hist ! i)) @ newline) [0..<64])"

text \<open>The formats \<^verbatim>\<open>%6d\<close> and \<^verbatim>\<open>%2d\<close>.\<close>

definition padded :: "nat \<Rightarrow> int \<Rightarrow> string" where
  "padded k n = (let s = decimal n in replicate (k - length s) (CHR '' '') @ s)"

definition patable :: "(nat \<Rightarrow> nat \<Rightarrow> c_int) \<Rightarrow> string" where
  "patable tbl =
    ''  |'' @ concat (List.map (\<lambda>j. padded 6 (int j)) [0..<33]) @ newline @
    ''  |'' @ concat (replicate 33 ''------'') @ newline @
    concat (List.map (\<lambda>i.
      padded 2 (int i) @ ''|'' @ concat (List.map (\<lambda>j. padded 6 (sint (tbl i j))) [0..<33]) @ newline) [0..<33])"

text \<open>The total of a row counts what is in it and what overflowed.\<close>

definition counted :: "histograms \<Rightarrow> bool" where
  "counted s \<longleftrightarrow> length (hists s) = 32 \<and> length (hoflo s) = 32 \<and> length (htotal s) = 32 \<and>
    (\<forall>h<32. length (hists s ! h) = 33 \<and> htotal s ! h = sum_list (hists s ! h) + hoflo s ! h)"

lemma sum_list_increment:
  "n < length xs \<Longrightarrow> sum_list (xs[n := 1 + xs ! n]) = 1 + sum_list (xs :: c_int list)"
  by (induction xs arbitrary: n) (auto split: nat.splits simp: nth_Cons algebra_simps)

lemma henters_counted:
  assumes "counted s" and "henters n hist s = Inr s'"
  shows "counted s'"
  using assms by (auto simp: counted_def henters_def Let_def nth_list_update sum_list_increment algebra_simps split: if_splits)

end
