(* ===== verification/Object_Dump.thy ===== *)
theory Object_Dump
  imports Disassembler Fs_Directory
begin

text \<open>
  The dump of an object file (\<^verbatim>\<open>bin/out.c\<close>): its sections word by word, text as instructions, with the
  relocation of each word, and its external symbols. Files and sections are those of \<^verbatim>\<open>bin/coff.h\<close>; the
  symbol table and the relocations have their format from headers of the system, which are parameters. A
  \<^verbatim>\<open>long\<close> has 32 bits, as in the object file.
\<close>

section \<open>Formats\<close>

record reloc =
  r_vaddr :: c_int
  r_symndx :: nat
  r_type :: nat
  r_extern :: bool

record symbolic_header =
  iextMax :: c_int
  cbExtOffset :: c_int
  issExtMax :: c_int
  cbSsExtOffset :: c_int

record symbol =
  sym_iss :: c_int
  sym_value :: c_int
  sym_st :: nat
  sym_sc :: nat

record sym_formats =
  sizeof_reloc :: nat
  reloc_of_bytes :: "byte list \<Rightarrow> reloc"
  sizeof_HDRR :: nat
  HDRR_of_bytes :: "byte list \<Rightarrow> symbolic_header"
  sizeof_EXTR :: nat
  asym_of_bytes :: "byte list \<Rightarrow> symbol"
  scUndefined :: nat

definition MAXRELOCS :: nat where "MAXRELOCS = 1000"
definition MAXDATA :: nat where "MAXDATA = 10000"
definition MAXSCNS :: nat where "MAXSCNS = 10"
definition MAXSYMS :: nat where "MAXSYMS = 300"
definition MAXSSPACE :: nat where "MAXSSPACE = 20000"

definition symbol_type :: "string list" where
  "symbol_type =
    [''Nil'', ''Global'', ''Static'', ''Param'', ''Local'', ''Label'', ''Proc'', ''Block'', ''End'', ''Member'', ''Type'',
     ''File'', ''Register'', ''Forward'', ''StaticProc'', ''Constant'']"

definition storage_class :: "string list" where
  "storage_class =
    [''Nil'', ''Text'', ''Data'', ''Bss'', ''Register'', ''Abs'', ''Undefined'', ''CdbLocal'', ''Bits'', ''CdbSystem'',
     ''RegImage'', ''Info'', ''UserStruct'', ''SData'', ''SBss'', ''RData'', ''Var'', ''Common'', ''SCommon'', ''VarRegister'',
     ''Variant'', ''SUndefined'', ''Init'']"

definition section_name :: "string list" where
  "section_name =
    [''(null)'', ''.text'', ''.rdata'', ''.data'', ''.sdata'', ''.sbss'', ''.bss'', ''.init'', ''.lit8'', ''.lit4'']"

definition reloc_type :: "string list" where
  "reloc_type = [''abs'', ''16'', ''32'', ''26'', ''hi16'', ''lo16'', ''gpdata'', ''gplit'']"

text \<open>An entry of a table, and the string that starts at an index of the string space.\<close>

definition entry_of :: "'a list \<Rightarrow> nat \<Rightarrow> 'a res" where
  "entry_of xs n = (if n < length xs then Inr (xs ! n) else Inl OutOfBounds)"

definition string_at :: "byte list \<Rightarrow> int \<Rightarrow> string res" where
  "string_at bs i =
    (if 0 \<le> i \<and> 0 \<in> set (drop (nat i) bs) then Inr (characters (cstring (drop (nat i) bs))) else Inl OutOfBounds)"

section \<open>Columns\<close>

text \<open>
  A printer takes the column in which it starts. \<^verbatim>\<open>myprintf\<close> formats into an array of 100 characters and
  follows the column; the \<^verbatim>\<open>printf\<close> of \<^verbatim>\<open>main\<close> does not.
\<close>

type_synonym printer = "nat \<Rightarrow> (string \<times> nat) res"

definition next_column :: "char \<Rightarrow> nat \<Rightarrow> nat" where
  "next_column c k = (if [c] = newline then 1 else if [c] = tab then (k + 7) div 8 * 8 + 1 else k + 1)"

definition column_after :: "nat \<Rightarrow> string \<Rightarrow> nat" where
  "column_after k s = fold next_column s k"

definition myprintf :: "string \<Rightarrow> printer" where
  "myprintf s k = (if length s < 100 then Inr (s, column_after k s) else Inl OutOfBounds)"

definition mytab :: "nat \<Rightarrow> printer" where
  "mytab n k = Inr (replicate (n - k) (CHR '' ''), max k n)"

definition uncounted :: "string \<Rightarrow> printer" where
  "uncounted s k = Inr (s, k)"

definition followed_by :: "printer \<Rightarrow> printer \<Rightarrow> printer" where
  "followed_by p q k = and_then (p k) (\<lambda>(s, k). and_then (q k) (\<lambda>(s', k). Inr (s @ s', k)))"

definition one_by_one :: "printer list \<Rightarrow> printer" where
  "one_by_one ps = foldr followed_by ps (uncounted [])"

text \<open>A text that is looked up first.\<close>

definition with_text :: "string res \<Rightarrow> (string \<Rightarrow> printer) \<Rightarrow> printer" where
  "with_text r p k = and_then r (\<lambda>s. p s k)"

text \<open>The text of an instruction is printed in pieces, each of which fits.\<close>

definition dump_instruction :: "c_int \<Rightarrow> c_int \<Rightarrow> printer" where
  "dump_instruction word pc k = (let s = dump_ascii True word pc in Inr (s, column_after k s))"

section \<open>Sections and symbols\<close>

record dump =
  sections :: "(scnhdr \<times> byte list list \<times> reloc list) list"
  symbols :: "symbol list"
  sspace :: "byte list"

definition reloc_name :: "dump \<Rightarrow> reloc \<Rightarrow> string res" where
  "reloc_name d rp =
    (if r_extern rp then
       (if MAXSYMS \<le> r_symndx rp then Inr (''sym $'' @ decimal (int (r_symndx rp)))
        else and_then (entry_of (symbols d) (r_symndx rp)) (\<lambda>sym.
             and_then (string_at (sspace d) (sint (sym_iss sym))) (\<lambda>s. Inr ([CHR 0x22] @ s @ [CHR 0x22]))))
     else entry_of section_name (r_symndx rp))"

definition print_reloc :: "dump \<Rightarrow> c_int \<Rightarrow> reloc list \<Rightarrow> printer" where
  "print_reloc d vaddr relocs =
    followed_by
      (case List.find (\<lambda>rp. vaddr = r_vaddr rp) relocs of
         None \<Rightarrow> uncounted []
       | Some rp \<Rightarrow>
           one_by_one
             [mytab 57, with_text (reloc_name d rp) myprintf,
              with_text (entry_of reloc_type (r_type rp)) (\<lambda>s. myprintf ('' '' @ s))])
      (myprintf newline)"

definition data_char :: "byte \<Rightarrow> string" where
  "data_char b = (if 32 \<le> unat b \<and> unat b < 127 then characters [b] else ''.'')"

definition data_line :: "host \<Rightarrow> c_int \<Rightarrow> byte list \<Rightarrow> string" where
  "data_line h pc bytes =
    (let word = load_word h ((!) bytes) 0
     in hex8 pc @ '': '' @ hex8 word @ ''  '' @ concat (List.map data_char bytes) @ tab @ decimal (sint word))"

definition is_text :: "scnhdr \<Rightarrow> bool" where
  "is_text head \<longleftrightarrow> strncmp_equal (s_name head) (List.map of_char ''.text'') 5"

definition print_word :: "host \<Rightarrow> dump \<Rightarrow> scnhdr \<Rightarrow> reloc list \<Rightarrow> nat \<times> byte list \<Rightarrow> printer" where
  "print_word h d head relocs jw =
    (let (j, bytes) = jw; pc = s_vaddr head + of_nat (j * 4)
     in followed_by
          (if is_text head then dump_instruction (load_word h ((!) bytes) 0) pc else myprintf (data_line h pc bytes))
          (print_reloc d pc relocs))"

definition print_section :: "host \<Rightarrow> dump \<Rightarrow> scnhdr \<times> byte list list \<times> reloc list \<Rightarrow> printer" where
  "print_section h d sec =
    (let (head, words, relocs) = sec
     in followed_by
          (with_text (string_at (s_name head) 0) (\<lambda>name.
             myprintf (''Section: '' @ name @ tab @ decimal (sint (s_size head)) @ ''/'' @ decimal (int (length relocs)) @ newline)))
          (one_by_one (List.map (print_word h d head relocs) (List.enumerate 0 words))))"

definition print_symbol :: "sym_formats \<Rightarrow> byte list \<Rightarrow> symbol \<Rightarrow> printer" where
  "print_symbol fmt space sy =
    one_by_one
      [if sym_sc sy = scUndefined fmt then myprintf (tab @ '' '') else myprintf (hex8 (sym_value sy) @ '' ''),
       with_text (entry_of symbol_type (sym_st sy)) myprintf, mytab 25,
       with_text (entry_of storage_class (sym_sc sy)) myprintf, mytab 41,
       with_text (string_at space (sint (sym_iss sy))) (\<lambda>s. myprintf (s @ newline))]"

section \<open>The program\<close>

text \<open>
  Reading \<open>n\<close> bytes at a place in the file; what is not there stays zero, as it is at the start. \<^verbatim>\<open>fseek\<close>
  refuses a negative place.
\<close>

definition fread :: "byte list \<Rightarrow> nat \<Rightarrow> nat \<Rightarrow> byte list \<times> nat" where
  "fread file n pos = (let bs = take n (drop pos file) in (bs @ replicate (n - length bs) 0, pos + length bs))"

definition fseek :: "c_int \<Rightarrow> nat \<Rightarrow> nat" where
  "fseek off pos = (if sint off < 0 then pos else unat off)"

primrec chunks_of :: "nat \<Rightarrow> nat \<Rightarrow> byte list \<Rightarrow> byte list list" where
  "chunks_of k 0 bs = []"
| "chunks_of k (Suc n) bs = take k bs # chunks_of k n (drop k bs)"

primrec read_scnhdrs :: "host \<Rightarrow> byte list \<Rightarrow> nat \<Rightarrow> nat \<Rightarrow> (string + scnhdr list) \<times> nat" where
  "read_scnhdrs h file 0 pos = (Inr [], pos)"
| "read_scnhdrs h file (Suc n) pos =
    (let (bs, pos) = fread file sizeof_scnhdr pos; head = scnhdr_of_bytes h bs
     in if MAXDATA * 4 < unat (s_size head) \<and> s_scnptr head \<noteq> 0 \<or> MAXRELOCS < unat (s_nreloc head) then
          (Inl (''section '' @ characters (cstring (s_name head)) @ '' is too big.'' @ newline), pos)
        else case read_scnhdrs h file n pos of
          (Inl e, pos) \<Rightarrow> (Inl e, pos)
        | (Inr heads, pos) \<Rightarrow> (Inr (head # heads), pos))"

definition read_section ::
  "sym_formats \<Rightarrow> byte list \<Rightarrow> scnhdr \<Rightarrow> nat \<Rightarrow> (scnhdr \<times> byte list list \<times> reloc list) \<times> nat" where
  "read_section fmt file head pos =
    (if s_scnptr head = 0 then ((head, [], []), pos)
     else
       (let n = unat (s_size head) div 4; k = unat (s_nreloc head);
            (data, pos) = fread file (4 * n) (fseek (s_scnptr head) pos);
            (rel, pos) = fread file (sizeof_reloc fmt * k) (fseek (s_relptr head) pos)
        in ((head, chunks_of 4 n data, List.map (reloc_of_bytes fmt) (chunks_of (sizeof_reloc fmt) k rel)), pos)))"

primrec read_sections ::
  "sym_formats \<Rightarrow> byte list \<Rightarrow> scnhdr list \<Rightarrow> nat \<Rightarrow> (scnhdr \<times> byte list list \<times> reloc list) list \<times> nat" where
  "read_sections fmt file [] pos = ([], pos)"
| "read_sections fmt file (head # heads) pos =
    (let (sec, pos) = read_section fmt file head pos; (rest, pos) = read_sections fmt file heads pos
     in (sec # rest, pos))"

text \<open>
  The symbols: the first 300 of them, and the string space, which they index. A negative size of the string space is
  a large one for \<^verbatim>\<open>fread\<close>.
\<close>

definition symbol_count :: "symbolic_header \<Rightarrow> nat" where
  "symbol_count hdrr = min MAXSYMS (nat (sint (iextMax hdrr)))"

definition read_symbols :: "sym_formats \<Rightarrow> byte list \<Rightarrow> symbolic_header \<Rightarrow> nat \<Rightarrow> symbol list \<times> nat" where
  "read_symbols fmt file hdrr pos =
    (let k = symbol_count hdrr; (bs, pos) = fread file (sizeof_EXTR fmt * k) (fseek (cbExtOffset hdrr) pos)
     in (List.map (asym_of_bytes fmt)
           (chunks_of (sizeof_EXTR fmt) k bs @ replicate (MAXSYMS - k) (replicate (sizeof_EXTR fmt) 0)), pos))"

definition read_strings :: "byte list \<Rightarrow> symbolic_header \<Rightarrow> nat \<Rightarrow> byte list res" where
  "read_strings file hdrr pos =
    (let there = drop (fseek (cbSsExtOffset hdrr) pos) file;
         bs = (if sint (issExtMax hdrr) < 0 then there else take (unat (issExtMax hdrr)) there)
     in if MAXSSPACE < length bs then Inl OutOfBounds else Inr (bs @ replicate (MAXSSPACE - length bs) 0))"

text \<open>The text that is printed, and the exit status.\<close>

definition print_dump :: "host \<Rightarrow> sym_formats \<Rightarrow> dump \<Rightarrow> nat \<Rightarrow> printer" where
  "print_dump h fmt d n =
    one_by_one
      [one_by_one (List.map (print_section h d) (sections d)),
       uncounted (''External Symbols:'' @ newline @ ''Value'' @ tab @ '' Type'' @ tab @ tab @ ''Storage Class'' @ tab @ ''Name'' @ newline),
       one_by_one (List.map (print_symbol fmt (sspace d)) (take n (symbols d)))]"

definition dump_file :: "host \<Rightarrow> sym_formats \<Rightarrow> byte list \<Rightarrow> scnhdr list \<Rightarrow> filehdr \<Rightarrow> nat \<Rightarrow> (string \<times> int) res" where
  "dump_file h fmt file heads fileh pos =
    (let (secs, pos) = read_sections fmt file heads pos;
         (bs, pos) = fread file (sizeof_HDRR fmt) (fseek (f_symptr fileh) pos);
         symhdr = HDRR_of_bytes fmt bs;
         many = (if int MAXSYMS < sint (iextMax symhdr) then ''too many symbols to store.'' @ newline else []);
         (syms, pos) = read_symbols fmt file symhdr pos
     in if int MAXSSPACE < sint (issExtMax symhdr) then Inr (many @ ''too large a string space.'' @ newline, 1)
        else and_then (read_strings file symhdr pos) (\<lambda>space.
             and_then (print_dump h fmt \<lparr>sections = secs, symbols = syms, sspace = space\<rparr> (symbol_count symhdr) 1)
               (\<lambda>(s, _). Inr (many @ s, 0))))"

definition out_main ::
  "host \<Rightarrow> sym_formats \<Rightarrow> (string \<Rightarrow> byte list option) \<Rightarrow> string list \<Rightarrow> (string \<times> int) res" where
  "out_main h fmt fopen args =
    (let filename = (case args of [a] \<Rightarrow> a | _ \<Rightarrow> ''a.out'')
     in case fopen filename of
          None \<Rightarrow> Inr (''out: could not open '' @ filename @ newline, 1)
        | Some file \<Rightarrow>
            (let fileh = filehdr_of_bytes h (fst (fread file sizeof_filehdr 0)); start = sizeof_filehdr + sizeof_aouthdr
             in if length file < start \<or> f_magic fileh \<noteq> MIPSELMAGIC then
                  Inr (''out: '' @ filename @ '' is not a MIPS Little-Endian COFF object file'' @ newline, 1)
                else if MAXSCNS < unat (f_nscns fileh) then Inr (''out: Too many COFF sections.'' @ newline, 1)
                else case read_scnhdrs h file (unat (f_nscns fileh)) start of
                  (Inl e, _) \<Rightarrow> Inr (e, 1)
                | (Inr heads, pos) \<Rightarrow> dump_file h fmt file heads fileh pos))"

section \<open>What is printed\<close>

lemma column_after_append: "column_after k (s @ s') = column_after (column_after k s) s'"
  by (simp add: column_after_def)

text \<open>The columns the printers hand on are those of the text printed, as far as \<^verbatim>\<open>myprintf\<close> printed it.\<close>

definition tracks :: "printer \<Rightarrow> bool" where
  "tracks p \<longleftrightarrow> (\<forall>k s k'. p k = Inr (s, k') \<longrightarrow> k' = column_after k s)"

lemma tracks_myprintf: "tracks (myprintf s)"
  by (simp add: tracks_def myprintf_def)

lemma tracks_nothing: "tracks (uncounted [])"
  by (simp add: tracks_def uncounted_def column_after_def)

lemma column_after_spaces: "column_after k (replicate n (CHR '' '')) = k + n"
  by (induction n arbitrary: k) (simp_all add: column_after_def next_column_def newline_def tab_def)

lemma tracks_mytab: "tracks (mytab n)"
  by (auto simp: tracks_def mytab_def column_after_spaces)

lemma tracks_instruction: "tracks (dump_instruction w pc)"
  by (simp add: tracks_def dump_instruction_def Let_def)

lemma tracks_with_text: "(\<And>s. tracks (p s)) \<Longrightarrow> tracks (with_text r p)"
  by (cases r) (auto simp: tracks_def with_text_def)

lemma tracks_followed_by:
  assumes "tracks p" and "tracks q"
  shows "tracks (followed_by p q)"
  unfolding tracks_def
proof (intro allI impI)
  fix k s k'
  assume "followed_by p q k = Inr (s, k')"
  then obtain s1 k1 s2 where "p k = Inr (s1, k1)" "q k1 = Inr (s2, k')" "s = s1 @ s2"
    by (cases "p k") (auto simp: followed_by_def split: prod.splits elim!: and_then.elims)
  then show "k' = column_after k s" using assms by (auto simp: tracks_def column_after_append)
qed

lemma tracks_one_by_one: "(\<And>p. p \<in> set ps \<Longrightarrow> tracks p) \<Longrightarrow> tracks (one_by_one ps)"
  unfolding one_by_one_def by (induction ps) (auto intro: tracks_nothing tracks_followed_by)

lemmas tracking = tracks_myprintf tracks_nothing tracks_mytab tracks_instruction tracks_with_text
  tracks_followed_by tracks_one_by_one

lemma tracks_section: "tracks (print_section h d sec)"
  by (cases sec) (auto simp: print_section_def print_word_def print_reloc_def Let_def intro!: tracking split: option.split)

lemma tracks_symbol: "tracks (print_symbol fmt space sy)"
  by (auto simp: print_symbol_def intro!: tracking)

text \<open>Every word, section and symbol is on lines of its own.\<close>

definition ends_line :: "printer \<Rightarrow> bool" where
  "ends_line p \<longleftrightarrow> (\<forall>k s k'. p k = Inr (s, k') \<longrightarrow> k' = 1)"

lemma followed_by_Inr:
  assumes "followed_by p q k = Inr (s, k')"
  obtains s1 k1 s2 where "p k = Inr (s1, k1)" "q k1 = Inr (s2, k')" "s = s1 @ s2"
  using assms by (cases "p k") (auto simp: followed_by_def split: prod.splits elim!: and_then.elims)

lemma ends_line_followed_by: "ends_line q \<Longrightarrow> ends_line (followed_by p q)"
  by (auto simp: ends_line_def elim!: followed_by_Inr)

lemma ends_line_print_reloc: "ends_line (print_reloc d vaddr relocs)"
proof -
  have "ends_line (myprintf newline)"
    by (simp add: ends_line_def myprintf_def column_after_def next_column_def newline_def)
  then show ?thesis unfolding print_reloc_def by (rule ends_line_followed_by)
qed

lemma ends_line_print_word: "ends_line (print_word h d head relocs jw)"
  by (cases jw) (simp add: print_word_def Let_def ends_line_followed_by ends_line_print_reloc)

lemma one_by_one_ends:
  "\<lbrakk>\<And>p. p \<in> set ps \<Longrightarrow> ends_line p; one_by_one ps 1 = Inr (s, k)\<rbrakk> \<Longrightarrow> k = 1"
proof (induction ps arbitrary: s)
  case Nil
  then show ?case by (simp add: one_by_one_def uncounted_def)
next
  case (Cons p ps)
  from Cons.prems(2) have "followed_by p (one_by_one ps) 1 = Inr (s, k)" by (simp add: one_by_one_def)
  then obtain s1 k1 s2 where "p 1 = Inr (s1, k1)" "one_by_one ps k1 = Inr (s2, k)" by (rule followed_by_Inr)
  moreover from this(1) have "k1 = 1" using Cons.prems(1) [of p] by (simp add: ends_line_def)
  ultimately show ?case using Cons.IH [of s2] Cons.prems(1) by simp
qed

lemma ends_line_print_section: "ends_line (print_section h d sec)"
  unfolding ends_line_def
proof (intro allI impI)
  fix k s k'
  assume out: "print_section h d sec k = Inr (s, k')"
  obtain head ws rel where sec: "sec = (head, ws, rel)" by (cases sec)
  from out obtain s1 k1 s2
    where first: "with_text (string_at (s_name head) 0) (\<lambda>name. myprintf (''Section: '' @ name @ tab @
        decimal (sint (s_size head)) @ ''/'' @ decimal (int (length rel)) @ newline)) k = Inr (s1, k1)"
      and rest: "one_by_one (List.map (print_word h d head rel) (List.enumerate 0 ws)) k1 = Inr (s2, k')"
    unfolding sec print_section_def prod.case Let_def by (rule followed_by_Inr)
  have "k1 = 1" using first
    by (cases "string_at (s_name head) 0")
      (auto simp: with_text_def myprintf_def column_after_append column_after_def next_column_def newline_def split: if_splits)
  with rest have "one_by_one (List.map (print_word h d head rel) (List.enumerate 0 ws)) 1 = Inr (s2, k')" by simp
  then show "k' = 1" by (rule one_by_one_ends [rotated]) (use ends_line_print_word in auto)
qed

text \<open>A relocation of the word is shown from column 57 on when the line has not gone beyond it, with the first one in the table.\<close>

lemma first_relocation_shown:
  assumes "List.find (\<lambda>rp. vaddr = r_vaddr rp) relocs = Some rp" and "reloc_name d rp = Inr name"
    and "entry_of reloc_type (r_type rp) = Inr ty" and "length name < 100" and "k \<le> 57"
  shows "print_reloc d vaddr relocs k =
    Inr (replicate (57 - k) (CHR '' '') @ name @ '' '' @ ty @ newline, 1)"
proof -
  have "ty \<in> set reloc_type" using assms(3) by (auto simp: entry_of_def split: if_splits)
  then have "length ty < 99" by (auto simp: reloc_type_def)
  then show ?thesis using assms
    by (simp add: print_reloc_def one_by_one_def followed_by_def with_text_def mytab_def myprintf_def uncounted_def
        column_after_append next_column_def newline_def tab_def column_after_def max_def)
qed

end
