(* ===== verification/Coff_Flat.thy ===== *)
theory Coff_Flat
  imports Coff_Layout
begin

text \<open>
  The converter to flat files (\<^verbatim>\<open>bin/coff2flat.c\<close>). It reads and writes as the converter to NOFF
  does; its headers are those of the system, taken to have the layout of \<^verbatim>\<open>bin/coff.h\<close>. It uses
  their words as the host reads them, and what it has written stays when it fails.
\<close>

section \<open>The program\<close>

definition StackSize :: c_int where "StackSize = 1024"

text \<open>The variable \<^verbatim>\<open>top\<close>, the place in the input, and the output.\<close>

type_synonym flat_state = "c_int \<times> nat \<times> byte list \<times> nat"

definition flat_section :: "bool \<Rightarrow> byte list \<Rightarrow> scnhdr \<Rightarrow> flat_state \<Rightarrow> coff_error + flat_state" where
  "flat_section opened file sec st =
    (let (high, pos, out) = st;
         limit = s_paddr sec + s_size sec;
         high = (if sint high < sint limit then limit else high)
     in if name_is ''.bss'' (s_name sec) \<or> name_is ''.sbss'' (s_name sec) then Inr (high, pos, out)
        else
          or_exit (coff_Read file (s_size sec) (coff_lseek (s_scnptr sec) pos)) (\<lambda>(buffer, pos).
          or_exit (coff_Write opened buffer (s_size sec) out) (\<lambda>out. Inr (high, pos, out))))"

primrec flat_sections :: "bool \<Rightarrow> byte list \<Rightarrow> scnhdr list \<Rightarrow> flat_state \<Rightarrow> coff_error + flat_state" where
  "flat_sections opened file [] st = Inr st"
| "flat_sections opened file (sec # secs) st =
    or_exit (flat_section opened file sec st) (flat_sections opened file secs)"

definition flat_headers :: "host \<Rightarrow> nat \<Rightarrow> byte list \<Rightarrow> scnhdr list" where
  "flat_headers h n bs = List.map (\<lambda>i. scnhdr_of_bytes h (drop (i * sizeof_scnhdr) bs)) [0..<n]"

definition coff2flat :: "host \<Rightarrow> byte list option \<Rightarrow> bool \<Rightarrow> coff_error + byte list" where
  "coff2flat h coff opened =
    (case coff of None \<Rightarrow> Inl CannotOpen
     | Some file \<Rightarrow>
         or_exit (coff_Read file (of_nat sizeof_filehdr) 0) (\<lambda>(bs, pos).
         let fileh = filehdr_of_bytes h bs; n = unat (f_nscns fileh)
         in if f_magic fileh \<noteq> MIPSELMAGIC then Inl NotMipsel
            else
              or_exit (coff_Read file (of_nat sizeof_aouthdr) pos) (\<lambda>(bs, pos).
              if magic (aouthdr_of_bytes h bs) \<noteq> OMAGIC then Inl NotOmagic
              else
                or_exit (coff_Read file (of_nat (n * sizeof_scnhdr)) pos) (\<lambda>(bs, pos).
                or_exit (flat_sections opened file (flat_headers h n bs) (0, pos, [], 0)) (\<lambda>(high, pos, out, outPos).
                or_exit (coff_Write opened [0, 0, 0, 0] 4 (out, coff_lseek (high + StackSize - 4) outPos)) (\<lambda>out.
                Inr (fst out)))))))"

section \<open>The image\<close>

definition without_contents :: "scnhdr \<Rightarrow> bool" where
  "without_contents sec \<longleftrightarrow> name_is ''.bss'' (s_name sec) \<or> name_is ''.sbss'' (s_name sec)"

definition flat_image :: "byte list \<Rightarrow> scnhdr list \<Rightarrow> byte list" where
  "flat_image file secs = concat (List.map (section_bytes file) (filter (\<lambda>sec. \<not> without_contents sec) secs))"

definition flat_top :: "c_int \<Rightarrow> scnhdr list \<Rightarrow> c_int" where
  "flat_top high secs = fold (\<lambda>sec high. if sint high < sint (s_paddr sec + s_size sec) then s_paddr sec + s_size sec else high) secs high"

definition readable :: "byte list \<Rightarrow> scnhdr \<Rightarrow> bool" where
  "readable file sec \<longleftrightarrow> without_contents sec \<or>
     unat (s_size sec) < 2 ^ 31 \<and> 0 \<le> sint (s_scnptr sec) \<and> section_fits file sec"

lemma write_at_end: "write_at (length bytes) buf bytes = bytes @ buf"
  by (simp add: write_at_def)

lemma flat_section_ok:
  assumes "readable file sec"
  shows "\<exists>pos'. flat_section True file sec (high, pos, bytes, length bytes) =
    Inr (flat_top high [sec], pos', bytes @ flat_image file [sec], length (bytes @ flat_image file [sec]))"
proof (cases "without_contents sec")
  case True
  then show ?thesis by (auto simp: flat_section_def without_contents_def flat_top_def flat_image_def Let_def)
next
  case False
  then have sec: "unat (s_size sec) < 2 ^ 31" "0 \<le> sint (s_scnptr sec)" "section_fits file sec"
    using assms by (auto simp: readable_def)
  have "coff_Read file (s_size sec) (unat (s_scnptr sec)) =
      Inr (section_bytes file sec, unat (s_scnptr sec) + unat (s_size sec))"
    using coff_Read_ok [OF sec(1), of "file" "unat (s_scnptr sec)"] sec(3) by (simp add: section_fits_def section_bytes_def)
  moreover have "coff_Write True (section_bytes file sec) (s_size sec) (bytes, length bytes) =
      Inr (bytes @ section_bytes file sec, length bytes + length (section_bytes file sec))"
    using sint_small [of "s_size sec"] sec(1) section_bytes_length [OF sec(3)]
    by (simp add: coff_Write_def write_at_end Let_def)
  ultimately show ?thesis
    using False sec(2) by (simp add: flat_section_def without_contents_def flat_top_def flat_image_def coff_lseek_def Let_def)
qed

lemma flat_sections_ok:
  assumes "\<forall>sec \<in> set secs. readable file sec"
  shows "\<exists>pos'. flat_sections True file secs (high, pos, bytes, length bytes) =
    Inr (flat_top high secs, pos', bytes @ flat_image file secs, length (bytes @ flat_image file secs))"
  using assms
proof (induction secs arbitrary: high pos bytes)
  case Nil
  then show ?case by (simp add: flat_top_def flat_image_def)
next
  case (Cons sec secs)
  have split: "flat_image file (sec # secs) = flat_image file [sec] @ flat_image file secs"
    "flat_top high (sec # secs) = flat_top (flat_top high [sec]) secs" by (simp_all add: flat_image_def flat_top_def)
  obtain pos1 where "flat_section True file sec (high, pos, bytes, length bytes) =
    Inr (flat_top high [sec], pos1, bytes @ flat_image file [sec], length (bytes @ flat_image file [sec]))"
    using flat_section_ok Cons.prems by force
  then show ?case
    using Cons.IH [of "flat_top high [sec]" pos1 "bytes @ flat_image file [sec]"] Cons.prems by (simp add: split)
qed

text \<open>
  The contents of the sections one after the other, whatever their addresses, then zeros up to the
  stack above the highest address, whose last word is the last of the file.
\<close>

lemma flat_file:
  assumes "\<forall>sec \<in> set secs. readable file sec" and "flat_top 0 secs = high" and "unat high + 1024 < 2 ^ 31"
    and "length (flat_image file secs) \<le> unat high + 1020"
  shows "or_exit (flat_sections True file secs (0, pos, [], 0)) (\<lambda>(high, pos, out, outPos).
      or_exit (coff_Write True [0, 0, 0, 0] 4 (out, coff_lseek (high + StackSize - 4) outPos)) (\<lambda>out. Inr (fst out))) =
    Inr (flat_image file secs @ replicate (unat high + 1024 - length (flat_image file secs)) 0)"
proof -
  let ?i = "flat_image file secs"
  obtain pos' where run: "flat_sections True file secs (0, pos, [], 0) = Inr (high, pos', ?i, length ?i)"
    using flat_sections_ok [OF assms(1), of 0 pos "[]"] assms(2) by auto
  have place: "unat (high + StackSize - 4) = unat high + 1020"
    using assms(3) by (simp add: StackSize_def unat_word_ariths)
  then have bound: "unat (high + StackSize - 4) < 2147483648" using assms(3) by simp
  have "0 \<le> sint (high + StackSize - 4)" unfolding sint_small [OF bound] by (rule of_nat_0_le_iff)
  then have seek: "coff_lseek (high + StackSize - 4) (length ?i) = unat high + 1020" using place by (simp add: coff_lseek_def)
  have zeros: "replicate (unat high + 1020 - length ?i) 0 @ [0, 0, 0, 0 :: byte] = replicate (unat high + 1024 - length ?i) 0"
  proof -
    have "[0, 0, 0, 0 :: byte] = replicate 4 0" by (simp add: eval_nat_numeral)
    then show ?thesis using assms(4) by (simp flip: replicate_add)
  qed
  have "write_at (unat high + 1020) [0, 0, 0, 0] ?i = ?i @ replicate (unat high + 1024 - length ?i) 0"
    using assms(4) by (simp add: write_at_def zeros [symmetric])
  then show ?thesis unfolding run by (simp add: seek coff_Write_def Let_def)
qed

end
