(* ===== verification/Reports.thy ===== *)
theory Reports
  imports Text_Output Interrupts Disk_Device File_System Post_Office
begin

text \<open>
  What the simulator reports about itself: its registers, pending interrupts and statistics, the
  sectors it transfers, its directories, and the contents of files as the file system prints them.
\<close>

section \<open>The machine\<close>

text \<open>The lines of the general registers; every fourth ends with a new line.\<close>

definition register_report :: "nat \<Rightarrow> c_int \<Rightarrow> string" where
  "register_report i v =
    tab @ (if i = 29 then ''SP('' @ decimal (int i) @ '')'' else if i = RetAddrReg then ''RA('' @ decimal (int i) @ '')''
           else decimal (int i)) @ '':'' @ tab @ ''0x'' @ hex (unat v) @ (if i mod 4 = 3 then newline else [])"

definition Machine_DumpState :: "('q, 'k) simulator_scheme \<Rightarrow> string" where
  "Machine_DumpState s =
    (let reg = (\<lambda>name i. tab @ name @ '':'' @ tab @ ''0x'' @ hex (unat (registers s i)))
     in ''Machine registers:'' @ newline @
        concat (List.map (\<lambda>i. register_report i (registers s i)) [0..<32]) @
        reg ''Hi'' HiReg @ reg ''Lo'' LoReg @ newline @
        reg ''PC'' PCReg @ reg ''NextPC'' NextPCReg @ reg ''PrevPC'' PrevPCReg @ newline @
        reg ''Load'' LoadReg @ reg ''LoadV'' LoadValueReg @ newline @ newline)"

text \<open>The list of pending interrupts is the kernel's; \<open>elements\<close> are those in it, with their times.\<close>

definition intLevelNames :: "IntStatus \<Rightarrow> string" where
  "intLevelNames l = (case l of IntOff \<Rightarrow> ''off'' | IntOn \<Rightarrow> ''on'')"

definition intTypeNames :: "IntType \<Rightarrow> string" where
  "intTypeNames ty =
    (case ty of
       TimerInt \<Rightarrow> ''timer''
     | DiskInt \<Rightarrow> ''disk''
     | ConsoleWriteInt \<Rightarrow> ''console write''
     | ConsoleReadInt \<Rightarrow> ''console read''
     | NetworkSendInt \<Rightarrow> ''network send''
     | NetworkRecvInt \<Rightarrow> ''network recv'')"

definition PrintPending :: "pending_interrupt \<Rightarrow> string" where
  "PrintPending p = ''Interrupt handler '' @ intTypeNames (type p) @ '', scheduled at '' @ decimal (when p) @ newline"

definition Interrupt_DumpState :: "('q \<Rightarrow> pending_interrupt list) \<Rightarrow> ('q, 'k) simulator_scheme \<Rightarrow> string" where
  "Interrupt_DumpState elements s =
    ''Time: '' @ decimal (totalTicks (stats s)) @ '', interrupts '' @ intLevelNames (level s) @ newline @
    ''Pending interrupts:'' @ newline @ concat (List.map PrintPending (elements (pending s))) @
    ''End of pending interrupts'' @ newline"

definition Statistics_Print :: "statistics \<Rightarrow> string" where
  "Statistics_Print st =
    (let n = (\<lambda>f. digits (f st)); t = (\<lambda>f. decimal (f st))
     in ''Ticks: total '' @ t totalTicks @ '', idle '' @ t idleTicks @ '', system '' @ t systemTicks @ '', user '' @ t userTicks @ newline @
        ''Disk I/O: reads '' @ n numDiskReads @ '', writes '' @ n numDiskWrites @ newline @
        ''Console I/O: reads '' @ n numConsoleCharsRead @ '', writes '' @ n numConsoleCharsWritten @ newline @
        ''Paging: faults '' @ n numPageFaults @ newline @
        ''Network I/O: packets received '' @ n numPacketsRecvd @ '', sent '' @ n numPacketsSent @ newline)"

definition PrintSector :: "host \<Rightarrow> bool \<Rightarrow> int \<Rightarrow> byte list \<Rightarrow> string" where
  "PrintSector h writing sector data =
    (if writing then ''Writing sector: '' else ''Reading sector: '') @ decimal sector @ newline @
    concat (List.map (\<lambda>w. hex (unat w) @ '' '') (words_of_bytes h data)) @ newline"

definition PrintHeader :: "packet_header \<Rightarrow> mail_header \<Rightarrow> string" where
  "PrintHeader pkt mh =
    ''From ('' @ decimal (sint (from_addr pkt)) @ '', '' @ decimal (sint (from_box mh)) @ '') to ('' @
    decimal (sint (to_addr pkt)) @ '', '' @ decimal (sint (to_box mh)) @ '') bytes '' @
    digits (unat (mail_length mh)) @ newline"

section \<open>Headers of files and directories\<close>

text \<open>
  A loop over \<^verbatim>\<open>dataSectors\<close> that ends at the first zero; when there is none it goes on past the array.
\<close>

definition sectors_to_zero :: "file_header \<Rightarrow> int list res" where
  "sectors_to_zero hdr = (if 0 \<in> set (dataSectors hdr) then Inr (takeWhile (\<lambda>n. n \<noteq> 0) (dataSectors hdr)) else Inl OutOfBounds)"

primrec print_each :: "('a \<Rightarrow> 'b \<Rightarrow> (string \<times> 'b) res) \<Rightarrow> 'a list \<Rightarrow> 'b \<Rightarrow> (string \<times> 'b) res" where
  "print_each f [] b = Inr ([], b)"
| "print_each f (x # xs) b =
    and_then (f x b) (\<lambda>(s, b). and_then (print_each f xs b) (\<lambda>(rest, b). Inr (s @ rest, b)))"

text \<open>The sectors of the table: \<open>k\<close> numbers have been shown, of \<open>numSectors\<close>.\<close>

definition print_table :: "host \<Rightarrow> store \<Rightarrow> file_header \<Rightarrow> int \<Rightarrow> nat \<Rightarrow> (string \<times> nat) res" where
  "print_table h st hdr n k =
    and_then (FetchFrom h n st) (\<lambda>_. and_then (ReadSector n st) (\<lambda>data.
    let shown = take (nat (numSectors hdr) - k) (words_of_bytes h data)
    in Inr (newline @ ''Sector '' @ decimal n @ '', Contents:'' @ newline @
            concat (List.map (\<lambda>w. digits (unat w) @ '' '') shown), k + length shown)))"

text \<open>The data, \<open>left\<close> bytes of which are still to be shown.\<close>

definition print_data :: "store \<Rightarrow> int \<Rightarrow> nat \<Rightarrow> (string \<times> nat) res" where
  "print_data st n left = and_then (ReadSector n st) (\<lambda>data. Inr (characters (take left data), left - length (take left data)))"

definition print_data_of :: "host \<Rightarrow> store \<Rightarrow> int \<Rightarrow> nat \<Rightarrow> (string \<times> nat) res" where
  "print_data_of h st n left =
    and_then (FetchFrom h n st) (\<lambda>newHdr. print_each (print_data st) (take IntsPerSector (header_words newHdr)) left)"

definition PrintFile :: "host \<Rightarrow> store \<Rightarrow> file_header \<Rightarrow> string res" where
  "PrintFile h st hdr =
    and_then (sectors_to_zero hdr) (\<lambda>tables.
    and_then (print_each (print_table h st hdr) tables 0) (\<lambda>(lists, _).
    and_then (print_each (print_data_of h st) tables (nat (numBytes hdr))) (\<lambda>(contents, _).
    Inr (''FileHeader contents:  File size: '' @ decimal (numBytes hdr) @ ''.  File sector blocks locations: '' @
         concat (List.map (\<lambda>n. decimal n @ '', '') tables) @ newline @ ''List of sector blocks for the file data:'' @ newline @ lists @
         newline @ ''File contents:'' @ newline @ newline @ contents))))"

text \<open>A byte is shown as a character where it has one, in the order of \<^verbatim>\<open>char\<close>, and else as a number.\<close>

definition printable :: "byte \<Rightarrow> string" where
  "printable b = (if 32 \<le> sint b \<and> sint b \<le> 126 then characters [b] else [CHR 0x5C] @ hex (unat b))"

definition print_direct :: "store \<Rightarrow> int \<Rightarrow> nat \<Rightarrow> (string \<times> nat) res" where
  "print_direct st n left =
    and_then (ReadSector n st) (\<lambda>data. Inr (concat (List.map printable (take left data)) @ newline, left - length (take left data)))"

definition PrintDirectory :: "store \<Rightarrow> file_header \<Rightarrow> string res" where
  "PrintDirectory st hdr =
    (let count_of = nat (numSectors hdr)
     in if length (dataSectors hdr) < count_of then Inl OutOfBounds
        else
          (let ns = take count_of (dataSectors hdr)
           in and_then (print_each (print_direct st) ns (nat (numBytes hdr))) (\<lambda>(contents, _).
              Inr (''Header size: '' @ decimal (numBytes hdr) @ '', Header sectors: '' @
                   concat (List.map (\<lambda>n. decimal n @ '', '') ns) @ newline @ ''Header contents:'' @ newline @ contents))))"

section \<open>Directories\<close>

text \<open>The sequences that change the colour of the terminal.\<close>

definition colour :: "string \<Rightarrow> string" where
  "colour code = [CHR 0x1B] @ ''['' @ code @ ''m''"

definition list_entry :: "directory_entry \<Rightarrow> string" where
  "list_entry e =
    (if in_use e
     then colour (if is_dir e then ''1;36'' else ''1;31'') @ characters (cstring (entry_name e)) @ newline
     else [])"

definition Directory_List :: "directory \<Rightarrow> string" where
  "Directory_List d = concat (List.map list_entry d) @ colour ''0'' @ newline"

definition print_entry :: "host \<Rightarrow> store \<Rightarrow> directory_entry \<Rightarrow> unit \<Rightarrow> (string \<times> unit) res" where
  "print_entry h st e u =
    (let line = (\<lambda>kind. kind @ '' name: '' @ characters (cstring (entry_name e)) @ '', '' @ kind @ '' header sector: '' @
                   decimal (entry_sector e) @ newline)
     in if \<not> in_use e then Inr (newline, u)
        else and_then (FetchFrom h (entry_sector e) st) (\<lambda>hdr.
             and_then (if is_dir e then PrintDirectory st hdr else PrintFile h st hdr) (\<lambda>s.
             Inr (line (if is_dir e then ''Directory'' else ''File'') @ s @ newline, u))))"

definition Directory_Print :: "host \<Rightarrow> store \<Rightarrow> directory \<Rightarrow> string res" where
  "Directory_Print h st d =
    and_then (getTableAt (int CurrentDirectoryIndex) d) (\<lambda>self.
    and_then (print_each (print_entry h st) d ()) (\<lambda>(s, _).
    Inr (''Directory '' @ characters (cstring (entry_name self)) @ '' contents:'' @ newline @ newline @ s @ newline)))"

section \<open>The file system\<close>

definition FileSystem_List :: "file_system \<Rightarrow> string" where
  "FileSystem_List fs = Directory_List (currentDir fs)"

text \<open>\<open>print_map\<close> is the kernel's \<^verbatim>\<open>BitMap::Print\<close> on the map fetched from the file.\<close>

definition rule_line :: string where
  "rule_line = newline @ newline @ replicate 175 (CHR ''-'') @ newline @ newline"

definition FileSystem_Print :: "'b fs_env \<Rightarrow> ('b \<Rightarrow> string) \<Rightarrow> file_system \<Rightarrow> string res" where
  "FileSystem_Print env print_map fs =
    (let h = fs_host env; st = disk_store fs
     in and_then (FetchFrom h FreeMapSector st) (\<lambda>bitHdr.
        and_then (PrintDirectory st bitHdr) (\<lambda>s1.
        and_then (FetchFrom h RootSector st) (\<lambda>dirHdr.
        and_then (PrintDirectory st dirHdr) (\<lambda>s2.
        and_then (fetch_map env fs) (\<lambda>freeMap.
        and_then (read_current env fs) (\<lambda>directory.
        and_then (Directory_Print h st directory) (\<lambda>s3.
        Inr (''Bit map file header:'' @ newline @ s1 @ ''Directory file header:'' @ newline @ s2 @ print_map freeMap @
             rule_line @ s3)))))))))"

section \<open>What is shown\<close>

text \<open>A listing has one line for each name of the directory, and none for anything else.\<close>

lemma list_free_entries: "concat (List.map list_entry d) = concat (List.map list_entry (filter in_use d))"
  by (induction d) (auto simp: list_entry_def)

lemma Directory_List_names:
  assumes "directory_ok d"
  shows "\<exists>es. Directory_List d = concat (List.map list_entry es) @ colour ''0'' @ newline \<and>
    distinct (List.map (\<lambda>e. name_key (entry_name e)) es) \<and>
    set (List.map (\<lambda>e. name_key (entry_name e)) es) = dom (directory_map d) \<and>
    (\<forall>e \<in> set es. directory_map d (name_key (entry_name e)) = Some (entry_sector e))"
proof (intro exI conjI)
  let ?es = "filter in_use d"
  show "Directory_List d = concat (List.map list_entry ?es) @ colour ''0'' @ newline"
    by (simp only: Directory_List_def list_free_entries [of d])
  show d: "distinct (List.map (\<lambda>e. name_key (entry_name e)) ?es)"
    using assms by (simp add: directory_ok_def)
  show "set (List.map (\<lambda>e. name_key (entry_name e)) ?es) = dom (directory_map d)"
    by (simp add: directory_map_def dom_map_of_conv_image_fst image_image)
  show "\<forall>e \<in> set ?es. directory_map d (name_key (entry_name e)) = Some (entry_sector e)"
  proof
    fix e
    assume "e \<in> set ?es"
    moreover have "distinct (List.map fst (List.map (\<lambda>e. (name_key (entry_name e), entry_sector e)) ?es))"
      using d by (simp add: comp_def)
    ultimately show "directory_map d (name_key (entry_name e)) = Some (entry_sector e)"
      unfolding directory_map_def by (intro map_of_is_SomeI) auto
  qed
qed

text \<open>The sectors of a file are shown one after the other, up to the file's length and no further.\<close>

lemma print_data_each:
  "\<forall>n \<in> set ns. 0 \<le> n \<and> n < NumSectors \<Longrightarrow>
    print_each (print_data st) ns left =
      Inr (characters (take left (concat (List.map st ns))), left - length (concat (List.map st ns)))"
proof (induction ns arbitrary: left)
  case (Cons n ns)
  have "left - length (take left (st n)) = left - length (st n)" by simp
  then show ?case
    using Cons by (simp add: print_data_def ReadSector_def characters_def)
qed (simp add: characters_def)

definition table_entries :: "host \<Rightarrow> store \<Rightarrow> int \<Rightarrow> int list" where
  "table_entries h st n = take IntsPerSector (header_words (header_of_bytes h (st n)))"

lemma print_data_of_each:
  "\<forall>t \<in> set tables. (0 \<le> t \<and> t < NumSectors) \<and> (\<forall>n \<in> set (table_entries h st t). 0 \<le> n \<and> n < NumSectors) \<Longrightarrow>
    print_each (print_data_of h st) tables left =
      Inr (characters (take left (concat (List.map st (concat (List.map (table_entries h st) tables))))),
           left - length (concat (List.map st (concat (List.map (table_entries h st) tables)))))"
proof (induction tables arbitrary: left)
  case (Cons t tables)
  have "print_data_of h st t left = Inr (characters (take left (concat (List.map st (table_entries h st t)))),
      left - length (concat (List.map st (table_entries h st t))))"
    using Cons.prems print_data_each [of "table_entries h st t" st left]
    by (simp add: print_data_of_def FetchFrom_def ReadSector_def table_entries_def)
  then show ?case
    using Cons by (simp add: characters_def)
qed (simp add: characters_def)

text \<open>
  So \<open>PrintFile\<close> ends with the first \<open>numBytes\<close> bytes of the sectors the tables name, provided the
  list of tables ends with a zero; for a file with all its tables in use there is none.
\<close>

lemma PrintFile_shows:
  assumes "sectors_to_zero hdr = Inr tables"
    and "\<forall>t \<in> set tables. (0 \<le> t \<and> t < NumSectors) \<and> (\<forall>n \<in> set (table_entries h st t). 0 \<le> n \<and> n < NumSectors)"
  shows "\<exists>before. PrintFile h st hdr = Inr (before @ newline @ ''File contents:'' @ newline @ newline @
    characters (take (nat (numBytes hdr)) (concat (List.map st (concat (List.map (table_entries h st) tables))))))"
proof -
  have "\<exists>s k'. print_each (print_table h st hdr) tables k = Inr (s, k')" for k
    using assms(2)
  proof (induction tables arbitrary: k)
    case (Cons t tables)
    then obtain s k' where "print_table h st hdr t k = Inr (s, k')"
      by (simp add: print_table_def FetchFrom_def ReadSector_def)
    moreover have "\<exists>s2 k2. print_each (print_table h st hdr) tables k' = Inr (s2, k2)" using Cons by simp
    then obtain s2 k2 where "print_each (print_table h st hdr) tables k' = Inr (s2, k2)" by blast
    ultimately show ?case by simp
  qed simp
  then obtain s k' where "print_each (print_table h st hdr) tables 0 = Inr (s, k')" by blast
  then show ?thesis
    using assms(1) print_data_of_each [OF assms(2), of "nat (numBytes hdr)"]
    by (intro exI [of _ "''FileHeader contents:  File size: '' @ decimal (numBytes hdr) @ ''.  File sector blocks locations: '' @
      concat (List.map (\<lambda>n. decimal n @ '', '') tables) @ newline @ ''List of sector blocks for the file data:'' @ newline @ s"])
      (simp add: PrintFile_def)
qed

lemma PrintFile_past_table: "0 \<notin> set (dataSectors hdr) \<Longrightarrow> PrintFile h st hdr = Inl OutOfBounds"
  by (simp add: PrintFile_def sectors_to_zero_def)

end
