(* ===== verification/Host_Files.thy ===== *)
theory Host_Files
  imports Machine_State
begin

text \<open>
  Files of the UNIX host, and the routines of \<^verbatim>\<open>machine/sysdep.cc\<close> through which the simulator uses them.
  A file is its bytes; a name leads to a file, and an open descriptor to a file and a position in it. Every
  file may be read and written and the host has room for what is written.
\<close>

section \<open>The host\<close>

record unix =
  named :: "string \<Rightarrow> nat option"
  file_bytes_of :: "nat \<Rightarrow> byte list"
  next_file :: nat
  descriptors :: "int \<Rightarrow> (nat \<times> nat) option"

definition free_descriptor :: "unix \<Rightarrow> int option" where
  "free_descriptor u = List.find (\<lambda>fd. descriptors u fd = None) [0..1023]"

text \<open>
  The calls \<^verbatim>\<open>open\<close> (with and without \<^verbatim>\<open>O_CREAT | O_TRUNC\<close>), \<^verbatim>\<open>read\<close>, \<^verbatim>\<open>write\<close>, \<^verbatim>\<open>lseek\<close>, \<^verbatim>\<open>close\<close> and \<^verbatim>\<open>unlink\<close>;
  -1 is the error. A file without a name stays while a descriptor is open.
\<close>

definition u_open :: "bool \<Rightarrow> string \<Rightarrow> unix \<Rightarrow> int \<times> unix" where
  "u_open creating name u =
    (case free_descriptor u of
       None \<Rightarrow> (- 1, u)
     | Some fd \<Rightarrow>
         let u' = (\<lambda>i u. u\<lparr>descriptors := (descriptors u)(fd := Some (i, 0))\<rparr>)
         in case named u name of
              Some i \<Rightarrow> (fd, u' i (if creating then u\<lparr>file_bytes_of := (file_bytes_of u)(i := [])\<rparr> else u))
            | None \<Rightarrow>
                if creating then
                  (fd, u' (next_file u)
                    (u\<lparr>named := (named u)(name := Some (next_file u)),
                       file_bytes_of := (file_bytes_of u)(next_file u := []), next_file := Suc (next_file u)\<rparr>))
                else (- 1, u))"

definition u_read :: "int \<Rightarrow> int \<Rightarrow> unix \<Rightarrow> int \<times> byte list \<times> unix" where
  "u_read fd n u =
    (case descriptors u fd of
       None \<Rightarrow> (- 1, [], u)
     | Some (i, pos) \<Rightarrow>
         if n < 0 then (- 1, [], u)
         else
           (let bs = take (nat n) (drop pos (file_bytes_of u i))
            in (int (length bs), bs, u\<lparr>descriptors := (descriptors u)(fd := Some (i, pos + length bs))\<rparr>)))"

text \<open>Bytes written beyond the end leave zeros before them.\<close>

definition overwrite :: "nat \<Rightarrow> byte list \<Rightarrow> byte list \<Rightarrow> byte list" where
  "overwrite pos bs old =
    (if bs = [] then old
     else take pos (old @ replicate (pos - length old) 0) @ bs @ drop (pos + length bs) old)"

definition u_write :: "int \<Rightarrow> byte list \<Rightarrow> unix \<Rightarrow> int \<times> unix" where
  "u_write fd bs u =
    (case descriptors u fd of
       None \<Rightarrow> (- 1, u)
     | Some (i, pos) \<Rightarrow>
         (int (length bs),
          u\<lparr>file_bytes_of := (file_bytes_of u)(i := overwrite pos bs (file_bytes_of u i)),
            descriptors := (descriptors u)(fd := Some (i, pos + length bs))\<rparr>))"

definition u_lseek :: "int \<Rightarrow> int \<Rightarrow> int \<Rightarrow> unix \<Rightarrow> int \<times> unix" where
  "u_lseek fd off whence u =
    (case descriptors u fd of
       None \<Rightarrow> (- 1, u)
     | Some (i, pos) \<Rightarrow>
         (let start = (if whence = 0 then 0 else if whence = 1 then int pos else int (length (file_bytes_of u i)));
              pos' = start + off
          in if pos' < 0 \<or> whence \<notin> {0, 1, 2} then (- 1, u)
             else (pos', u\<lparr>descriptors := (descriptors u)(fd := Some (i, nat pos'))\<rparr>)))"

definition u_close :: "int \<Rightarrow> unix \<Rightarrow> int \<times> unix" where
  "u_close fd u =
    (if descriptors u fd = None then (- 1, u) else (0, u\<lparr>descriptors := (descriptors u)(fd := None)\<rparr>))"

definition u_unlink :: "string \<Rightarrow> unix \<Rightarrow> int \<times> unix" where
  "u_unlink name u =
    (if named u name = None then (- 1, u) else (0, u\<lparr>named := (named u)(name := None)\<rparr>))"

section \<open>The routines of the simulator\<close>

definition OpenForWrite :: "string \<Rightarrow> unix \<Rightarrow> (int \<times> unix) res" where
  "OpenForWrite name u =
    (let (fd, u) = u_open True name u in and_then (assert_that (0 \<le> fd)) (\<lambda>_. Inr (fd, u)))"

definition OpenForReadWrite :: "string \<Rightarrow> bool \<Rightarrow> unix \<Rightarrow> (int \<times> unix) res" where
  "OpenForReadWrite name crashOnError u =
    (let (fd, u) = u_open False name u in and_then (assert_that (\<not> crashOnError \<or> 0 \<le> fd)) (\<lambda>_. Inr (fd, u)))"

definition sys_Read :: "int \<Rightarrow> int \<Rightarrow> unix \<Rightarrow> (byte list \<times> unix) res" where
  "sys_Read fd nBytes u =
    (let (retVal, bs, u) = u_read fd nBytes u in and_then (assert_that (retVal = nBytes)) (\<lambda>_. Inr (bs, u)))"

definition ReadPartial :: "int \<Rightarrow> int \<Rightarrow> unix \<Rightarrow> int \<times> byte list \<times> unix" where
  "ReadPartial fd nBytes u = u_read fd nBytes u"

text \<open>A negative number of bytes is an error of \<^verbatim>\<open>write\<close>, which -1 passes off as success.\<close>

definition WriteFile :: "int \<Rightarrow> byte list \<Rightarrow> int \<Rightarrow> unix \<Rightarrow> unix res" where
  "WriteFile fd buffer nBytes u =
    (if int (length buffer) < nBytes then Inl OutOfBounds
     else
       (let (retVal, u) = (if nBytes < 0 then (- 1, u) else u_write fd (take (nat nBytes) buffer) u)
        in and_then (assert_that (retVal = nBytes)) (\<lambda>_. Inr u)))"

definition Lseek :: "int \<Rightarrow> int \<Rightarrow> int \<Rightarrow> unix \<Rightarrow> unix res" where
  "Lseek fd offset whence u =
    (let (retVal, u) = u_lseek fd offset whence u in and_then (assert_that (0 \<le> retVal)) (\<lambda>_. Inr u))"

definition Tell :: "int \<Rightarrow> unix \<Rightarrow> int" where
  "Tell fd u = fst (u_lseek fd 0 1 u)"

definition sys_Close :: "int \<Rightarrow> unix \<Rightarrow> unix res" where
  "sys_Close fd u = (let (retVal, u) = u_close fd u in and_then (assert_that (0 \<le> retVal)) (\<lambda>_. Inr u))"

text \<open>The result of \<^verbatim>\<open>unlink\<close> as a truth value: true when it failed.\<close>

definition Unlink :: "string \<Rightarrow> unix \<Rightarrow> bool \<times> unix" where
  "Unlink name u = (let (retVal, u) = u_unlink name u in (retVal \<noteq> 0, u))"

text \<open>
  \<^verbatim>\<open>PollFile\<close> asks \<^verbatim>\<open>select\<close>, which is given the microseconds it may wait; an idle machine lets other simulators run.
\<close>

definition poll_time :: "MachineStatus \<Rightarrow> int" where
  "poll_time mstat = (if mstat = IdleMode then 20000 else 0)"

definition PollFile :: "(int \<Rightarrow> int) \<Rightarrow> MachineStatus \<Rightarrow> bool res" where
  "PollFile select mstat =
    (let retVal = select (poll_time mstat)
     in and_then (assert_that (retVal = 0 \<or> retVal = 1)) (\<lambda>_. Inr (retVal \<noteq> 0)))"

section \<open>Positioned reads and writes\<close>

text \<open>The descriptor is open on the file.\<close>

definition opened_on :: "unix \<Rightarrow> int \<Rightarrow> nat \<Rightarrow> bool" where
  "opened_on u fd i \<longleftrightarrow> (\<exists>pos. descriptors u fd = Some (i, pos))"

lemma length_overwrite: "bs \<noteq> [] \<Longrightarrow> length (overwrite pos bs old) = max (length old) (pos + length bs)"
  by (simp add: overwrite_def)

lemma overwrite_inside:
  "pos + length bs \<le> length old \<Longrightarrow> overwrite pos bs old = take pos old @ bs @ drop (pos + length bs) old"
  by (auto simp: overwrite_def)

lemma nth_overwrite:
  assumes "k < length (overwrite pos bs old)"
  shows "overwrite pos bs old ! k =
    (if pos \<le> k \<and> k < pos + length bs then bs ! (k - pos) else if k < length old then old ! k else 0)"
proof (cases "bs = []")
  case True
  then show ?thesis using assms by (auto simp: overwrite_def)
next
  case False
  have "min (length old) pos + (pos - length old) = pos" by simp
  with False show ?thesis using assms by (auto simp: overwrite_def nth_append)
qed

lemma Lseek_opened:
  assumes "opened_on u fd i" and "0 \<le> off"
  shows "Lseek fd off 0 u = Inr (u\<lparr>descriptors := (descriptors u)(fd := Some (i, nat off))\<rparr>)"
  using assms by (auto simp: Lseek_def u_lseek_def opened_on_def)

lemma read_after_seek:
  assumes "opened_on u fd i" and "0 \<le> off" and "0 \<le> n"
  shows "\<exists>u'. and_then (Lseek fd off 0 u) (\<lambda>u. Inr (ReadPartial fd n u)) =
      Inr (int (length (take (nat n) (drop (nat off) (file_bytes_of u i)))),
           take (nat n) (drop (nat off) (file_bytes_of u i)), u') \<and>
    opened_on u' fd i \<and> file_bytes_of u' = file_bytes_of u \<and> named u' = named u"
  using assms by (simp add: Lseek_opened ReadPartial_def u_read_def opened_on_def)

lemma write_after_seek:
  assumes "opened_on u fd i" and "0 \<le> off"
  shows "\<exists>u'. and_then (Lseek fd off 0 u) (WriteFile fd bs (int (length bs))) = Inr u' \<and> opened_on u' fd i \<and>
    named u' = named u \<and> file_bytes_of u' = (file_bytes_of u)(i := overwrite (nat off) bs (file_bytes_of u i))"
  using assms by (simp add: Lseek_opened WriteFile_def u_write_def opened_on_def)

text \<open>A file that is closed and opened again by its name is the same file.\<close>

lemma free_descriptor_found:
  assumes "descriptors u fd = None" and "0 \<le> fd" and "fd \<le> 1023"
  shows "\<exists>fd'. free_descriptor u = Some fd' \<and> 0 \<le> fd' \<and> descriptors u fd' = None"
proof (cases "free_descriptor u")
  case None
  then show ?thesis using assms by (auto simp: free_descriptor_def find_None_iff)
next
  case (Some fd')
  then show ?thesis by (auto simp: free_descriptor_def find_Some_iff)
qed

end
