(* ===== verification/Host_Disk.thy ===== *)
theory Host_Disk
  imports Host_Files Fs_Store Fs_OpenFile
begin

text \<open>
  The UNIX file behind the disk (\<^verbatim>\<open>machine/disk.cc\<close>): a magic number and the sectors one after the other. The
  device of \<open>Disk_Device\<close> works on an array of sectors; here the same requests go to the file, and they
  implement that array, also when the disk is closed and opened again.
\<close>

section \<open>The file\<close>

definition MagicSize :: nat where "MagicSize = 4"
definition DiskSize :: int where "DiskSize = int MagicSize + NumSectors * int SectorSize"

definition sector_offset :: "int \<Rightarrow> int" where
  "sector_offset sectorNumber = int SectorSize * sectorNumber + int MagicSize"

text \<open>What \<^verbatim>\<open>Disk::Disk\<close> does with the file, and \<^verbatim>\<open>Disk::~Disk\<close>.\<close>

definition open_disk :: "host \<Rightarrow> string \<Rightarrow> unix \<Rightarrow> (int \<times> unix) res" where
  "open_disk h name u =
    and_then (OpenForReadWrite name False u) (\<lambda>(fileno, u).
    if 0 \<le> fileno then
      and_then (sys_Read fileno (int MagicSize) u) (\<lambda>(bs, u).
      and_then (assert_that (load_word h ((!) bs) 0 = MagicNumber)) (\<lambda>_. Inr (fileno, u)))
    else
      and_then (OpenForWrite name u) (\<lambda>(fileno, u).
      and_then (WriteFile fileno (word_bytes h MagicNumber) (int MagicSize) u) (\<lambda>u.
      and_then (Lseek fileno (DiskSize - 4) 0 u) (\<lambda>u.
      and_then (WriteFile fileno (word_bytes h 0) 4 u) (\<lambda>u. Inr (fileno, u))))))"

definition close_disk :: "int \<Rightarrow> unix \<Rightarrow> unix res" where
  "close_disk fileno u = sys_Close fileno u"

text \<open>The transfer of \<^verbatim>\<open>ReadRequest\<close> and \<^verbatim>\<open>WriteRequest\<close>.\<close>

definition transfer_in :: "int \<Rightarrow> int \<Rightarrow> unix \<Rightarrow> (byte list \<times> unix) res" where
  "transfer_in fileno sectorNumber u =
    and_then (assert_that (0 \<le> sectorNumber \<and> sectorNumber < NumSectors)) (\<lambda>_.
    and_then (Lseek fileno (sector_offset sectorNumber) 0 u) (sys_Read fileno (int SectorSize)))"

definition transfer_out :: "int \<Rightarrow> int \<Rightarrow> byte list \<Rightarrow> unix \<Rightarrow> unix res" where
  "transfer_out fileno sectorNumber data u =
    and_then (assert_that (0 \<le> sectorNumber \<and> sectorNumber < NumSectors)) (\<lambda>_.
    and_then (Lseek fileno (sector_offset sectorNumber) 0 u) (WriteFile fileno data (int SectorSize)))"

section \<open>The array of sectors\<close>

definition sector_of :: "byte list \<Rightarrow> int \<Rightarrow> byte list" where
  "sector_of file n = take SectorSize (drop (nat (sector_offset n)) file)"

definition disk_file :: "host \<Rightarrow> byte list \<Rightarrow> store \<Rightarrow> bool" where
  "disk_file h file st \<longleftrightarrow>
    DiskSize \<le> int (length file) \<and> load_word h ((!) file) 0 = MagicNumber \<and>
    (\<forall>n. 0 \<le> n \<and> n < NumSectors \<longrightarrow> sector_of file n = st n)"

text \<open>The descriptor is open on the disk's file.\<close>

definition disk_opened :: "host \<Rightarrow> string \<Rightarrow> nat \<Rightarrow> unix \<Rightarrow> int \<Rightarrow> store \<Rightarrow> bool" where
  "disk_opened h name i u fd st \<longleftrightarrow>
    0 \<le> fd \<and> fd \<le> 1023 \<and> opened_on u fd i \<and> named u name = Some i \<and> disk_file h (file_bytes_of u i) st"

lemmas disk_sizes = MagicSize_def DiskSize_def sector_offset_def SectorSize_def NumSectors_def SectorsPerTrack_def NumTracks_def

lemma transfer_in_reads:
  assumes "disk_opened h name i u fd st"
  shows "(case ReadSector n st of
     Inl e \<Rightarrow> transfer_in fd n u = Inl e
   | Inr bs \<Rightarrow> \<exists>u'. transfer_in fd n u = Inr (bs, u') \<and> disk_opened h name i u' fd st)"
proof (cases "0 \<le> n \<and> n < NumSectors")
  case False
  then show ?thesis by (auto simp: ReadSector_def transfer_in_def assert_that_def)
next
  case True
  have open_: "opened_on u fd i" and stored: "disk_file h (file_bytes_of u i) st"
    using assms by (simp_all add: disk_opened_def)
  have off: "0 \<le> sector_offset n" "nat (sector_offset n) + SectorSize \<le> length (file_bytes_of u i)"
    using True stored by (auto simp: disk_file_def disk_sizes)
  have "sector_of (file_bytes_of u i) n = st n" using stored True by (simp add: disk_file_def)
  then have "transfer_in fd n u =
    Inr (st n, u\<lparr>descriptors := (descriptors u)(fd := Some (i, nat (sector_offset n) + SectorSize))\<rparr>)"
    using True off open_ by (auto simp: transfer_in_def Lseek_opened sys_Read_def u_read_def sector_of_def)
  then show ?thesis using True assms by (auto simp: ReadSector_def disk_opened_def opened_on_def)
qed

lemma sector_of_overwrite:
  assumes "0 \<le> n" "n < NumSectors" "0 \<le> m" "m < NumSectors" and "length bs = SectorSize" and "DiskSize \<le> int (length file)"
  shows "sector_of (overwrite (nat (sector_offset n)) bs file) m = (if m = n then bs else sector_of file m)"
proof (rule nth_equalityI)
  have len: "length (overwrite (nat (sector_offset n)) bs file) = length file"
    using assms by (subst length_overwrite) (auto simp: disk_sizes)
  then show "length (sector_of (overwrite (nat (sector_offset n)) bs file) m) = length (if m = n then bs else sector_of file m)"
    using assms by (auto simp: sector_of_def disk_sizes)
  fix k
  assume "k < length (sector_of (overwrite (nat (sector_offset n)) bs file) m)"
  then have k: "k < 128" by (simp add: sector_of_def SectorSize_def)
  have place: "nat (sector_offset m) + k < length file" using assms k by (auto simp: disk_sizes)
  have "nat (sector_offset n) \<le> nat (sector_offset m) + k \<and> nat (sector_offset m) + k < nat (sector_offset n) + 128 \<longleftrightarrow> m = n"
    using assms(1-4) k by (auto simp: disk_sizes)
  then show "sector_of (overwrite (nat (sector_offset n)) bs file) m ! k = (if m = n then bs else sector_of file m) ! k"
    using k place len assms(5) by (auto simp: sector_of_def nth_overwrite SectorSize_def)
qed

lemma transfer_out_writes:
  assumes "disk_opened h name i u fd st"
  shows "(case WriteSector n data st of
     Inl e \<Rightarrow> transfer_out fd n data u = Inl e
   | Inr st' \<Rightarrow> \<exists>u'. transfer_out fd n data u = Inr u' \<and> disk_opened h name i u' fd st')"
proof (cases "0 \<le> n \<and> n < NumSectors")
  case False
  then show ?thesis by (auto simp: WriteSector_def transfer_out_def assert_that_def)
next
  case True
  have open_: "opened_on u fd i" and stored: "disk_file h (file_bytes_of u i) st"
    using assms by (simp_all add: disk_opened_def)
  have off: "0 \<le> sector_offset n" "4 \<le> nat (sector_offset n)" using True by (auto simp: disk_sizes)
  show ?thesis
  proof (cases "length data < SectorSize")
    case short: True
    then show ?thesis using True off open_
      by (auto simp: WriteSector_def transfer_out_def Lseek_opened WriteFile_def)
  next
    case False
    let ?bs = "take SectorSize data" and ?old = "file_bytes_of u i"
    have bs: "length ?bs = SectorSize" using False by simp
    let ?new = "overwrite (nat (sector_offset n)) ?bs ?old"
    have len: "length ?new = length ?old"
      using bs True stored by (subst length_overwrite) (auto simp: disk_sizes disk_file_def)
    have "?new ! k = ?old ! k" if "k < 4" for k
      using that off stored len by (subst nth_overwrite) (auto simp: disk_file_def disk_sizes)
    then have "load_word h ((!) ?new) 0 = load_word h ((!) ?old) 0"
      by (simp add: load_word_def)
    then have "disk_file h ?new (st(n := ?bs))"
      using stored len True bs by (auto simp: disk_file_def sector_of_overwrite)
    moreover have "transfer_out fd n data u = Inr (u\<lparr>file_bytes_of := (file_bytes_of u)(i := ?new),
        descriptors := (descriptors u)(fd := Some (i, nat (sector_offset n) + SectorSize))\<rparr>)"
      using True off open_ False bs
      by (auto simp: transfer_out_def Lseek_opened WriteFile_def u_write_def)
    ultimately show ?thesis using True False assms
      by (auto simp: WriteSector_def disk_opened_def opened_on_def)
  qed
qed

section \<open>Opening the disk\<close>

text \<open>A file that is there is accepted when it starts with the magic number; it keeps its sectors.\<close>

lemma load_word_take: "4 \<le> length bs \<Longrightarrow> load_word h ((!) (take 4 bs)) 0 = load_word h ((!) bs) 0"
  by (simp add: load_word_def)

lemma open_disk_existing:
  assumes "free_descriptor u = Some fd" and "named u name = Some i" and "disk_file h (file_bytes_of u i) st"
  shows "\<exists>u'. open_disk h name u = Inr (fd, u') \<and> disk_opened h name i u' fd st"
proof -
  have fd: "0 \<le> fd" "fd \<le> 1023" using assms(1) by (auto simp: free_descriptor_def find_Some_iff)
  have len: "4 \<le> length (file_bytes_of u i)" using assms(3) by (simp add: disk_file_def disk_sizes)
  then have "load_word h ((!) (take 4 (file_bytes_of u i))) 0 = MagicNumber"
    using assms(3) by (simp add: disk_file_def load_word_take)
  then show ?thesis using assms fd len
    by (auto simp: open_disk_def OpenForReadWrite_def u_open_def sys_Read_def u_read_def MagicSize_def Let_def
        disk_opened_def opened_on_def)
qed

lemma open_disk_refused:
  assumes "free_descriptor u = Some fd" and "0 \<le> fd" and "named u name = Some i"
    and "length (file_bytes_of u i) < 4 \<or> load_word h ((!) (file_bytes_of u i)) 0 \<noteq> MagicNumber"
  shows "open_disk h name u = Inl AssertionFailed"
proof (cases "length (file_bytes_of u i) < 4")
  case True
  then show ?thesis using assms(1-3)
    by (auto simp: open_disk_def OpenForReadWrite_def u_open_def sys_Read_def u_read_def MagicSize_def Let_def)
next
  case False
  then have "load_word h ((!) (take 4 (file_bytes_of u i))) 0 \<noteq> MagicNumber"
    using assms(4) by (simp add: load_word_take)
  then show ?thesis using assms(1-3) False
    by (auto simp: open_disk_def OpenForReadWrite_def u_open_def sys_Read_def u_read_def MagicSize_def Let_def)
qed

text \<open>A file that is not there is made: all its sectors are zeros, as those of \<open>Disk None\<close>.\<close>

definition new_disk_file :: "host \<Rightarrow> byte list" where
  "new_disk_file h = overwrite (nat (DiskSize - 4)) (word_bytes h 0) (overwrite 0 (word_bytes h MagicNumber) [])"

lemma nth_new_disk_file:
  assumes "k < nat DiskSize"
  shows "new_disk_file h ! k = (if k < 4 then word_bytes h MagicNumber ! k else 0)"
    and "length (new_disk_file h) = nat DiskSize"
proof -
  have "word_bytes h 0 = replicate 4 0" by (simp add: word_bytes_def Let_def numeral_eq_Suc)
  then have zero: "word_bytes h 0 ! j = 0" if "j < 4" for j using that by simp
  have first: "overwrite 0 (word_bytes h MagicNumber) [] = word_bytes h MagicNumber"
    by (simp add: overwrite_def)
  have ne: "word_bytes h 0 \<noteq> []" using length_word_bytes [of h 0] by (metis list.size(3) zero_neq_numeral)
  show len: "length (new_disk_file h) = nat DiskSize"
    unfolding new_disk_file_def first by (subst length_overwrite [OF ne]) (auto simp: length_word_bytes disk_sizes)
  show "new_disk_file h ! k = (if k < 4 then word_bytes h MagicNumber ! k else 0)"
    using assms len zero unfolding new_disk_file_def first
    by (subst nth_overwrite) (auto simp: length_word_bytes disk_sizes)
qed

lemma new_disk_file_blank: "disk_file h (new_disk_file h) (\<lambda>_. replicate SectorSize 0)"
proof -
  have len: "length (new_disk_file h) = nat DiskSize"
    using nth_new_disk_file(2) [of 0 h] by (simp add: disk_sizes)
  have bytes: "new_disk_file h ! k = (if k < 4 then word_bytes h MagicNumber ! k else 0)" if "k < nat DiskSize" for k
    using that by (rule nth_new_disk_file(1))
  have "load_word h ((!) (new_disk_file h)) 0 = load_word h ((!) (word_bytes h MagicNumber @ [])) 0"
    using bytes by (simp add: load_word_def disk_sizes)
  then have "load_word h ((!) (new_disk_file h)) 0 = MagicNumber" unfolding load_word_bytes .
  moreover have "sector_of (new_disk_file h) n = replicate SectorSize 0" if "0 \<le> n" "n < NumSectors" for n
  proof (rule nth_equalityI)
    show "length (sector_of (new_disk_file h) n) = length (replicate SectorSize (0 :: byte))"
      using that len by (auto simp: sector_of_def disk_sizes)
    fix k
    assume "k < length (sector_of (new_disk_file h) n)"
    then have "k < SectorSize" by (simp add: sector_of_def)
    then show "sector_of (new_disk_file h) n ! k = replicate SectorSize 0 ! k"
      using that len bytes [of "nat (sector_offset n) + k"] by (auto simp: sector_of_def disk_sizes)
  qed
  ultimately show ?thesis using len by (simp add: disk_file_def disk_sizes)
qed

lemma open_disk_new:
  assumes "free_descriptor u = Some fd" and "named u name = None"
  shows "\<exists>u'. open_disk h name u = Inr (fd, u') \<and> disk_opened h name (next_file u) u' fd (\<lambda>_. replicate SectorSize 0)"
proof -
  have fd: "0 \<le> fd" "fd \<le> 1023" using assms(1) by (auto simp: free_descriptor_def find_Some_iff)
  show ?thesis
    using assms fd new_disk_file_blank [of h]
    by (auto simp: open_disk_def OpenForReadWrite_def OpenForWrite_def u_open_def WriteFile_def u_write_def Lseek_def u_lseek_def
        disk_opened_def opened_on_def new_disk_file_def Let_def MagicSize_def free_descriptor_def disk_sizes)
qed

section \<open>Requests\<close>

datatype file_request = Get int | Put int "byte list"

primrec requests_to_file :: "file_request list \<Rightarrow> int \<Rightarrow> unix \<Rightarrow> (byte list list \<times> unix) res" where
  "requests_to_file [] fd u = Inr ([], u)"
| "requests_to_file (r # rs) fd u =
    (case r of
       Get n \<Rightarrow>
         and_then (transfer_in fd n u) (\<lambda>(bs, u).
         and_then (requests_to_file rs fd u) (\<lambda>(rest, u). Inr (bs # rest, u)))
     | Put n data \<Rightarrow> and_then (transfer_out fd n data u) (requests_to_file rs fd))"

primrec requests_to_sectors :: "file_request list \<Rightarrow> store \<Rightarrow> (byte list list \<times> store) res" where
  "requests_to_sectors [] st = Inr ([], st)"
| "requests_to_sectors (r # rs) st =
    (case r of
       Get n \<Rightarrow>
         and_then (ReadSector n st) (\<lambda>bs.
         and_then (requests_to_sectors rs st) (\<lambda>(rest, st). Inr (bs # rest, st)))
     | Put n data \<Rightarrow> and_then (WriteSector n data st) (requests_to_sectors rs))"

lemma requests_agree:
  assumes "disk_opened h name i u fd st"
  shows "(case requests_to_sectors rs st of
     Inl e \<Rightarrow> requests_to_file rs fd u = Inl e
   | Inr (out, st') \<Rightarrow> \<exists>u'. requests_to_file rs fd u = Inr (out, u') \<and> disk_opened h name i u' fd st')"
  using assms
proof (induction rs arbitrary: u st)
  case Nil
  then show ?case by auto
next
  case (Cons r rs)
  show ?case
  proof (cases r)
    case (Get n)
    show ?thesis
    proof (cases "ReadSector n st")
      case (Inl e)
      then show ?thesis using Get transfer_in_reads [OF Cons.prems, of n] by simp
    next
      case (Inr bs)
      then obtain u1 where u1: "transfer_in fd n u = Inr (bs, u1)" "disk_opened h name i u1 fd st"
        using transfer_in_reads [OF Cons.prems, of n] by auto
      show ?thesis using Get Inr u1(1) Cons.IH [OF u1(2)] by (auto split: sum.splits)
    qed
  next
    case (Put n data)
    show ?thesis
    proof (cases "WriteSector n data st")
      case (Inl e)
      then show ?thesis using Put transfer_out_writes [OF Cons.prems, of n data] by simp
    next
      case (Inr st1)
      then obtain u1 where u1: "transfer_out fd n data u = Inr u1" "disk_opened h name i u1 fd st1"
        using transfer_out_writes [OF Cons.prems, of n data] by auto
      show ?thesis using Put Inr u1(1) Cons.IH [OF u1(2)] by (auto split: sum.splits)
    qed
  qed
qed

lemma reopened:
  assumes "disk_opened h name i u fd st"
  shows "\<exists>u1 fd' u2. close_disk fd u = Inr u1 \<and> open_disk h name u1 = Inr (fd', u2) \<and> disk_opened h name i u2 fd' st"
proof -
  let ?u1 = "u\<lparr>descriptors := (descriptors u)(fd := None)\<rparr>"
  have closed: "close_disk fd u = Inr ?u1"
    using assms by (auto simp: close_disk_def sys_Close_def u_close_def disk_opened_def opened_on_def)
  have "descriptors ?u1 fd = None" by simp
  then obtain fd' where fd': "free_descriptor ?u1 = Some fd'"
    using free_descriptor_found [of ?u1 fd] assms by (auto simp: disk_opened_def)
  have "named ?u1 name = Some i" "disk_file h (file_bytes_of ?u1 i) st" using assms by (simp_all add: disk_opened_def)
  from open_disk_existing [OF fd' this] closed show ?thesis by blast
qed

section \<open>Refinement\<close>

text \<open>
  C19. The UNIX file behind the disk implements the array of sectors. Requests of any number go through
  the file as they go through the array, with the same data read and the same failed assertions, and when the
  simulator closes the disk and starts again with the file, the magic number is accepted and the sectors are those
  that were written.
\<close>

theorem disk_file_refines_sectors:
  assumes "disk_opened h name i u fd st"
  shows "(case requests_to_sectors rs st of
     Inl e \<Rightarrow> requests_to_file rs fd u = Inl e
   | Inr (out, st') \<Rightarrow>
       \<exists>u1 u2 fd' u3. requests_to_file rs fd u = Inr (out, u1) \<and> close_disk fd u1 = Inr u2 \<and>
         open_disk h name u2 = Inr (fd', u3) \<and> disk_opened h name i u3 fd' st')"
proof (cases "requests_to_sectors rs st")
  case (Inl e)
  then show ?thesis using requests_agree [OF assms, of rs] by simp
next
  case (Inr r)
  then obtain out st' where r: "requests_to_sectors rs st = Inr (out, st')" by (cases r) auto
  then obtain u1 where "requests_to_file rs fd u = Inr (out, u1)" "disk_opened h name i u1 fd st'"
    using requests_agree [OF assms, of rs] by auto
  with reopened [OF this(2)] show ?thesis unfolding r by auto
qed

definition empty_host :: unix where
  "empty_host =
    \<lparr>named = (\<lambda>_. None), file_bytes_of = (\<lambda>_. []), next_file = 0, descriptors = (\<lambda>_. None)\<rparr>"

definition sample_requests :: "file_request list" where
  "sample_requests = [Put 3 (replicate 128 7), Get 3, Get 4]"

lemma sample_sectors_read:
  "requests_to_sectors sample_requests (\<lambda>_. replicate SectorSize 0) =
    Inr ([replicate 128 7, replicate 128 0], (\<lambda>_. replicate SectorSize 0)(3 := replicate 128 7))"
  by (simp add: sample_requests_def ReadSector_def WriteSector_def NumSectors_def SectorsPerTrack_def NumTracks_def SectorSize_def)

lemma disk_file_refines_sectors_witness:
  "\<exists>fd u u1 u2 fd' u3 u4. open_disk \<lparr>HOST_IS_BIG_ENDIAN = False, char_signed = True\<rparr> ''DISK'' empty_host = Inr (fd, u) \<and>
    requests_to_file sample_requests fd u = Inr ([replicate 128 7, replicate 128 0], u1) \<and> close_disk fd u1 = Inr u2 \<and>
    open_disk \<lparr>HOST_IS_BIG_ENDIAN = False, char_signed = True\<rparr> ''DISK'' u2 = Inr (fd', u3) \<and>
    transfer_in fd' 3 u3 = Inr (replicate 128 7, u4)"
proof -
  let ?h = "\<lparr>HOST_IS_BIG_ENDIAN = False, char_signed = True\<rparr>" and ?st = "(\<lambda>_. replicate SectorSize 0) :: store"
  have "free_descriptor empty_host = Some 0" by (simp add: free_descriptor_def empty_host_def upto.simps)
  moreover have "named empty_host ''DISK'' = None" by (simp add: empty_host_def)
  ultimately obtain u where u: "open_disk ?h ''DISK'' empty_host = Inr (0, u)"
    "disk_opened ?h ''DISK'' (next_file empty_host) u 0 ?st" using open_disk_new by blast
  from disk_file_refines_sectors [OF u(2), of sample_requests] obtain u1 u2 fd' u3
    where r: "requests_to_file sample_requests 0 u = Inr ([replicate 128 7, replicate 128 0], u1)" "close_disk 0 u1 = Inr u2"
      "open_disk ?h ''DISK'' u2 = Inr (fd', u3)"
      "disk_opened ?h ''DISK'' (next_file empty_host) u3 fd' (?st(3 := replicate 128 7))"
    unfolding sample_sectors_read by auto
  have "ReadSector 3 (?st(3 := replicate 128 7)) = Inr (replicate 128 7)"
    by (simp add: ReadSector_def NumSectors_def SectorsPerTrack_def NumTracks_def)
  then obtain u4 where "transfer_in fd' 3 u3 = Inr (replicate 128 7, u4)"
    using transfer_in_reads [OF r(4), of 3] by auto
  with u(1) r(1-3) show ?thesis by blast
qed

end
