(* ===== verification/Stub_Files.thy ===== *)
theory Stub_Files
  imports Host_Files
begin

text \<open>
  The file system as the simulator has it before the real one is built (\<^verbatim>\<open>FILESYS_STUB\<close> in \<^verbatim>\<open>filesys/filesys.h\<close>
  and \<^verbatim>\<open>filesys/openfile.h\<close>): files are UNIX files. An open file is an array of bytes that grows when bytes
  are written beyond its end; the real file system does not do that.
\<close>

section \<open>The stub\<close>

definition stub_Create :: "string \<Rightarrow> unix \<Rightarrow> (bool \<times> unix) res" where
  "stub_Create name u =
    and_then (OpenForWrite name u) (\<lambda>(fileDescriptor, u).
    if fileDescriptor = - 1 then Inr (False, u)
    else and_then (sys_Close fileDescriptor u) (\<lambda>u. Inr (True, u)))"

record stub_file =
  stub_fd :: int
  currentOffset :: int

definition stub_Open :: "string \<Rightarrow> unix \<Rightarrow> (stub_file option \<times> unix) res" where
  "stub_Open name u =
    and_then (OpenForReadWrite name False u) (\<lambda>(fileDescriptor, u).
    if fileDescriptor = - 1 then Inr (None, u)
    else Inr (Some \<lparr>stub_fd = fileDescriptor, currentOffset = 0\<rparr>, u))"

definition stub_Remove :: "string \<Rightarrow> unix \<Rightarrow> bool \<times> unix" where
  "stub_Remove name u = (let (failed, u) = Unlink name u in (\<not> failed, u))"

definition stub_delete :: "stub_file \<Rightarrow> unix \<Rightarrow> unix res" where
  "stub_delete f u = sys_Close (stub_fd f) u"

definition stub_ReadAt :: "int \<Rightarrow> int \<Rightarrow> stub_file \<Rightarrow> unix \<Rightarrow> (int \<times> byte list \<times> unix) res" where
  "stub_ReadAt numBytes position f u =
    and_then (Lseek (stub_fd f) position 0 u) (\<lambda>u. Inr (ReadPartial (stub_fd f) numBytes u))"

definition stub_WriteAt :: "byte list \<Rightarrow> int \<Rightarrow> int \<Rightarrow> stub_file \<Rightarrow> unix \<Rightarrow> (int \<times> unix) res" where
  "stub_WriteAt from numBytes position f u =
    and_then (Lseek (stub_fd f) position 0 u) (\<lambda>u.
    and_then (WriteFile (stub_fd f) from numBytes u) (\<lambda>u. Inr (numBytes, u)))"

definition stub_Read :: "int \<Rightarrow> stub_file \<Rightarrow> unix \<Rightarrow> (int \<times> byte list \<times> stub_file \<times> unix) res" where
  "stub_Read numBytes f u =
    and_then (stub_ReadAt numBytes (currentOffset f) f u) (\<lambda>(numRead, bs, u).
    Inr (numRead, bs, f\<lparr>currentOffset := currentOffset f + numRead\<rparr>, u))"

definition stub_Write :: "byte list \<Rightarrow> int \<Rightarrow> stub_file \<Rightarrow> unix \<Rightarrow> (int \<times> stub_file \<times> unix) res" where
  "stub_Write from numBytes f u =
    and_then (stub_WriteAt from numBytes (currentOffset f) f u) (\<lambda>(numWritten, u).
    Inr (numWritten, f\<lparr>currentOffset := currentOffset f + numWritten\<rparr>, u))"

definition stub_Length :: "stub_file \<Rightarrow> unix \<Rightarrow> (int \<times> unix) res" where
  "stub_Length f u = and_then (Lseek (stub_fd f) 0 2 u) (\<lambda>u. Inr (Tell (stub_fd f) u, u))"

section \<open>An open file is an array of bytes\<close>

text \<open>The file is open and has these bytes.\<close>

definition stub_holds :: "unix \<Rightarrow> stub_file \<Rightarrow> byte list \<Rightarrow> bool" where
  "stub_holds u f bs \<longleftrightarrow> (\<exists>i. opened_on u (stub_fd f) i \<and> file_bytes_of u i = bs)"

lemma stub_ReadAt_holds:
  assumes "stub_holds u f bs" and "0 \<le> position" and "0 \<le> numBytes"
  shows "\<exists>u'. stub_ReadAt numBytes position f u =
      Inr (int (length (take (nat numBytes) (drop (nat position) bs))), take (nat numBytes) (drop (nat position) bs), u') \<and>
    stub_holds u' f bs"
  using assms read_after_seek [OF _ assms(2,3)] unfolding stub_holds_def stub_ReadAt_def by metis

lemma stub_WriteAt_holds:
  assumes "stub_holds u f bs" and "0 \<le> position"
  shows "\<exists>u'. stub_WriteAt data (int (length data)) position f u = Inr (int (length data), u') \<and>
    stub_holds u' f (overwrite (nat position) data bs)"
proof -
  from assms(1) obtain i where i: "opened_on u (stub_fd f) i" "file_bytes_of u i = bs" by (auto simp: stub_holds_def)
  obtain u' where u': "and_then (Lseek (stub_fd f) position 0 u) (WriteFile (stub_fd f) data (int (length data))) = Inr u'"
    "opened_on u' (stub_fd f) i" "file_bytes_of u' i = overwrite (nat position) data bs"
    using write_after_seek [OF i(1) assms(2), of data] i(2) by auto
  then have "stub_WriteAt data (int (length data)) position f u = Inr (int (length data), u')"
    by (cases "Lseek (stub_fd f) position 0 u") (auto simp: stub_WriteAt_def)
  with u'(2,3) show ?thesis by (auto simp: stub_holds_def)
qed

text \<open>What is written is read back, and the bytes that were there before stay around it.\<close>

lemma stub_write_then_read:
  assumes "stub_holds u f bs" and "0 \<le> position"
  shows "\<exists>u1 u2. stub_WriteAt data (int (length data)) position f u = Inr (int (length data), u1) \<and>
    stub_ReadAt (int (length data)) position f u1 = Inr (int (length data), data, u2)"
proof -
  obtain u1 where u1: "stub_WriteAt data (int (length data)) position f u = Inr (int (length data), u1)"
    "stub_holds u1 f (overwrite (nat position) data bs)"
    using stub_WriteAt_holds [OF assms] by blast
  have "take (length data) (drop (nat position) (overwrite (nat position) data bs)) = data"
    by (rule nth_equalityI) (auto simp: overwrite_def nth_append min_def)
  then show ?thesis using u1(1) stub_ReadAt_holds [OF u1(2) assms(2), of "int (length data)"] by auto
qed

lemma stub_Length_holds:
  assumes "stub_holds u f bs"
  shows "\<exists>u'. stub_Length f u = Inr (int (length bs), u') \<and> stub_holds u' f bs"
  using assms by (auto simp: stub_holds_def stub_Length_def Lseek_def u_lseek_def Tell_def opened_on_def)

text \<open>A file that is created can be opened, empty; one that is removed cannot.\<close>

lemma stub_Create_then_Open:
  assumes "free_descriptor u = Some fd"
  shows "\<exists>u1 f u2. stub_Create name u = Inr (True, u1) \<and> stub_Open name u1 = Inr (Some f, u2) \<and> stub_holds u2 f []"
proof -
  have fd: "0 \<le> fd" "fd \<le> 1023" "descriptors u fd = None" using assms by (auto simp: free_descriptor_def find_Some_iff)
  obtain u1 i where u1: "u_open True name u = (fd, u1)" "named u1 name = Some i" "file_bytes_of u1 i = []"
    "descriptors u1 fd = Some (i, 0)"
    using assms by (cases "named u name") (auto simp: u_open_def Let_def)
  let ?u2 = "u1\<lparr>descriptors := (descriptors u1)(fd := None)\<rparr>"
  have created: "stub_Create name u = Inr (True, ?u2)"
    using u1 fd by (simp add: stub_Create_def OpenForWrite_def sys_Close_def u_close_def)
  obtain fd' where fd': "free_descriptor ?u2 = Some fd'" "0 \<le> fd'"
    using free_descriptor_found [of ?u2 fd] fd by auto
  then show ?thesis using created u1
    by (auto simp: stub_Open_def OpenForReadWrite_def u_open_def stub_holds_def opened_on_def)
qed

lemma stub_Remove_then_Open:
  assumes "stub_Remove name u = (True, u1)"
  shows "stub_Open name u1 = Inr (None, u1)"
  using assms
  by (auto simp: stub_Remove_def Unlink_def u_unlink_def stub_Open_def OpenForReadWrite_def u_open_def
      split: if_splits option.split)

end
