(* ===== verification/Host_Sockets.thy ===== *)
theory Host_Sockets
  imports Network_Device Host_Files Text_Output
begin

text \<open>
  The sockets under the network (\<^verbatim>\<open>machine/sysdep.cc\<close>, \<^verbatim>\<open>machine/network.cc\<close>): each simulator binds a socket to a
  file name made of its address, and packets go to the name of the machine they are for. UNIX keeps the packets of a
  socket in order and loses none. The host has sockets for all who ask.
\<close>

record host_sockets =
  bound_to :: "string \<Rightarrow> nat option"
  waiting :: "nat \<Rightarrow> byte list list"
  next_socket :: nat

section \<open>The routines\<close>

definition OpenSocket :: "host_sockets \<Rightarrow> nat \<times> host_sockets" where
  "OpenSocket u =
    (next_socket u, u\<lparr>waiting := (waiting u)(next_socket u := []), next_socket := Suc (next_socket u)\<rparr>)"

text \<open>\<^verbatim>\<open>strcpy\<close> into the 108 characters of \<^verbatim>\<open>sun_path\<close>.\<close>

definition InitSocketName :: "string \<Rightarrow> string res" where
  "InitSocketName name = (if length name < 108 then Inr name else Inl OutOfBounds)"

definition AssignNameToSocket :: "string \<Rightarrow> nat \<Rightarrow> host_sockets \<Rightarrow> host_sockets res" where
  "AssignNameToSocket socketName sockID u =
    (let u = u\<lparr>bound_to := (bound_to u)(socketName := None)\<rparr>
     in and_then (InitSocketName socketName) (\<lambda>uName.
        and_then (assert_that (bound_to u uName = None)) (\<lambda>_.
        Inr (u\<lparr>bound_to := (bound_to u)(uName := Some sockID)\<rparr>))))"

text \<open>What a closed socket still had is gone.\<close>

definition CloseSocket :: "nat \<Rightarrow> host_sockets \<Rightarrow> host_sockets" where
  "CloseSocket sockID u = u\<lparr>waiting := (waiting u)(sockID := [])\<rparr>"

definition DeAssignNameToSocket :: "string \<Rightarrow> host_sockets \<Rightarrow> host_sockets" where
  "DeAssignNameToSocket socketName u = u\<lparr>bound_to := (bound_to u)(socketName := None)\<rparr>"

definition PollSocket :: "MachineStatus \<Rightarrow> nat \<Rightarrow> host_sockets \<Rightarrow> bool res" where
  "PollSocket mstat sockID u = PollFile (\<lambda>_. if waiting u sockID = [] then 0 else 1) mstat"

lemma PollSocket_waiting: "PollSocket mstat sockID u = Inr (waiting u sockID \<noteq> [])"
  by (simp add: PollSocket_def PollFile_def Let_def)

text \<open>A read from an empty socket waits; a longer packet is cut off.\<close>

definition ReadFromSocket :: "nat \<Rightarrow> nat \<Rightarrow> host_sockets \<Rightarrow> (byte list \<times> host_sockets) res" where
  "ReadFromSocket sockID packetSize u =
    (case waiting u sockID of
       [] \<Rightarrow> Inl NoReturn
     | p # ps \<Rightarrow>
         and_then (assert_that (length (take packetSize p) = packetSize)) (\<lambda>_.
         Inr (take packetSize p, u\<lparr>waiting := (waiting u)(sockID := ps)\<rparr>)))"

definition SendToSocket :: "byte list \<Rightarrow> nat \<Rightarrow> string \<Rightarrow> host_sockets \<Rightarrow> host_sockets res" where
  "SendToSocket buffer packetSize toName u =
    and_then (InitSocketName toName) (\<lambda>uName.
    case bound_to u uName of
      None \<Rightarrow> Inl AssertionFailed
    | Some sock \<Rightarrow>
        if length buffer < packetSize then Inl OutOfBounds
        else Inr (u\<lparr>waiting := (waiting u)(sock := waiting u sock @ [take packetSize buffer])\<rparr>))"

section \<open>The network of a machine\<close>

definition socket_name :: "c_int \<Rightarrow> string" where
  "socket_name addr = ''SOCKET_'' @ decimal (sint addr)"

text \<open>The socket in \<^verbatim>\<open>Network::Network\<close> and in its destructor.\<close>

definition open_network :: "c_int \<Rightarrow> host_sockets \<Rightarrow> (nat \<times> host_sockets) res" where
  "open_network addr u =
    (let (sock, u) = OpenSocket u in and_then (AssignNameToSocket (socket_name addr) sock u) (\<lambda>u. Inr (sock, u)))"

definition close_network :: "nat \<Rightarrow> c_int \<Rightarrow> host_sockets \<Rightarrow> host_sockets" where
  "close_network sock addr u = DeAssignNameToSocket (socket_name addr) (CloseSocket sock u)"

text \<open>The packet that \<open>CheckPktAvail\<close> takes from the socket, and the one that \<open>Send\<close> hands to it.\<close>

definition packet_bytes :: "(nat \<Rightarrow> byte) \<Rightarrow> byte list" where
  "packet_bytes buffer = List.map buffer [0..<MaxWireSize]"

definition poll_network :: "MachineStatus \<Rightarrow> nat \<Rightarrow> host_sockets \<Rightarrow> ((nat \<Rightarrow> byte) option \<times> host_sockets) res" where
  "poll_network mstat sock u =
    and_then (PollSocket mstat sock u) (\<lambda>ready.
    if ready then and_then (ReadFromSocket sock MaxWireSize u) (\<lambda>(buffer, u). Inr (Some ((!) buffer), u))
    else Inr (None, u))"

definition put_on_wire :: "c_int \<times> (nat \<Rightarrow> byte) \<Rightarrow> host_sockets \<Rightarrow> host_sockets res" where
  "put_on_wire p u = SendToSocket (packet_bytes (snd p)) MaxWireSize (socket_name (fst p)) u"

primrec put_all :: "(c_int \<times> (nat \<Rightarrow> byte)) list \<Rightarrow> host_sockets \<Rightarrow> host_sockets res" where
  "put_all [] u = Inr u"
| "put_all (p # ps) u = and_then (put_on_wire p u) (put_all ps)"

section \<open>Names\<close>

text \<open>Different machines have different names: the digits give the number back.\<close>

definition digit_value :: "char \<Rightarrow> nat" where
  "digit_value c = of_char c - 48"

definition number_of :: "string \<Rightarrow> nat" where
  "number_of s = fold (\<lambda>c n. 10 * n + digit_value c) s 0"

lemma digit_value_digit: "n < 10 \<Longrightarrow> digit_value (hex_digit n) = n \<and> hex_digit n \<noteq> CHR ''-''"
proof -
  have "list_all (\<lambda>n. digit_value (hex_digit n) = n \<and> hex_digit n \<noteq> CHR ''-'') [0..<10]" by code_simp
  then show "n < 10 \<Longrightarrow> ?thesis" by (simp add: list_all_iff)
qed

lemma number_of_digits: "number_of (digits n) = n"
proof (induction n rule: digits.induct)
  case (1 n)
  show ?case
  proof (cases "n < 10")
    case True
    then show ?thesis using digit_value_digit [of n] by (simp add: digits.simps [of n] number_of_def)
  next
    case False
    then show ?thesis using 1 digit_value_digit [of "n mod 10"]
      by (simp add: digits.simps [of n] number_of_def)
  qed
qed

lemma digits_start: "digits n \<noteq> CHR ''-'' # s"
proof (induction n arbitrary: s rule: digits.induct)
  case (1 n)
  show ?case
  proof (cases "n < 10")
    case True
    then show ?thesis using digit_value_digit [of n] by (simp add: digits.simps [of n])
  next
    case False
    then show ?thesis using 1 digits_nonempty [of "n div 10"]
      by (cases "digits (n div 10)") (auto simp: digits.simps [of n])
  qed
qed

lemma decimal_inject: "decimal a = decimal b \<longleftrightarrow> a = b"
proof -
  have "digits m = digits n \<longleftrightarrow> m = n" for m n using number_of_digits by metis
  moreover have "digits n \<noteq> CHR ''-'' # s" "CHR ''-'' # s \<noteq> digits n" for n s using digits_start by metis+
  ultimately show ?thesis by (auto simp: decimal_def)
qed

lemma socket_name_inject: "socket_name a = socket_name b \<longleftrightarrow> a = b"
  by (auto simp: socket_name_def decimal_inject intro: signed_word_eqI)

lemma length_digits: "n < 10 ^ Suc k \<Longrightarrow> length (digits n) \<le> Suc k"
proof (induction k arbitrary: n)
  case 0
  then show ?case by (subst digits.simps) simp
next
  case (Suc k)
  then have "n div 10 < 10 ^ Suc k" by (simp add: less_mult_imp_div_less)
  then show ?case using Suc.IH [of "n div 10"] by (simp add: digits.simps [of n])
qed

lemma socket_name_fits: "InitSocketName (socket_name a) = Inr (socket_name a)" "length (socket_name a) < 32"
proof -
  have "- (2 ^ 31) \<le> sint a" "sint a < 2 ^ 31" using sint_greater_eq [of a] sint_less [of a] by simp_all
  then have "nat (sint a) < 10 ^ Suc 9" "nat (- sint a) < 10 ^ Suc 9" by simp_all
  then have "length (digits (nat (sint a))) \<le> Suc 9" "length (digits (nat (- sint a))) \<le> Suc 9"
    by (simp_all only: length_digits)
  then show "length (socket_name a) < 32" by (simp add: socket_name_def decimal_def)
  then show "InitSocketName (socket_name a) = Inr (socket_name a)" by (simp add: InitSocketName_def)
qed

section \<open>Packets arrive in order where they are sent\<close>

text \<open>The machines \<open>sock\<close> is defined on have their sockets bound to their names.\<close>

definition machines_up :: "(c_int \<Rightarrow> nat option) \<Rightarrow> host_sockets \<Rightarrow> bool" where
  "machines_up sock u \<longleftrightarrow>
    (\<forall>a k. sock a = Some k \<longrightarrow> bound_to u (socket_name a) = Some k \<and> k < next_socket u) \<and>
    (\<forall>a b k. sock a = Some k \<and> sock b = Some k \<longrightarrow> a = b)"

lemma open_network_up:
  assumes "machines_up sock u"
  shows "\<exists>u'. open_network a u = Inr (next_socket u, u') \<and> machines_up (sock(a := Some (next_socket u))) u' \<and>
    waiting u' = (waiting u)(next_socket u := [])"
  using assms socket_name_fits [of a]
  by (auto simp: open_network_def OpenSocket_def AssignNameToSocket_def machines_up_def socket_name_inject Let_def)
    (force simp: less_Suc_eq)+

lemma put_on_wire_up:
  assumes "machines_up sock u" and "sock a = Some k"
  shows "\<exists>u'. put_on_wire (a, buffer) u = Inr u' \<and> machines_up sock u' \<and>
    waiting u' = (waiting u)(k := waiting u k @ [packet_bytes buffer])"
  using assms socket_name_fits [of a]
  by (auto simp: put_on_wire_def SendToSocket_def machines_up_def packet_bytes_def)

text \<open>
  So after the packets of a wire have been sent, the socket of each machine has those for it, in their order, and
  polling takes the first.
\<close>

lemma put_all_waiting:
  "\<lbrakk>machines_up sock u; \<And>p. p \<in> set ps \<Longrightarrow> sock (fst p) \<noteq> None\<rbrakk> \<Longrightarrow>
    \<exists>u'. put_all ps u = Inr u' \<and> machines_up sock u' \<and>
      (\<forall>a k. sock a = Some k \<longrightarrow>
        waiting u' k = waiting u k @ List.map (\<lambda>p. packet_bytes (snd p)) (filter (\<lambda>p. fst p = a) ps))"
proof (induction ps arbitrary: u)
  case Nil
  then show ?case by simp
next
  case (Cons p ps)
  obtain a buffer where p: "p = (a, buffer)" by (cases p)
  obtain k where k: "sock a = Some k" using Cons.prems(2) [of p] p by auto
  obtain u1 where u1: "put_on_wire p u = Inr u1" "machines_up sock u1"
    "waiting u1 = (waiting u)(k := waiting u k @ [packet_bytes buffer])"
    using put_on_wire_up [OF Cons.prems(1) k] p by blast
  obtain u' where u': "put_all ps u1 = Inr u'" "machines_up sock u'"
    "\<forall>b j. sock b = Some j \<longrightarrow>
      waiting u' j = waiting u1 j @ List.map (\<lambda>p. packet_bytes (snd p)) (filter (\<lambda>p. fst p = b) ps)"
    using Cons.IH [OF u1(2)] Cons.prems(2) by auto
  have "b = a \<longleftrightarrow> j = k" if "sock b = Some j" for b j
    using that k Cons.prems(1) unfolding machines_up_def by (metis option.inject)
  then show ?case using u1 u' p by auto
qed

lemma poll_network_first:
  assumes "waiting u k = packet_bytes buffer # ps"
  shows "\<exists>b u'. poll_network mstat k u = Inr (Some b, u') \<and> (\<forall>i<MaxWireSize. b i = buffer i) \<and> waiting u' k = ps"
  using assms by (simp add: poll_network_def PollSocket_waiting ReadFromSocket_def packet_bytes_def)

text \<open>The packet that \<open>Send\<close> builds comes out of the socket of the machine it is for with its header and its bytes.\<close>

lemma same_packet:
  assumes "\<forall>i<MaxWireSize. b i = buffer i"
  shows "get_header h b = get_header h buffer"
    and "n \<le> MaxPacketSize \<Longrightarrow> copy_out b sizeof_PacketHeader n = copy_out buffer sizeof_PacketHeader n"
  using assms
  by (auto simp: get_header_def load_word_def copy_out_def MaxWireSize_def MaxPacketSize_def sizeof_PacketHeader_def)

lemma packet_through_socket:
  assumes "machines_up sock u" and "sock (to_addr hdr) = Some k" and "waiting u k = []"
    and "n \<le> MaxPacketSize" and "n \<le> length data"
  shows "\<exists>u1 b u2. put_on_wire (to_addr hdr, copy_in data n sizeof_PacketHeader (put_header h hdr fresh)) u = Inr u1 \<and>
    poll_network mstat k u1 = Inr (Some b, u2) \<and> get_header h b = hdr \<and> copy_out b sizeof_PacketHeader n = take n data \<and>
    poll_network mstat k u2 = Inr (None, u2)"
proof -
  let ?buffer = "copy_in data n sizeof_PacketHeader (put_header h hdr fresh)"
  obtain u1 where u1: "put_on_wire (to_addr hdr, ?buffer) u = Inr u1" "waiting u1 k = packet_bytes ?buffer # []"
    using put_on_wire_up [OF assms(1,2), of ?buffer] assms(3) by auto
  obtain b u2 where u2: "poll_network mstat k u1 = Inr (Some b, u2)" "\<forall>i<MaxWireSize. b i = ?buffer i" "waiting u2 k = []"
    using poll_network_first [OF u1(2)] by blast
  have "get_header h b = hdr" "copy_out b sizeof_PacketHeader n = take n data"
    using same_packet [OF u2(2)] assms(4,5) by (simp_all add: get_header_packet copy_out_in)
  then show ?thesis using u1(1) u2 by (auto simp: poll_network_def PollSocket_waiting)
qed

end
