(* ===== verification/Host_Console.thy ===== *)
theory Host_Console
  imports Char_Devices Host_Files
begin

text \<open>
  The files of the console (\<^verbatim>\<open>machine/console.cc\<close>): the keyboard is a file that is read byte by byte, the display
  one that is written. What polling finds is the argument of \<open>CheckCharAvail\<close>.
\<close>

text \<open>Without names they are the descriptors 0 and 1 of the simulator's process.\<close>

definition open_console :: "string option \<Rightarrow> string option \<Rightarrow> unix \<Rightarrow> (int \<times> int \<times> unix) res" where
  "open_console readFile writeFile u =
    and_then (case readFile of None \<Rightarrow> Inr (0, u) | Some name \<Rightarrow> OpenForReadWrite name True u) (\<lambda>(readFileNo, u).
    and_then (case writeFile of None \<Rightarrow> Inr (1, u) | Some name \<Rightarrow> OpenForWrite name u) (\<lambda>(writeFileNo, u).
    Inr (readFileNo, writeFileNo, u)))"

definition close_console :: "int \<Rightarrow> int \<Rightarrow> unix \<Rightarrow> unix res" where
  "close_console readFileNo writeFileNo u =
    and_then (if readFileNo \<noteq> 0 then sys_Close readFileNo u else Inr u) (\<lambda>u.
    if writeFileNo \<noteq> 1 then sys_Close writeFileNo u else Inr u)"

definition poll_keyboard :: "(int \<Rightarrow> int) \<Rightarrow> MachineStatus \<Rightarrow> int \<Rightarrow> unix \<Rightarrow> (keyboard \<times> unix) res" where
  "poll_keyboard select mstat readFileNo u =
    and_then (PollFile select mstat) (\<lambda>ready.
    if \<not> ready then Inr (NoInput, u)
    else
      (let (n, bs, u) = ReadPartial readFileNo 1 u
       in Inr (if n = 1 then Typed (hd bs) else NoCharacter, u)))"

definition show_char :: "int \<Rightarrow> byte \<Rightarrow> unix \<Rightarrow> unix res" where
  "show_char writeFileNo ch u = WriteFile writeFileNo [ch] 1 u"

section \<open>A file as keyboard and as display\<close>

primrec poll_keys :: "nat \<Rightarrow> (int \<Rightarrow> int) \<Rightarrow> MachineStatus \<Rightarrow> int \<Rightarrow> unix \<Rightarrow> (keyboard list \<times> unix) res" where
  "poll_keys 0 select mstat fd u = Inr ([], u)"
| "poll_keys (Suc n) select mstat fd u =
    and_then (poll_keyboard select mstat fd u) (\<lambda>(key, u).
    and_then (poll_keys n select mstat fd u) (\<lambda>(keys, u). Inr (key # keys, u)))"

text \<open>
  A file is always ready: its bytes are typed one after the other, and then every poll finds it ready without a
  character.
\<close>

lemma poll_keys_file:
  assumes "descriptors u fd = Some (i, pos)" and "pos \<le> length (file_bytes_of u i)"
  shows "\<exists>u'. poll_keys n (\<lambda>_. 1) mstat fd u =
    Inr (take n (List.map Typed (drop pos (file_bytes_of u i)) @ replicate n NoCharacter), u')"
  using assms
proof (induction n arbitrary: u pos)
  case 0
  then show ?case by simp
next
  case (Suc n)
  let ?bs = "drop pos (file_bytes_of u i)"
  let ?u = "u\<lparr>descriptors := (descriptors u)(fd := Some (i, pos + length (take 1 ?bs)))\<rparr>"
  have key: "poll_keyboard (\<lambda>_. 1) mstat fd u = Inr (if ?bs = [] then NoCharacter else Typed (hd ?bs), ?u)"
  proof (cases ?bs)
    case Nil
    then show ?thesis using Suc.prems by (simp add: poll_keyboard_def PollFile_def ReadPartial_def u_read_def Let_def)
  next
    case (Cons c cs)
    then have "length (take 1 ?bs) = 1" by simp
    with Cons show ?thesis using Suc.prems
      by (simp add: poll_keyboard_def PollFile_def ReadPartial_def u_read_def Let_def del: length_take length_drop)
  qed
  have rest: "drop (pos + length (take 1 ?bs)) (file_bytes_of u i) = tl ?bs"
    by (cases ?bs) (auto simp: drop_Suc simp flip: tl_drop)
  have "pos + length (take 1 ?bs) \<le> length (file_bytes_of ?u i)" using Suc.prems(2) by auto
  from Suc.IH [OF _ this] obtain u' where "poll_keys n (\<lambda>_. 1) mstat fd ?u =
      Inr (take n (List.map Typed (tl ?bs) @ replicate n NoCharacter), u')"
    using rest by auto
  moreover have "take j (NoCharacter # replicate n NoCharacter) = replicate j NoCharacter" if "j \<le> n" for j
    using that by (simp flip: replicate_Suc)
  ultimately show ?case using key by (cases ?bs) auto
qed

primrec show_chars :: "int \<Rightarrow> byte list \<Rightarrow> unix \<Rightarrow> unix res" where
  "show_chars fd [] u = Inr u"
| "show_chars fd (c # cs) u = and_then (show_char fd c u) (show_chars fd cs)"

text \<open>The file of the display holds what was shown.\<close>

lemma show_chars_file:
  assumes "descriptors u fd = Some (i, length (file_bytes_of u i))"
  shows "\<exists>u'. show_chars fd cs u = Inr u' \<and> file_bytes_of u' i = file_bytes_of u i @ cs \<and>
    descriptors u' fd = Some (i, length (file_bytes_of u' i))"
  using assms
proof (induction cs arbitrary: u)
  case Nil
  then show ?case by simp
next
  case (Cons c cs)
  let ?u = "u\<lparr>file_bytes_of := (file_bytes_of u)(i := file_bytes_of u i @ [c]),
      descriptors := (descriptors u)(fd := Some (i, Suc (length (file_bytes_of u i))))\<rparr>"
  have "show_char fd c u = Inr ?u"
    using Cons.prems by (simp add: show_char_def WriteFile_def u_write_def overwrite_def)
  moreover have "descriptors ?u fd = Some (i, length (file_bytes_of ?u i))" by simp
  from Cons.IH [OF this] obtain u' where "show_chars fd cs ?u = Inr u'" "file_bytes_of u' i = file_bytes_of u i @ c # cs"
    "descriptors u' fd = Some (i, length (file_bytes_of u' i))" by auto
  ultimately show ?case by auto
qed

end
