(* ===== verification/Spec2Isabelle.thy ===== *)
theory Spec2Isabelle
  imports Mips_Properties Interrupt_Properties Device_Properties Synch_Disk Fs_Properties Program_Properties Net_Properties Ring_Properties Channel_Properties
    Tool_Properties Disassembler_Names Interp_Main Object_Dump Coff_Flat Reports
    Host_Disk Stub_Files Host_Sockets Host_Console
begin

text \<open>
  A model of Nachos: the simulated MIPS machine and its devices (\<^verbatim>\<open>src/code/machine\<close>), the file system
  (\<^verbatim>\<open>src/code/filesys\<close>), the network layer (\<^verbatim>\<open>src/code/network\<close>) and the tools that prepare and
  interpret user programs (\<^verbatim>\<open>src/code/bin\<close>). The threads, the system calls and
  the bit map of the kernel are not in the repository; they are parameters.

  \<^bold>\<open>Conventions.\<close> An operation that may stop the program returns \<open>failure + result\<close>: a false
  \<^verbatim>\<open>ASSERT\<close>, an access outside an array, a division the host cannot do, a null pointer, control that
  does not come back. \<open>and_then\<close> sequences such operations (\<open>Nachos_Prelude\<close>). Machine words, bytes and
  addresses are words of their width; counters, ticks and sector numbers are integers, with the
  conversions of C written out (\<open>narrow\<close>). Classes are records; a method takes the record and returns
  it changed. What \<^verbatim>\<open>new\<close> leaves in memory, what \<^verbatim>\<open>Random\<close> returns, what is typed and what comes from
  the socket are arguments. Code outside the repository is a record of functions (\<open>kernel\<close>,
  \<open>list_ops\<close>, \<open>bitmap_ops\<close>, \<open>map_file_ops\<close>, \<open>utility\<close>, \<open>synch_ops\<close>, \<open>mail_queue_ops\<close>, \<open>post_env\<close>,
  \<open>tcp_env\<close>), and a predicate over it says what the code relies on (\<open>sorted_list\<close>, \<open>bitmap_ok\<close>,
  \<open>env_ok\<close>, \<open>synch_kernel_ok\<close>, \<open>queue_ok\<close> and so on); each is met by a concrete instance in the witnesses.

  \<^bold>\<open>The processor\<close> (\<^verbatim>\<open>mipssim.cc\<close>, \<^verbatim>\<open>machine.cc\<close>, \<^verbatim>\<open>translate.cc\<close>). \<open>Machine_State\<close> has the registers, the
  memory, the TLB or page table, the statistics and the state of the interrupt simulation; \<open>Mips_Isa\<close>
  the operation codes and \<open>Decode\<close>; \<open>Mips_Memory\<close> \<open>Translate\<close>, \<open>ReadMem\<close>, \<open>WriteMem\<close> and the delayed load;
  \<open>Mips_Mult\<close> the multiplier; \<open>Mips_Exec\<close> one definition for each case of \<^verbatim>\<open>OneInstruction\<close> and the step
  itself. \<open>Mips_Translation\<close> specifies the memory management unit and shows that \<open>Translate\<close>
  implements it. \<open>Mips_Invariants\<close> and \<open>Mips_Safety\<close> carry invariants through whole instructions, once
  for any invariant that the parts of an instruction keep; \<open>Mips_Semantics\<close> and \<open>Mips_Delay\<close> describe
  instructions by what they compute and when it becomes visible. \<open>Mips_Properties\<close> holds C1 to C12:
  what runs of any length keep, where a step can stop the simulator, protection of page frames,
  independence of the host, translation, memory, traps, arithmetic, delay slots, decoding.

  \<^bold>\<open>Interrupts and the main loop\<close> (\<^verbatim>\<open>interrupt.cc\<close>, \<^verbatim>\<open>Machine::Run\<close>). \<open>Interrupts\<close> has every operation of
  the class; the loop that delivers what is due is a partial function, and C14 proves that it ends.
  \<open>Interrupt_Clock\<close> is the same as a step relation with its accounting of time, \<open>Machine_Run\<close> the main
  loop as a number of iterations with the debugger's input as an argument. \<open>Interrupt_Properties\<close>
  holds C13 to C15.

  \<^bold>\<open>Devices\<close> (\<^verbatim>\<open>disk.cc\<close>, \<^verbatim>\<open>timer.cc\<close>, \<^verbatim>\<open>console.cc\<close>, \<^verbatim>\<open>network.cc\<close>). \<open>Device_Interface\<close> states the contract
  of a device that completes a request by an interrupt; \<open>Disk_Device\<close> and \<open>Char_Devices\<close> model the
  devices and show that they keep it, \<open>Network_Device\<close> models packets. \<open>Device_Properties\<close> holds C16 to
  C18 and C20: timing, contents, one completion for each request, the console.

  \<^bold>\<open>The host\<close> (\<^verbatim>\<open>sysdep.cc\<close>). \<open>Host_Files\<close> has UNIX files with names, descriptors and positions, the calls the
  simulator makes and its routines around them. Over them \<open>Host_Disk\<close> has the file behind the disk: C19 proves that
  it implements the array of sectors the device works on. \<open>Host_Console\<close> has the files of the console,
  \<open>Host_Sockets\<close> the sockets of the network, through which packets arrive in order at the machine they are for,
  \<open>Stub_Files\<close> the file system that is compiled before the real one is there.

  \<^bold>\<open>The file system\<close>. \<open>Fs_Store\<close> is the function from sectors to bytes that the file system works on.
  \<open>Synch_Disk\<close> (\<^verbatim>\<open>synchdisk.cc\<close>) reads and writes sectors through requests to the disk and waits on a
  semaphore: over a machine whose state holds the disk, the completion interrupt goes through the handlers
  \<^verbatim>\<open>DiskDone\<close>, \<^verbatim>\<open>HandleInterrupt\<close>, \<^verbatim>\<open>DiskRequestDone\<close> and \<^verbatim>\<open>RequestDone\<close>, and C21 proves that the wait ends and the
  whole implements the sectors. Of the kernel it assumes only that a semaphore counts, that a thread that
  finds it zero idles (no other thread is ready) and looks again, that a free lock is taken, and that other handlers
  leave the disk alone.
  \<open>Fs_Header\<close> and \<open>Fs_Alloc\<close> (\<^verbatim>\<open>filehdr.cc\<close>) are headers in their two modes and what allocation does.
  \<open>Fs_OpenFile\<close> (\<^verbatim>\<open>openfile.cc\<close>) reads and writes ranges of bytes; \<open>Fs_Layout\<close> proves once, for any way of
  finding the sectors of a file, that this is an array of bytes, and that both modes are such ways.
  \<open>Fs_Directory\<close> (\<^verbatim>\<open>directory.cc\<close>) is the table of names, shown to be a finite map. \<open>File_System\<close>
  (\<^verbatim>\<open>filesys.cc\<close>) has formatting, mounting, files and directories. \<open>Fs_Volume\<close> is the invariant of a
  volume (the free map and the current directory are stored in their files, on sectors of their
  own that are marked), \<open>Fs_Operations\<close> what the operations on files do to it and \<open>Fs_Subdirectories\<close>
  what those on directories do. \<open>Fs_Properties\<close> holds C22 to C29. A file has at most 960 sectors, 30
  sectors of a table with 32 entries each; this is the bound in the hypotheses of C23 and C27.

  \<^bold>\<open>The network layer\<close>. \<open>Post_Office\<close> (\<^verbatim>\<open>post.cc\<close>) has mail, boxes and the postal worker round by round,
  and \<open>Post_Delivery\<close> how a mail travels. \<open>Tcp_Channel\<close> (\<^verbatim>\<open>tcp.cc\<close>) has re-emission, acknowledgement and
  the catching of duplicates, \<open>Tcp_Service\<close> connections, strings and files. A wait of the code runs
  the rest of the system: it is a function of the whole state, which may deliver mail or stop the
  connection. \<open>Tcp_Line\<close> assumes of it only that it comes back with a working line, and bounds what
  is sent. The loops of the receiver may run forever, as long as mail arrives; they carry fuel, and
  running out is \<open>NoReturn\<close>. The loops of the sender need none: C31 proves that they end.
  \<open>Net_Properties\<close> holds C30 to C33, \<open>Net_Sample\<close> and \<open>Fs_Sample\<close> the kernels of the witnesses.

  \<^bold>\<open>The channel between machines\<close>. \<open>Channel_Programs\<close> has the same operations once more as programs
  that post, sleep and poll; each is shown to be the operation when one machine runs it, and several
  machines with their programs make the step relation \<open>channel_step\<close>, whose network may lose and
  delay mail. \<open>Channel_Exchange\<close> has the invariant of one exchange, \<open>Channel_Runs\<close> runs in which nothing
  is lost. \<open>Channel_Properties\<close> holds C34, what success means to both sides, and C35, how messages
  that start alike get lost.

  \<^bold>\<open>Programs over the network\<close> (\<^verbatim>\<open>nettest.cc\<close>, \<^verbatim>\<open>netringtest.cc\<close>). \<open>Mail_Programs\<close> has the two network tests
  as programs that send and receive, run by one machine over the post office, or by several as the
  step relation \<open>net_step\<close> with mails in transit. \<open>Mail_Network\<close> proves of any program that greets a
  neighbour and acknowledges that all machines halt in every interleaving; \<open>Ring_Properties\<close> shows that
  both tests are such programs, with C40 for the ring.

  \<^bold>\<open>Programs over the file system\<close> (\<^verbatim>\<open>fstest.cc\<close>). \<open>Fs_Programs\<close> has the routines that copy a UNIX
  file into the file system, print one, and measure: \<open>Copy\<close> bypasses the file and writes the sectors
  it finds in the table; \<open>Print\<close> reads through the open file. \<open>Program_Properties\<close> composes them with
  the file system: C36, what is copied is printed, and C37, what the performance test leaves behind.

  \<^bold>\<open>The tools\<close> (\<^verbatim>\<open>bin\<close>). \<open>Coff_Noff\<close> is the converter of object files (\<^verbatim>\<open>coff2noff.c\<close>) from the bytes of
  its input to those of its output, \<open>Coff_Layout\<close> what a run over the sections keeps. \<open>Mips_Interpreter\<close>
  is the older interpreter (\<^verbatim>\<open>execute.c\<close>, \<^verbatim>\<open>system.c\<close>, the loader of \<^verbatim>\<open>main.c\<close>), \<open>Mips_Agreement\<close> a
  simulation between it and the processor. They agree on the operations on registers, branches and
  jumps, with the exceptions that \<open>same_effect\<close> lists: traps and divisions the one or the other cannot do,
  logical immediates with the sign bit, products whose high word drops a carry in the interpreter
  (\<open>Mips_Carry\<close> has the exact condition), jumps in delay slots or out of their region, and \<open>JALR\<close>
  through the register it links. Its loop runs for a number of instructions, as that of
  the processor does, since a program need not end. \<open>Tool_Properties\<close> holds C38 and C39. The type
  \<^verbatim>\<open>long\<close> of the headers has the four bytes of the file format. \<open>Coff_Flat\<close> is the converter to flat
  files (\<^verbatim>\<open>coff2flat.c\<close>), \<open>Disassembler\<close> the program that shows instructions (\<^verbatim>\<open>d.c\<close>, \<^verbatim>\<open>opstrings.c\<close>,
  \<^verbatim>\<open>disasm.c\<close>); \<open>Disassembler_Names\<close> proves that it names what the simulator decodes, as does the trace.
  \<open>Interp_Main\<close> has the options of the interpreter, what it prints when it traces a program, without an
  effect on the run, and its counters. \<open>Object_Dump\<close> is the program that prints an object file (\<^verbatim>\<open>out.c\<close>):
  its printers are functions of the column, shown to follow the text and to end their lines. The formats of
  symbols and relocations are headers of the host's system and parameters.

  \<^bold>\<open>Output.\<close> Text is a string (\<open>Text_Output\<close>: the formats of \<^verbatim>\<open>printf\<close>). \<open>Mips_Trace\<close> is the debug trace of
  instructions (\<^verbatim>\<open>mipssim.h\<close>), \<open>Reports\<close> what \<^verbatim>\<open>DumpState\<close>, \<^verbatim>\<open>Print\<close>, \<^verbatim>\<open>List\<close> and the like print of registers,
  interrupts, statistics, sectors, mail, directories and files: the listing of a directory has the names
  in use, and the listing of a file ends with its bytes.

  \<^bold>\<open>Not modelled.\<close> The other debug messages and the progress bars, destructors,
  signals, delays, memory protection and random numbers of \<^verbatim>\<open>sysdep.cc\<close>, and the percentages of \<^verbatim>\<open>hprint\<close> in
  \<^verbatim>\<open>execute.c\<close>, which nothing calls; the programs of \<^verbatim>\<open>test\<close>, which are for the simulated machine.
\<close>

end
